(* ===== verification/Prelude.thy ===== *)
theory Prelude
  imports Complex_Main "HOL-Library.Char_ord" "HOL-Library.List_Lexorder" "HOL-Library.Sublist"
begin

text \<open>
  Shared vocabulary of the development: the theorem collections that carry the component
  proofs, and generic lemmas on lists and association lists that several components use.
  A Go \<^verbatim>\<open>map\<close> whose iteration order is never observed is an association list
  with distinct keys or a HOL map; a Go \<^verbatim>\<open>container/list\<close> is a HOL list whose head is
  \<^verbatim>\<open>Front()\<close> and whose last element is \<^verbatim>\<open>Back()\<close>.
\<close>

named_theorems go_strings \<open>defining equations of the Go string functions\<close>
named_theorems slot_simps \<open>what the slots of a rule trie hold after an operation\<close>
named_theorems limiter_simps \<open>effects of the rate limiter's primitive steps\<close>
named_theorems cache_simps \<open>effects of the response cache's primitive steps\<close>

section \<open>Lists\<close>

lemma filter_neq_distinct_map:
  "distinct (map f xs) \<Longrightarrow> distinct (map f (filter P xs))"
  by (induction xs) auto

lemma sorted_wrt_snoc:
  "sorted_wrt P (xs @ [x]) \<longleftrightarrow> sorted_wrt P xs \<and> (\<forall>y\<in>set xs. P y x)"
  by (simp add: sorted_wrt_append)

lemma length_filter_partition:
  "length (filter P xs) + length (filter (\<lambda>x. \<not> P x) xs) = length xs"
  by (induction xs) auto

lemma filter_key_distinct:
  "distinct (map f xs) \<Longrightarrow> x \<in> set xs \<Longrightarrow>
     length (filter (\<lambda>y. f y \<noteq> f x) xs) = length xs - 1"
proof (induction xs)
  case Nil
  then show ?case by simp
next
  case (Cons a xs)
  show ?case
  proof (cases "f a = f x")
    case True
    with Cons.prems have "f x \<notin> f ` set xs" by (metis distinct.simps(2) list.set_map list.simps(9))
    then have "filter (\<lambda>y. f y \<noteq> f x) xs = xs"
      unfolding filter_id_conv by (metis imageI)
    with True show ?thesis by simp
  next
    case False
    with Cons.prems have "x \<in> set xs" and "distinct (map f xs)" by auto
    with Cons.IH False show ?thesis
      by (cases xs) auto
  qed
qed

lemma map_fst_filter_key:
  "map fst (filter (\<lambda>p. fst p \<noteq> k) xs) = filter (\<lambda>a. a \<noteq> k) (map fst xs)"
  by (induction xs) auto

lemma map_of_filter_key:
  "map_of (filter (\<lambda>p. fst p \<noteq> k) xs) j = (if j = k then None else map_of xs j)"
  by (induction xs) auto

section \<open>Lexicographic order on labels\<close>

lemma sorted_wrt_less_nth_less:
  fixes xs :: "'a::linorder list"
  shows "sorted_wrt (<) xs \<Longrightarrow> i < j \<Longrightarrow> j < length xs \<Longrightarrow> xs ! i < xs ! j"
  by (rule sorted_wrt_nth_less)

end
