(* ===== verification/GoStrings.thy ===== *)
theory GoStrings
  imports Prelude
begin

text \<open>
  The functions of Go's standard \<^verbatim>\<open>strings\<close> package that the program calls, on byte strings.
  A Go string is a \<^typ>\<open>string\<close> (a list of bytes). Case mapping, white space and letters are the
  ASCII ones: on a byte of 128 or more \<^verbatim>\<open>ToLower\<close> is the identity, and such a byte is never a
  space, a letter or a digit. This is what the Go functions do on every ASCII string, which is what
  reaches them after IDNA conversion; Unicode case folding of raw UTF-8 input is not modelled.
\<close>

section \<open>Characters\<close>

definition byte :: "char \<Rightarrow> nat" where
  "byte c = of_char c"

definition lower_char :: "char \<Rightarrow> char" where
  "lower_char c = (if 65 \<le> byte c \<and> byte c \<le> 90 then char_of (byte c + 32) else c)"

definition is_space :: "char \<Rightarrow> bool" where
  "is_space c \<longleftrightarrow> byte c = 32 \<or> (9 \<le> byte c \<and> byte c \<le> 13)"

definition is_digit :: "char \<Rightarrow> bool" where
  "is_digit c \<longleftrightarrow> 48 \<le> byte c \<and> byte c \<le> 57"

definition is_letter :: "char \<Rightarrow> bool" where
  "is_letter c \<longleftrightarrow> (97 \<le> byte c \<and> byte c \<le> 122) \<or> (65 \<le> byte c \<and> byte c \<le> 90)"

lemma byte_char_of [simp]: "n < 256 \<Longrightarrow> byte (char_of n) = n"
  by (simp add: byte_def)

lemma byte_less_256 [simp]: "byte c < 256"
  by (simp add: byte_def)

lemma lower_char_idem [simp]: "lower_char (lower_char c) = lower_char c"
  by (simp add: lower_char_def)

lemma is_space_lower_char [simp]: "is_space (lower_char c) = is_space c"
  by (auto simp: lower_char_def is_space_def)

lemma lower_char_eq_not_letter:
  "\<not> (97 \<le> byte d \<and> byte d \<le> 122) \<Longrightarrow> \<not> (65 \<le> byte d \<and> byte d \<le> 90) \<Longrightarrow>
     lower_char c = d \<longleftrightarrow> c = d"
  by (auto simp: lower_char_def split: if_splits)

lemma lower_char_dot [simp]: "lower_char c = CHR ''.'' \<longleftrightarrow> c = CHR ''.''"
  by (rule lower_char_eq_not_letter) (simp_all add: byte_def)

subsection \<open>Evaluation\<close>

text \<open>
  Code equations on the bits of a character: they spare the evaluation of a witness the generic
  conversions between characters and numbers.
\<close>

definition octet :: "char \<Rightarrow> int" where
  "octet c = of_char c"

definition chr_int :: "int \<Rightarrow> char" where
  "chr_int n = char_of n"

definition chr :: "nat \<Rightarrow> char" where
  "chr n = char_of n"

lemma octet_byte: "octet c = int (byte c)"
  unfolding octet_def byte_def by (cases c) (simp add: of_char_def)

lemma octet_code [code]:
  "octet (Char b0 b1 b2 b3 b4 b5 b6 b7) =
     (if b0 then 1 else 0) + (if b1 then 2 else 0) + (if b2 then 4 else 0) + (if b3 then 8 else 0) +
     (if b4 then 16 else 0) + (if b5 then 32 else 0) + (if b6 then 64 else 0) + (if b7 then 128 else 0)"
  unfolding octet_def
  by (cases b0; cases b1; cases b2; cases b3; cases b4; cases b5; cases b6; cases b7; simp)

lemma byte_code [code]: "byte c = nat (octet c)"
  by (simp add: octet_byte)

lemma chr_int_code [code]:
  "chr_int n = Char (n mod 2 = 1) (n div 2 mod 2 = 1) (n div 4 mod 2 = 1) (n div 8 mod 2 = 1)
     (n div 16 mod 2 = 1) (n div 32 mod 2 = 1) (n div 64 mod 2 = 1) (n div 128 mod 2 = 1)"
  by (simp add: chr_int_def char_of_def bit_iff_odd odd_iff_mod_2_eq_one)

lemma chr_code [code]: "chr n = chr_int (int n)"
  by (simp add: chr_def chr_int_def)

lemmas char_conversion_code [code_unfold] =
  chr_def[symmetric] chr_int_def[symmetric] octet_def[symmetric] byte_def[symmetric]

lemma lower_char_code [code]:
  "lower_char (Char b0 b1 b2 b3 b4 b5 b6 b7) =
     (if \<not> b7 \<and> b6 \<and> \<not> b5 \<and> (b0 \<or> b1 \<or> b2 \<or> b3 \<or> b4) \<and> \<not> (b4 \<and> b3 \<and> (b2 \<or> b1 \<and> b0))
      then Char b0 b1 b2 b3 b4 True b6 b7 else Char b0 b1 b2 b3 b4 b5 b6 b7)"
  unfolding lower_char_def byte_def
  by (cases b0; cases b1; cases b2; cases b3; cases b4; cases b5; cases b6; cases b7;
      simp add: char_of_def bit_0)

lemma is_space_code [code]:
  "is_space (Char b0 b1 b2 b3 b4 b5 b6 b7) \<longleftrightarrow>
     \<not> b7 \<and> \<not> b6 \<and> \<not> b4 \<and>
     (if b5 then \<not> b3 \<and> \<not> b2 \<and> \<not> b1 \<and> \<not> b0 else b3 \<and> (b2 \<longrightarrow> \<not> b1) \<and> (b2 \<or> b1 \<or> b0))"
  unfolding is_space_def byte_def
  by (cases b0; cases b1; cases b2; cases b3; cases b4; cases b5; cases b6; cases b7; simp)

lemma is_digit_code [code]:
  "is_digit (Char b0 b1 b2 b3 b4 b5 b6 b7) \<longleftrightarrow> \<not> b7 \<and> \<not> b6 \<and> b5 \<and> b4 \<and> \<not> (b3 \<and> (b2 \<or> b1))"
  unfolding is_digit_def byte_def
  by (cases b0; cases b1; cases b2; cases b3; cases b4; cases b5; cases b6; cases b7; simp)

lemma is_letter_code [code]:
  "is_letter (Char b0 b1 b2 b3 b4 b5 b6 b7) \<longleftrightarrow>
     \<not> b7 \<and> b6 \<and> (b0 \<or> b1 \<or> b2 \<or> b3 \<or> b4) \<and> \<not> (b4 \<and> b3 \<and> (b2 \<or> b1 \<and> b0))"
  unfolding is_letter_def byte_def
  by (cases b0; cases b1; cases b2; cases b3; cases b4; cases b5; cases b6; cases b7; simp)

section \<open>Trimming, prefixes and suffixes\<close>

definition to_lower :: "string \<Rightarrow> string" where
  "to_lower s = map lower_char s"

definition trim_left_by :: "(char \<Rightarrow> bool) \<Rightarrow> string \<Rightarrow> string" where
  "trim_left_by P s = dropWhile P s"

definition trim_right_by :: "(char \<Rightarrow> bool) \<Rightarrow> string \<Rightarrow> string" where
  "trim_right_by P s = rev (dropWhile P (rev s))"

definition trim_by :: "(char \<Rightarrow> bool) \<Rightarrow> string \<Rightarrow> string" where
  "trim_by P s = trim_right_by P (trim_left_by P s)"

definition trim_space :: "string \<Rightarrow> string" where
  "trim_space s = trim_by is_space s"

definition has_prefix :: "string \<Rightarrow> string \<Rightarrow> bool" where
  "has_prefix s p \<longleftrightarrow> take (length p) s = p"

definition has_suffix :: "string \<Rightarrow> string \<Rightarrow> bool" where
  "has_suffix s p \<longleftrightarrow> length p \<le> length s \<and> drop (length s - length p) s = p"

definition trim_prefix :: "string \<Rightarrow> string \<Rightarrow> string" where
  "trim_prefix s p = (if has_prefix s p then drop (length p) s else s)"

definition trim_suffix :: "string \<Rightarrow> string \<Rightarrow> string" where
  "trim_suffix s p = (if has_suffix s p then take (length s - length p) s else s)"

definition equal_fold :: "string \<Rightarrow> string \<Rightarrow> bool" where
  "equal_fold s t \<longleftrightarrow> to_lower s = to_lower t"

fun contains :: "string \<Rightarrow> string \<Rightarrow> bool" where
  "contains [] p = (p = [])"
| "contains (c # s) p = (has_prefix (c # s) p \<or> contains s p)"

section \<open>Splitting and joining\<close>

text \<open>\<^verbatim>\<open>strings.Split(s, sep)\<close> for a one-byte separator: never empty.\<close>

fun split_on :: "char \<Rightarrow> string \<Rightarrow> string list" where
  "split_on d [] = [[]]"
| "split_on d (c # s) =
     (if c = d then [] # split_on d s
      else (case split_on d s of [] \<Rightarrow> [[c]] | w # ws \<Rightarrow> (c # w) # ws))"

fun join_with :: "string \<Rightarrow> string list \<Rightarrow> string" where
  "join_with sep [] = []"
| "join_with sep [w] = w"
| "join_with sep (w # v # ws) = w @ sep @ join_with sep (v # ws)"

text \<open>\<^verbatim>\<open>strings.LastIndexByte\<close> and \<^verbatim>\<open>strings.IndexByte\<close>: -1 when the byte does not occur.\<close>

definition last_index_byte :: "string \<Rightarrow> char \<Rightarrow> int" where
  "last_index_byte s c = int (length s) - 1 - int (length (takeWhile (\<lambda>x. x \<noteq> c) (rev s)))"

definition index_byte :: "string \<Rightarrow> char \<Rightarrow> int" where
  "index_byte s c =
     (if c \<in> set s then int (length (takeWhile (\<lambda>x. x \<noteq> c) s)) else -1)"

definition count_byte :: "string \<Rightarrow> char \<Rightarrow> nat" where
  "count_byte s c = length (filter (\<lambda>x. x = c) s)"

text \<open>\<^verbatim>\<open>strings.ReplaceAll\<close> of a two-byte pattern by its first byte, left to right.\<close>

fun collapse_pairs :: "char \<Rightarrow> string \<Rightarrow> string" where
  "collapse_pairs d (a # b # s) =
     (if a = d \<and> b = d then d # collapse_pairs d s else a # collapse_pairs d (b # s))"
| "collapse_pairs d s = s"

section \<open>Laws\<close>

lemma split_on_nonempty [simp]: "split_on d s \<noteq> []"
  by (induction s) (auto split: list.splits)

lemma split_on_Cons_neq:
  "c \<noteq> d \<Longrightarrow> split_on d (c # s) = (c # hd (split_on d s)) # tl (split_on d s)"
  by (cases "split_on d s") auto

lemma split_on_no_sep: "d \<notin> set s \<Longrightarrow> split_on d s = [s]"
  by (induction s) auto

lemma split_on_append_sep:
  "split_on d (s @ d # t) = split_on d s @ split_on d t"
  by (induction s) (auto split: list.splits)

lemma split_on_pieces: "w \<in> set (split_on d s) \<Longrightarrow> d \<notin> set w"
proof (induction s arbitrary: w)
  case Nil
  then show ?case by simp
next
  case (Cons c s)
  show ?case
  proof (cases "c = d")
    case True
    with Cons show ?thesis by auto
  next
    case False
    then have eq: "split_on d (c # s) = (c # hd (split_on d s)) # tl (split_on d s)"
      by (rule split_on_Cons_neq)
    from Cons.prems have "w = c # hd (split_on d s) \<or> w \<in> set (tl (split_on d s))"
      by (simp only: eq list.set insert_iff)
    moreover have "hd (split_on d s) \<in> set (split_on d s)"
      by simp
    moreover have "set (tl (split_on d s)) \<subseteq> set (split_on d s)"
      by (cases "split_on d s") auto
    ultimately show ?thesis
      using Cons.IH False by auto
  qed
qed

lemma join_with_Cons: "ws \<noteq> [] \<Longrightarrow> join_with sep (w # ws) = w @ sep @ join_with sep ws"
  by (cases ws) auto

lemma join_with_append:
  "us \<noteq> [] \<Longrightarrow> vs \<noteq> [] \<Longrightarrow> join_with sep (us @ vs) = join_with sep us @ sep @ join_with sep vs"
  by (induction us rule: induct_list012) (auto simp: join_with_Cons)

lemma length_join_with_append: "length (join_with sep vs) \<le> length (join_with sep (us @ vs))"
  by (cases "us = []"; cases "vs = []") (auto simp: join_with_append)

lemma join_split_on [simp]: "join_with [d] (split_on d s) = s"
proof (induction s)
  case Nil
  then show ?case by simp
next
  case (Cons c s)
  show ?case
  proof (cases "c = d")
    case True
    with Cons show ?thesis by (simp add: join_with_Cons)
  next
    case False
    obtain w ws where "split_on d s = w # ws"
      by (cases "split_on d s") auto
    with Cons False show ?thesis
      by (cases ws) auto
  qed
qed

lemma split_join_with:
  "ws \<noteq> [] \<Longrightarrow> \<forall>w\<in>set ws. d \<notin> set w \<Longrightarrow> split_on d (join_with [d] ws) = ws"
proof (induction ws rule: induct_list012)
  case 1
  then show ?case by simp
next
  case (2 w)
  then show ?case by (simp add: split_on_no_sep)
next
  case (3 w v ws)
  then have "split_on d (join_with [d] (v # ws)) = v # ws" by simp
  with 3 show ?case
    by (simp add: split_on_append_sep split_on_no_sep)
qed

lemma to_lower_idem [simp]: "to_lower (to_lower s) = to_lower s"
  by (simp add: to_lower_def comp_def)

lemma to_lower_Nil [simp]: "to_lower [] = []"
  by (simp add: to_lower_def)

lemma to_lower_eq_Nil [simp]: "to_lower s = [] \<longleftrightarrow> s = []"
  by (simp add: to_lower_def)

lemma length_to_lower [simp]: "length (to_lower s) = length s"
  by (simp add: to_lower_def)

lemma equal_fold_refl [simp]: "equal_fold s s"
  by (simp add: equal_fold_def)

lemma equal_fold_sym: "equal_fold s t \<Longrightarrow> equal_fold t s"
  by (simp add: equal_fold_def)

lemma equal_fold_trans: "equal_fold s t \<Longrightarrow> equal_fold t u \<Longrightarrow> equal_fold s u"
  by (simp add: equal_fold_def)

lemma has_prefix_iff: "has_prefix s p \<longleftrightarrow> (\<exists>t. s = p @ t)"
  unfolding has_prefix_def by (metis append_eq_conv_conj append_take_drop_id)

lemma has_suffix_iff: "has_suffix s p \<longleftrightarrow> (\<exists>t. s = t @ p)"
  unfolding has_suffix_def
  by (metis append_eq_conv_conj append_take_drop_id diff_diff_cancel length_append
      length_drop le_add2 diff_add_inverse2)

lemma contains_iff: "contains s p \<longleftrightarrow> (\<exists>u v. s = u @ p @ v)"
proof (induction s)
  case Nil
  then show ?case by auto
next
  case (Cons c s)
  show ?case
  proof
    assume "contains (c # s) p"
    then consider "has_prefix (c # s) p" | "contains s p" by auto
    then show "\<exists>u v. c # s = u @ p @ v"
    proof cases
      case 1
      then obtain v where "c # s = [] @ p @ v" by (auto simp: has_prefix_iff)
      then show ?thesis by blast
    next
      case 2
      with Cons.IH obtain u v where "s = u @ p @ v" by blast
      then have "c # s = (c # u) @ p @ v" by simp
      then show ?thesis by blast
    qed
  next
    assume "\<exists>u v. c # s = u @ p @ v"
    then obtain u v where eq: "c # s = u @ p @ v" by blast
    show "contains (c # s) p"
    proof (cases u)
      case Nil
      with eq have "has_prefix (c # s) p" by (auto simp: has_prefix_iff)
      then show ?thesis by simp
    next
      case (Cons a u')
      with eq have "s = u' @ p @ v" by simp
      then show ?thesis using Cons.IH by auto
    qed
  qed
qed

declare contains.simps [simp del, go_strings]

lemma contains_char: "contains s [c] \<longleftrightarrow> c \<in> set s"
  by (auto simp: contains_iff in_set_conv_decomp)

lemma set_trim_by: "set (trim_by P s) \<subseteq> set s"
  unfolding trim_by_def trim_right_by_def trim_left_by_def
  by (metis dropWhile_eq_drop set_drop_subset set_rev subset_trans)

lemma trim_by_id:
  "s = [] \<or> (\<not> P (hd s) \<and> \<not> P (last s)) \<Longrightarrow> trim_by P s = s"
  unfolding trim_by_def trim_right_by_def trim_left_by_def
  by (metis dropWhile_eq_self_iff hd_rev rev_is_Nil_conv rev_swap)

lemma dropWhile_hd_not: "dropWhile P s \<noteq> [] \<Longrightarrow> \<not> P (hd (dropWhile P s))"
  by (induction s) auto

lemma trim_by_ends:
  assumes "trim_by P s \<noteq> []"
  shows "\<not> P (hd (trim_by P s)) \<and> \<not> P (last (trim_by P s))"
proof -
  let ?l = "dropWhile P s" and ?r = "dropWhile P (rev (dropWhile P s))"
  have tb: "trim_by P s = rev ?r"
    by (simp add: trim_by_def trim_right_by_def trim_left_by_def)
  from assms have r: "?r \<noteq> []" by (simp add: tb)
  then have "\<not> P (hd ?r)" by (rule dropWhile_hd_not)
  moreover from r have "last (rev ?r) = hd ?r" by (simp add: last_rev)
  moreover have "rev ?l = takeWhile P (rev ?l) @ ?r" by simp
  then have "?l = rev ?r @ rev (takeWhile P (rev ?l))"
    by (metis rev_append rev_rev_ident)
  with r have "hd ?l = hd (rev ?r)" by (metis hd_append2 rev_is_Nil_conv)
  moreover have "?l \<noteq> []" using r by (metis dropWhile.simps(1) rev.simps(1))
  then have "\<not> P (hd ?l)" by (rule dropWhile_hd_not)
  ultimately show ?thesis by (simp add: tb)
qed

lemma trim_by_idem [simp]: "trim_by P (trim_by P s) = trim_by P s"
  using trim_by_ends [of P s] by (intro trim_by_id) blast

lemma trim_space_idem [simp]: "trim_space (trim_space s) = trim_space s"
  by (simp add: trim_space_def)

lemma trim_by_Nil [simp]: "trim_by P [] = []"
  by (simp add: trim_by_def trim_left_by_def trim_right_by_def)

lemma trim_space_Nil [simp]: "trim_space [] = []"
  by (simp add: trim_space_def)

lemma dropWhile_map: "dropWhile P (map f s) = map f (dropWhile (\<lambda>x. P (f x)) s)"
  by (induction s) auto

lemma trim_space_to_lower: "trim_space (to_lower s) = to_lower (trim_space s)"
  by (simp add: trim_space_def trim_by_def trim_left_by_def trim_right_by_def to_lower_def
      dropWhile_map rev_map)

lemma length_collapse_pairs: "length (collapse_pairs d s) \<le> length s"
  by (induction d s rule: collapse_pairs.induct) auto

lemma length_collapse_pairs_less: "contains s [d, d] \<Longrightarrow> length (collapse_pairs d s) < length s"
proof (induction d s rule: collapse_pairs.induct)
  case (1 d a b s)
  then show ?case
    using length_collapse_pairs [of d s] by (auto simp: has_prefix_def contains.simps)
qed (auto simp: has_prefix_def contains.simps)

lemma last_index_byte_less: "last_index_byte s c < int (length s)"
  by (simp add: last_index_byte_def)

lemma last_index_byte_take: "0 < e \<Longrightarrow> last_index_byte (take (nat e) s) c < e"
  using last_index_byte_less [of "take (nat e) s" c] by simp

lemma last_index_byte_ge: "- 1 \<le> last_index_byte s c"
  using length_takeWhile_le [of "\<lambda>x. x \<noteq> c" "rev s"] by (simp add: last_index_byte_def)

lemma last_index_byte_cases:
  obtains (none) "last_index_byte s c = -1" and "c \<notin> set s"
  | (some) u v where "s = u @ c # v" and "c \<notin> set v" and "last_index_byte s c = int (length u)"
proof (cases "c \<in> set s")
  case False
  then have "takeWhile (\<lambda>x. x \<noteq> c) (rev s) = rev s"
    by (auto simp: takeWhile_eq_all_conv)
  with False none show ?thesis by (simp add: last_index_byte_def)
next
  case True
  then obtain u v where s: "s = u @ c # v" and "c \<notin> set v"
    by (metis split_list_last)
  moreover have "takeWhile (\<lambda>x. x \<noteq> c) (rev s) = rev v"
    unfolding s using \<open>c \<notin> set v\<close> by (auto simp: takeWhile_append takeWhile_eq_all_conv)
  ultimately show ?thesis using some [of u v] by (simp add: last_index_byte_def)
qed

end
