(* ===== verification/DomainName.thy ===== *)
theory DomainName
  imports GoStrings
begin

text \<open>
  Domain names as the program handles them: \<^verbatim>\<open>NormalizeDomain\<close> of
  \<^verbatim>\<open>internal/analysis/analysis.go\<close>, the registrable-domain floor of
  \<^verbatim>\<open>internal/analysis/registrable.go\<close>, the churn-prone roots of
  \<^verbatim>\<open>internal/analysis/churn.go\<close> and the content categories of \<^verbatim>\<open>ClassifyCategory\<close>.
  The third-party packages \<^verbatim>\<open>idna\<close> and \<^verbatim>\<open>publicsuffix\<close>, and the URL parser, are the fields of
  the record \<open>libs\<close>: every theorem holds for any of them, or names what it relies on.
\<close>

section \<open>External packages\<close>

record libs =
  url_hostname :: "string \<Rightarrow> string option"
  idna_to_ascii :: "string \<Rightarrow> string option"
  etld_plus_one :: "string \<Rightarrow> string option"

text \<open>
  \<^verbatim>\<open>url_hostname\<close> is \<^verbatim>\<open>url.Parse(s)\<close> followed by \<^verbatim>\<open>Hostname()\<close>, \<^const>\<open>None\<close> when the
  parse fails; \<^verbatim>\<open>idna_to_ascii\<close> is \<^verbatim>\<open>idna.Lookup.ToASCII\<close> and \<^verbatim>\<open>etld_plus_one\<close> is
  \<^verbatim>\<open>publicsuffix.EffectiveTLDPlusOne\<close>, \<^const>\<open>None\<close> on error.
\<close>

section \<open>NormalizeDomain\<close>

type_synonym domain_error = string

definition maxDomainLength :: nat where
  "maxDomainLength = 253"

definition maxDomainLabelLength :: nat where
  "maxDomainLabelLength = 63"

fun check_labels :: "string list \<Rightarrow> domain_error option" where
  "check_labels [] = None"
| "check_labels (l # ls) =
     (if l = [] then Some ''domain contains an empty label''
      else if length l > maxDomainLabelLength then Some ''domain label exceeds 63 bytes''
      else check_labels ls)"

definition valid_domain_char :: "char \<Rightarrow> bool" where
  "valid_domain_char c \<longleftrightarrow>
     c = CHR ''.'' \<or> c = CHR ''-'' \<or> is_letter c \<or> is_digit c \<or> byte c \<ge> 128"

definition strip_url :: "libs \<Rightarrow> string \<Rightarrow> domain_error + string" where
  "strip_url L value =
     (let value = (if contains value ''/'' \<and> \<not> contains value ''://'' \<and> \<not> has_prefix value ''/''
                   then ''http://'' @ value else value)
      in if contains value ''://'' then
           (case url_hostname L value of
              None \<Rightarrow> Inl ''domain could not be parsed from url''
            | Some h \<Rightarrow> if h = [] then Inl ''domain could not be parsed from url'' else Inr h)
         else Inr value)"

definition strip_port :: "string \<Rightarrow> string" where
  "strip_port value =
     (if count_byte value (CHR '':'') = 1 then
        (let host = takeWhile (\<lambda>c. c \<noteq> CHR '':'') value in if host \<noteq> [] then host else value)
      else value)"

definition NormalizeDomain :: "libs \<Rightarrow> string \<Rightarrow> domain_error + string" where
  "NormalizeDomain L input =
     (let value = trim_space (to_lower input) in
      if value = [] then Inl ''domain is empty''
      else case strip_url L value of
        Inl e \<Rightarrow> Inl e
      | Inr value \<Rightarrow>
          (let value = trim_suffix (strip_port value) ''.'' in
           if value = [] then Inl ''domain is empty''
           else if length value > maxDomainLength then Inl ''domain exceeds 253 bytes''
           else case check_labels (split_on (CHR ''.'') value) of
             Some e \<Rightarrow> Inl e
           | None \<Rightarrow>
               if list_all valid_domain_char value then Inr value
               else Inl ''domain contains invalid characters''))"

text \<open>The canonical form of a bare domain: what \<open>NormalizeDomain\<close> promises its callers.\<close>

definition canonical_domain :: "string \<Rightarrow> bool" where
  "canonical_domain d \<longleftrightarrow>
     d \<noteq> [] \<and> length d \<le> maxDomainLength \<and>
     (\<forall>l \<in> set (split_on (CHR ''.'') d). l \<noteq> [] \<and> length l \<le> maxDomainLabelLength) \<and>
     (\<forall>c \<in> set d. valid_domain_char c)"

section \<open>Registrable domains\<close>

definition IsRegistrableDomain :: "libs \<Rightarrow> string \<Rightarrow> bool" where
  "IsRegistrableDomain L domain =
     (case NormalizeDomain L domain of
        Inl e \<Rightarrow> False
      | Inr normalized \<Rightarrow>
          if normalized = [] then False else etld_plus_one L normalized \<noteq> None)"

definition RegistrableWalkFloor :: "libs \<Rightarrow> string \<Rightarrow> nat" where
  "RegistrableWalkFloor L domain =
     (case NormalizeDomain L domain of
        Inl e \<Rightarrow> 0
      | Inr normalized \<Rightarrow>
          if normalized = [] then 0
          else case etld_plus_one L normalized of
            None \<Rightarrow> 0
          | Some registrable \<Rightarrow>
              (let floorLabels = count_byte registrable (CHR ''.'') + 1;
                   labels = count_byte normalized (CHR ''.'') + 1
               in if floorLabels \<ge> labels then 0 else labels - floorLabels))"

section \<open>Churn-prone roots\<close>

definition churnProneRoots :: "string list" where
  "churnProneRoots =
    [''duckdns.org'', ''no-ip.org'', ''no-ip.com'', ''ddns.net'', ''hopto.org'', ''serveo.net'',
     ''loclx.net'', ''zapto.org'', ''my.id'',
     ''000webhostapp.com'', ''000webhost.com'', ''weeblysite.com'', ''weebly.com'', ''webflow.io'',
     ''square.site'', ''wixstudio.com'', ''webnode.com'', ''ucoz.com'', ''blogspot.com'',
     ''ngrok.io'', ''ngrok-free.app'', ''trycloudflare.com'',
     ''dweb.link'', ''ipfs.io'', ''ipns.io'', ''cf-ipfs.com'']"

text \<open>The loop of \<open>ChurnProneRoot\<close> from index 1 on: the argument is \<^verbatim>\<open>labels[i:]\<close>.\<close>

fun churn_walk :: "string list \<Rightarrow> string" where
  "churn_walk [] = []"
| "churn_walk (l # ls) =
     (let root = join_with ''.'' (l # ls) in
      if root \<in> set churnProneRoots then root else churn_walk ls)"

definition ChurnProneRoot :: "string \<Rightarrow> string" where
  "ChurnProneRoot domain =
     (let value = to_lower (trim_suffix (trim_space domain) ''.'');
          value = (if value = [] \<or> has_prefix value ''*.'' then trim_prefix value ''*.'' else value)
      in if value = [] then [] else churn_walk (tl (split_on (CHR ''.'') value)))"

definition IsChurnProneTenant :: "string \<Rightarrow> bool" where
  "IsChurnProneTenant domain \<longleftrightarrow> ChurnProneRoot domain \<noteq> []"

section \<open>Content categories\<close>

text \<open>
  The two nested loops of \<open>categoryKeywordMatch\<close>: the outer one cuts the domain at dots, the inner
  one cuts a label at hyphens and underscores.
\<close>

definition is_token_sep :: "char \<Rightarrow> bool" where
  "is_token_sep c \<longleftrightarrow> c = CHR ''-'' \<or> c = CHR ''_''"

definition token_matches :: "string \<Rightarrow> string \<Rightarrow> bool" where
  "token_matches token kw \<longleftrightarrow>
     token = kw \<or> (length kw \<ge> 5 \<and> (has_prefix token kw \<or> has_suffix token kw))"

function token_loop :: "string \<Rightarrow> string \<Rightarrow> bool" where
  "token_loop label kw =
     (if label = [] then False
      else let token = takeWhile (\<lambda>c. \<not> is_token_sep c) label;
               rest = drop (Suc (length token)) label
           in if token_matches token kw then True else token_loop rest kw)"
  by pat_completeness auto
termination
  by (relation "measure (\<lambda>(label, kw). length label)") (auto simp: Let_def)

function categoryKeywordMatch :: "string \<Rightarrow> string \<Rightarrow> bool" where
  "categoryKeywordMatch domain kw =
     (if domain = [] then False
      else let label = takeWhile (\<lambda>c. c \<noteq> CHR ''.'') domain;
               rest = drop (Suc (length label)) domain
           in if token_loop label kw then True else categoryKeywordMatch rest kw)"
  by pat_completeness auto
termination
  by (relation "measure (\<lambda>(domain, kw). length domain)") (auto simp: Let_def)

declare token_loop.simps [simp del] categoryKeywordMatch.simps [simp del]

definition socialDomains :: "string list" where
  "socialDomains =
    [''facebook.com'', ''fb.com'', ''messenger.com'', ''instagram.com'', ''tiktok.com'',
     ''twitter.com'', ''x.com'', ''youtube.com'', ''youtu.be'', ''reddit.com'',
     ''linkedin.com'', ''pinterest.com'', ''snapchat.com'', ''tumblr.com'',
     ''whatsapp.com'', ''telegram.org'', ''t.me'', ''discord.com'', ''discord.gg'']"

definition adDomains :: "string list" where
  "adDomains =
    [''doubleclick.net'', ''adservice.google.com'', ''adnxs.com'', ''adsrvr.org'',
     ''rubiconproject.com'', ''adcolony.com'', ''unityads.com'', ''applovin.com'',
     ''criteo.com'', ''taboola.com'', ''outbrain.com'', ''google-analytics.com'',
     ''scorecardresearch.com'', ''hotjar.com'', ''mixpanel.com'']"

definition adultTLDs :: "string list" where
  "adultTLDs = [''.xxx'', ''.adult'', ''.sexy'', ''.porn'']"

definition adultKeywords :: "string list" where
  "adultKeywords =
    [''porn'', ''sex'', ''xvideos'', ''xnxx'', ''pornhub'', ''redtube'', ''onlyfans'', ''erotic'',
     ''hentai'', ''jav'']"

definition gamblingKeywords :: "string list" where
  "gamblingKeywords =
    [''casino'', ''gamble'', ''lottery'', ''poker'', ''slot'', ''slots'', ''w88'', ''w88vn'',
     ''fun88'', ''m88'', ''188bet'', ''kubet'', ''bet88'', ''blackjack'', ''roulette'']"

definition gamingDomains :: "string list" where
  "gamingDomains =
    [''roblox.com'', ''minecraft.net'', ''twitch.tv'', ''steamcommunity.com'',
     ''steampowered.com'', ''playstation.com'', ''xbox.com'', ''nintendo.com'',
     ''pubg.com'', ''epicgames.com'', ''riotgames.com'', ''blizzard.com'',
     ''origin.com'', ''ubisoft.com'', ''ea.com'']"

definition gamingKeywords :: "string list" where
  "gamingKeywords = [''gaming'', ''arcade'', ''playgame'']"

text \<open>The closure \<^verbatim>\<open>hasSuffix\<close> of the source: the parent itself or a subdomain of it.\<close>

definition is_or_under :: "string \<Rightarrow> string \<Rightarrow> bool" where
  "is_or_under d parent \<longleftrightarrow> d = parent \<or> has_suffix d (''.'' @ parent)"

definition tracking_subdomain :: "string \<Rightarrow> bool" where
  "tracking_subdomain domain =
     (let parts = split_on (CHR ''.'') domain
      in length parts \<ge> 3 \<and> hd parts \<in> {''ads'', ''adserver'', ''telemetry''})"

definition ClassifyCategory :: "string \<Rightarrow> string" where
  "ClassifyCategory domain0 =
     (let domain = to_lower (trim_space domain0) in
      if domain = [] then ''uncategorized''
      else if list_ex (is_or_under domain) socialDomains then ''social_media''
      else if list_ex (is_or_under domain) adDomains then ''advertising''
      else if tracking_subdomain domain then ''advertising''
      else if list_ex (has_suffix domain) adultTLDs then ''adult''
      else if list_ex (categoryKeywordMatch domain) adultKeywords then ''adult''
      else if list_ex (categoryKeywordMatch domain) gamblingKeywords then ''gambling''
      else if list_ex (is_or_under domain) gamingDomains then ''gaming''
      else if list_ex (contains domain) gamingKeywords then ''gaming''
      else ''uncategorized'')"

section \<open>Facts about normalisation\<close>

lemma check_labels_None:
  "check_labels ls = None \<longleftrightarrow> (\<forall>l \<in> set ls. l \<noteq> [] \<and> length l \<le> maxDomainLabelLength)"
  by (induction ls) (auto split: if_splits)

lemma NormalizeDomain_canonical:
  "NormalizeDomain L input = Inr d \<Longrightarrow> canonical_domain d"
  by (auto simp: NormalizeDomain_def canonical_domain_def Let_def check_labels_None list_all_iff
      split: if_splits sum.splits option.splits)

lemma valid_domain_char_facts:
  assumes "valid_domain_char c"
  shows "\<not> is_space c" and "c \<noteq> CHR ''/''" and "c \<noteq> CHR '':''" and "c \<noteq> CHR ''*''"
  using assms
  by (auto simp: valid_domain_char_def is_space_def is_letter_def is_digit_def byte_def)

lemma canonical_domain_ends:
  assumes "canonical_domain d"
  shows "d \<noteq> []" and "last d \<noteq> CHR ''.''"
proof -
  from assms show ne: "d \<noteq> []" by (simp add: canonical_domain_def)
  show "last d \<noteq> CHR ''.''"
  proof
    assume "last d = CHR ''.''"
    with ne obtain s where "d = s @ [CHR ''.'']" by (metis append_butlast_last_id)
    then have "[] \<in> set (split_on (CHR ''.'') d)" by (simp add: split_on_append_sep)
    with assms show False by (auto simp: canonical_domain_def)
  qed
qed

lemma trim_space_id:
  "\<forall>c \<in> set s. \<not> is_space c \<Longrightarrow> trim_space s = s"
  unfolding trim_space_def by (rule trim_by_id) auto

lemma trim_suffix_dot_id: "s = [] \<or> last s \<noteq> CHR ''.'' \<Longrightarrow> trim_suffix s ''.'' = s"
  by (auto simp: trim_suffix_def has_suffix_iff)

lemma canonical_domain_normal:
  assumes "canonical_domain d" and "to_lower d = d"
  shows "NormalizeDomain L d = Inr d"
proof -
  note ends = canonical_domain_ends [OF assms(1)]
  have chars: "\<forall>c \<in> set d. valid_domain_char c"
    using assms(1) by (simp add: canonical_domain_def)
  have "trim_space d = d"
    using chars by (intro trim_space_id) (auto dest: valid_domain_char_facts)
  moreover have "CHR ''/'' \<notin> set d" and colon: "CHR '':'' \<notin> set d"
    using chars valid_domain_char_facts by blast+
  then have "strip_url L d = Inr d"
    by (auto simp: strip_url_def contains_iff Let_def)
  moreover from colon have "count_byte d (CHR '':'') = 0"
    by (auto simp: count_byte_def filter_empty_conv)
  then have "strip_port d = d"
    by (simp add: strip_port_def)
  moreover have "trim_suffix d ''.'' = d"
    using ends by (simp add: trim_suffix_dot_id)
  moreover have "check_labels (split_on (CHR ''.'') d) = None"
    using assms(1) by (simp add: check_labels_None canonical_domain_def)
  ultimately show ?thesis
    using assms chars ends
    by (simp add: NormalizeDomain_def Let_def canonical_domain_def list_all_iff)
qed

text \<open>
  \<^verbatim>\<open>Hostname()\<close> of a lower-case URL is lower-case: the parser never introduces an upper-case letter.
\<close>

definition url_keeps_lower :: "libs \<Rightarrow> bool" where
  "url_keeps_lower L \<longleftrightarrow>
     (\<forall>u h. to_lower u = u \<longrightarrow> url_hostname L u = Some h \<longrightarrow> to_lower h = h)"

lemma to_lower_id_iff: "to_lower s = s \<longleftrightarrow> (\<forall>c \<in> set s. lower_char c = c)"
  unfolding to_lower_def by (simp add: map_idI list_eq_iff_nth_eq all_set_conv_all_nth)

lemma to_lower_subset: "to_lower s = s \<Longrightarrow> set t \<subseteq> set s \<Longrightarrow> to_lower t = t"
  by (auto simp: to_lower_id_iff)

lemma set_strip_port: "set (strip_port s) \<subseteq> set s"
  by (auto simp: strip_port_def Let_def dest: set_takeWhileD)

lemma set_trim_suffix: "set (trim_suffix s p) \<subseteq> set s"
  by (auto simp: trim_suffix_def dest: in_set_takeD)

lemma set_trim_space: "set (trim_space s) \<subseteq> set s"
  unfolding trim_space_def by (rule set_trim_by)

lemma contains_http: "contains (''http://'' @ v) ''://''"
proof -
  have "''http://'' @ v = ''http'' @ ''://'' @ v" by simp
  then show ?thesis unfolding contains_iff by blast
qed

lemma strip_url_result:
  "strip_url L v = Inr h \<Longrightarrow>
     h = v \<or> url_hostname L v = Some h \<or> url_hostname L (''http://'' @ v) = Some h"
  using contains_http [of v]
  by (simp add: strip_url_def Let_def split: if_splits option.splits)

lemma NormalizeDomain_lower:
  assumes "url_keeps_lower L" and "NormalizeDomain L input = Inr d"
  shows "to_lower d = d"
proof -
  let ?v = "trim_space (to_lower input)"
  have v: "to_lower ?v = ?v"
    by (simp add: trim_space_to_lower)
  from assms(2) obtain h where h: "strip_url L ?v = Inr h"
    and d: "d = trim_suffix (strip_port h) ''.''"
    by (auto simp: NormalizeDomain_def Let_def split: if_splits sum.splits option.splits)
  have http: "to_lower (''http://'' @ ?v) = ''http://'' @ ?v"
    using v by (simp add: to_lower_def lower_char_def byte_def)
  from h have "to_lower h = h"
    using assms(1) v http strip_url_result [OF h] unfolding url_keeps_lower_def by metis
  then show ?thesis
    unfolding d by (rule to_lower_subset) (metis set_strip_port set_trim_suffix subset_trans)
qed

section \<open>The registrable floor\<close>

text \<open>
  The documented behaviour of \<^verbatim>\<open>EffectiveTLDPlusOne\<close>: the registrable domain it returns is made of
  the last labels of the domain it was asked about.
\<close>

definition psl_label_suffix :: "libs \<Rightarrow> bool" where
  "psl_label_suffix L \<longleftrightarrow>
     (\<forall>d r. canonical_domain d \<longrightarrow> etld_plus_one L d = Some r \<longrightarrow>
        (\<exists>ls. split_on (CHR ''.'') d = ls @ split_on (CHR ''.'') r))"

lemma length_split_on: "length (split_on d s) = count_byte s d + 1"
  by (induction s) (auto simp: count_byte_def split: list.splits)

lemma RegistrableWalkFloor_drop:
  assumes "psl_label_suffix L" and "NormalizeDomain L domain = Inr d"
    and "etld_plus_one L d = Some r"
  shows "drop (RegistrableWalkFloor L domain) (split_on (CHR ''.'') d) = split_on (CHR ''.'') r"
proof -
  have can: "canonical_domain d" using assms(2) by (rule NormalizeDomain_canonical)
  with assms(1,3) obtain ls where ls: "split_on (CHR ''.'') d = ls @ split_on (CHR ''.'') r"
    unfolding psl_label_suffix_def by blast
  have "length (split_on (CHR ''.'') d) = length ls + length (split_on (CHR ''.'') r)"
    using ls by simp
  then have "RegistrableWalkFloor L domain = length ls"
    using assms can
    by (simp add: RegistrableWalkFloor_def Let_def length_split_on canonical_domain_def)
  with ls show ?thesis by simp
qed

section \<open>Churn-prone roots: the walk\<close>

lemma churnProneRoots_nonempty: "[] \<notin> set churnProneRoots"
  by (simp add: churnProneRoots_def)

lemma churn_walk_None:
  "churn_walk ls = [] \<Longrightarrow> ls = us @ vs \<Longrightarrow> vs \<noteq> [] \<Longrightarrow> join_with ''.'' vs \<notin> set churnProneRoots"
proof (induction ls arbitrary: us)
  case Nil
  then show ?case by simp
next
  case (Cons l ls)
  from Cons.prems(1) have here: "join_with ''.'' (l # ls) \<notin> set churnProneRoots"
    and rest: "churn_walk ls = []"
    using churnProneRoots_nonempty by (auto simp: Let_def split: if_splits)
  show ?case
  proof (cases us)
    case Nil
    with Cons.prems(2) here show ?thesis by simp
  next
    case (Cons u us')
    with \<open>l # ls = us @ vs\<close> have "ls = us' @ vs" by simp
    with rest Cons.IH \<open>vs \<noteq> []\<close> show ?thesis by blast
  qed
qed

lemma churn_walk_Some:
  assumes "churn_walk ls = r" and "r \<noteq> []"
  shows "r \<in> set churnProneRoots \<and>
    (\<exists>us vs. ls = us @ vs \<and> vs \<noteq> [] \<and> r = join_with ''.'' vs \<and>
       (\<forall>us' vs'. ls = us' @ vs' \<longrightarrow> vs' \<noteq> [] \<longrightarrow> length us' < length us \<longrightarrow>
          join_with ''.'' vs' \<notin> set churnProneRoots))"
  using assms
proof (induction ls)
  case Nil
  then show ?case by simp
next
  case (Cons l ls)
  show ?case
  proof (cases "join_with ''.'' (l # ls) \<in> set churnProneRoots")
    case True
    with Cons.prems have "r = join_with ''.'' (l # ls)" by (simp add: Let_def)
    with True show ?thesis
      by (intro conjI exI [of _ "[]"] exI [of _ "l # ls"]) auto
  next
    case False
    with Cons.prems have "churn_walk ls = r" by (simp add: Let_def)
    from Cons.IH [OF this Cons.prems(2)] obtain us vs
      where r: "r \<in> set churnProneRoots" and ls: "ls = us @ vs" "vs \<noteq> []" "r = join_with ''.'' vs"
        and min: "\<forall>us' vs'. ls = us' @ vs' \<longrightarrow> vs' \<noteq> [] \<longrightarrow> length us' < length us \<longrightarrow>
          join_with ''.'' vs' \<notin> set churnProneRoots"
      by blast
    have "\<forall>us' vs'. l # ls = us' @ vs' \<longrightarrow> vs' \<noteq> [] \<longrightarrow> length us' < length (l # us) \<longrightarrow>
          join_with ''.'' vs' \<notin> set churnProneRoots"
    proof (intro allI impI)
      fix us' vs'
      assume "l # ls = us' @ vs'" and "vs' \<noteq> []" and "length us' < length (l # us)"
      with min False show "join_with ''.'' vs' \<notin> set churnProneRoots"
        by (cases us') simp_all
    qed
    with r ls show ?thesis
      by (intro conjI exI [of _ "l # us"] exI [of _ vs]) auto
  qed
qed

text \<open>On a canonical lower-case domain the preparation of \<open>ChurnProneRoot\<close> is the identity.\<close>

lemma ChurnProneRoot_canonical:
  assumes "canonical_domain d" and "to_lower d = d"
  shows "ChurnProneRoot d = churn_walk (tl (split_on (CHR ''.'') d))"
proof -
  have chars: "\<forall>c \<in> set d. valid_domain_char c"
    using assms(1) by (simp add: canonical_domain_def)
  then have "trim_space d = d"
    by (intro trim_space_id) (auto dest: valid_domain_char_facts)
  moreover have "trim_suffix d ''.'' = d"
    using canonical_domain_ends [OF assms(1)] by (simp add: trim_suffix_dot_id)
  moreover have "CHR ''*'' \<notin> set d"
    using chars valid_domain_char_facts(4) by metis
  then have "\<not> has_prefix d ''*.''"
    by (auto simp: has_prefix_iff)
  ultimately show ?thesis
    using assms canonical_domain_ends [OF assms(1)] by (simp add: ChurnProneRoot_def Let_def)
qed

lemma under_root_split:
  "has_suffix d (''.'' @ r) \<longleftrightarrow> (\<exists>us. tl (split_on (CHR ''.'') d) = us @ split_on (CHR ''.'') r)"
proof
  assume "has_suffix d (''.'' @ r)"
  then obtain t where "d = t @ CHR ''.'' # r" by (auto simp: has_suffix_iff)
  then have "split_on (CHR ''.'') d = split_on (CHR ''.'') t @ split_on (CHR ''.'') r"
    by (simp add: split_on_append_sep)
  then show "\<exists>us. tl (split_on (CHR ''.'') d) = us @ split_on (CHR ''.'') r"
    by (cases "split_on (CHR ''.'') t") auto
next
  assume "\<exists>us. tl (split_on (CHR ''.'') d) = us @ split_on (CHR ''.'') r"
  then obtain us where "tl (split_on (CHR ''.'') d) = us @ split_on (CHR ''.'') r" by blast
  then have "split_on (CHR ''.'') d = (hd (split_on (CHR ''.'') d) # us) @ split_on (CHR ''.'') r"
    by (metis append_Cons hd_Cons_tl split_on_nonempty)
  then have "join_with ''.'' (split_on (CHR ''.'') d) =
      join_with ''.'' (hd (split_on (CHR ''.'') d) # us) @ ''.'' @ join_with ''.'' (split_on (CHR ''.'') r)"
    by (metis join_with_append list.distinct(1) split_on_nonempty)
  then show "has_suffix d (''.'' @ r)" unfolding has_suffix_iff by auto
qed

lemma churn_walk_correct:
  fixes d defines "w \<equiv> churn_walk (tl (split_on (CHR ''.'') d))"
  shows "w = [] \<longleftrightarrow> (\<forall>r \<in> set churnProneRoots. \<not> has_suffix d (''.'' @ r))"
    and "w \<noteq> [] \<Longrightarrow> w \<in> set churnProneRoots \<and> has_suffix d (''.'' @ w)"
    and "r \<in> set churnProneRoots \<Longrightarrow> has_suffix d (''.'' @ r) \<Longrightarrow> length r \<le> length w"
proof -
  let ?ls = "tl (split_on (CHR ''.'') d)"
  have none: "\<not> has_suffix d (''.'' @ r)" if "w = []" "r \<in> set churnProneRoots" for r
    using that churn_walk_None [of ?ls _ "split_on (CHR ''.'') r"]
    unfolding w_def under_root_split by fastforce
  show found: "w \<in> set churnProneRoots \<and> has_suffix d (''.'' @ w)" if "w \<noteq> []"
  proof -
    from that churn_walk_Some [of ?ls w] obtain us vs
      where "w \<in> set churnProneRoots" and ls: "?ls = us @ vs" "vs \<noteq> []" "w = join_with ''.'' vs"
      unfolding w_def by blast
    moreover have "split_on (CHR ''.'') w = vs"
    proof -
      have "set vs \<subseteq> set (split_on (CHR ''.'') d)"
        using ls(1) by (metis Un_upper2 list.set_sel(2) set_append split_on_nonempty subsetI subset_trans)
      then show ?thesis
        unfolding ls(3) using ls(2) by (intro split_join_with) (auto dest: split_on_pieces)
    qed
    ultimately show ?thesis unfolding under_root_split by auto
  qed
  show "w = [] \<longleftrightarrow> (\<forall>r \<in> set churnProneRoots. \<not> has_suffix d (''.'' @ r))"
    using none found by blast
  show "length r \<le> length w" if r: "r \<in> set churnProneRoots" "has_suffix d (''.'' @ r)"
  proof -
    from r none have "w \<noteq> []" by blast
    with churn_walk_Some [of ?ls w] obtain us vs
      where ls: "?ls = us @ vs" "w = join_with ''.'' vs"
        and least: "\<forall>us' vs'. ?ls = us' @ vs' \<longrightarrow> vs' \<noteq> [] \<longrightarrow> length us' < length us \<longrightarrow>
          join_with ''.'' vs' \<notin> set churnProneRoots"
      unfolding w_def by blast
    from r(2) obtain us' where ls': "?ls = us' @ split_on (CHR ''.'') r"
      unfolding under_root_split by blast
    with least r(1) have "length us \<le> length us'" by (metis join_split_on leI split_on_nonempty)
    with ls(1) ls' obtain zs where "vs = zs @ split_on (CHR ''.'') r"
      by (metis append_eq_append_conv_if append_eq_conv_conj)
    then show ?thesis
      unfolding ls(2) using length_join_with_append [of "''.''" "split_on (CHR ''.'') r" zs] by simp
  qed
qed

section \<open>Keyword matching\<close>

text \<open>Cutting a string at every byte that satisfies a predicate: the reference for the loops.\<close>

fun split_by :: "(char \<Rightarrow> bool) \<Rightarrow> string \<Rightarrow> string list" where
  "split_by P [] = [[]]"
| "split_by P (c # s) =
     (if P c then [] # split_by P s
      else (case split_by P s of [] \<Rightarrow> [[c]] | w # ws \<Rightarrow> (c # w) # ws))"

lemma split_by_nonempty [simp]: "split_by P s \<noteq> []"
  by (induction s) (auto split: list.splits)

lemma split_on_split_by: "split_on d s = split_by (\<lambda>c. c = d) s"
  by (induction s) (auto split: list.splits)

lemma split_by_unfold:
  "split_by P s = takeWhile (\<lambda>c. \<not> P c) s #
     (if length (takeWhile (\<lambda>c. \<not> P c) s) < length s
      then split_by P (drop (Suc (length (takeWhile (\<lambda>c. \<not> P c) s))) s) else [])"
proof (induction s)
  case Nil
  then show ?case by simp
next
  case (Cons c s)
  then show ?case
    by (cases "split_by P s") (auto split: if_splits)
qed

lemma token_loop_Nil [simp]: "\<not> token_loop [] kw"
  by (subst token_loop.simps) simp

lemma categoryKeywordMatch_Nil [simp]: "\<not> categoryKeywordMatch [] kw"
  by (subst categoryKeywordMatch.simps) simp

lemma token_matches_Nil: "kw \<noteq> [] \<Longrightarrow> \<not> token_matches [] kw"
  by (auto simp: token_matches_def has_prefix_def has_suffix_def)

lemma token_loop_split:
  "kw \<noteq> [] \<Longrightarrow>
     token_loop label kw \<longleftrightarrow> (\<exists>token \<in> set (split_by is_token_sep label). token_matches token kw)"
proof (induction label kw rule: token_loop.induct)
  case (1 label kw)
  let ?token = "takeWhile (\<lambda>c. \<not> is_token_sep c) label"
  let ?rest = "drop (Suc (length ?token)) label"
  show ?case
  proof (cases "label = []")
    case True
    with "1.prems" show ?thesis
      by (simp add: token_matches_Nil)
  next
    case False
    then have step: "token_loop label kw \<longleftrightarrow> token_matches ?token kw \<or> token_loop ?rest kw"
      by (subst token_loop.simps) (simp add: Let_def)
    have IH: "\<not> token_matches ?token kw \<Longrightarrow>
        token_loop ?rest kw \<longleftrightarrow> (\<exists>t \<in> set (split_by is_token_sep ?rest). token_matches t kw)"
      using "1.IH" [OF False] "1.prems" by simp
    have split: "split_by is_token_sep label = ?token #
        (if length ?token < length label then split_by is_token_sep ?rest else [])"
      by (rule split_by_unfold)
    have "\<not> length ?token < length label \<Longrightarrow> ?rest = []"
      by simp
    then show ?thesis
      using step IH split token_matches_Nil [OF "1.prems"]
      by (cases "token_matches ?token kw"; cases "length ?token < length label")
         auto
  qed
qed

lemma categoryKeywordMatch_split:
  "kw \<noteq> [] \<Longrightarrow>
     categoryKeywordMatch domain kw \<longleftrightarrow>
       (\<exists>label \<in> set (split_on (CHR ''.'') domain). token_loop label kw)"
  unfolding split_on_split_by
proof (induction domain kw rule: categoryKeywordMatch.induct)
  case (1 domain kw)
  let ?label = "takeWhile (\<lambda>c. c \<noteq> CHR ''.'') domain"
  let ?rest = "drop (Suc (length ?label)) domain"
  show ?case
  proof (cases "domain = []")
    case True
    then show ?thesis
      by simp
  next
    case False
    then have step: "categoryKeywordMatch domain kw \<longleftrightarrow>
        token_loop ?label kw \<or> categoryKeywordMatch ?rest kw"
      by (subst categoryKeywordMatch.simps) (simp add: Let_def)
    have IH: "\<not> token_loop ?label kw \<Longrightarrow> categoryKeywordMatch ?rest kw \<longleftrightarrow>
        (\<exists>l \<in> set (split_by (\<lambda>c. c = CHR ''.'') ?rest). token_loop l kw)"
      using "1.IH" [OF False] "1.prems" by simp
    have split: "split_by (\<lambda>c. c = CHR ''.'') domain = ?label #
        (if length ?label < length domain then split_by (\<lambda>c. c = CHR ''.'') ?rest else [])"
      by (rule split_by_unfold)
    have "\<not> length ?label < length domain \<Longrightarrow> ?rest = []"
      by simp
    then show ?thesis
      using step IH split
      by (cases "token_loop ?label kw"; cases "length ?label < length domain")
         auto
  qed
qed

section \<open>Properties\<close>

text \<open>Concrete packages for the witnesses: no URL is parsed and one public suffix is known.\<close>

definition sample_libs :: libs where
  "sample_libs =
     \<lparr>url_hostname = (\<lambda>u. None), idna_to_ascii = Some,
      etld_plus_one = (\<lambda>d. if d = ''example.co.uk'' \<or> has_suffix d ''.example.co.uk''
                          then Some ''example.co.uk''
                          else if d = ''ads.test'' \<or> has_suffix d ''.ads.test''
                          then Some ''ads.test'' else None)\<rparr>"

lemma url_keeps_lower_sample: "url_keeps_lower sample_libs"
  by (simp add: url_keeps_lower_def sample_libs_def)

lemma psl_label_suffix_sample: "psl_label_suffix sample_libs"
proof -
  have suffix_split: "\<exists>ls. split_on (CHR ''.'') d = ls @ split_on (CHR ''.'') r"
    if "d = r \<or> has_suffix d (''.'' @ r)" for d r
    using that split_on_append_sep [of "CHR ''.''" _ r]
    by (auto simp: has_suffix_iff intro: exI [of _ "[]"])
  show ?thesis
    unfolding psl_label_suffix_def
    using suffix_split [of _ "''example.co.uk''"] suffix_split [of _ "''ads.test''"]
    by (auto simp: sample_libs_def split: if_splits)
qed

lemma valid_domain_char_eval:
  "list_all valid_domain_char s = list_all (\<lambda>c. c = CHR ''.'' \<or> c = CHR ''-'' \<or> is_letter c \<or>
     is_digit c \<or> byte c \<ge> 128) s"
  by (simp add: list_all_iff valid_domain_char_def)

lemma sample_normal: "NormalizeDomain sample_libs '' Login.Example.co.UK. '' = Inr ''login.example.co.uk''"
  by code_simp



text \<open>
  RegistrableWalkFloor is exactly the number of labels a parent walk may drop: after that many
  steps the walk stands on the registrable domain, and every earlier candidate keeps all of its
  labels, so no candidate of the walk is a public suffix.
\<close>

theorem RegistrableWalkFloor_exact:
  assumes "psl_label_suffix L" and "NormalizeDomain L domain = Inr d"
    and "etld_plus_one L d = Some r"
  shows "join_with ''.'' (drop (RegistrableWalkFloor L domain) (split_on (CHR ''.'') d)) = r \<and>
    (\<forall>k \<le> RegistrableWalkFloor L domain.
       \<exists>ls. drop k (split_on (CHR ''.'') d) = ls @ split_on (CHR ''.'') r)"
proof
  let ?n = "RegistrableWalkFloor L domain" and ?ls = "split_on (CHR ''.'') d"
  note floor = RegistrableWalkFloor_drop [OF assms]
  show "join_with ''.'' (drop ?n ?ls) = r" unfolding floor by simp
  show "\<forall>k \<le> ?n. \<exists>ls. drop k ?ls = ls @ split_on (CHR ''.'') r"
  proof (intro allI impI)
    fix k assume "k \<le> ?n"
    then have "drop k ?ls = take (?n - k) (drop k ?ls) @ drop ?n ?ls"
      by (metis append_take_drop_id drop_drop le_add_diff_inverse2)
    then show "\<exists>ls. drop k ?ls = ls @ split_on (CHR ''.'') r" unfolding floor by blast
  qed
qed

theorem RegistrableWalkFloor_exact_witness:
  "join_with ''.'' (drop (RegistrableWalkFloor sample_libs '' Login.Example.co.UK. '')
     (split_on (CHR ''.'') ''login.example.co.uk'')) = ''example.co.uk''"
proof -
  have "etld_plus_one sample_libs ''login.example.co.uk'' = Some ''example.co.uk''"
    by code_simp
  from RegistrableWalkFloor_exact [OF psl_label_suffix_sample sample_normal this] show ?thesis
    by blast
qed

text \<open>
  on a canonical lower-case domain, ChurnProneRoot returns the longest churn-prone root the
  domain lies strictly under, and the empty string exactly when it lies under none; the root
  itself is never a tenant of itself through this rule.
\<close>

theorem ChurnProneRoot_longest:
  assumes "canonical_domain d" and "to_lower d = d"
  shows "(ChurnProneRoot d = [] \<longleftrightarrow> (\<forall>r \<in> set churnProneRoots. \<not> has_suffix d (''.'' @ r))) \<and>
    (ChurnProneRoot d \<noteq> [] \<longrightarrow>
       ChurnProneRoot d \<in> set churnProneRoots \<and> has_suffix d (''.'' @ ChurnProneRoot d) \<and>
       (\<forall>r \<in> set churnProneRoots. has_suffix d (''.'' @ r) \<longrightarrow> length r \<le> length (ChurnProneRoot d)))"
  unfolding ChurnProneRoot_canonical [OF assms] using churn_walk_correct [where d = d] by blast

theorem ChurnProneRoot_longest_witness:
  "ChurnProneRoot ''old.phish.duckdns.org'' \<noteq> [] \<and>
   has_suffix ''old.phish.duckdns.org'' (''.'' @ ChurnProneRoot ''old.phish.duckdns.org'') \<and>
   ChurnProneRoot ''duckdns.org'' = []"
proof -
  have a: "canonical_domain ''old.phish.duckdns.org''" "to_lower ''old.phish.duckdns.org'' = ''old.phish.duckdns.org''"
    by (atomize (full)) code_simp
  have b: "canonical_domain ''duckdns.org''" "to_lower ''duckdns.org'' = ''duckdns.org''"
    by (atomize (full)) code_simp
  have "ChurnProneRoot ''old.phish.duckdns.org'' \<noteq> []" by code_simp
  moreover have "\<forall>r \<in> set churnProneRoots. \<not> has_suffix ''duckdns.org'' (''.'' @ r)" by code_simp
  ultimately show ?thesis
    using ChurnProneRoot_longest [OF a] ChurnProneRoot_longest [OF b] by blast
qed

text \<open>
  the two cutting loops of categoryKeywordMatch decide exactly whether some token of some label
  (labels at dots, tokens at hyphens and underscores) equals the keyword, or, for keywords of five
  bytes or more, starts or ends with it.
\<close>

theorem categoryKeywordMatch_tokens:
  assumes "kw \<noteq> []"
  shows "categoryKeywordMatch domain kw \<longleftrightarrow>
    (\<exists>label \<in> set (split_on (CHR ''.'') domain). \<exists>token \<in> set (split_by is_token_sep label).
       token = kw \<or> length kw \<ge> 5 \<and> (has_prefix token kw \<or> has_suffix token kw))"
  using assms categoryKeywordMatch_split token_loop_split unfolding token_matches_def by simp

theorem categoryKeywordMatch_tokens_witness:
  "\<not> categoryKeywordMatch ''sussex.ac.uk'' ''sex'' \<and> categoryKeywordMatch ''free-sex.net'' ''sex'' \<and>
   categoryKeywordMatch ''playpoker.net'' ''poker''"
proof -
  have "''sex'' \<noteq> []" and "''poker'' \<noteq> []" by simp_all
  note kw = categoryKeywordMatch_tokens [OF this(1)] categoryKeywordMatch_tokens [OF this(2)]
  show ?thesis unfolding kw by code_simp
qed

end
