(* ===== verification/DomainTrie.thy ===== *)
theory DomainTrie
  imports DomainName
begin

text \<open>
  The typed blocklist trie of \<^verbatim>\<open>internal/domaintrie/trie.go\<close>. A node holds its children in a
  slice sorted by label, found by binary search, and two rule slots, exact and suffix; a path from
  the root spells a domain from its top-level label down. The nodes of a trie are owned by it and
  never shared, so the pointers of the source are a nested datatype and a write through
  \<^verbatim>\<open>curr\<close> rebuilds the path. A nil receiver, for which every method returns its zero value, is
  not represented. An \<^verbatim>\<open>io.Writer\<close> is a state with a write function that may fail.
\<close>

section \<open>Rules\<close>

type_synonym rule_scope = string

definition RuleScopeExact :: rule_scope where
  "RuleScopeExact = ''exact''"

definition RuleScopeSuffix :: rule_scope where
  "RuleScopeSuffix = ''suffix''"

definition RuleActionBlock :: string where
  "RuleActionBlock = ''block''"

definition LegacyRuleSourceID :: string where
  "LegacyRuleSourceID = ''legacy''"

definition CacheV2Header :: string where
  "CacheV2Header = ''# safe-zone-adblock-cache-v2''"

definition DefaultRuleCategory :: string where
  "DefaultRuleCategory = ''unknown''"

definition validRuleCategories :: "string list" where
  "validRuleCategories = [''ads'', ''tracking'', ''telemetry'', ''nuisance'', ''unknown'']"

definition IsValidRuleCategory :: "string \<Rightarrow> bool" where
  "IsValidRuleCategory category \<longleftrightarrow> category \<in> set validRuleCategories"

datatype scope_origin =
    OriginUnspecified
  | OriginGlobalDefault
  | OriginSourcePolicyExact
  | OriginSourcePolicySuffix
  | OriginWildcard
  | OriginLegacyAdd
  | OriginCacheV2Unknown
  | OriginLegacyCache

record rule =
  rDomain :: string
  rScope :: rule_scope
  rSourceID :: string
  rCategory :: string
  rAction :: string
  rOrigin :: scope_origin

definition zero_rule :: rule where
  "zero_rule = \<lparr>rDomain = [], rScope = [], rSourceID = [], rCategory = [], rAction = [],
     rOrigin = OriginUnspecified\<rparr>"

section \<open>Nodes\<close>

datatype node = Node (children: "(string \<times> node) list") (Exact: "rule option") (Suffix: "rule option")

definition empty_node :: node where
  "empty_node = Node [] None None"

text \<open>
  The binary search of \<^verbatim>\<open>findChild\<close>; \<^verbatim>\<open>lo\<close> and \<^verbatim>\<open>hi\<close> are signed, \<^verbatim>\<open>hi\<close> starts at
  \<^verbatim>\<open>len-1\<close> and reaches -1 on an empty slice.
\<close>

function find_loop :: "(string \<times> node) list \<Rightarrow> string \<Rightarrow> int \<Rightarrow> int \<Rightarrow> node option" where
  "find_loop cs label lo hi =
     (if lo \<le> hi then
        let mid = (lo + hi) div 2 in
        if fst (cs ! nat mid) < label then find_loop cs label (mid + 1) hi
        else if fst (cs ! nat mid) > label then find_loop cs label lo (mid - 1)
        else Some (snd (cs ! nat mid))
      else None)"
  by pat_completeness auto
termination
  by (relation "measure (\<lambda>(cs, label, lo, hi). nat (hi + 1 - lo))") auto

definition findChild :: "(string \<times> node) list \<Rightarrow> string \<Rightarrow> node option" where
  "findChild cs label = find_loop cs label 0 (int (length cs) - 1)"

text \<open>
  The search of \<^verbatim>\<open>addChild\<close>: the index of an existing child (\<open>Inl\<close>) or the position at which a new
  one belongs (\<open>Inr\<close>).
\<close>

function add_loop :: "(string \<times> node) list \<Rightarrow> string \<Rightarrow> int \<Rightarrow> int \<Rightarrow> nat + nat" where
  "add_loop cs label lo hi =
     (if lo \<le> hi then
        let mid = (lo + hi) div 2 in
        if fst (cs ! nat mid) < label then add_loop cs label (mid + 1) hi
        else if fst (cs ! nat mid) > label then add_loop cs label lo (mid - 1)
        else Inl (nat mid)
      else Inr (nat lo))"
  by pat_completeness auto
termination
  by (relation "measure (\<lambda>(cs, label, lo, hi). nat (hi + 1 - lo))") auto

declare find_loop.simps [simp del] add_loop.simps [simp del]

text \<open>\<^verbatim>\<open>addChild\<close>: the children afterwards and the index of the returned child.\<close>

definition addChild :: "(string \<times> node) list \<Rightarrow> string \<Rightarrow> (string \<times> node) list \<times> nat" where
  "addChild cs label =
     (case add_loop cs label 0 (int (length cs) - 1) of
        Inl i \<Rightarrow> (cs, i)
      | Inr i \<Rightarrow> (take i cs @ [(label, empty_node)] @ drop i cs, i))"

section \<open>Domains as paths\<close>

definition normalizeDomain :: "libs \<Rightarrow> string \<Rightarrow> string" where
  "normalizeDomain L domain0 =
     (let domain = to_lower (trim_space domain0) in
      if domain = [] then []
      else case idna_to_ascii L domain of None \<Rightarrow> domain | Some ascii \<Rightarrow> ascii)"

function strip_wildcards :: "string \<Rightarrow> string" where
  "strip_wildcards domain =
     (if has_prefix domain ''*.'' then strip_wildcards (trim_prefix domain ''*.'') else domain)"
  by pat_completeness auto
termination
  by (relation "measure length") (auto simp: trim_prefix_def has_prefix_iff)

definition sanitizeDomain :: "string \<Rightarrow> string" where
  "sanitizeDomain domain0 =
     (let domain = strip_wildcards domain0 in if contains domain ''*'' then [] else domain)"

function collapse_dots :: "string \<Rightarrow> string" where
  "collapse_dots s =
     (if contains s ''..'' then collapse_dots (collapse_pairs (CHR ''.'') s) else s)"
  by pat_completeness auto
termination
  by (relation "measure length") (auto intro: length_collapse_pairs_less)

text \<open>
  The label scan shared by \<^verbatim>\<open>AddRule\<close> and \<^verbatim>\<open>MatchRuleDetail\<close>: \<^verbatim>\<open>end\<close> moves left to the last dot
  before it, empty labels are skipped, and the loop stops at \<^verbatim>\<open>end <= 0\<close>.
\<close>

function walk_labels :: "string \<Rightarrow> int \<Rightarrow> string list" where
  "walk_labels domain e =
     (if e > 0 then
        let start = last_index_byte (take (nat e) domain) (CHR ''.'');
            label = drop (nat (start + 1)) (take (nat e) domain)
        in (if label = [] then walk_labels domain start
            else label # walk_labels domain start)
      else [])"
  by pat_completeness auto
termination
  by (relation "measure (\<lambda>(domain, e). nat e)")
     (simp_all add: last_index_byte_take)

declare strip_wildcards.simps [simp del] collapse_dots.simps [simp del] walk_labels.simps [simp del]

definition path_of :: "string \<Rightarrow> string list" where
  "path_of domain = walk_labels domain (int (length domain))"

section \<open>The trie\<close>

record trie =
  root :: node
  exactCount :: nat
  suffixCount :: nat

definition NewTrie :: trie where
  "NewTrie = \<lparr>root = empty_node, exactCount = 0, suffixCount = 0\<rparr>"

definition Clear :: "trie \<Rightarrow> trie" where
  "Clear t = t\<lparr>root := empty_node, exactCount := 0, suffixCount := 0\<rparr>"

definition Count :: "trie \<Rightarrow> nat" where
  "Count t = exactCount t + suffixCount t"

text \<open>
  The descent of \<^verbatim>\<open>AddRule\<close>, creating missing children, and the write to one slot at its end; the
  result says whether the slot was free.
\<close>

fun store_slot :: "node \<Rightarrow> string list \<Rightarrow> rule \<Rightarrow> bool \<times> node" where
  "store_slot (Node cs ex su) [] stored =
     (if rScope stored = RuleScopeExact then
        (case ex of Some r \<Rightarrow> (False, Node cs ex su) | None \<Rightarrow> (True, Node cs (Some stored) su))
      else
        (case su of Some r \<Rightarrow> (False, Node cs ex su) | None \<Rightarrow> (True, Node cs ex (Some stored))))"
| "store_slot (Node cs ex su) (label # labels) stored =
     (let (cs', i) = addChild cs label;
          (ok, child') = store_slot (snd (cs' ! i)) labels stored
      in (ok, Node (cs'[i := (label, child')]) ex su))"

text \<open>The checks and normalisations of \<^verbatim>\<open>AddRule\<close> before the descent: the rule it will store.\<close>

definition prepare_rule :: "libs \<Rightarrow> rule \<Rightarrow> rule option" where
  "prepare_rule L rule =
     (let raw = trim_space (rDomain rule) in
      if raw = [] then None
      else
        let forcedSuffix = has_prefix raw ''*.'';
            domain0 = sanitizeDomain (normalizeDomain L raw)
        in if domain0 = [] then None
        else
          let domain = collapse_dots (trim_right_by (\<lambda>c. c = CHR ''.'') domain0)
          in if \<not> IsRegistrableDomain L domain then None
          else
            let scope0 = (if forcedSuffix then RuleScopeSuffix else rScope rule);
                origin = (if forcedSuffix then OriginWildcard else rOrigin rule);
                scope = (if scope0 \<noteq> RuleScopeExact \<and> scope0 \<noteq> RuleScopeSuffix
                         then RuleScopeSuffix else scope0);
                category0 = to_lower (trim_space (rCategory rule));
                category = (if IsValidRuleCategory category0 then category0 else DefaultRuleCategory);
                action0 = to_lower (trim_space (rAction rule));
                action = (if action0 = [] then RuleActionBlock else action0)
            in if action \<noteq> RuleActionBlock then None
            else Some \<lparr>rDomain = domain, rScope = scope, rSourceID = rSourceID rule,
                       rCategory = category, rAction = action, rOrigin = origin\<rparr>)"

definition AddRule :: "libs \<Rightarrow> trie \<Rightarrow> rule \<Rightarrow> bool \<times> trie" where
  "AddRule L t rule =
     (case prepare_rule L rule of
        None \<Rightarrow> (False, t)
      | Some stored \<Rightarrow>
          (let (ok, n) = store_slot (root t) (path_of (rDomain stored)) stored in
           if rScope stored = RuleScopeExact then
             (ok, t\<lparr>root := n, exactCount := (if ok then exactCount t + 1 else exactCount t)\<rparr>)
           else
             (ok, t\<lparr>root := n, suffixCount := (if ok then suffixCount t + 1 else suffixCount t)\<rparr>)))"

definition Add :: "libs \<Rightarrow> trie \<Rightarrow> string \<Rightarrow> trie" where
  "Add L t domain =
     snd (AddRule L t \<lparr>rDomain = domain, rScope = RuleScopeSuffix, rSourceID = LegacyRuleSourceID,
       rCategory = DefaultRuleCategory, rAction = RuleActionBlock, rOrigin = OriginLegacyAdd\<rparr>)"

section \<open>Lookup\<close>

record match_detail =
  mdRule :: rule
  mdQuery :: string
  mdMatched :: bool

definition no_match :: match_detail where
  "no_match = \<lparr>mdRule = zero_rule, mdQuery = [], mdMatched = False\<rparr>"

fun match_walk :: "node \<Rightarrow> string list \<Rightarrow> rule option \<Rightarrow> rule option" where
  "match_walk n [] deepest = (case Exact n of Some r \<Rightarrow> Some r | None \<Rightarrow> deepest)"
| "match_walk n (label # labels) deepest =
     (case findChild (children n) label of
        None \<Rightarrow> deepest
      | Some child \<Rightarrow>
          match_walk child labels (case Suffix child of Some r \<Rightarrow> Some r | None \<Rightarrow> deepest))"

definition MatchRuleDetail :: "libs \<Rightarrow> trie \<Rightarrow> string \<Rightarrow> match_detail" where
  "MatchRuleDetail L t domain0 =
     (let domain = normalizeDomain L domain0 in
      if domain = [] then no_match
      else case match_walk (root t) (path_of domain) None of
        Some r \<Rightarrow> \<lparr>mdRule = r, mdQuery = domain, mdMatched = True\<rparr>
      | None \<Rightarrow> no_match)"

definition MatchRule :: "libs \<Rightarrow> trie \<Rightarrow> string \<Rightarrow> rule \<times> bool" where
  "MatchRule L t domain = (let detail = MatchRuleDetail L t domain in (mdRule detail, mdMatched detail))"

definition Match :: "libs \<Rightarrow> trie \<Rightarrow> string \<Rightarrow> bool" where
  "Match L t domain = snd (MatchRule L t domain)"

section \<open>Traversal\<close>

text \<open>
  \<^verbatim>\<open>ForEach\<close> over a visitor that may change its own state \<open>'s\<close> and may stop the walk by returning
  false; the pair is (stopped, state).
\<close>

fun visit_slot :: "('s \<Rightarrow> rule \<Rightarrow> bool \<times> 's) \<Rightarrow> rule option \<Rightarrow> bool \<times> 's \<Rightarrow> bool \<times> 's" where
  "visit_slot fn None st = st"
| "visit_slot fn (Some r) (stopped, s) =
     (if stopped then (stopped, s) else let (continue, s') = fn s r in (\<not> continue, s'))"

fun walk_node :: "('s \<Rightarrow> rule \<Rightarrow> bool \<times> 's) \<Rightarrow> node \<Rightarrow> bool \<times> 's \<Rightarrow> bool \<times> 's"
  and walk_children :: "('s \<Rightarrow> rule \<Rightarrow> bool \<times> 's) \<Rightarrow> (string \<times> node) list \<Rightarrow> bool \<times> 's \<Rightarrow> bool \<times> 's" where
  "walk_node fn (Node cs ex su) st =
     (if fst st then st
      else let st1 = visit_slot fn ex st; st2 = visit_slot fn su st1 in
           if fst st2 then st2 else walk_children fn cs st2)"
| "walk_children fn [] st = st"
| "walk_children fn ((label, child) # cs) st =
     (let st' = walk_node fn child st in if fst st' then st' else walk_children fn cs st')"

definition ForEach :: "trie \<Rightarrow> ('s \<Rightarrow> rule \<Rightarrow> bool \<times> 's) \<Rightarrow> 's \<Rightarrow> 's" where
  "ForEach t fn s = snd (walk_node fn (root t) (False, s))"

definition MergeFrom :: "libs \<Rightarrow> trie \<Rightarrow> trie \<Rightarrow> nat \<times> trie" where
  "MergeFrom L t src =
     ForEach src (\<lambda>(merged, t) rule.
       let (ok, t') = AddRule L t rule in (True, (if ok then merged + 1 else merged, t'))) (0, t)"

section \<open>The v2 cache format\<close>

definition tab :: char where
  "tab = CHR 0x09"

definition newline :: char where
  "newline = CHR 0x0A"

definition rule_line :: "rule \<Rightarrow> string" where
  "rule_line r = rDomain r @ [tab] @ rScope r @ [tab] @ rCategory r @ [tab] @ rAction r @ [tab] @ rSourceID r"

text \<open>
  \<^verbatim>\<open>WriteToV2\<close>: the writer state \<open>'w\<close>, the bytes written so far and whether a write failed; a failed
  write reports how many bytes it took. After the first failure nothing more is written.
\<close>

type_synonym 'w writer = "'w \<Rightarrow> string \<Rightarrow> nat \<times> bool \<times> 'w"

definition write_rule :: "'w writer \<Rightarrow> nat \<times> bool \<times> 'w \<Rightarrow> rule \<Rightarrow> bool \<times> (nat \<times> bool \<times> 'w)" where
  "write_rule write st r =
     (let (total, err, w) = st in
      if err then (False, st)
      else let (n, err', w') = write w (rule_line r @ [newline]) in
           (\<not> err', (total + n, err', w')))"

definition WriteToV2 :: "'w writer \<Rightarrow> trie \<Rightarrow> 'w \<Rightarrow> nat \<times> bool \<times> 'w" where
  "WriteToV2 write t w =
     (let (n, err, w') = write w (CacheV2Header @ [newline]) in
      if err then (0, err, w')
      else ForEach t (write_rule write) (length CacheV2Header + 1, False, w'))"

definition ParseCacheV2Line :: "string \<Rightarrow> rule option" where
  "ParseCacheV2Line line =
     (case split_on tab line of
        [domain, scope, category, action, source] \<Rightarrow>
          (if domain = [] \<or> source = [] then None
           else if scope \<noteq> RuleScopeExact \<and> scope \<noteq> RuleScopeSuffix then None
           else if \<not> IsValidRuleCategory category then None
           else if action \<noteq> RuleActionBlock then None
           else Some \<lparr>rDomain = domain, rScope = scope, rSourceID = source, rCategory = category,
                      rAction = action, rOrigin = OriginCacheV2Unknown\<rparr>)
      | _ \<Rightarrow> None)"

end
