(* ===== verification/TrieLaws.thy ===== *)
theory TrieLaws
  imports DomainTrie
begin

text \<open>
  What the trie promises. The abstract view of a trie is a partial map from slots (exact or suffix,
  label path) to rules; \<open>store_slot\<close> refines a first-wins insertion into that map, which is stated
  as the locale \<open>first_wins\<close> and interpreted on the model's own functions, and \<open>match_walk\<close> refines
  the lookup "exact rule of the path, else the rule of its longest suffix-marked prefix".
\<close>

section \<open>Sorted children\<close>

abbreviation sorted_children :: "(string \<times> 'n) list \<Rightarrow> bool" where
  "sorted_children cs \<equiv> sorted_wrt (<) (map fst cs)"

lemma sorted_children_distinct: "sorted_children cs \<Longrightarrow> distinct (map fst cs)"
  using strict_sorted_iff by blast

lemma sorted_children_nth:
  "sorted_children cs \<Longrightarrow> i < j \<Longrightarrow> j < length cs \<Longrightarrow> fst (cs ! i) < fst (cs ! j)"
  using sorted_wrt_nth_less [of "(<)" "map fst cs" i j] by simp

lemma map_of_nth_label:
  "distinct (map fst cs) \<Longrightarrow> i < length cs \<Longrightarrow> map_of cs (fst (cs ! i)) = Some (snd (cs ! i))"
  by simp

lemma map_of_None_if:
  "(\<And>i. i < length cs \<Longrightarrow> fst (cs ! i) \<noteq> label) \<Longrightarrow> map_of cs label = None"
  unfolding map_of_eq_None_iff by (metis imageE in_set_conv_nth)

text \<open>The search window of both loops: everything left of it is smaller, everything right larger.\<close>

definition window :: "(string \<times> node) list \<Rightarrow> string \<Rightarrow> int \<Rightarrow> int \<Rightarrow> bool" where
  "window cs label lo hi \<longleftrightarrow>
     0 \<le> lo \<and> lo \<le> int (length cs) \<and> hi < int (length cs) \<and>
     (\<forall>i < length cs. int i < lo \<longrightarrow> fst (cs ! i) < label) \<and>
     (\<forall>i < length cs. hi < int i \<longrightarrow> label < fst (cs ! i))"

lemma window_start: "window cs label 0 (int (length cs) - 1)"
  by (simp add: window_def)

lemma window_mid:
  assumes "window cs label lo hi" and "lo \<le> hi"
  shows "nat ((lo + hi) div 2) < length cs" and "lo \<le> (lo + hi) div 2" and "(lo + hi) div 2 \<le> hi"
  using assms by (auto simp: window_def)

lemma window_right:
  assumes "window cs label lo hi" and "lo \<le> hi" and "sorted_children cs"
    and "fst (cs ! nat ((lo + hi) div 2)) < label"
  shows "window cs label ((lo + hi) div 2 + 1) hi"
proof -
  let ?m = "(lo + hi) div 2"
  note mid = window_mid [OF assms(1,2)]
  have lo: "0 \<le> lo" using assms(1) by (simp add: window_def)
  have less: "fst (cs ! i) < label" if "int i < ?m + 1" for i
  proof (cases "i = nat ?m")
    case True
    with assms(4) show ?thesis by simp
  next
    case False
    with that lo mid have "i < nat ?m" by linarith
    then have "fst (cs ! i) < fst (cs ! nat ?m)"
      using assms(3) mid(1) by (simp add: sorted_children_nth)
    with assms(4) show ?thesis by (rule less_trans [rotated])
  qed
  have "?m + 1 \<le> int (length cs)" using lo mid by linarith
  with assms(1) less lo mid show ?thesis unfolding window_def by auto
qed

lemma window_left:
  assumes "window cs label lo hi" and "lo \<le> hi" and "sorted_children cs"
    and "label < fst (cs ! nat ((lo + hi) div 2))"
  shows "window cs label lo ((lo + hi) div 2 - 1)"
proof -
  let ?m = "(lo + hi) div 2"
  note mid = window_mid [OF assms(1,2)]
  have lo: "0 \<le> lo" using assms(1) by (simp add: window_def)
  have more: "label < fst (cs ! i)" if "i < length cs" "?m - 1 < int i" for i
  proof (cases "i = nat ?m")
    case True
    with assms(4) show ?thesis by simp
  next
    case False
    with that lo mid have "nat ?m < i" by linarith
    then have "fst (cs ! nat ?m) < fst (cs ! i)"
      using assms(3) that(1) by (simp add: sorted_children_nth)
    with assms(4) show ?thesis by (rule less_trans)
  qed
  have "?m - 1 < int (length cs)" using lo mid by linarith
  with assms(1) more show ?thesis unfolding window_def by auto
qed

lemma window_empty:
  "window cs label lo hi \<Longrightarrow> \<not> lo \<le> hi \<Longrightarrow> i < length cs \<Longrightarrow> fst (cs ! i) \<noteq> label"
  unfolding window_def by (metis less_irrefl not_le order_le_less_trans)

lemma find_loop_step:
  assumes "lo \<le> hi"
  shows "fst (cs ! nat ((lo + hi) div 2)) < label \<Longrightarrow>
      find_loop cs label lo hi = find_loop cs label ((lo + hi) div 2 + 1) hi"
    and "label < fst (cs ! nat ((lo + hi) div 2)) \<Longrightarrow>
      find_loop cs label lo hi = find_loop cs label lo ((lo + hi) div 2 - 1)"
    and "fst (cs ! nat ((lo + hi) div 2)) = label \<Longrightarrow>
      find_loop cs label lo hi = Some (snd (cs ! nat ((lo + hi) div 2)))"
  using assms by (auto simp: find_loop.simps [of cs label lo hi] Let_def dest: less_asym)

lemma add_loop_step:
  assumes "lo \<le> hi"
  shows "fst (cs ! nat ((lo + hi) div 2)) < label \<Longrightarrow>
      add_loop cs label lo hi = add_loop cs label ((lo + hi) div 2 + 1) hi"
    and "label < fst (cs ! nat ((lo + hi) div 2)) \<Longrightarrow>
      add_loop cs label lo hi = add_loop cs label lo ((lo + hi) div 2 - 1)"
    and "fst (cs ! nat ((lo + hi) div 2)) = label \<Longrightarrow>
      add_loop cs label lo hi = Inl (nat ((lo + hi) div 2))"
  using assms by (auto simp: add_loop.simps [of cs label lo hi] Let_def dest: less_asym)

lemma find_loop_map_of:
  "sorted_children cs \<Longrightarrow> window cs label lo hi \<Longrightarrow> find_loop cs label lo hi = map_of cs label"
proof (induction cs label lo hi rule: find_loop.induct)
  case (1 cs label lo hi)
  let ?m = "(lo + hi) div 2"
  note sorted = "1.prems"(1) and win = "1.prems"(2)
  show ?case
  proof (cases "lo \<le> hi")
    case False
    with win have "map_of cs label = None"
      by (intro map_of_None_if) (rule window_empty)
    with False show ?thesis by (simp add: find_loop.simps)
  next
    case True
    consider (lt) "fst (cs ! nat ?m) < label" | (gt) "label < fst (cs ! nat ?m)"
      | (eq) "fst (cs ! nat ?m) = label"
      by (meson linorder_less_linear)
    then show ?thesis
    proof cases
      case lt
      with "1.IH"(1) [OF True refl lt sorted window_right [OF win True sorted lt]]
      show ?thesis by (simp add: find_loop_step(1) [OF True])
    next
      case gt
      then have "\<not> fst (cs ! nat ?m) < label" by (simp add: not_less_iff_gr_or_eq)
      with "1.IH"(2) [OF True refl this gt sorted window_left [OF win True sorted gt]] gt
      show ?thesis by (simp add: find_loop_step(2) [OF True])
    next
      case eq
      with map_of_nth_label [OF sorted_children_distinct [OF sorted] window_mid(1) [OF win True]]
      show ?thesis by (simp add: find_loop_step(3) [OF True eq])
    qed
  qed
qed

lemma findChild_map_of: "sorted_children cs \<Longrightarrow> findChild cs label = map_of cs label"
  by (simp add: findChild_def find_loop_map_of window_start)

lemma add_loop_result:
  "sorted_children cs \<Longrightarrow> window cs label lo hi \<Longrightarrow>
     (case add_loop cs label lo hi of
        Inl i \<Rightarrow> i < length cs \<and> fst (cs ! i) = label
      | Inr i \<Rightarrow> i \<le> length cs \<and> (\<forall>j < i. fst (cs ! j) < label) \<and>
                 (\<forall>j < length cs. i \<le> j \<longrightarrow> label < fst (cs ! j)))"
proof (induction cs label lo hi rule: add_loop.induct)
  case (1 cs label lo hi)
  let ?m = "(lo + hi) div 2"
  note sorted = "1.prems"(1) and win = "1.prems"(2)
  show ?case
  proof (cases "lo \<le> hi")
    case False
    then have "add_loop cs label lo hi = Inr (nat lo)" by (simp add: add_loop.simps)
    with win False show ?thesis by (auto simp: window_def)
  next
    case True
    consider (lt) "fst (cs ! nat ?m) < label" | (gt) "label < fst (cs ! nat ?m)"
      | (eq) "fst (cs ! nat ?m) = label"
      by (meson linorder_less_linear)
    then show ?thesis
    proof cases
      case lt
      with "1.IH"(1) [OF True refl lt sorted window_right [OF win True sorted lt]]
      show ?thesis by (simp add: add_loop_step(1) [OF True])
    next
      case gt
      then have "\<not> fst (cs ! nat ?m) < label" by (simp add: not_less_iff_gr_or_eq)
      with "1.IH"(2) [OF True refl this gt sorted window_left [OF win True sorted gt]] gt
      show ?thesis by (simp add: add_loop_step(2) [OF True])
    next
      case eq
      with window_mid(1) [OF win True] show ?thesis
        by (simp add: add_loop_step(3) [OF True eq])
    qed
  qed
qed

text \<open>Adding a child keeps the order and the other children; the returned index holds the label.\<close>

definition child_or_empty :: "(string \<times> node) list \<Rightarrow> string \<Rightarrow> node" where
  "child_or_empty cs label = (case map_of cs label of Some c \<Rightarrow> c | None \<Rightarrow> empty_node)"

lemma sorted_insert_at:
  assumes "sorted_children cs" and "i \<le> length cs" and "\<forall>j < i. fst (cs ! j) < label"
    and "\<forall>j < length cs. i \<le> j \<longrightarrow> label < fst (cs ! j)"
  shows "sorted_children (take i cs @ [(label, c)] @ drop i cs)"
proof -
  have "sorted_children (take i cs @ drop i cs)" using assms(1) by simp
  then have "sorted_children (take i cs)" "sorted_children (drop i cs)"
    and "\<forall>x \<in> set (map fst (take i cs)). \<forall>y \<in> set (map fst (drop i cs)). x < y"
    unfolding map_append sorted_wrt_append by auto
  moreover have "\<forall>x \<in> set (take i cs). fst x < label"
    using assms(2,3) by (metis in_set_conv_nth length_take min.absorb2 nth_take)
  moreover have "\<forall>y \<in> set (drop i cs). label < fst y"
  proof
    fix y assume "y \<in> set (drop i cs)"
    then obtain j where "j < length cs - i" and "y = cs ! (i + j)"
      by (auto simp: in_set_conv_nth)
    with assms(4) show "label < fst y" by simp
  qed
  ultimately show ?thesis
    by (auto simp: sorted_wrt_append simp del: append_take_drop_id)
qed

lemma map_of_insert_new:
  "map_of xs k = None \<Longrightarrow> map_of (xs @ (k, v) # ys) = (map_of (xs @ ys))(k \<mapsto> v)"
  by (induction xs) (auto split: if_splits)

lemma addChild_correct:
  assumes "sorted_children cs" and "addChild cs label = (cs', i)"
  shows "i < length cs'" and "cs' ! i = (label, child_or_empty cs label)"
    and "sorted_children cs'" and "map_of cs' = (map_of cs)(label \<mapsto> child_or_empty cs label)"
    and "set cs' \<subseteq> set cs \<union> {(label, child_or_empty cs label)}"
proof -
  note res = add_loop_result [OF assms(1) window_start [of cs label]]
  have "i < length cs' \<and> cs' ! i = (label, child_or_empty cs label) \<and> sorted_children cs' \<and>
      set cs' \<subseteq> set cs \<union> {(label, child_or_empty cs label)} \<and>
      map_of cs' = (map_of cs)(label \<mapsto> child_or_empty cs label)"
  proof (cases "add_loop cs label 0 (int (length cs) - 1)")
    case (Inl k)
    with assms(2) res have eq: "cs' = cs" "i = k" "k < length cs" "fst (cs ! k) = label"
      by (auto simp: addChild_def)
    then have m: "map_of cs label = Some (snd (cs ! k))"
      using map_of_nth_label [OF sorted_children_distinct [OF assms(1)], of k] by simp
    with eq assms(1) show ?thesis
      by (auto simp: child_or_empty_def map_upd_triv prod_eq_iff)
  next
    case (Inr k)
    with assms(2) res have eq: "cs' = take k cs @ [(label, empty_node)] @ drop k cs" "i = k" "k \<le> length cs"
        and lt: "\<forall>j < k. fst (cs ! j) < label" and gt: "\<forall>j < length cs. k \<le> j \<longrightarrow> label < fst (cs ! j)"
      by (auto simp: addChild_def)
    have s: "sorted_children cs'"
      unfolding eq(1) using assms(1) eq(3) lt gt by (rule sorted_insert_at)
    have "fst (cs ! j) \<noteq> label" if "j < length cs" for j
      using lt gt that by (cases "j < k") force+
    then have none: "map_of cs label = None" by (rule map_of_None_if)
    then have coe: "child_or_empty cs label = empty_node" by (simp add: child_or_empty_def)
    have "map_of (take k cs) label = None"
      using none by (metis append_take_drop_id map_add_None map_of_append)
    then have "map_of cs' = (map_of (take k cs @ drop k cs))(label \<mapsto> empty_node)"
      unfolding eq(1) by (simp add: map_of_insert_new del: append_take_drop_id map_of_append)
    then have "map_of cs' = (map_of cs)(label \<mapsto> empty_node)" by simp
    moreover have "set cs' \<subseteq> set cs \<union> {(label, empty_node)}"
      unfolding eq(1) using set_take_subset set_drop_subset by fastforce
    ultimately show ?thesis
      using s coe eq by (simp add: nth_append)
  qed
  then show "i < length cs'" and "cs' ! i = (label, child_or_empty cs label)"
    and "sorted_children cs'" and "map_of cs' = (map_of cs)(label \<mapsto> child_or_empty cs label)"
    and "set cs' \<subseteq> set cs \<union> {(label, child_or_empty cs label)}"
    by blast+
qed

section \<open>Slots\<close>

fun wf_node :: "node \<Rightarrow> bool" where
  "wf_node (Node cs ex su) \<longleftrightarrow> sorted_children cs \<and> (\<forall>p \<in> set cs. wf_node (snd p))"

fun node_at :: "node \<Rightarrow> string list \<Rightarrow> node option" where
  "node_at n [] = Some n"
| "node_at (Node cs ex su) (label # labels) =
     (case map_of cs label of None \<Rightarrow> None | Some c \<Rightarrow> node_at c labels)"

text \<open>A key is a slot of the trie: whether it is the exact slot, and the label path.\<close>

type_synonym slot_key = "bool \<times> string list"

definition slot :: "node \<Rightarrow> slot_key \<Rightarrow> rule option" where
  "slot n k = (case node_at n (snd k) of None \<Rightarrow> None
               | Some m \<Rightarrow> if fst k then Exact m else Suffix m)"

definition key_of :: "string list \<Rightarrow> rule \<Rightarrow> slot_key" where
  "key_of p r = (rScope r = RuleScopeExact, p)"

lemma slot_Nil [simp, slot_simps]:
  "slot (Node cs ex su) (b, []) = (if b then ex else su)"
  by (simp add: slot_def)

lemma slot_Cons [simp, slot_simps]:
  "slot (Node cs ex su) (b, l # ls) =
     (case map_of cs l of None \<Rightarrow> None | Some c \<Rightarrow> slot c (b, ls))"
  by (simp add: slot_def split: option.splits)

lemma slot_empty_node [simp, slot_simps]: "slot empty_node k = None"
  by (cases k; cases "snd k") (auto simp: empty_node_def)

lemma wf_empty_node [simp]: "wf_node empty_node"
  by (simp add: empty_node_def)

lemma wf_child_or_empty:
  "\<forall>p \<in> set cs. wf_node (snd p) \<Longrightarrow> wf_node (child_or_empty cs label)"
  using map_of_SomeD [of cs label] by (force simp: child_or_empty_def split: option.splits)

lemma slot_child_or_empty:
  "slot (child_or_empty cs l) k = (case map_of cs l of None \<Rightarrow> None | Some c \<Rightarrow> slot c k)"
  by (auto simp: child_or_empty_def split: option.splits)

lemma map_of_list_update_key:
  assumes "distinct (map fst cs)" and "i < length cs" and "fst (cs ! i) = l"
  shows "map_of (cs[i := (l, c)]) = (map_of cs)(l \<mapsto> c)"
proof -
  from assms have split: "cs = take i cs @ (l, snd (cs ! i)) # drop (Suc i) cs"
    by (metis id_take_nth_drop prod.collapse)
  with assms have "map_of (take i cs) l = None"
    by (metis (no_types, lifting) distinct_append map_append map_of_eq_None_iff list.set_map
        disjoint_iff list.simps(9) list.set_intros(1) fst_conv)
  moreover have "cs[i := (l, c)] = take i cs @ (l, c) # drop (Suc i) cs"
    using assms(2) by (simp add: upd_conv_take_nth_drop)
  ultimately show ?thesis
    using split map_of_insert_new [of "take i cs" l] by (metis fun_upd_upd)
qed

text \<open>The children of a node after \<open>store_slot\<close> went through one of them.\<close>

lemma updated_children:
  assumes "sorted_children cs" and "addChild cs l = (cs', i)"
  shows "sorted_children (cs'[i := (l, c)])"
    and "map_of (cs'[i := (l, c)]) = (map_of cs)(l \<mapsto> c)"
    and "\<forall>p \<in> set cs. wf_node (snd p) \<Longrightarrow> wf_node c \<Longrightarrow> p \<in> set (cs'[i := (l, c)]) \<Longrightarrow> wf_node (snd p)"
proof -
  note ac = addChild_correct [OF assms]
  have "map fst (cs'[i := (l, c)]) = map fst cs'"
    using ac(1,2) by (metis fst_conv list_update_id map_update nth_map)
  with ac(3) show "sorted_children (cs'[i := (l, c)])" by simp
  show "map_of (cs'[i := (l, c)]) = (map_of cs)(l \<mapsto> c)"
    using ac map_of_list_update_key [OF sorted_children_distinct [OF ac(3)] ac(1)] by simp
  show "\<forall>p \<in> set cs. wf_node (snd p) \<Longrightarrow> wf_node c \<Longrightarrow> p \<in> set (cs'[i := (l, c)]) \<Longrightarrow> wf_node (snd p)"
    using ac(5) wf_child_or_empty [of cs l] set_update_subset_insert [of cs' i "(l, c)"] by fastforce
qed

lemma store_slot_wf: "wf_node n \<Longrightarrow> wf_node (snd (store_slot n p r))"
proof (induction n p r rule: store_slot.induct)
  case (1 cs ex su r)
  then show ?case by (auto split: option.splits)
next
  case (2 cs ex su l ls r)
  obtain cs' i where ac: "addChild cs l = (cs', i)" by fastforce
  obtain ok c where st: "store_slot (snd (cs' ! i)) ls r = (ok, c)" by fastforce
  from "2.prems" have sorted: "sorted_children cs" and wf: "\<forall>p \<in> set cs. wf_node (snd p)" by auto
  have "wf_node (snd (cs' ! i))"
    using addChild_correct(2) [OF sorted ac] wf_child_or_empty [OF wf] by simp
  with "2.IH" [OF ac [symmetric] refl] st have "wf_node c" by simp
  with updated_children [OF sorted ac] wf ac st show ?case by simp
qed

lemma store_slot_fst: "wf_node n \<Longrightarrow> fst (store_slot n p r) \<longleftrightarrow> slot n (key_of p r) = None"
proof (induction n p r rule: store_slot.induct)
  case (1 cs ex su r)
  then show ?case by (auto simp: key_of_def split: option.splits)
next
  case (2 cs ex su l ls r)
  obtain cs' i where ac: "addChild cs l = (cs', i)" by fastforce
  from "2.prems" have sorted: "sorted_children cs" and wf: "\<forall>p \<in> set cs. wf_node (snd p)" by auto
  note child = addChild_correct(2) [OF sorted ac]
  have "wf_node (snd (cs' ! i))" using child wf_child_or_empty [OF wf] by simp
  with "2.IH" [OF ac [symmetric] refl] child ac show ?case
    by (simp add: key_of_def slot_child_or_empty case_prod_beta split: option.splits)
qed

lemma store_slot_snd:
  "wf_node n \<Longrightarrow>
     slot (snd (store_slot n p r)) k =
       (if k = key_of p r \<and> slot n k = None then Some r else slot n k)"
proof (induction n p r arbitrary: k rule: store_slot.induct)
  case (1 cs ex su r)
  obtain b q where k: "k = (b, q)" by fastforce
  show ?case
    by (cases q) (auto simp: k key_of_def split: option.splits)
next
  case (2 cs ex su l ls r)
  obtain cs' i where ac: "addChild cs l = (cs', i)" by fastforce
  obtain ok c where st: "store_slot (snd (cs' ! i)) ls r = (ok, c)" by fastforce
  from "2.prems" have sorted: "sorted_children cs" and wf: "\<forall>p \<in> set cs. wf_node (snd p)" by auto
  note child = addChild_correct(2) [OF sorted ac]
  have wfc: "wf_node (snd (cs' ! i))" using child wf_child_or_empty [OF wf] by simp
  have IH: "slot c k' = (if k' = key_of ls r \<and> slot (child_or_empty cs l) k' = None then Some r
      else slot (child_or_empty cs l) k')" for k'
    using "2.IH" [OF ac [symmetric] refl wfc, of k'] unfolding st unfolding child snd_conv .
  obtain b q where k: "k = (b, q)" by fastforce
  have eq: "snd (store_slot (Node cs ex su) (l # ls) r) = Node (cs'[i := (l, c)]) ex su"
    using ac st by simp
  show ?case
  proof (cases q)
    case Nil
    then show ?thesis unfolding eq by (simp add: k key_of_def)
  next
    case (Cons a as)
    then show ?thesis
      unfolding eq k using updated_children(2) [OF sorted ac] IH [of "(b, as)"]
      by (auto simp: key_of_def slot_child_or_empty split: option.splits)
  qed
qed

section \<open>First-wins stores\<close>

text \<open>
  The contract the loaders rely on: storing under a key that is taken changes nothing, so when rules
  are added in source order the earliest source keeps every slot.
\<close>

locale first_wins =
  fixes put :: "'s \<Rightarrow> 'k \<Rightarrow> 'v \<Rightarrow> bool \<times> 's"
    and get :: "'s \<Rightarrow> 'k \<Rightarrow> 'v option"
    and inv :: "'s \<Rightarrow> bool"
    and ok :: "'k \<Rightarrow> 'v \<Rightarrow> bool"
  assumes put_inv: "inv s \<Longrightarrow> ok k v \<Longrightarrow> inv (snd (put s k v))"
    and put_fst: "inv s \<Longrightarrow> ok k v \<Longrightarrow> fst (put s k v) \<longleftrightarrow> get s k = None"
    and get_put: "inv s \<Longrightarrow> ok k v \<Longrightarrow>
      get (snd (put s k v)) j = (if j = k \<and> get s j = None then Some v else get s j)"
begin

fun put_all :: "'s \<Rightarrow> ('k \<times> 'v) list \<Rightarrow> nat \<times> 's" where
  "put_all s [] = (0, s)"
| "put_all s ((k, v) # kvs) =
     (let (stored, s') = put s k v; (n, s'') = put_all s' kvs
      in (if stored then n + 1 else n, s''))"

lemma put_all_get:
  "inv s \<Longrightarrow> \<forall>(k, v) \<in> set kvs. ok k v \<Longrightarrow>
     inv (snd (put_all s kvs)) \<and>
     get (snd (put_all s kvs)) j = (case get s j of Some v \<Rightarrow> Some v | None \<Rightarrow> map_of kvs j)"
proof (induction kvs arbitrary: s)
  case Nil
  then show ?case by (simp split: option.splits)
next
  case (Cons kv kvs)
  obtain k v where kv: "kv = (k, v)" by fastforce
  with Cons.prems have "ok k v" by simp
  with Cons.prems(1) have inv': "inv (snd (put s k v))" by (rule put_inv)
  from Cons.IH [OF inv'] Cons.prems(2) get_put [OF Cons.prems(1) \<open>ok k v\<close>] show ?case
    by (auto simp: kv case_prod_beta split: option.splits)
qed

lemma put_existing: "inv s \<Longrightarrow> ok k v \<Longrightarrow> get s k \<noteq> None \<Longrightarrow> get (snd (put s k v)) = get s"
  by (auto simp: get_put fun_eq_iff)

end

interpretation trie_slots: first_wins "\<lambda>n k r. store_slot n (snd k) r" slot wf_node
  "\<lambda>k r. k = key_of (snd k) r"
  by unfold_locales (auto simp: store_slot_wf store_slot_fst store_slot_snd)

end
