(* ===== verification/TrieProps.thy ===== *)
theory TrieProps
  imports TrieLaws
begin

text \<open>
  The properties of the trie: label paths, the lookup precedence, the invariant of a built trie,
  first-wins insertion, merging of staging tries and the v2 cache round trip.
\<close>

section \<open>Label paths\<close>

lemma walk_labels_split:
  "0 \<le> e \<Longrightarrow> e \<le> int (length domain) \<Longrightarrow>
     walk_labels domain e =
       filter (\<lambda>l. l \<noteq> []) (rev (split_on (CHR ''.'') (take (nat e) domain)))"
proof (induction domain e rule: walk_labels.induct)
  case (1 domain e)
  let ?s = "take (nat e) domain"
  show ?case
  proof (cases "e > 0")
    case False
    with "1.prems" show ?thesis by (simp add: walk_labels.simps)
  next
    case True
    show ?thesis
    proof (cases rule: last_index_byte_cases [of ?s "CHR ''.''"])
      case none
      then have "walk_labels domain (-1) = []" by (simp add: walk_labels.simps)
      moreover have "?s \<noteq> []" using True "1.prems" by auto
      ultimately show ?thesis
        using none True by (subst walk_labels.simps) (auto simp: split_on_no_sep Let_def)
    next
      case (some u v)
      have len: "int (length u) < e"
        using last_index_byte_take [OF True, of domain "CHR ''.''"] some(3) by simp
      have u: "take (length u) domain = u"
      proof -
        have "take (length u) ?s = u" using some(1) by simp
        then show ?thesis using len by (simp add: min_def split: if_splits)
      qed
      have IH: "walk_labels domain (int (length u)) = filter (\<lambda>l. l \<noteq> []) (rev (split_on (CHR ''.'') u))"
      proof -
        have "int (length u) \<le> int (length domain)" using len "1.prems" by linarith
        then show ?thesis
          using "1.IH"(1) [OF True refl refl] "1.IH"(2) [OF True refl refl] some(3) u
          by (cases "drop (nat (int (length u) + 1)) ?s = []") auto
      qed
      have "nat (int (length u) + 1) = Suc (length u)" by simp
      then have "drop (nat (last_index_byte ?s (CHR ''.'') + 1)) ?s = v"
        unfolding some(3) using some(1) by simp
      then have "walk_labels domain e = (if v = [] then walk_labels domain (int (length u))
          else v # walk_labels domain (int (length u)))"
        using True by (subst walk_labels.simps) (simp add: Let_def some(3) del: drop_eq_Nil2 drop_eq_Nil)
      then show ?thesis
        using IH some(1,2) by (simp add: split_on_append_sep split_on_no_sep)
    qed
  qed
qed

lemma path_of_split: "path_of domain = filter (\<lambda>l. l \<noteq> []) (rev (split_on (CHR ''.'') domain))"
  by (simp add: path_of_def walk_labels_split)

section \<open>Lookup\<close>

fun deepest_suffix :: "node \<Rightarrow> string list \<Rightarrow> rule option" where
  "deepest_suffix n [] = None"
| "deepest_suffix n (l # ls) =
     (case map_of (children n) l of
        None \<Rightarrow> None
      | Some c \<Rightarrow> (case deepest_suffix c ls of Some r \<Rightarrow> Some r | None \<Rightarrow> Suffix c))"

lemma wf_node_children: "wf_node n \<Longrightarrow> sorted_children (children n)"
  by (cases n) simp

lemma wf_node_child: "wf_node n \<Longrightarrow> map_of (children n) l = Some c \<Longrightarrow> wf_node c"
  by (cases n) (auto dest!: map_of_SomeD)

lemma slot_step: "slot n (b, l # ls) = (case map_of (children n) l of None \<Rightarrow> None | Some c \<Rightarrow> slot c (b, ls))"
  by (cases n) simp

lemma slot_here: "slot n (b, []) = (if b then Exact n else Suffix n)"
  by (cases n) simp

lemma match_walk_deepest:
  "wf_node n \<Longrightarrow>
     match_walk n p d = (case slot n (True, p) of Some r \<Rightarrow> Some r
       | None \<Rightarrow> (case deepest_suffix n p of Some r \<Rightarrow> Some r | None \<Rightarrow> d))"
proof (induction n p d rule: match_walk.induct)
  case (1 n d)
  then show ?case by (simp add: slot_here split: option.splits)
next
  case (2 n l ls d)
  note find = findChild_map_of [OF wf_node_children [OF "2.prems"], of l]
  show ?case
  proof (cases "map_of (children n) l")
    case None
    then show ?thesis by (simp add: find slot_step)
  next
    case (Some c)
    with "2.IH" [of c] wf_node_child [OF "2.prems" Some] find show ?thesis
      by (auto simp: slot_step split: option.splits)
  qed
qed

lemma deepest_suffix_None:
  "deepest_suffix n p = None \<Longrightarrow> 1 \<le> k \<Longrightarrow> k \<le> length p \<Longrightarrow> slot n (False, take k p) = None"
proof (induction n p arbitrary: k rule: deepest_suffix.induct)
  case (1 n)
  then show ?case by simp
next
  case (2 n l ls)
  then obtain i where k: "k = Suc i" by (cases k) auto
  show ?case
  proof (cases "map_of (children n) l")
    case None
    then show ?thesis by (simp add: k slot_step)
  next
    case (Some c)
    with "2.prems"(1) have none: "deepest_suffix c ls = None" "Suffix c = None"
      by (auto split: option.splits)
    with "2.IH" [OF Some none(1), of i] "2.prems" Some show ?thesis
      by (cases i) (auto simp: k slot_step slot_here)
  qed
qed

lemma deepest_suffix_Some:
  "deepest_suffix n p = Some r \<Longrightarrow>
     \<exists>k. 1 \<le> k \<and> k \<le> length p \<and> slot n (False, take k p) = Some r \<and>
         (\<forall>j. k < j \<longrightarrow> j \<le> length p \<longrightarrow> slot n (False, take j p) = None)"
proof (induction n p rule: deepest_suffix.induct)
  case (1 n)
  then show ?case by simp
next
  case (2 n l ls)
  then obtain c where c: "map_of (children n) l = Some c" by (auto split: option.splits)
  show ?case
  proof (cases "deepest_suffix c ls")
    case (Some r')
    with "2.prems" c have "deepest_suffix c ls = Some r" by simp
    from "2.IH" [OF c this] obtain k where "1 \<le> k" "k \<le> length ls" "slot c (False, take k ls) = Some r"
      and above: "\<And>j. k < j \<Longrightarrow> j \<le> length ls \<Longrightarrow> slot c (False, take j ls) = None" by blast
    moreover have "slot n (False, take j (l # ls)) = None" if "Suc k < j" "j \<le> Suc (length ls)" for j
      using that above [of "j - 1"] c by (cases j) (auto simp: slot_step)
    ultimately show ?thesis
      using c by (intro exI [of _ "Suc k"]) (auto simp: slot_step)
  next
    case None
    have "slot n (False, take j (l # ls)) = None" if "1 < j" "j \<le> Suc (length ls)" for j
      using that deepest_suffix_None [OF None, of "j - 1"] c by (cases j) (auto simp: slot_step)
    with None "2.prems" c show ?thesis
      by (intro exI [of _ 1]) (auto simp: slot_step slot_here)
  qed
qed

section \<open>The invariant of a built trie\<close>

text \<open>
  Every stored rule sits in the slot its own domain and scope name, carries a valid category and the
  block action, and names a registrable domain; the counters are the numbers of occupied slots.
\<close>

definition stored_ok :: "libs \<Rightarrow> slot_key \<Rightarrow> rule \<Rightarrow> bool" where
  "stored_ok L k r \<longleftrightarrow>
     k = key_of (path_of (rDomain r)) r \<and> rScope r \<in> {RuleScopeExact, RuleScopeSuffix} \<and>
     IsValidRuleCategory (rCategory r) \<and> rAction r = RuleActionBlock \<and>
     IsRegistrableDomain L (rDomain r)"

definition occupied :: "node \<Rightarrow> bool \<Rightarrow> string list set" where
  "occupied n b = {p. slot n (b, p) \<noteq> None}"

definition trie_inv :: "libs \<Rightarrow> trie \<Rightarrow> bool" where
  "trie_inv L t \<longleftrightarrow>
     wf_node (root t) \<and> (\<forall>k r. slot (root t) k = Some r \<longrightarrow> stored_ok L k r) \<and>
     finite (occupied (root t) True) \<and> exactCount t = card (occupied (root t) True) \<and>
     finite (occupied (root t) False) \<and> suffixCount t = card (occupied (root t) False)"

lemma trie_inv_NewTrie: "trie_inv L NewTrie"
  by (simp add: trie_inv_def NewTrie_def occupied_def)

lemma trie_inv_Clear: "trie_inv L (Clear t)"
  by (simp add: trie_inv_def Clear_def occupied_def)

lemma prepare_rule_ok:
  "prepare_rule L rule = Some s \<Longrightarrow> stored_ok L (key_of (path_of (rDomain s)) s) s"
  by (auto simp: prepare_rule_def stored_ok_def Let_def IsValidRuleCategory_def
      validRuleCategories_def DefaultRuleCategory_def split: if_splits)

text \<open>The effect of \<open>AddRule\<close> on the abstract slots.\<close>

lemma AddRule_accepted:
  fixes t
  assumes "prepare_rule L rule = Some s"
  defines "st \<equiv> store_slot (root t) (path_of (rDomain s)) s"
  shows "fst (AddRule L t rule) = fst st" and "root (snd (AddRule L t rule)) = snd st"
    and "exactCount (snd (AddRule L t rule)) =
      exactCount t + (if rScope s = RuleScopeExact \<and> fst st then 1 else 0)"
    and "suffixCount (snd (AddRule L t rule)) =
      suffixCount t + (if rScope s \<noteq> RuleScopeExact \<and> fst st then 1 else 0)"
  by (simp_all add: AddRule_def assms case_prod_beta)

lemma AddRule_slots:
  assumes "wf_node (root t)" and "prepare_rule L rule = Some s"
  defines "k \<equiv> key_of (path_of (rDomain s)) s"
  shows "fst (AddRule L t rule) \<longleftrightarrow> slot (root t) k = None"
    and "slot (root (snd (AddRule L t rule))) j =
      (if j = k \<and> slot (root t) j = None then Some s else slot (root t) j)"
    and "wf_node (root (snd (AddRule L t rule)))"
    and "exactCount (snd (AddRule L t rule)) =
      exactCount t + (if fst k \<and> slot (root t) k = None then 1 else 0)"
    and "suffixCount (snd (AddRule L t rule)) =
      suffixCount t + (if \<not> fst k \<and> slot (root t) k = None then 1 else 0)"
proof -
  note acc = AddRule_accepted [OF assms(2), of t]
  have free: "fst (store_slot (root t) (path_of (rDomain s)) s) \<longleftrightarrow> slot (root t) k = None"
    unfolding k_def using assms(1) by (rule store_slot_fst)
  have kfst: "fst k \<longleftrightarrow> rScope s = RuleScopeExact" by (simp add: k_def key_of_def)
  show "fst (AddRule L t rule) \<longleftrightarrow> slot (root t) k = None" unfolding acc(1) by (rule free)
  show "slot (root (snd (AddRule L t rule))) j =
      (if j = k \<and> slot (root t) j = None then Some s else slot (root t) j)"
    unfolding acc(2) k_def using assms(1) by (rule store_slot_snd)
  show "wf_node (root (snd (AddRule L t rule)))" unfolding acc(2) using assms(1) by (rule store_slot_wf)
  show "exactCount (snd (AddRule L t rule)) =
      exactCount t + (if fst k \<and> slot (root t) k = None then 1 else 0)"
    unfolding acc(3) free kfst ..
  show "suffixCount (snd (AddRule L t rule)) =
      suffixCount t + (if \<not> fst k \<and> slot (root t) k = None then 1 else 0)"
    unfolding acc(4) free kfst ..
qed

lemma AddRule_rejected: "prepare_rule L rule = None \<Longrightarrow> AddRule L t rule = (False, t)"
  by (simp add: AddRule_def)

lemma occupied_insert:
  "(\<And>j. slot n' j = (if j = k \<and> slot n j = None then Some s else slot n j)) \<Longrightarrow>
     occupied n' b = (if fst k = b then insert (snd k) (occupied n b) else occupied n b)"
  by (cases k) (auto simp: occupied_def)

lemma trie_inv_AddRule:
  assumes "trie_inv L t"
  shows "trie_inv L (snd (AddRule L t rule))"
proof (cases "prepare_rule L rule")
  case None
  with assms show ?thesis by (simp add: AddRule_rejected)
next
  case (Some s)
  let ?k = "key_of (path_of (rDomain s)) s" and ?t = "snd (AddRule L t rule)"
  have wf: "wf_node (root t)" using assms by (simp add: trie_inv_def)
  note eff = AddRule_slots [OF wf Some]
  have ok: "\<forall>k r. slot (root ?t) k = Some r \<longrightarrow> stored_ok L k r"
    using assms prepare_rule_ok [OF Some] by (auto simp: eff(2) trie_inv_def split: if_splits)
  have occ: "occupied (root ?t) b =
      (if fst ?k = b then insert (snd ?k) (occupied (root t) b) else occupied (root t) b)" for b
    by (rule occupied_insert) (rule eff(2))
  have new: "slot (root t) ?k = None \<longleftrightarrow> snd ?k \<notin> occupied (root t) (fst ?k)"
    by (simp add: occupied_def)
  show ?thesis
    unfolding trie_inv_def
    using assms ok eff(3,4,5) new
    by (cases "fst ?k") (auto simp: occ trie_inv_def card_insert_if)
qed

section \<open>Traversal and merging\<close>

fun node_rules :: "node \<Rightarrow> rule list" and child_rules :: "(string \<times> node) list \<Rightarrow> rule list" where
  "node_rules (Node cs ex su) =
     (case ex of None \<Rightarrow> [] | Some r \<Rightarrow> [r]) @ (case su of None \<Rightarrow> [] | Some r \<Rightarrow> [r]) @ child_rules cs"
| "child_rules [] = []"
| "child_rules ((l, c) # cs) = node_rules c @ child_rules cs"

lemma visit_slot_stopped [simp]: "visit_slot fn so (True, s) = (True, s)"
  by (cases so) simp_all

lemma fold_visit_stopped [simp]: "fold (\<lambda>r. visit_slot fn (Some r)) rs (True, s) = (True, s)"
  by (induction rs) simp_all

lemma walk_node_stopped [simp]: "fst st \<Longrightarrow> walk_node fn n st = st"
  by (cases n) simp

text \<open>The recursive walk is a fold over the rules in trie order that stops where the visitor says.\<close>

lemma walk_fold:
  shows "walk_node fn n st = fold (\<lambda>r. visit_slot fn (Some r)) (node_rules n) st"
    and "\<not> fst st \<Longrightarrow> walk_children fn cs st = fold (\<lambda>r. visit_slot fn (Some r)) (child_rules cs) st"
proof (induction fn n st and fn cs st rule: walk_node_walk_children.induct)
  case (1 fn cs ex su st)
  show ?case
  proof (cases "fst st")
    case True
    then obtain s where "st = (True, s)" by (cases st) auto
    then show ?thesis by simp
  next
    case False
    let ?st2 = "visit_slot fn su (visit_slot fn ex st)"
    have st2: "fold (\<lambda>r. visit_slot fn (Some r))
        ((case ex of None \<Rightarrow> [] | Some r \<Rightarrow> [r]) @ (case su of None \<Rightarrow> [] | Some r \<Rightarrow> [r])) st = ?st2"
      by (cases ex; cases su) simp_all
    show ?thesis
    proof (cases "fst ?st2")
      case True
      then obtain s where "?st2 = (True, s)" by (cases ?st2) auto
      with False st2 show ?thesis by simp
    next
      case stop: False
      from "1" [OF False refl refl stop stop] False stop st2 show ?thesis by simp
    qed
  qed
next
  case (2 fn st)
  then show ?case by simp
next
  case (3 fn l c cs st)
  show ?case
  proof (cases "fst (walk_node fn c st)")
    case True
    then obtain s where "walk_node fn c st = (True, s)" by (cases "walk_node fn c st") auto
    moreover from this "3.IH"(1) have "fold (\<lambda>r. visit_slot fn (Some r)) (node_rules c) st = (True, s)"
      by simp
    ultimately show ?thesis by (simp add: Let_def)
  next
    case False
    with "3.IH" show ?thesis by (simp add: Let_def)
  qed
qed

lemma node_rules_slot:
  shows "wf_node n \<Longrightarrow> r \<in> set (node_rules n) \<longleftrightarrow> (\<exists>k. slot n k = Some r)"
    and "sorted_children cs \<Longrightarrow> \<forall>p \<in> set cs. wf_node (snd p) \<Longrightarrow>
      r \<in> set (child_rules cs) \<longleftrightarrow> (\<exists>b l ls. (case map_of cs l of None \<Rightarrow> None | Some c \<Rightarrow> slot c (b, ls)) = Some r)"
proof (induction n and cs rule: node_rules_child_rules.induct)
  case (1 cs ex su)
  then have IH: "r \<in> set (child_rules cs) \<longleftrightarrow>
      (\<exists>b l ls. slot (Node cs ex su) (b, l # ls) = Some r)" by simp
  have "(\<exists>k. slot (Node cs ex su) k = Some r) \<longleftrightarrow>
      ex = Some r \<or> su = Some r \<or> (\<exists>b l ls. slot (Node cs ex su) (b, l # ls) = Some r)" (is "?A \<longleftrightarrow> ?B")
  proof
    assume ?A
    then obtain b p where "slot (Node cs ex su) (b, p) = Some r" by auto
    then show ?B by (cases p; cases b) (auto simp del: slot_Cons)
  next
    assume ?B
    then show ?A by (metis slot_Nil)
  qed
  with IH show ?case by (auto split: option.splits simp del: slot_Cons)
next
  case 2
  then show ?case by simp
next
  case (3 l c cs)
  have "l \<notin> fst ` set cs" using "3.prems"(1) by auto
  then have "map_of cs l = None" by (simp add: map_of_eq_None_iff)
  then have upd: "(case map_of ((l, c) # cs) l' of None \<Rightarrow> None | Some c' \<Rightarrow> slot c' (b, ls)) = Some r \<longleftrightarrow>
      (l' = l \<and> slot c (b, ls) = Some r) \<or>
      (case map_of cs l' of None \<Rightarrow> None | Some c' \<Rightarrow> slot c' (b, ls)) = Some r" for b l' ls
    by auto
  have "r \<in> set (node_rules c) \<longleftrightarrow> (\<exists>b ls. slot c (b, ls) = Some r)" using "3" by simp
  moreover have "r \<in> set (child_rules cs) \<longleftrightarrow>
      (\<exists>b l ls. (case map_of cs l of None \<Rightarrow> None | Some c \<Rightarrow> slot c (b, ls)) = Some r)" using "3" by simp
  ultimately show ?case unfolding upd by auto
qed

abbreviation own_key :: "rule \<Rightarrow> slot_key" where
  "own_key r \<equiv> key_of (path_of (rDomain r)) r"

definition merge_step :: "libs \<Rightarrow> rule \<Rightarrow> nat \<times> trie \<Rightarrow> nat \<times> trie" where
  "merge_step L r st =
     (let (ok, t') = AddRule L (snd st) r in (if ok then fst st + 1 else fst st, t'))"

lemma MergeFrom_fold: "MergeFrom L t src = fold (merge_step L) (node_rules (root src)) (0, t)"
proof -
  let ?fn = "\<lambda>(merged, t) rule.
       let (ok, t') = AddRule L t rule in (True, (if ok then merged + 1 else merged, t'))"
  have "fold (\<lambda>r. visit_slot ?fn (Some r)) rs (False, st) = (False, fold (merge_step L) rs st)" for rs st
    by (induction rs arbitrary: st) (auto simp: merge_step_def case_prod_beta Let_def)
  then show ?thesis by (simp add: MergeFrom_def ForEach_def walk_fold(1))
qed

lemma merge_fold_put_all:
  "\<forall>r \<in> set rs. prepare_rule L r = Some r \<Longrightarrow>
     root (snd (fold (merge_step L) rs (m, t))) =
       snd (trie_slots.put_all (root t) (map (\<lambda>r. (own_key r, r)) rs))"
proof (induction rs arbitrary: m t)
  case Nil
  then show ?case by simp
next
  case (Cons r rs)
  then have "prepare_rule L r = Some r" by simp
  note acc = AddRule_accepted [OF this, of t]
  obtain m' t' where step: "merge_step L r (m, t) = (m', t')" by fastforce
  then have "t' = snd (AddRule L t r)" by (auto simp: merge_step_def case_prod_beta)
  with acc(2) have "root t' = snd (store_slot (root t) (path_of (rDomain r)) r)" by simp
  with Cons.IH [of m' t'] Cons.prems step show ?case
    by (simp add: case_prod_beta key_of_def)
qed

lemma merge_fold_inv:
  "trie_inv L t \<Longrightarrow>
     trie_inv L (snd (fold (merge_step L) rs (m, t))) \<and>
     Count (snd (fold (merge_step L) rs (m, t))) + m = Count t + fst (fold (merge_step L) rs (m, t))"
proof (induction rs arbitrary: m t)
  case Nil
  then show ?case by simp
next
  case (Cons r rs)
  obtain m' t' where step: "merge_step L r (m, t) = (m', t')" by fastforce
  then have t': "t' = snd (AddRule L t r)" and m': "m' = (if fst (AddRule L t r) then m + 1 else m)"
    by (auto simp: merge_step_def case_prod_beta)
  have "Count t' + m = Count t + m'"
    by (cases "prepare_rule L r") (auto simp: t' m' AddRule_rejected AddRule_accepted Count_def)
  moreover have "trie_inv L t'" unfolding t' by (rule trie_inv_AddRule [OF Cons.prems])
  ultimately show ?case using Cons.IH [of t' m'] step by simp
qed

lemma map_of_own_keys:
  assumes "trie_inv L src"
  shows "map_of (map (\<lambda>r. (own_key r, r)) (node_rules (root src))) k = slot (root src) k"
proof -
  have wf: "wf_node (root src)" and ok: "\<And>k r. slot (root src) k = Some r \<Longrightarrow> k = own_key r"
    using assms by (auto simp: trie_inv_def stored_ok_def)
  let ?m = "map (\<lambda>r. (own_key r, r)) (node_rules (root src))"
  show ?thesis
  proof (cases "map_of ?m k")
    case (Some r)
    then have "r \<in> set (node_rules (root src))" and k: "k = own_key r" by (auto dest!: map_of_SomeD)
    then obtain j where "slot (root src) j = Some r" using node_rules_slot(1) [OF wf] by blast
    with ok k Some show ?thesis by metis
  next
    case None
    then have "own_key r \<noteq> k" if "r \<in> set (node_rules (root src))" for r
      using that by (auto simp: map_of_eq_None_iff image_iff)
    then have "slot (root src) k \<noteq> Some r" for r
      using ok node_rules_slot(1) [OF wf] by metis
    with None show ?thesis by (cases "slot (root src) k") auto
  qed
qed

text \<open>Every trie the program can build: from a fresh one, by the mutating methods.\<close>

inductive built :: "libs \<Rightarrow> trie \<Rightarrow> bool" for L where
  built_new: "built L NewTrie"
| built_add: "built L t \<Longrightarrow> built L (snd (AddRule L t rule))"
| built_merge: "built L t \<Longrightarrow> built L src \<Longrightarrow> built L (snd (MergeFrom L t src))"
| built_clear: "built L t \<Longrightarrow> built L (Clear t)"

lemma built_inv: "built L t \<Longrightarrow> trie_inv L t"
proof (induction rule: built.induct)
  case built_new
  show ?case by (rule trie_inv_NewTrie)
next
  case (built_add t rule)
  then show ?case by (blast intro: trie_inv_AddRule)
next
  case (built_merge t src)
  then show ?case unfolding MergeFrom_fold using merge_fold_inv by blast
next
  case (built_clear t)
  show ?case by (rule trie_inv_Clear)
qed

lemma MatchRule_exists:
  assumes "built L t" and "normalizeDomain L domain = d" and "d \<noteq> []"
    and "1 \<le> k" and "k \<le> length (path_of d)" and "slot (root t) (False, take k (path_of d)) \<noteq> None"
  shows "mdMatched (MatchRuleDetail L t domain)"
proof -
  have wf: "wf_node (root t)" using built_inv [OF assms(1)] by (simp add: trie_inv_def)
  obtain r where "deepest_suffix (root t) (path_of d) = Some r"
    using assms(4-6) deepest_suffix_None [of "root t" "path_of d" k]
    by (cases "deepest_suffix (root t) (path_of d)") auto
  then show ?thesis
    using assms(2,3)
    by (cases "slot (root t) (True, path_of d)")
       (simp_all add: MatchRuleDetail_def match_walk_deepest [OF wf])
qed

section \<open>Properties\<close>

definition sample_rule :: rule where
  "sample_rule = \<lparr>rDomain = ''*.Ads.test.'', rScope = ''exact'', rSourceID = ''list-a'',
     rCategory = '' ADS '', rAction = [], rOrigin = OriginGlobalDefault\<rparr>"

definition sample_stored :: rule where
  "sample_stored = \<lparr>rDomain = ''ads.test'', rScope = ''suffix'', rSourceID = ''list-a'',
     rCategory = ''ads'', rAction = ''block'', rOrigin = OriginWildcard\<rparr>"

definition sample_exact :: rule where
  "sample_exact = \<lparr>rDomain = ''login.ads.test'', rScope = ''exact'', rSourceID = ''list-b'',
     rCategory = ''tracking'', rAction = ''block'', rOrigin = OriginGlobalDefault\<rparr>"

lemma sample_prepared:
  "prepare_rule sample_libs sample_rule = Some sample_stored"
  "prepare_rule sample_libs sample_stored = Some (sample_stored\<lparr>rOrigin := OriginWildcard\<rparr>)"
  "prepare_rule sample_libs sample_exact = Some sample_exact"
  by (atomize (full)) code_simp

definition sample_trie :: trie where
  "sample_trie = snd (AddRule sample_libs (snd (AddRule sample_libs NewTrie sample_rule)) sample_exact)"

lemma built_sample: "built sample_libs sample_trie"
  unfolding sample_trie_def by (intro built_add built_new)

text \<open>
  every trie the program can build is well formed: children strictly sorted at every node, each
  rule in the slot its own domain and scope name, only valid categories and the block action, only
  registrable domains (never a public suffix), and both counters equal to the occupied slots.
\<close>

theorem built_trie_inv:
  assumes "built L t"
  shows "wf_node (root t) \<and>
    (\<forall>k r. slot (root t) k = Some r \<longrightarrow>
       k = own_key r \<and> IsValidRuleCategory (rCategory r) \<and> rAction r = RuleActionBlock \<and>
       IsRegistrableDomain L (rDomain r)) \<and>
    exactCount t = card (occupied (root t) True) \<and> suffixCount t = card (occupied (root t) False)"
  using built_inv [OF assms] by (simp add: trie_inv_def stored_ok_def)

theorem built_trie_inv_witness:
  "built sample_libs sample_trie \<and> wf_node (root sample_trie) \<and>
   exactCount sample_trie = card (occupied (root sample_trie) True)"
  using built_sample built_trie_inv [OF built_sample] by blast

text \<open>
  C4: AddRule is a first-wins insertion on the abstract slots. It succeeds exactly when the rule
  passes the checks and its slot is free; then that slot, and no other, changes to the prepared
  rule, and the counter of its scope grows by one. Otherwise no slot and no counter changes.
\<close>

theorem AddRule_first_wins:
  assumes "built L t"
  shows "case prepare_rule L rule of
      None \<Rightarrow> AddRule L t rule = (False, t)
    | Some s \<Rightarrow>
        (fst (AddRule L t rule) \<longleftrightarrow> slot (root t) (own_key s) = None) \<and>
        (\<forall>j. slot (root (snd (AddRule L t rule))) j =
           (if j = own_key s \<and> slot (root t) j = None then Some s else slot (root t) j)) \<and>
        Count (snd (AddRule L t rule)) = Count t + (if fst (AddRule L t rule) then 1 else 0)"
proof -
  have wf: "wf_node (root t)" using built_inv [OF assms] by (simp add: trie_inv_def)
  show ?thesis
  proof (cases "prepare_rule L rule")
    case None
    then show ?thesis by (simp add: AddRule_rejected)
  next
    case (Some s)
    note eff = AddRule_slots [OF wf Some]
    from Some eff show ?thesis by (simp add: Count_def)
  qed
qed

theorem AddRule_first_wins_witness:
  "Count (snd (AddRule sample_libs NewTrie sample_rule)) = 1 \<and>
   slot (root (snd (AddRule sample_libs NewTrie sample_rule))) (False, [''test'', ''ads'']) = Some sample_stored"
proof -
  have key: "own_key sample_stored = (False, [''test'', ''ads''])" by code_simp
  have "Count NewTrie = 0" and "\<And>k. slot (root NewTrie) k = None"
    by (simp_all add: Count_def NewTrie_def)
  with AddRule_first_wins [OF built_new, of sample_libs sample_rule] show ?thesis
    by (simp add: sample_prepared key)
qed

text \<open>
  C6: the lookup precedence. A query matches exactly when its own exact slot is filled or some
  non-empty prefix of its label path (a parent domain or the domain itself) has a suffix rule; the
  exact rule wins, and otherwise the suffix rule of the longest such prefix is returned.
\<close>

theorem MatchRuleDetail_precedence:
  assumes "built L t" and "normalizeDomain L domain = d" and "d \<noteq> []"
  shows "(mdMatched (MatchRuleDetail L t domain) \<longleftrightarrow>
      slot (root t) (True, path_of d) \<noteq> None \<or>
      (\<exists>k. 1 \<le> k \<and> k \<le> length (path_of d) \<and> slot (root t) (False, take k (path_of d)) \<noteq> None)) \<and>
    (\<forall>r. slot (root t) (True, path_of d) = Some r \<longrightarrow> mdRule (MatchRuleDetail L t domain) = r) \<and>
    (\<forall>r k. slot (root t) (True, path_of d) = None \<longrightarrow> 1 \<le> k \<longrightarrow> k \<le> length (path_of d) \<longrightarrow>
       slot (root t) (False, take k (path_of d)) = Some r \<longrightarrow>
       (\<forall>j. k < j \<longrightarrow> j \<le> length (path_of d) \<longrightarrow> slot (root t) (False, take j (path_of d)) = None) \<longrightarrow>
       mdRule (MatchRuleDetail L t domain) = r)"
proof -
  let ?p = "path_of d" and ?n = "root t"
  have wf: "wf_node ?n" using built_inv [OF assms(1)] by (simp add: trie_inv_def)
  have md: "MatchRuleDetail L t domain =
      (case (case slot ?n (True, ?p) of Some r \<Rightarrow> Some r | None \<Rightarrow> deepest_suffix ?n ?p) of
         Some r \<Rightarrow> \<lparr>mdRule = r, mdQuery = d, mdMatched = True\<rparr> | None \<Rightarrow> no_match)"
    using assms(2,3) by (auto simp: MatchRuleDetail_def match_walk_deepest [OF wf] split: option.splits)
  have deep: "deepest_suffix ?n ?p = Some r"
    if "1 \<le> k" "k \<le> length ?p" "slot ?n (False, take k ?p) = Some r"
      "\<forall>j. k < j \<longrightarrow> j \<le> length ?p \<longrightarrow> slot ?n (False, take j ?p) = None" for r k
  proof (cases "deepest_suffix ?n ?p")
    case None
    with that deepest_suffix_None show ?thesis by fastforce
  next
    case (Some r')
    from deepest_suffix_Some [OF this] obtain k' where k': "1 \<le> k'" "k' \<le> length ?p"
      "slot ?n (False, take k' ?p) = Some r'" "\<forall>j. k' < j \<longrightarrow> j \<le> length ?p \<longrightarrow> slot ?n (False, take j ?p) = None"
      by blast
    with that have "k' = k" by (metis linorder_neqE_nat option.distinct(1))
    with that(3) k'(3) Some show ?thesis by simp
  qed
  have some: "(\<exists>r. deepest_suffix ?n ?p = Some r) \<longleftrightarrow>
      (\<exists>k. 1 \<le> k \<and> k \<le> length ?p \<and> slot ?n (False, take k ?p) \<noteq> None)"
    using deepest_suffix_Some deepest_suffix_None by (metis not_None_eq)
  show ?thesis
    unfolding md using deep some by (auto simp: no_match_def split: option.splits)
qed

theorem MatchRuleDetail_precedence_witness:
  "mdRule (MatchRuleDetail sample_libs sample_trie ''LOGIN.ads.test'') = sample_exact \<and>
   mdMatched (MatchRuleDetail sample_libs sample_trie ''x.login.ads.test'')"
proof -
  have d: "normalizeDomain sample_libs ''LOGIN.ads.test'' = ''login.ads.test''"
    "normalizeDomain sample_libs ''x.login.ads.test'' = ''x.login.ads.test''"
    by (atomize (full)) code_simp
  have "slot (root sample_trie) (True, path_of ''login.ads.test'') = Some sample_exact" by code_simp
  moreover have "1 \<le> (2::nat) \<and> 2 \<le> length (path_of ''x.login.ads.test'') \<and>
      slot (root sample_trie) (False, take 2 (path_of ''x.login.ads.test'')) \<noteq> None" by code_simp
  ultimately show ?thesis
    using MatchRuleDetail_precedence [OF built_sample d(1)]
      MatchRuleDetail_precedence [OF built_sample d(2)] by blast
qed

text \<open>
  merging a staging trie keeps every rule already present and takes the staging rule for every
  other slot, exact and suffix alike, so merging in source order lets the earlier source win; the
  returned number is the number of rules gained. The staging rules are assumed to be accepted
  unchanged when added again.
\<close>

theorem MergeFrom_first_wins:
  assumes "built L t" and "built L src"
    and "\<forall>k r. slot (root src) k = Some r \<longrightarrow> prepare_rule L r = Some r"
  shows "slot (root (snd (MergeFrom L t src))) j =
      (case slot (root t) j of Some r \<Rightarrow> Some r | None \<Rightarrow> slot (root src) j) \<and>
    Count (snd (MergeFrom L t src)) = Count t + fst (MergeFrom L t src)"
proof
  have t: "trie_inv L t" and src: "trie_inv L src" using assms built_inv by blast+
  then have wf: "wf_node (root t)" "wf_node (root src)" by (auto simp: trie_inv_def)
  have stable: "\<forall>r \<in> set (node_rules (root src)). prepare_rule L r = Some r"
    using assms(3) node_rules_slot(1) [OF wf(2)] by blast
  show "slot (root (snd (MergeFrom L t src))) j =
      (case slot (root t) j of Some r \<Rightarrow> Some r | None \<Rightarrow> slot (root src) j)"
  proof -
    have "\<forall>(k, r) \<in> set (map (\<lambda>r. (own_key r, r)) (node_rules (root src))). k = key_of (snd k) r"
      by (auto simp: key_of_def)
    from trie_slots.put_all_get [OF wf(1) this, of j] show ?thesis
      unfolding MergeFrom_fold merge_fold_put_all [OF stable] map_of_own_keys [OF src] by blast
  qed
  show "Count (snd (MergeFrom L t src)) = Count t + fst (MergeFrom L t src)"
    unfolding MergeFrom_fold using merge_fold_inv [OF t, of "node_rules (root src)" 0] by simp
qed

theorem MergeFrom_first_wins_witness:
  "slot (root (snd (MergeFrom sample_libs NewTrie (snd (AddRule sample_libs NewTrie sample_exact)))))
     (True, [''test'', ''ads'', ''login'']) = Some sample_exact"
proof -
  let ?src = "snd (AddRule sample_libs NewTrie sample_exact)"
  have src: "built sample_libs ?src" by (intro built_add built_new)
  have wf: "wf_node (root NewTrie)" by (simp add: NewTrie_def)
  have key: "own_key sample_exact = (True, [''test'', ''ads'', ''login''])" by code_simp
  have slots: "slot (root ?src) k = (if k = own_key sample_exact then Some sample_exact else None)" for k
    using AddRule_slots(2) [OF wf sample_prepared(3), of k] by (simp add: NewTrie_def)
  then have "\<forall>k r. slot (root ?src) k = Some r \<longrightarrow> prepare_rule sample_libs r = Some r"
    using sample_prepared(3) by (auto split: if_splits)
  moreover have "slot (root NewTrie) (own_key sample_exact) = None" by (simp add: NewTrie_def)
  ultimately show ?thesis
    using MergeFrom_first_wins [OF built_new src, of "own_key sample_exact"] slots by (simp add: key)
qed

text \<open>
  after AddRule accepts a suffix rule, the rule's domain and every subdomain of it are blocked:
  any query whose label path extends the rule's path matches.
\<close>

theorem suffix_rule_covers_subdomains:
  assumes "built L t" and "prepare_rule L rule = Some s" and "rScope s = RuleScopeSuffix"
    and "normalizeDomain L query = d" and "d \<noteq> []" and "rDomain s \<noteq> []"
    and "path_of d = path_of (rDomain s) @ subs" and "path_of (rDomain s) \<noteq> []"
  shows "Match L (snd (AddRule L t rule)) query"
proof -
  let ?t = "snd (AddRule L t rule)" and ?p = "path_of (rDomain s)"
  have built: "built L ?t" using assms(1) by (rule built_add)
  have wf: "wf_node (root t)" using built_inv [OF assms(1)] by (simp add: trie_inv_def)
  have key: "own_key s = (False, ?p)"
    using assms(3) by (simp add: key_of_def RuleScopeExact_def RuleScopeSuffix_def)
  have "slot (root ?t) (False, ?p) \<noteq> None"
    using AddRule_slots(2) [OF wf assms(2), of "(False, ?p)"] key by (auto split: if_splits)
  then have "slot (root ?t) (False, take (length ?p) (path_of d)) \<noteq> None"
    using assms(7) by simp
  moreover have "1 \<le> length ?p" "length ?p \<le> length (path_of d)" using assms(7,8) by (cases ?p; simp)+
  ultimately have "mdMatched (MatchRuleDetail L ?t query)"
    using MatchRule_exists [OF built assms(4,5)] by blast
  then show ?thesis by (simp add: Match_def MatchRule_def Let_def)
qed

theorem suffix_rule_covers_subdomains_witness:
  "Match sample_libs (snd (AddRule sample_libs NewTrie sample_rule)) ''a.b.ads.test''"
proof (rule suffix_rule_covers_subdomains [OF built_new sample_prepared(1)])
  show "normalizeDomain sample_libs ''a.b.ads.test'' = ''a.b.ads.test''" by code_simp
  show "path_of ''a.b.ads.test'' = path_of (rDomain sample_stored) @ [''b'', ''a'']" by code_simp
qed (code_simp)+

text \<open>An in-memory writer, which never fails.\<close>

definition buffer_write :: "string writer" where
  "buffer_write w s = (length s, False, w @ s)"

lemma ParseCacheV2Line_rule_line:
  assumes "stored_ok L k r" and "rDomain r \<noteq> []" and "tab \<notin> set (rDomain r)"
    and "rSourceID r \<noteq> []" and "tab \<notin> set (rSourceID r)"
  shows "ParseCacheV2Line (rule_line r) = Some (r\<lparr>rOrigin := OriginCacheV2Unknown\<rparr>)"
proof -
  have fields: "tab \<notin> set (rScope r)" "tab \<notin> set (rCategory r)" "tab \<notin> set (rAction r)"
    using assms(1) by (auto simp: stored_ok_def RuleScopeExact_def RuleScopeSuffix_def
        IsValidRuleCategory_def validRuleCategories_def RuleActionBlock_def tab_def)
  have "split_on tab (rule_line r) = [rDomain r, rScope r, rCategory r, rAction r, rSourceID r]"
    using assms fields by (simp add: rule_line_def split_on_append_sep split_on_no_sep)
  with assms show ?thesis
    by (auto simp: ParseCacheV2Line_def stored_ok_def)
qed

lemma fold_write_rules:
  "fold (\<lambda>r. visit_slot (write_rule buffer_write) (Some r)) rs (False, (n, False, w)) =
     (False, (n + length (concat (map (\<lambda>r. rule_line r @ [newline]) rs)), False,
        w @ concat (map (\<lambda>r. rule_line r @ [newline]) rs)))"
  by (induction rs arbitrary: n w) (simp_all add: write_rule_def buffer_write_def)

text \<open>
  C37: the v2 cache format is lossless up to the scope origin. Written to a buffer that never fails,
  a trie produces the header line and one line per stored rule in walk order, the reported length is
  the number of bytes written, and ParseCacheV2Line reads every line back to the rule it came from,
  for rules whose domain is not empty and whose fields hold no tab.
\<close>

theorem cache_v2_roundtrip:
  assumes "built L t"
  shows "WriteToV2 buffer_write t [] =
      (let out = concat (map (\<lambda>l. l @ [newline]) (CacheV2Header # map rule_line (node_rules (root t))))
       in (length out, False, out)) \<and>
    (\<forall>k r. slot (root t) k = Some r \<longrightarrow>
       r \<in> set (node_rules (root t)) \<and>
       (rDomain r \<noteq> [] \<and> rSourceID r \<noteq> [] \<and> tab \<notin> set (rDomain r) \<and> tab \<notin> set (rSourceID r) \<longrightarrow>
        ParseCacheV2Line (rule_line r) = Some (r\<lparr>rOrigin := OriginCacheV2Unknown\<rparr>)))"
proof (intro conjI allI impI)
  have inv: "trie_inv L t" using assms by (rule built_inv)
  show "WriteToV2 buffer_write t [] =
      (let out = concat (map (\<lambda>l. l @ [newline]) (CacheV2Header # map rule_line (node_rules (root t))))
       in (length out, False, out))"
    using fold_write_rules [of "node_rules (root t)" "length CacheV2Header + 1" "CacheV2Header @ [newline]"]
    by (simp add: WriteToV2_def ForEach_def walk_fold(1) buffer_write_def [of "[]"] comp_def Let_def)
  fix k r
  assume slot: "slot (root t) k = Some r"
  with inv show "r \<in> set (node_rules (root t))"
    unfolding trie_inv_def using node_rules_slot(1) by blast
  assume "rDomain r \<noteq> [] \<and> rSourceID r \<noteq> [] \<and> tab \<notin> set (rDomain r) \<and> tab \<notin> set (rSourceID r)"
  with inv slot show "ParseCacheV2Line (rule_line r) = Some (r\<lparr>rOrigin := OriginCacheV2Unknown\<rparr>)"
    unfolding trie_inv_def using ParseCacheV2Line_rule_line by blast
qed

theorem cache_v2_roundtrip_witness:
  "ParseCacheV2Line (rule_line sample_exact) = Some (sample_exact\<lparr>rOrigin := OriginCacheV2Unknown\<rparr>)"
proof -
  have "slot (root sample_trie) (True, [''test'', ''ads'', ''login'']) = Some sample_exact"
    by code_simp
  moreover have "rDomain sample_exact \<noteq> [] \<and> rSourceID sample_exact \<noteq> [] \<and>
      tab \<notin> set (rDomain sample_exact) \<and> tab \<notin> set (rSourceID sample_exact)" by code_simp
  ultimately show ?thesis using cache_v2_roundtrip [OF built_sample] by blast
qed

text \<open>
  a wildcard rule for an internationalised name never fires. The wildcard prefix makes the IDNA
  conversion fail, the Unicode spelling is stored after the prefix is cut, and every query for the
  name is converted to its ASCII form, which has another path: here the accepted rule for a
  wildcard over a name with a non-ASCII byte pair blocks neither spelling of that name.
\<close>

theorem wildcard_idn_rule_never_matches:
  "let u = [CHR ''m'', CHR 0xC3, CHR 0xBC] @ ''nchen.de'';
       L = \<lparr>url_hostname = (\<lambda>u. None),
            idna_to_ascii = (\<lambda>d. if CHR ''*'' \<in> set d then None
                                 else if d = u then Some ''xn--mnchen-3ya.de'' else Some d),
            etld_plus_one = Some\<rparr>;
       (ok, t) = AddRule L NewTrie
         \<lparr>rDomain = ''*.'' @ u, rScope = RuleScopeSuffix, rSourceID = ''s1'', rCategory = ''ads'',
          rAction = RuleActionBlock, rOrigin = OriginGlobalDefault\<rparr>
   in ok \<and> \<not> Match L t u \<and> \<not> Match L t ''xn--mnchen-3ya.de''"
  by code_simp

end
