(* ===== verification/RateLimiter.thy ===== *)
theory RateLimiter
  imports GoStrings "HOL-Library.AList" "HOL-Library.Word"
begin

text \<open>
  The token-bucket limiter of \<^verbatim>\<open>internal/ratelimit/limiter.go\<close>. A bucket is identified by its key;
  the map from keys to buckets is an association list with distinct keys, and the two LRU lists
  hold keys, most recent first. A bucket records which list its element belongs to. Token counts
  and the rate are exact rationals where the source has \<^verbatim>\<open>float64\<close> (rounding is not modelled), time
  is an integer number of nanoseconds passed in by the caller, and the one-shot counter is the
  32-bit word of the source. Each method runs under the limiter's mutex, so a step is atomic.
\<close>

section \<open>State\<close>

datatype list_id = Active | Blocked

record bucket =
  tokens :: rat
  lastCheck :: int
  hits :: nat
  owner :: "list_id option"

record limiter =
  buckets :: "(string \<times> bucket) list"
  active :: "string list"
  blocked :: "string list"
  oneShot :: "32 word"
  rate :: rat
  burst :: int
  maxKeys :: int

definition DefaultMaxKeys :: int where
  "DefaultMaxKeys = 50000"

definition NewWithMaxKeys :: "rat \<Rightarrow> int \<Rightarrow> int \<Rightarrow> limiter" where
  "NewWithMaxKeys ratePerMinute b mk =
     \<lparr>buckets = [], active = [], blocked = [], oneShot = 0,
      rate = ratePerMinute / 60, burst = b, maxKeys = mk\<rparr>"

definition New :: "rat \<Rightarrow> int \<Rightarrow> limiter" where
  "New ratePerMinute b = NewWithMaxKeys ratePerMinute b DefaultMaxKeys"

definition Len :: "limiter \<Rightarrow> nat" where
  "Len l = length (buckets l)"

definition get_bucket :: "limiter \<Rightarrow> string \<Rightarrow> bucket option" where
  "get_bucket l k = map_of (buckets l) k"

definition hits_of :: "limiter \<Rightarrow> string \<Rightarrow> nat" where
  "hits_of l k = (case get_bucket l k of None \<Rightarrow> 0 | Some b \<Rightarrow> hits b)"

fun list_of :: "limiter \<Rightarrow> list_id \<Rightarrow> string list" where
  "list_of l Active = active l"
| "list_of l Blocked = blocked l"

fun set_list :: "limiter \<Rightarrow> list_id \<Rightarrow> string list \<Rightarrow> limiter" where
  "set_list l Active ks = l\<lparr>active := ks\<rparr>"
| "set_list l Blocked ks = l\<lparr>blocked := ks\<rparr>"

definition set_bucket :: "limiter \<Rightarrow> string \<Rightarrow> bucket \<Rightarrow> limiter" where
  "set_bucket l k b = l\<lparr>buckets := AList.update k b (buckets l)\<rparr>"

section \<open>Placement and removal\<close>

text \<open>\<^verbatim>\<open>place\<close>: unlink the element from the list that owns it, then push it to the front of its target.\<close>

definition place :: "limiter \<Rightarrow> string \<Rightarrow> bucket \<Rightarrow> bool \<Rightarrow> limiter" where
  "place l k b isBlocked =
     (let target = (if isBlocked then Blocked else Active);
          l1 = (case owner b of None \<Rightarrow> l | Some own \<Rightarrow> set_list l own (remove1 k (list_of l own)));
          l2 = set_bucket l1 k (b\<lparr>owner := Some target\<rparr>)
      in set_list l2 target (k # list_of l2 target))"

definition removeKey :: "limiter \<Rightarrow> string \<Rightarrow> limiter" where
  "removeKey l k =
     (case get_bucket l k of
        None \<Rightarrow> l
      | Some b \<Rightarrow>
          (let l1 = l\<lparr>buckets := AList.delete k (buckets l)\<rparr>;
               l2 = (if hits b = 1 \<and> oneShot l1 > 0 then l1\<lparr>oneShot := oneShot l1 - 1\<rparr> else l1)
           in case owner b of
                None \<Rightarrow> l2
              | Some own \<Rightarrow> set_list l2 own (remove1 k (list_of l2 own))))"

section \<open>Eviction\<close>

text \<open>\<^verbatim>\<open>int(float64(maxKeys) * 0.9)\<close>, at least one, at most the number of keys.\<close>

definition trimCount :: "limiter \<Rightarrow> int" where
  "trimCount l =
     (let trim0 = (9 * maxKeys l) div 10;
          trim1 = (if trim0 < 1 then 1 else trim0)
      in if trim1 > int (Len l) then int (Len l) else trim1)"

text \<open>
  One pass of \<^verbatim>\<open>evictLocked\<close>, from the back of a list to its front: the argument is the part of the
  list still to be walked, oldest first.
\<close>

fun evict_pass :: "bool \<Rightarrow> int \<Rightarrow> string list \<Rightarrow> nat \<Rightarrow> limiter \<Rightarrow> nat \<times> limiter" where
  "evict_pass oneShotOnly n [] removed l = (removed, l)"
| "evict_pass oneShotOnly n (k # older) removed l =
     (if int removed < n then
        (if oneShotOnly \<and> hits_of l k > 1 then evict_pass oneShotOnly n older removed l
         else evict_pass oneShotOnly n older (removed + 1) (removeKey l k))
      else (removed, l))"

definition evict_passes :: "(list_id \<times> bool) list" where
  "evict_passes = [(Active, True), (Active, False), (Blocked, False)]"

fun run_passes :: "int \<Rightarrow> (list_id \<times> bool) list \<Rightarrow> nat \<Rightarrow> limiter \<Rightarrow> limiter" where
  "run_passes n [] removed l = l"
| "run_passes n ((from, oneShotOnly) # passes) removed l =
     (if oneShotOnly \<and> oneShot l = 0 then run_passes n passes removed l
      else let (removed', l') = evict_pass oneShotOnly n (rev (list_of l from)) removed l
           in if int removed' \<ge> n then l' else run_passes n passes removed' l')"

definition evictLocked :: "int \<Rightarrow> limiter \<Rightarrow> limiter" where
  "evictLocked n l = (if n \<le> 0 then l else run_passes n evict_passes 0 l)"

section \<open>Allow\<close>

definition fresh_bucket :: "limiter \<Rightarrow> int \<Rightarrow> bucket" where
  "fresh_bucket l now = \<lparr>tokens = of_int (burst l), lastCheck = now, hits = 0, owner = None\<rparr>"

text \<open>The lookup at the start of \<^verbatim>\<open>Allow\<close>: an unknown key is inserted, after an eviction when full.\<close>

definition find_or_insert :: "int \<Rightarrow> string \<Rightarrow> limiter \<Rightarrow> limiter \<times> bucket" where
  "find_or_insert now k l =
     (case get_bucket l k of
        Some b \<Rightarrow> (l, b)
      | None \<Rightarrow>
          (let l1 = (if maxKeys l > 0 \<and> int (Len l) \<ge> maxKeys l then evictLocked (trimCount l) l else l);
               b = fresh_bucket l1 now;
               l2 = set_bucket l1 k b
           in (l2\<lparr>oneShot := oneShot l2 + 1\<rparr>, b)))"

definition refill :: "limiter \<Rightarrow> int \<Rightarrow> bucket \<Rightarrow> bucket" where
  "refill l now b =
     (let elapsed = of_int (now - lastCheck b) / 1000000000;
          t = tokens b + elapsed * rate l
      in b\<lparr>hits := hits b + 1,
           tokens := (if t > of_int (burst l) then of_int (burst l) else t),
           lastCheck := now\<rparr>)"

definition Allow :: "int \<Rightarrow> string \<Rightarrow> limiter \<Rightarrow> bool \<times> limiter" where
  "Allow now k l =
     (if rate l \<le> 0 then (True, l)
      else
        let (l1, b) = find_or_insert now k l;
            l2 = (if hits b = 1 then l1\<lparr>oneShot := oneShot l1 - 1\<rparr> else l1);
            b1 = refill l2 now b
        in if tokens b1 < 1 then (False, place l2 k b1 True)
           else let b2 = b1\<lparr>tokens := tokens b1 - 1\<rparr> in (True, place l2 k b2 (tokens b2 < 1)))"

definition SecondsUntilNextToken :: "limiter \<Rightarrow> string \<Rightarrow> rat" where
  "SecondsUntilNextToken l k =
     (if rate l \<le> 0 then 0
      else case get_bucket l k of
        None \<Rightarrow> 0
      | Some b \<Rightarrow> if tokens b \<ge> 1 then 0 else (1 - tokens b) / rate l)"

section \<open>Idle cleanup\<close>

text \<open>
  \<^verbatim>\<open>cleanup\<close> pops the back of each list while it is idle. The loop asks the list for its back again
  after every removal, so it would not stop if a removal left the list unchanged: a sweep that does
  not return is \<^const>\<open>None\<close>.
\<close>

definition idle_cutoff :: "int \<Rightarrow> int" where
  "idle_cutoff now = now - 600000000000"

partial_function (option) sweep :: "list_id \<Rightarrow> int \<Rightarrow> limiter \<Rightarrow> limiter option" where
  "sweep source cutoff l =
     (if list_of l source = [] then Some l
      else case get_bucket l (last (list_of l source)) of
        None \<Rightarrow> Some l
      | Some b \<Rightarrow>
          if \<not> lastCheck b < cutoff then Some l
          else sweep source cutoff (removeKey l (last (list_of l source))))"

definition cleanup :: "int \<Rightarrow> limiter \<Rightarrow> limiter option" where
  "cleanup now l =
     Option.bind (sweep Active (idle_cutoff now) l) (sweep Blocked (idle_cutoff now))"

end
