(* ===== verification/LimiterLaws.thy ===== *)
theory LimiterLaws
  imports RateLimiter
begin

text \<open>
  The invariant of the rate limiter and what each of its steps does to it: the two LRU lists hold
  exactly the tracked keys, each in the list its bucket names as owner, the blocked list holds
  exactly the keys without a whole token, both lists are ordered by last use, and the one-shot
  counter counts the keys seen once.
\<close>

section \<open>Association lists\<close>

lemma filter_fst_ne:
  "k \<notin> fst ` set al \<Longrightarrow> filter (\<lambda>p. P p \<and> fst p \<noteq> k) al = filter P al"
  by (rule filter_cong) auto

lemma filter_update_others:
  "filter (\<lambda>p. P p \<and> fst p \<noteq> k) (AList.update k v al) = filter (\<lambda>p. P p \<and> fst p \<noteq> k) al"
  by (induction al) auto

lemma filter_delete_others:
  "filter (\<lambda>p. P p \<and> fst p \<noteq> k) (AList.delete k al) = filter (\<lambda>p. P p \<and> fst p \<noteq> k) al"
  by (induction al) (auto simp: AList.delete_eq)

lemma length_filter_key_split:
  assumes "distinct (map fst al)" and "map_of al k = Some v"
  shows "length (filter P al) = length (filter (\<lambda>p. P p \<and> fst p \<noteq> k) al) + (if P (k, v) then 1 else 0)"
  using assms
proof (induction al)
  case Nil
  then show ?case by simp
next
  case (Cons p al)
  obtain a b where p: "p = (a, b)" by fastforce
  show ?case
  proof (cases "a = k")
    case True
    with Cons.prems p have "k \<notin> fst ` set al" "b = v" by auto
    then show ?thesis using True p by (simp add: filter_fst_ne)
  next
    case False
    with Cons p show ?thesis by auto
  qed
qed

lemma length_filter_key_none:
  "map_of al k = None \<Longrightarrow> filter (\<lambda>p. P p \<and> fst p \<noteq> k) al = filter P al"
  by (simp add: filter_fst_ne map_of_eq_None_iff)

section \<open>The invariant\<close>

definition last_of :: "limiter \<Rightarrow> string \<Rightarrow> int" where
  "last_of l k = (case get_bucket l k of None \<Rightarrow> 0 | Some b \<Rightarrow> lastCheck b)"

definition seen_once :: "limiter \<Rightarrow> nat" where
  "seen_once l = length (filter (\<lambda>p. hits (snd p) = 1) (buckets l))"

definition seen_once_but :: "limiter \<Rightarrow> string \<Rightarrow> nat" where
  "seen_once_but l k = length (filter (\<lambda>p. hits (snd p) = 1 \<and> fst p \<noteq> k) (buckets l))"

definition bucket_ok :: "limiter \<Rightarrow> bucket \<Rightarrow> bool" where
  "bucket_ok l b \<longleftrightarrow>
     owner b = Some (if tokens b < 1 then Blocked else Active) \<and>
     0 \<le> tokens b \<and> tokens b \<le> of_int (burst l) \<and> 1 \<le> hits b"

definition lists_ok :: "limiter \<Rightarrow> bool" where
  "lists_ok l \<longleftrightarrow>
     distinct (map fst (buckets l)) \<and>
     (\<forall>i. distinct (list_of l i)) \<and>
     (\<forall>i k. k \<in> set (list_of l i) \<longleftrightarrow> (\<exists>b. get_bucket l k = Some b \<and> owner b = Some i)) \<and>
     (\<forall>i. sorted_wrt (\<lambda>j k. last_of l k \<le> last_of l j) (list_of l i))"

definition lim_inv :: "limiter \<Rightarrow> bool" where
  "lim_inv l \<longleftrightarrow>
     lists_ok l \<and> (\<forall>k b. get_bucket l k = Some b \<longrightarrow> bucket_ok l b) \<and>
     oneShot l = of_nat (seen_once l) \<and>
     0 < maxKeys l \<and> maxKeys l < 2 ^ 32 \<and> int (Len l) \<le> maxKeys l \<and> 1 \<le> burst l"

lemma list_of_set_list [simp, limiter_simps]:
  "list_of (set_list l i ks) j = (if i = j then ks else list_of l j)"
  by (cases i; cases j) simp_all

lemma set_list_frame [simp, limiter_simps]:
  "buckets (set_list l i ks) = buckets l" "oneShot (set_list l i ks) = oneShot l"
  "rate (set_list l i ks) = rate l" "burst (set_list l i ks) = burst l"
  "maxKeys (set_list l i ks) = maxKeys l" "get_bucket (set_list l i ks) = get_bucket l"
  by (cases i; simp add: get_bucket_def fun_eq_iff)+

lemma list_of_buckets_update [simp, limiter_simps]:
  "list_of (l\<lparr>buckets := bs\<rparr>) i = list_of l i" "list_of (l\<lparr>oneShot := w\<rparr>) i = list_of l i"
  by (cases i; simp)+

lemma get_bucket_oneShot [simp, limiter_simps]: "get_bucket (l\<lparr>oneShot := w\<rparr>) = get_bucket l"
  by (simp add: get_bucket_def fun_eq_iff)

lemma set_bucket_effect [simp, limiter_simps]:
  "get_bucket (set_bucket l k b) j = (if j = k then Some b else get_bucket l j)"
  "list_of (set_bucket l k b) i = list_of l i" "oneShot (set_bucket l k b) = oneShot l"
  "rate (set_bucket l k b) = rate l" "burst (set_bucket l k b) = burst l"
  "maxKeys (set_bucket l k b) = maxKeys l"
  by (simp_all add: set_bucket_def get_bucket_def update_conv')

lemma bucket_ok_burst: "burst l' = burst l \<Longrightarrow> bucket_ok l' b = bucket_ok l b"
  by (simp add: bucket_ok_def)

lemma Len_card: "distinct (map fst (buckets l)) \<Longrightarrow> Len l = card (dom (get_bucket l))"
  by (metis Len_def distinct_card dom_map_of_conv_image_fst get_bucket_def length_map list.set_map
      ext)

lemma seen_once_split:
  "distinct (map fst (buckets l)) \<Longrightarrow>
     seen_once l = seen_once_but l k + (if hits_of l k = 1 then 1 else 0)"
  using length_filter_key_none [of "buckets l" k "\<lambda>p. hits (snd p) = 1"]
    length_filter_key_split [of "buckets l" k _ "\<lambda>p. hits (snd p) = 1"]
  unfolding seen_once_def seen_once_but_def hits_of_def get_bucket_def
  by (cases "map_of (buckets l) k") auto

lemma seen_once_le: "seen_once l \<le> Len l"
  by (simp add: seen_once_def Len_def)

lemma owner_unique:
  assumes "lists_ok l" and "get_bucket l k = Some b"
  shows "k \<in> set (list_of l i) \<longleftrightarrow> owner b = Some i"
  using assms unfolding lists_ok_def by auto

section \<open>Removing keys\<close>

text \<open>A state from which exactly the keys of a set have been removed, everything else in place.\<close>

definition shrunk :: "limiter \<Rightarrow> string set \<Rightarrow> limiter \<Rightarrow> bool" where
  "shrunk l S l' \<longleftrightarrow>
     (\<forall>k. get_bucket l' k = (if k \<in> S then None else get_bucket l k)) \<and>
     (\<forall>i. list_of l' i = filter (\<lambda>k. k \<notin> S) (list_of l i)) \<and>
     rate l' = rate l \<and> burst l' = burst l \<and> maxKeys l' = maxKeys l \<and>
     S \<subseteq> dom (get_bucket l)"

lemma shrunk_refl: "shrunk l {} l"
  by (simp add: shrunk_def)

lemma shrunk_dom: "shrunk l S l' \<Longrightarrow> dom (get_bucket l') = dom (get_bucket l) - S"
  unfolding shrunk_def by (rule set_eqI) (simp add: domIff)

lemma shrunk_trans:
  assumes "shrunk l S m" and "shrunk m T n"
  shows "shrunk l (S \<union> T) n" and "S \<inter> T = {}"
proof -
  have "T \<subseteq> dom (get_bucket m)" using assms(2) by (simp add: shrunk_def)
  then show "S \<inter> T = {}" using assms(1) by (auto simp: shrunk_def split: if_splits)
  have "dom (get_bucket m) \<subseteq> dom (get_bucket l)"
    using assms(1) by (simp add: shrunk_dom)
  with \<open>T \<subseteq> dom (get_bucket m)\<close> have "S \<union> T \<subseteq> dom (get_bucket l)"
    using assms(1) by (auto simp: shrunk_def)
  with assms show "shrunk l (S \<union> T) n"
    unfolding shrunk_def by (simp add: conj_ac)
qed

lemma removeKey_effect:
  assumes inv: "lists_ok l" and b: "get_bucket l k = Some b" and own: "owner b \<noteq> None"
  shows "shrunk l {k} (removeKey l k)"
    and "distinct (map fst (buckets (removeKey l k)))"
    and "seen_once (removeKey l k) = seen_once_but l k"
    and "oneShot (removeKey l k) = (if hits b = 1 \<and> oneShot l > 0 then oneShot l - 1 else oneShot l)"
proof -
  obtain i where i: "owner b = Some i" using own by blast
  have bl: "buckets (removeKey l k) = AList.delete k (buckets l)"
    by (simp add: removeKey_def b i Let_def)
  have get: "get_bucket (removeKey l k) j = (if j \<in> {k} then None else get_bucket l j)" for j
    unfolding get_bucket_def bl by (simp add: delete_conv')
  have lists: "list_of (removeKey l k) j = filter (\<lambda>x. x \<notin> {k}) (list_of l j)" for j
  proof (cases "i = j")
    case True
    then have "list_of (removeKey l k) j = remove1 k (list_of l j)"
      by (simp add: removeKey_def b i Let_def)
    with inv show ?thesis
      by (simp add: lists_ok_def distinct_remove1_removeAll removeAll_filter_not_eq) (metis (full_types))
  next
    case False
    then have "list_of (removeKey l k) j = list_of l j" by (simp add: removeKey_def b i Let_def)
    moreover have "k \<notin> set (list_of l j)"
      using False i owner_unique [OF inv b, of j] by simp
    then have "filter (\<lambda>x. x \<notin> {k}) (list_of l j) = list_of l j" by (auto simp: filter_id_conv)
    ultimately show ?thesis by simp
  qed
  show "shrunk l {k} (removeKey l k)"
    using get lists b by (auto simp: shrunk_def removeKey_def i Let_def)
  show "distinct (map fst (buckets (removeKey l k)))"
    unfolding bl using inv by (simp add: lists_ok_def distinct_delete)
  show "seen_once (removeKey l k) = seen_once_but l k"
  proof -
    have "k \<notin> fst ` set (AList.delete k (buckets l))" by (auto simp: AList.delete_eq)
    from filter_fst_ne [OF this, of "\<lambda>p. hits (snd p) = 1"] show ?thesis
      unfolding seen_once_def seen_once_but_def bl by (simp add: filter_delete_others)
  qed
  show "oneShot (removeKey l k) = (if hits b = 1 \<and> oneShot l > 0 then oneShot l - 1 else oneShot l)"
    by (simp add: removeKey_def b i Let_def)
qed

lemma shrunk_lists_ok:
  assumes "lists_ok l" and "shrunk l S l'" and "distinct (map fst (buckets l'))"
  shows "lists_ok l'"
proof -
  have last: "last_of l' k = last_of l k" if "k \<notin> S" for k
    using assms(2) that by (simp add: shrunk_def last_of_def)
  have "sorted_wrt (\<lambda>j k. last_of l' k \<le> last_of l' j) (list_of l' i)" for i
  proof -
    have "sorted_wrt (\<lambda>j k. last_of l k \<le> last_of l j) (filter (\<lambda>k. k \<notin> S) (list_of l i))"
      using assms(1) by (simp add: lists_ok_def sorted_wrt_filter)
    then show ?thesis
      using assms(2) last unfolding shrunk_def
      by (auto elim!: sorted_wrt_mono_rel [rotated])
  qed
  with assms show ?thesis
    unfolding lists_ok_def shrunk_def by (auto split: if_splits)
qed

lemma shrunk_Len:
  assumes "shrunk l S l'" and "distinct (map fst (buckets l))" and "distinct (map fst (buckets l'))"
  shows "Len l' + card S = Len l"
proof -
  have "dom (get_bucket l') = dom (get_bucket l) - S"
    using assms(1) by (rule shrunk_dom)
  moreover have "finite (dom (get_bucket l))" 
    unfolding get_bucket_def [abs_def] by (rule finite_dom_map_of)
  moreover have "S \<subseteq> dom (get_bucket l)" using assms(1) by (simp add: shrunk_def)
  ultimately show ?thesis
    using assms(2,3) by (simp add: Len_card card_Diff_subset finite_subset card_mono)
qed

lemma of_nat_small_nonzero:
  assumes "0 < n" and "n < 2 ^ 32"
  shows "(of_nat n :: 32 word) \<noteq> 0"
proof -
  have "unat (of_nat n :: 32 word) = n" using assms by (simp add: unat_of_nat take_bit_nat_eq_self)
  then show ?thesis using assms(1) by (metis less_numeral_extra(3) unat_0)
qed

lemma seen_once_small: "lim_inv l \<Longrightarrow> seen_once l < 2 ^ 32"
  using seen_once_le [of l] by (simp add: lim_inv_def)

lemma removeKey_inv:
  assumes inv: "lim_inv l" and b: "get_bucket l k = Some b"
  shows "lim_inv (removeKey l k)" and "shrunk l {k} (removeKey l k)"
proof -
  from inv have ok: "lists_ok l" and bo: "bucket_ok l b" and os: "oneShot l = of_nat (seen_once l)"
    using b by (auto simp: lim_inv_def)
  have own: "owner b \<noteq> None" using bo by (simp add: bucket_ok_def)
  note eff = removeKey_effect [OF ok b own]
  show sh: "shrunk l {k} (removeKey l k)" by (rule eff(1))
  have dist: "distinct (map fst (buckets l))" using ok by (simp add: lists_ok_def)
  have len: "Len (removeKey l k) + 1 = Len l"
    using shrunk_Len [OF sh dist eff(2)] by simp
  have split: "seen_once l = seen_once_but l k + (if hits b = 1 then 1 else 0)"
    using seen_once_split [OF dist, of k] b by (simp add: hits_of_def)
  note small = seen_once_small [OF inv]
  have "oneShot (removeKey l k) = of_nat (seen_once (removeKey l k))"
  proof (cases "hits b = 1")
    case True
    with split have so: "seen_once l = Suc (seen_once_but l k)" by simp
    then have "(of_nat (seen_once l) :: 32 word) \<noteq> 0"
      using small by (intro of_nat_small_nonzero) simp_all
    then have "oneShot l > 0" unfolding os by (simp add: word_gt_0)
    then show ?thesis using True so eff(3,4) os by simp
  next
    case False
    then show ?thesis using split eff(3,4) os by simp
  qed
  with inv len sh shrunk_lists_ok [OF ok sh eff(2)] show "lim_inv (removeKey l k)"
    unfolding lim_inv_def by (auto simp: shrunk_def bucket_ok_def split: if_splits)
qed

section \<open>Eviction passes\<close>

lemma hits_pos: "lim_inv l \<Longrightarrow> k \<in> dom (get_bucket l) \<Longrightarrow> 1 \<le> hits_of l k"
  by (auto simp: lim_inv_def bucket_ok_def hits_of_def)

lemma shrunk_hits: "shrunk l S l' \<Longrightarrow> k \<notin> S \<Longrightarrow> hits_of l' k = hits_of l k"
  by (simp add: shrunk_def hits_of_def)

lemma shrunk_inv_Len:
  "lim_inv l \<Longrightarrow> lim_inv l' \<Longrightarrow> shrunk l S l' \<Longrightarrow> Len l' + card S = Len l"
  by (rule shrunk_Len) (simp_all add: lim_inv_def lists_ok_def)

text \<open>
  What one pass over the keys \<^term>\<open>ks\<close> (oldest first) removes: a set of them, counted exactly, with
  the budget respected; a pass that stops under budget has taken every key it may take, and a pass
  that may take any key takes an initial part of the walk.
\<close>

definition pass_result :: "bool \<Rightarrow> int \<Rightarrow> string list \<Rightarrow> nat \<Rightarrow> limiter \<Rightarrow> string set \<Rightarrow> nat \<Rightarrow> limiter \<Rightarrow> bool" where
  "pass_result once n ks r l S r' l' \<longleftrightarrow>
     S \<subseteq> set ks \<and> shrunk l S l' \<and> lim_inv l' \<and> r' = r + card S \<and> (int r \<le> n \<longrightarrow> int r' \<le> n) \<and>
     (int r' < n \<longrightarrow> S = {k \<in> set ks. once \<longrightarrow> hits_of l k \<le> 1}) \<and>
     (once \<longrightarrow> (\<forall>k\<in>S. hits_of l k = 1)) \<and>
     (\<not> once \<longrightarrow> (\<exists>m. S = set (take m ks)))"

lemma pass_resultD:
  assumes "pass_result once n ks r l S r' l'"
  shows "S \<subseteq> set ks" "shrunk l S l'" "lim_inv l'" "r' = r + card S" "int r \<le> n \<Longrightarrow> int r' \<le> n"
    "int r' < n \<Longrightarrow> S = {k \<in> set ks. once \<longrightarrow> hits_of l k \<le> 1}"
    "once \<Longrightarrow> k \<in> S \<Longrightarrow> hits_of l k = 1" "\<not> once \<Longrightarrow> \<exists>m. S = set (take m ks)"
  using assms unfolding pass_result_def by (elim conjE; blast)+

lemma evict_pass_effect:
  assumes "lim_inv l" and "distinct ks" and "set ks \<subseteq> dom (get_bucket l)"
  shows "\<exists>S. pass_result once n ks r l S (fst (evict_pass once n ks r l)) (snd (evict_pass once n ks r l))"
  using assms
proof (induction ks arbitrary: r l)
  case Nil
  then show ?case by (auto simp: pass_result_def shrunk_refl)
next
  case (Cons k older)
  have k: "k \<in> dom (get_bucket l)" "k \<notin> set older" using Cons.prems by auto
  consider (full) "\<not> int r < n" | (skip) "int r < n" "once \<and> hits_of l k > 1"
    | (take) "int r < n" "\<not> (once \<and> hits_of l k > 1)" by blast
  then show ?case
  proof cases
    case full
    then have "pass_result once n (k # older) r l {} r l"
      using Cons.prems(1) by (auto simp: pass_result_def shrunk_refl intro: exI [of _ 0])
    with full show ?thesis by auto
  next
    case skip
    obtain S where S: "pass_result once n older r l S (fst (evict_pass once n older r l))
        (snd (evict_pass once n older r l))"
      using Cons.IH [of l r] Cons.prems by auto
    have eq: "{j \<in> set (k # older). once \<longrightarrow> hits_of l j \<le> 1} = {j \<in> set older. once \<longrightarrow> hits_of l j \<le> 1}"
      using skip(2) by auto
    have sub: "S \<subseteq> set (k # older)" using pass_resultD(1) [OF S] by auto
    have "pass_result once n (k # older) r l S (fst (evict_pass once n older r l))
        (snd (evict_pass once n older r l))"
      unfolding pass_result_def eq
      using sub pass_resultD(2-7) [OF S] skip(2) by (intro conjI impI ballI) blast+
    moreover have "evict_pass once n (k # older) r l = evict_pass once n older r l" using skip by simp
    ultimately show ?thesis by metis
  next
    case take
    let ?l = "removeKey l k"
    obtain b where b: "get_bucket l k = Some b" using k by auto
    note rm = removeKey_inv [OF Cons.prems(1) b]
    have "set older \<subseteq> dom (get_bucket ?l)"
      using Cons.prems(3) k shrunk_dom [OF rm(2)] by auto
    then obtain T where T: "pass_result once n older (r + 1) ?l T
        (fst (evict_pass once n older (r + 1) ?l)) (snd (evict_pass once n older (r + 1) ?l))"
      using Cons.IH [OF rm(1), of "r + 1"] Cons.prems by auto
    have Tsub: "T \<subseteq> set older" using T by (rule pass_resultD)
    then have "k \<notin> T" "finite T" using k by (auto intro: finite_subset)
    have hits: "hits_of ?l j = hits_of l j" if "j \<in> set older" for j
      using that k(2) by (intro shrunk_hits [OF rm(2)]) auto
    then have hitsT: "\<And>j. j \<in> T \<Longrightarrow> hits_of ?l j = hits_of l j" using Tsub by auto
    have one: "once \<Longrightarrow> hits_of l k = 1"
      using take(2) hits_pos [OF Cons.prems(1) k(1)] by auto
    have eq: "{j \<in> set (k # older). once \<longrightarrow> hits_of l j \<le> 1} = insert k {j \<in> set older. once \<longrightarrow> hits_of ?l j \<le> 1}"
      using hits take(2) by auto
    have step: "evict_pass once n (k # older) r l = evict_pass once n older (r + 1) ?l"
      using take by auto
    have sh: "shrunk l (insert k T) (snd (evict_pass once n (k # older) r l))"
      using shrunk_trans(1) [OF rm(2) pass_resultD(2) [OF T]] unfolding step by simp
    have pre: "\<exists>m. insert k T = set (take m (k # older))" if "\<not> once"
    proof -
      obtain m where "T = set (take m older)" using pass_resultD(8) [OF T \<open>\<not> once\<close>] by blast
      then show ?thesis by (intro exI [of _ "Suc m"]) simp
    qed
    have "pass_result once n (k # older) r l (insert k T) (fst (evict_pass once n (k # older) r l))
        (snd (evict_pass once n (k # older) r l))"
      unfolding pass_result_def eq
    proof (intro conjI)
      show "once \<longrightarrow> (\<forall>j\<in>insert k T. hits_of l j = 1)"
        using one hitsT pass_resultD(7) [OF T] by auto
      show "\<not> once \<longrightarrow> (\<exists>m. insert k T = set (take m (k # older)))" using pre by blast
      show "insert k T \<subseteq> set (k # older)" using Tsub by auto
      show "int r \<le> n \<longrightarrow> int (fst (evict_pass once n (k # older) r l)) \<le> n"
        using pass_resultD(5) [OF T] take(1) unfolding step by simp
      show "shrunk l (insert k T) (snd (evict_pass once n (k # older) r l))" by (rule sh)
      show "lim_inv (snd (evict_pass once n (k # older) r l))"
        using pass_resultD(3) [OF T] unfolding step .
      show "fst (evict_pass once n (k # older) r l) = r + card (insert k T)"
        using pass_resultD(4) [OF T] \<open>k \<notin> T\<close> \<open>finite T\<close> unfolding step by simp
      show "int (fst (evict_pass once n (k # older) r l)) < n \<longrightarrow>
          insert k T = insert k {j \<in> set older. once \<longrightarrow> hits_of ?l j \<le> 1}"
        using pass_resultD(6) [OF T] unfolding step by blast
    qed
    then show ?thesis by blast
  qed
qed

text \<open>
  The three passes together. The removed set has the requested size, blocked keys go only after
  every active key, repeat visitors only after every key seen once, and within the blocked list the
  least recently used go first.
\<close>

definition evicted_ok :: "int \<Rightarrow> limiter \<Rightarrow> string set \<Rightarrow> limiter \<Rightarrow> bool" where
  "evicted_ok n l S l' \<longleftrightarrow>
     shrunk l S l' \<and> lim_inv l' \<and> int (card S) = n \<and>
     (S \<inter> set (blocked l) \<noteq> {} \<longrightarrow> set (active l) \<subseteq> S) \<and>
     ((\<exists>k\<in>S. hits_of l k > 1) \<longrightarrow> {k \<in> set (active l). hits_of l k = 1} \<subseteq> S) \<and>
     (\<exists>m. S \<inter> set (blocked l) = set (take m (rev (blocked l))))"

lemma lists_cover:
  assumes "lim_inv l"
  shows "dom (get_bucket l) = set (active l) \<union> set (blocked l)" and "set (active l) \<inter> set (blocked l) = {}"
    and "distinct (list_of l i)" and "set (list_of l i) \<subseteq> dom (get_bucket l)"
proof -
  have mem: "k \<in> set (list_of l i) \<longleftrightarrow> (\<exists>b. get_bucket l k = Some b \<and> owner b = Some i)" for i k
    using assms by (simp add: lim_inv_def lists_ok_def)
  have own: "owner b = Some Active \<or> owner b = Some Blocked" if "get_bucket l k = Some b" for k b
    using assms that by (auto simp: lim_inv_def bucket_ok_def)
  show "dom (get_bucket l) = set (active l) \<union> set (blocked l)"
    using mem [of _ Active] mem [of _ Blocked] own by (auto dest: own)
  show "set (active l) \<inter> set (blocked l) = {}"
    using mem [of _ Active] mem [of _ Blocked] by auto
  show "distinct (list_of l i)" using assms by (simp add: lim_inv_def lists_ok_def)
  show "set (list_of l i) \<subseteq> dom (get_bucket l)" using mem [of _ i] by auto
qed

lemma pass_on_list:
  assumes "lim_inv l"
  obtains S where "pass_result once n (rev (list_of l i)) r l S
    (fst (evict_pass once n (rev (list_of l i)) r l)) (snd (evict_pass once n (rev (list_of l i)) r l))"
  using evict_pass_effect [OF assms, of "rev (list_of l i)" once n r] lists_cover(3,4) [OF assms, of i]
  by auto

lemma oneShot_zero:
  assumes "lim_inv l" and "oneShot l = 0" and "get_bucket l k = Some b"
  shows "hits_of l k \<noteq> 1"
proof
  assume h: "hits_of l k = 1"
  have "seen_once l = seen_once_but l k + 1"
    using seen_once_split [of l k] assms(1) h by (simp add: lim_inv_def lists_ok_def)
  moreover have "seen_once l < 2 ^ 32" using assms(1) by (rule seen_once_small)
  moreover have "(of_nat (seen_once l) :: 32 word) = 0" using assms(1,2) by (simp add: lim_inv_def)
  ultimately show False using of_nat_small_nonzero [of "seen_once l"] by linarith
qed

lemma first_pass:
  assumes inv: "lim_inv l" and n: "0 < n"
  obtains S l1 where "shrunk l S l1" "lim_inv l1" "S \<subseteq> set (active l)" "int (card S) \<le> n"
    "\<And>k. k \<in> S \<Longrightarrow> hits_of l k = 1"
    "int (card S) < n \<Longrightarrow> S = {k \<in> set (active l). hits_of l k = 1}"
    "run_passes n evict_passes 0 l =
       (if int (card S) \<ge> n then l1 else run_passes n [(Active, False), (Blocked, False)] (card S) l1)"
proof (cases "oneShot l = 0")
  case True
  have none: "{k \<in> set (active l). hits_of l k = 1} = {}"
    using oneShot_zero [OF inv True] lists_cover(1) [OF inv] by blast
  show thesis
    by (rule that [OF shrunk_refl inv]) (use n none True in \<open>simp_all add: evict_passes_def\<close>)
next
  case False
  let ?e = "evict_pass True n (rev (list_of l Active)) 0 l"
  obtain S where S: "pass_result True n (rev (list_of l Active)) 0 l S (fst ?e) (snd ?e)"
    using inv by (rule pass_on_list)
  note D = pass_resultD [OF S]
  have le1: "k \<in> set (active l) \<Longrightarrow> hits_of l k \<le> 1 \<longleftrightarrow> hits_of l k = 1" for k
    using hits_pos [OF inv, of k] lists_cover(1) [OF inv] by auto
  show thesis
  proof (rule that [OF D(2,3)])
    show "S \<subseteq> set (active l)" using D(1) by simp
    show "int (card S) \<le> n" using D(4,5) n by simp
    show "hits_of l k = 1" if "k \<in> S" for k using D(7) that by simp
    show "S = {k \<in> set (active l). hits_of l k = 1}" if "int (card S) < n"
    proof -
      have "S = {k \<in> set (rev (list_of l Active)). True \<longrightarrow> hits_of l k \<le> 1}" using that D(4) by (intro D(6)) simp
      also have "\<dots> = {k \<in> set (active l). hits_of l k = 1}" using le1 by auto
      finally show ?thesis .
    qed
    show "run_passes n evict_passes 0 l = (if int (card S) \<ge> n then snd ?e
        else run_passes n [(Active, False), (Blocked, False)] (card S) (snd ?e))"
      using False D(4) by (simp add: evict_passes_def split_beta)
  qed
qed

text \<open>The pass over the blocked list, reached with \<^term>\<open>r\<close> keys gone.\<close>

lemma last_pass:
  assumes inv: "lim_inv l" and r: "int r < n"
  obtains U l' where "shrunk l U l'" "lim_inv l'" "\<exists>m. U = set (take m (rev (blocked l)))"
    "int (r + card U) \<le> n" "int (r + card U) < n \<Longrightarrow> U = set (blocked l)"
    "run_passes n [(Blocked, False)] r l = l'"
proof -
  let ?e = "evict_pass False n (rev (list_of l Blocked)) r l"
  obtain U where "pass_result False n (rev (list_of l Blocked)) r l U (fst ?e) (snd ?e)"
    using inv by (rule pass_on_list)
  note D = pass_resultD [OF this]
  have all: "U = set (blocked l)" if "int (r + card U) < n"
  proof -
    have "U = {k \<in> set (rev (list_of l Blocked)). False \<longrightarrow> hits_of l k \<le> 1}" using that D(4) by (intro D(6)) simp
    then show ?thesis by simp
  qed
  show thesis
    by (rule that [OF D(2,3)]) (use D(4,5,8) r all in \<open>simp_all add: split_beta\<close>)
qed

lemma shrunk_lists:
  assumes "shrunk l S l'"
  shows "set (active l') = set (active l) - S" and "blocked l' = filter (\<lambda>k. k \<notin> S) (blocked l)"
proof -
  have "list_of l' i = filter (\<lambda>k. k \<notin> S) (list_of l i)" for i using assms by (simp add: shrunk_def)
  from this [of Active] this [of Blocked]
  show "set (active l') = set (active l) - S" and "blocked l' = filter (\<lambda>k. k \<notin> S) (blocked l)"
    by auto
qed

lemma shrunk_blocked:
  assumes "shrunk l S l'" and "S \<inter> set (blocked l) = {}"
  shows "blocked l' = blocked l"
  using assms(2) shrunk_lists(2) [OF assms(1)] by (metis disjoint_iff filter_True)

text \<open>The passes that may take any key: the blocked list is touched only when the active list is used up.\<close>

lemma later_passes:
  assumes inv: "lim_inv l" and r: "int r < n" and len: "n \<le> int (r + Len l)"
  obtains S l' where "shrunk l S l'" "lim_inv l'" "int (r + card S) = n"
    "S \<inter> set (blocked l) \<noteq> {} \<Longrightarrow> set (active l) \<subseteq> S"
    "\<exists>m. S \<inter> set (blocked l) = set (take m (rev (blocked l)))"
    "run_passes n [(Active, False), (Blocked, False)] r l = l'"
proof -
  let ?e = "evict_pass False n (rev (list_of l Active)) r l"
  let ?l1 = "snd ?e"
  obtain T where "pass_result False n (rev (list_of l Active)) r l T (fst ?e) ?l1"
    using inv by (rule pass_on_list)
  note D = pass_resultD [OF this]
  have T: "T \<subseteq> set (active l)" "T \<inter> set (blocked l) = {}"
    using D(1) lists_cover(2) [OF inv] by auto
  show thesis
  proof (cases "int (fst ?e) \<ge> n")
    case True
    then show thesis
      by (intro that [OF D(2,3)]) (use T D(4,5) r in \<open>auto simp: split_beta intro: exI [of _ 0]\<close>)
  next
    case False
    then have "T = {k \<in> set (rev (list_of l Active)). False \<longrightarrow> hits_of l k \<le> 1}" by (intro D(6)) simp
    then have all: "T = set (active l)" by simp
    obtain U l' where U: "shrunk ?l1 U l'" "lim_inv l'" "\<exists>m. U = set (take m (rev (blocked l)))"
      "int (fst ?e + card U) \<le> n" "int (fst ?e + card U) < n \<Longrightarrow> U = set (blocked l)"
      "run_passes n [(Blocked, False)] (fst ?e) ?l1 = l'"
      using last_pass [OF D(3), of "fst ?e" n] False unfolding shrunk_blocked [OF D(2) T(2)] by auto
    note TU = shrunk_trans [OF D(2) U(1)]
    have Usub: "U \<subseteq> set (blocked l)" using U(3) set_take_subset by (metis set_rev)
    have card: "card (T \<union> U) = card T + card U"
      using T(1) Usub TU(2) by (intro card_Un_disjoint) (auto intro: finite_subset)
    have "\<not> int (fst ?e + card U) < n"
    proof
      assume lt: "int (fst ?e + card U) < n"
      then have "T \<union> U = dom (get_bucket l)" using U(5) all lists_cover(1) [OF inv] by simp
      then have "Len l = card T + card U"
        using card Len_card [of l] inv by (simp add: lim_inv_def lists_ok_def)
      then show False using lt len D(4) by simp
    qed
    then have "int (r + card (T \<union> U)) = n" using U(4) card D(4) by simp
    moreover have "(T \<union> U) \<inter> set (blocked l) = U" using T(2) Usub by auto
    ultimately show thesis
      by (intro that [OF TU(1) U(2)]) (use all U(3,6) False in \<open>simp_all add: split_beta\<close>)
  qed
qed

lemma evictLocked_effect:
  assumes inv: "lim_inv l" and n: "0 < n" and len: "n \<le> int (Len l)"
  shows "\<exists>S. evicted_ok n l S (evictLocked n l)"
proof -
  have ev: "evictLocked n l = run_passes n evict_passes 0 l" using n by (simp add: evictLocked_def)
  obtain S l1 where 1: "shrunk l S l1" "lim_inv l1" "S \<subseteq> set (active l)" "int (card S) \<le> n"
    "\<And>k. k \<in> S \<Longrightarrow> hits_of l k = 1"
    "int (card S) < n \<Longrightarrow> S = {k \<in> set (active l). hits_of l k = 1}"
    "run_passes n evict_passes 0 l =
       (if int (card S) \<ge> n then l1 else run_passes n [(Active, False), (Blocked, False)] (card S) l1)"
    using first_pass [OF inv n] by blast
  have S: "S \<inter> set (blocked l) = {}" using 1(3) lists_cover(2) [OF inv] by auto
  show ?thesis
  proof (cases "int (card S) \<ge> n")
    case True
    moreover have "\<not> (\<exists>k\<in>S. hits_of l k > 1)" using 1(5) by auto
    ultimately have "evicted_ok n l S l1"
      using 1(1,2,4) S unfolding evicted_ok_def by (auto intro: exI [of _ 0])
    with True 1(7) ev show ?thesis by auto
  next
    case False
    note len1 = shrunk_inv_Len [OF inv 1(2,1)]
    note blk = shrunk_blocked [OF 1(1) S]
    obtain T l' where T: "shrunk l1 T l'" "lim_inv l'" "int (card S + card T) = n"
      "T \<inter> set (blocked l) \<noteq> {} \<Longrightarrow> set (active l1) \<subseteq> T"
      "\<exists>m. T \<inter> set (blocked l) = set (take m (rev (blocked l)))"
      "run_passes n [(Active, False), (Blocked, False)] (card S) l1 = l'"
      using later_passes [OF 1(2), of "card S" n] False len len1 unfolding blk by auto
    note ST = shrunk_trans [OF 1(1) T(1)]
    have "finite T" using T(1) lists_cover(1) [OF 1(2)] by (auto simp: shrunk_def intro: finite_subset)
    then have "card (S \<union> T) = card S + card T"
      using ST(2) 1(3) by (intro card_Un_disjoint) (auto intro: finite_subset)
    moreover have "(S \<union> T) \<inter> set (blocked l) = T \<inter> set (blocked l)" using S by auto
    moreover have "set (active l) \<subseteq> S \<union> T" if "T \<inter> set (blocked l) \<noteq> {}"
      using T(4) [OF that] shrunk_lists(1) [OF 1(1)] by auto
    moreover have "{k \<in> set (active l). hits_of l k = 1} \<subseteq> S \<union> T" using 1(6) False by auto
    ultimately have "evicted_ok n l (S \<union> T) l'"
      using ST(1) T(2,3,5) unfolding evicted_ok_def by simp
    moreover have "evictLocked n l = l'" using ev 1(7) T(6) False by simp
    ultimately show ?thesis by blast
  qed
qed

end
