(* ===== verification/LimiterProps.thy ===== *)
theory LimiterProps
  imports LimiterLaws
begin

text \<open>
  Properties of the rate limiter: what \<^verbatim>\<open>Allow\<close> decides and keeps, the eviction order, the long-run
  bound on the requests a key is granted, the exactness of the advertised waiting time, and the
  termination and effect of the idle sweep.
\<close>

section \<open>Placing a key\<close>

lemma place_unlinks:
  assumes "lists_ok l" and "get_bucket l k = Some b0" and "owner b = owner b0"
  shows "list_of (place l k b blk) i =
    (if i = (if blk then Blocked else Active) then k # filter (\<lambda>x. x \<noteq> k) (list_of l i)
     else filter (\<lambda>x. x \<noteq> k) (list_of l i))"
proof -
  have rm: "remove1 k (list_of l j) = filter (\<lambda>x. x \<noteq> k) (list_of l j)" for j
    using assms(1) by (simp add: lists_ok_def distinct_remove1_removeAll removeAll_filter_not_eq) metis
  have nop: "filter (\<lambda>x. x \<noteq> k) (list_of l j) = list_of l j" if "owner b \<noteq> Some j" for j
    using owner_unique [OF assms(1,2), of j] that assms(3) by (auto simp: filter_id_conv)
  show ?thesis
    using rm nop by (cases "owner b") (auto simp: place_def Let_def)
qed

lemma place_frame:
  "get_bucket (place l k b blk) j =
     (if j = k then Some (b\<lparr>owner := Some (if blk then Blocked else Active)\<rparr>) else get_bucket l j)"
  "oneShot (place l k b blk) = oneShot l" "rate (place l k b blk) = rate l"
  "burst (place l k b blk) = burst l" "maxKeys (place l k b blk) = maxKeys l"
  "buckets (place l k b blk) =
     AList.update k (b\<lparr>owner := Some (if blk then Blocked else Active)\<rparr>) (buckets l)"
  by (cases "owner b"; simp add: place_def Let_def set_bucket_def; simp add: get_bucket_def update_conv')+

lemma seen_once_update:
  assumes "distinct (map fst (buckets l))" and "buckets l' = AList.update k b (buckets l)"
  shows "seen_once l' = seen_once_but l k + (if hits b = 1 then 1 else 0)"
proof -
  have "hits_of l' k = hits b" by (simp add: hits_of_def get_bucket_def assms(2) update_conv')
  moreover have "distinct (map fst (buckets l'))" using assms by (simp add: distinct_update)
  moreover have "seen_once_but l' k = seen_once_but l k"
    unfolding seen_once_but_def assms(2) by (simp add: filter_update_others)
  ultimately show ?thesis using seen_once_split [of l' k] by simp
qed

lemma place_lists_ok:
  assumes ok: "lists_ok l" and b0: "get_bucket l k = Some b0" and own: "owner b = owner b0"
    and recent: "\<And>j. j \<in> dom (get_bucket l) \<Longrightarrow> last_of l j \<le> lastCheck b"
  shows "lists_ok (place l k b blk)"
proof -
  let ?l = "place l k b blk"
  note lists = place_unlinks [OF ok b0 own, of blk]
  have last: "last_of ?l j = (if j = k then lastCheck b else last_of l j)" for j
    by (simp add: last_of_def place_frame)
  have mem: "j \<in> set (list_of l i) \<longleftrightarrow> (\<exists>b. get_bucket l j = Some b \<and> owner b = Some i)" for i j
    using ok by (simp add: lists_ok_def)
  have "sorted_wrt (\<lambda>j k. last_of l k \<le> last_of l j) (filter (\<lambda>x. x \<noteq> k) (list_of l i))" for i
    using ok by (simp add: lists_ok_def sorted_wrt_filter)
  then have sorted: "sorted_wrt (\<lambda>j k. last_of ?l k \<le> last_of ?l j) (filter (\<lambda>x. x \<noteq> k) (list_of l i))" for i
    by (rule sorted_wrt_mono_rel [rotated]) (auto simp: last)
  have front: "last_of ?l j \<le> last_of ?l k" if "j \<in> set (list_of l i)" for i j
    using that mem [of j i] recent [of j] by (auto simp: last)
  have "distinct (map fst (buckets ?l))" using ok by (simp add: place_frame distinct_update lists_ok_def)
  moreover have "distinct (list_of ?l i)" for i using ok by (auto simp: lists lists_ok_def)
  moreover have "j \<in> set (list_of ?l i) \<longleftrightarrow> (\<exists>b. get_bucket ?l j = Some b \<and> owner b = Some i)" for i j
    by (auto simp: lists place_frame mem)
  moreover have "sorted_wrt (\<lambda>j k. last_of ?l k \<le> last_of ?l j) (list_of ?l i)" for i
    using sorted [of i] front [of _ i] by (auto simp: lists)
  ultimately show ?thesis unfolding lists_ok_def by blast
qed

section \<open>Looking a key up\<close>

definition clock_ok :: "int \<Rightarrow> limiter \<Rightarrow> bool" where
  "clock_ok now l \<longleftrightarrow> (\<forall>k b. get_bucket l k = Some b \<longrightarrow> lastCheck b \<le> now)"

lemma shrunk_clock: "clock_ok now l \<Longrightarrow> shrunk l S l' \<Longrightarrow> clock_ok now l'"
  by (auto simp: clock_ok_def shrunk_def split: if_splits)

definition make_room :: "limiter \<Rightarrow> limiter" where
  "make_room l = (if maxKeys l > 0 \<and> int (Len l) \<ge> maxKeys l then evictLocked (trimCount l) l else l)"

lemma trimCount_range:
  assumes "lim_inv l" and "int (Len l) \<ge> maxKeys l"
  shows "0 < trimCount l" and "trimCount l \<le> int (Len l)"
  using assms by (auto simp: trimCount_def lim_inv_def Let_def)

lemma make_room_effect:
  assumes inv: "lim_inv l"
  obtains S where "shrunk l S (make_room l)" "lim_inv (make_room l)" "int (Len (make_room l)) < maxKeys l"
    "S \<noteq> {} \<Longrightarrow> evicted_ok (trimCount l) l S (make_room l) \<and> int (Len l) = maxKeys l"
proof (cases "int (Len l) \<ge> maxKeys l")
  case True
  note tr = trimCount_range [OF inv True]
  obtain S where S: "evicted_ok (trimCount l) l S (evictLocked (trimCount l) l)"
    using evictLocked_effect [OF inv tr] by blast
  have mr: "make_room l = evictLocked (trimCount l) l"
    using True inv by (simp add: make_room_def lim_inv_def)
  have "Len (make_room l) + card S = Len l"
    using S inv unfolding mr by (intro shrunk_inv_Len) (simp_all add: evicted_ok_def)
  moreover have "int (card S) > 0" using S tr by (simp add: evicted_ok_def)
  moreover have "int (Len l) = maxKeys l" using inv True by (simp add: lim_inv_def)
  ultimately show thesis
    using S mr by (intro that [of S]) (simp_all add: evicted_ok_def)
next
  case False
  then have "make_room l = l" by (simp add: make_room_def)
  with False inv show thesis by (intro that [of "{}"]) (simp_all add: shrunk_refl)
qed

text \<open>
  The state between the lookup and the placement of \<^verbatim>\<open>Allow\<close>: the invariant of every other key, and
  the bucket found or created for the key. A key seen at most once is counted as one-shot.
\<close>

definition found_ok :: "int \<Rightarrow> string \<Rightarrow> limiter \<Rightarrow> limiter \<Rightarrow> bucket \<Rightarrow> bool" where
  "found_ok now k l m b \<longleftrightarrow>
     lists_ok m \<and> get_bucket m k = Some b \<and>
     (\<forall>j c. j \<noteq> k \<longrightarrow> get_bucket m j = Some c \<longrightarrow> bucket_ok m c) \<and>
     oneShot m = of_nat (seen_once_but m k + (if hits b \<le> 1 then 1 else 0)) \<and>
     int (Len m) \<le> maxKeys m \<and> clock_ok now m \<and>
     0 \<le> tokens b \<and> tokens b \<le> of_int (burst m) \<and>
     rate m = rate l \<and> burst m = burst l \<and> maxKeys m = maxKeys l"

lemma found_known:
  assumes "lim_inv l" and "clock_ok now l" and "get_bucket l k = Some b"
  shows "found_ok now k l l b"
proof -
  have "1 \<le> hits_of l k" using assms(3) by (intro hits_pos [OF assms(1)]) auto
  then have "seen_once l = seen_once_but l k + (if hits b \<le> 1 then 1 else 0)"
    using seen_once_split [of l k] assms(1,3)
    by (auto simp: lim_inv_def lists_ok_def hits_of_def)
  with assms show ?thesis by (auto simp: found_ok_def lim_inv_def bucket_ok_def)
qed

lemma set_fresh_lists_ok:
  assumes ok: "lists_ok l" and new: "get_bucket l k = None" and own: "owner b = None"
  shows "lists_ok (set_bucket l k b)"
proof -
  have out: "k \<notin> set (list_of l i)" for i using ok new by (simp add: lists_ok_def)
  have last: "last_of (set_bucket l k b) j = last_of l j" if "j \<noteq> k" for j
    using that by (simp add: last_of_def)
  have sorted: "sorted_wrt (\<lambda>j k. last_of l k \<le> last_of l j) (list_of l i)" for i
    using ok by (simp add: lists_ok_def)
  have "sorted_wrt (\<lambda>i j. last_of (set_bucket l k b) j \<le> last_of (set_bucket l k b) i) (list_of l i)" for i
    by (rule sorted_wrt_mono_rel [OF _ sorted]) (metis last out)
  moreover have "distinct (map fst (buckets (set_bucket l k b)))"
    using ok by (simp add: set_bucket_def distinct_update lists_ok_def)
  ultimately show ?thesis
    using ok out own unfolding lists_ok_def by (auto simp: lists_ok_def)
qed

lemma length_update_new: "k \<notin> fst ` set al \<Longrightarrow> length (AList.update k v al) = Suc (length al)"
  by (induction al) auto

lemma found_fresh:
  assumes inv: "lim_inv l" and clock: "clock_ok now l" and new: "get_bucket l k = None"
    and room: "int (Len l) < maxKeys l"
  shows "found_ok now k l ((set_bucket l k (fresh_bucket l now))\<lparr>oneShot := oneShot l + 1\<rparr>) (fresh_bucket l now)"
    (is "found_ok now k l ?m ?b")
proof -
  have dist: "distinct (map fst (buckets l))" using inv by (simp add: lim_inv_def lists_ok_def)
  have lists: "lists_ok (set_bucket l k ?b)"
    by (rule set_fresh_lists_ok) (use inv new in \<open>simp_all add: lim_inv_def fresh_bucket_def\<close>)
  then have "lists_ok ?m"
    unfolding lists_ok_def last_of_def by (simp add: set_bucket_def)
  moreover have "seen_once_but ?m k = seen_once l"
    using filter_update_others [of "\<lambda>p. hits (snd p) = 1" k ?b "buckets l"]
      length_filter_key_none [of "buckets l" k "\<lambda>p. hits (snd p) = 1"] new
    by (simp add: seen_once_but_def seen_once_def set_bucket_def get_bucket_def)
  moreover have "Len ?m = Len l + 1"
    using new by (simp add: Len_def set_bucket_def get_bucket_def map_of_eq_None_iff length_update_new)
  moreover have "clock_ok now ?m" using clock by (auto simp: clock_ok_def fresh_bucket_def)
  moreover have "1 \<le> burst l" using inv by (simp add: lim_inv_def)
  ultimately show ?thesis
    using inv room new by (auto simp: found_ok_def lim_inv_def bucket_ok_def fresh_bucket_def)
qed

lemma find_or_insert_effect:
  assumes inv: "lim_inv l" and clock: "clock_ok now l"
  shows "found_ok now k l (fst (find_or_insert now k l)) (snd (find_or_insert now k l))"
    and "get_bucket l k = Some b \<Longrightarrow> find_or_insert now k l = (l, b)"
    and "get_bucket l k = None \<Longrightarrow> snd (find_or_insert now k l) = fresh_bucket l now"
    and "get_bucket l k = None \<Longrightarrow> j \<noteq> k \<Longrightarrow>
      get_bucket (fst (find_or_insert now k l)) j = get_bucket (make_room l) j"
proof -
  obtain S where S: "shrunk l S (make_room l)" "lim_inv (make_room l)" "int (Len (make_room l)) < maxKeys l"
    using make_room_effect [OF inv] by metis
  let ?r = "make_room l"
  have same: "burst ?r = burst l" "rate ?r = rate l" "maxKeys ?r = maxKeys l"
    using S(1) by (simp_all add: shrunk_def)
  then have fresh: "fresh_bucket ?r now = fresh_bucket l now" by (simp add: fresh_bucket_def)
  have new: "find_or_insert now k l =
      ((set_bucket ?r k (fresh_bucket ?r now))\<lparr>oneShot := oneShot ?r + 1\<rparr>, fresh_bucket l now)"
    if "get_bucket l k = None"
    using that fresh unfolding find_or_insert_def make_room_def by (simp add: Let_def)
  show "get_bucket l k = Some b \<Longrightarrow> find_or_insert now k l = (l, b)"
    by (simp add: find_or_insert_def)
  show "get_bucket l k = None \<Longrightarrow> snd (find_or_insert now k l) = fresh_bucket l now"
    using new by simp
  show "get_bucket (fst (find_or_insert now k l)) j = get_bucket ?r j" if "get_bucket l k = None" "j \<noteq> k"
    using new that by simp
  show "found_ok now k l (fst (find_or_insert now k l)) (snd (find_or_insert now k l))"
  proof (cases "get_bucket l k")
    case None
    have "get_bucket ?r k = None" using S(1) None by (simp add: shrunk_def)
    then have "found_ok now k ?r (fst (find_or_insert now k l)) (snd (find_or_insert now k l))"
      using found_fresh [OF S(2) shrunk_clock [OF clock S(1)], of k] S(3) same new [OF None] fresh by simp
    then show ?thesis by (simp add: found_ok_def same)
  next
    case (Some b)
    then show ?thesis using found_known [OF inv clock Some] by (simp add: find_or_insert_def)
  qed
qed

lemma touch_inv:
  assumes f: "found_ok now k l m0 b0" and inv: "lim_inv l"
    and m: "m = (if hits b0 = 1 then m0\<lparr>oneShot := oneShot m0 - 1\<rparr> else m0)"
    and b: "owner b = owner b0" "0 \<le> tokens b" "tokens b \<le> of_int (burst l)" "hits b = hits b0 + 1"
      "lastCheck b = now"
  shows "lim_inv (place m k b (tokens b < 1))" and "clock_ok now (place m k b (tokens b < 1))"
proof -
  let ?l = "place m k b (tokens b < 1)"
  have m_simps: "buckets m = buckets m0" "get_bucket m = get_bucket m0" "list_of m = list_of m0"
    "burst m = burst m0" "maxKeys m = maxKeys m0"
    using m by (auto simp: fun_eq_iff)
  have lists: "lists_ok m" using f by (simp add: found_ok_def lists_ok_def last_of_def m_simps)
  have b0: "get_bucket m k = Some b0" using f by (simp add: found_ok_def m_simps)
  have recent: "last_of m j \<le> lastCheck b" if "j \<in> dom (get_bucket m)" for j
    using f that b(5) by (auto simp: found_ok_def clock_ok_def last_of_def m_simps)
  have lists': "lists_ok ?l" using lists b0 b(1) recent by (rule place_lists_ok)
  have dist: "distinct (map fst (buckets m))" using lists by (simp add: lists_ok_def)
  have "seen_once ?l = seen_once_but m k + (if hits b = 1 then 1 else 0)"
    using seen_once_update [OF dist, of ?l k] by (simp add: place_frame)
  moreover have "seen_once_but m k = seen_once_but m0 k" by (simp add: seen_once_but_def m_simps)
  ultimately have one: "oneShot ?l = of_nat (seen_once ?l)"
    using f b(4) by (auto simp: found_ok_def place_frame m le_Suc_eq)
  have "dom (get_bucket ?l) = dom (get_bucket m)" using b0 by (auto simp: place_frame split: if_splits)
  then have "Len ?l = Len m" using lists lists' by (simp add: Len_card lists_ok_def)
  also have "Len m = Len m0" by (simp add: Len_def m_simps)
  finally have len: "int (Len ?l) \<le> maxKeys l" using f by (simp add: found_ok_def)
  have "bucket_ok ?l c" if "get_bucket ?l j = Some c" for j c
    using f that b by (auto simp: found_ok_def place_frame m_simps bucket_ok_def split: if_splits)
  with lists' one len inv f show "lim_inv ?l"
    by (auto simp: lim_inv_def place_frame found_ok_def m_simps)
  show "clock_ok now ?l"
    using f b(5) by (auto simp: clock_ok_def place_frame found_ok_def m_simps)
qed

section \<open>The decision\<close>

text \<open>The tokens a key has at a given instant: a full burst for an unknown key, the refilled bucket otherwise.\<close>

definition available :: "int \<Rightarrow> limiter \<Rightarrow> string \<Rightarrow> rat" where
  "available now l k =
     (case get_bucket l k of
        None \<Rightarrow> of_int (burst l)
      | Some b \<Rightarrow> min (of_int (burst l)) (tokens b + of_int (now - lastCheck b) / 1000000000 * rate l))"

lemma refill_fields:
  "tokens (refill l now b) =
     min (of_int (burst l)) (tokens b + of_int (now - lastCheck b) / 1000000000 * rate l)"
  "lastCheck (refill l now b) = now" "hits (refill l now b) = hits b + 1" "owner (refill l now b) = owner b"
  by (auto simp: refill_def Let_def min_def)

lemma available_nonneg:
  assumes "lim_inv l" and "clock_ok now l" and "rate l > 0"
  shows "0 \<le> available now l k"
  using assms by (auto simp: available_def lim_inv_def clock_ok_def bucket_ok_def split: option.splits)

lemma refill_available:
  assumes inv: "lim_inv l" and clock: "clock_ok now l"
    and same: "burst m = burst l" "rate m = rate l"
  shows "tokens (refill m now (snd (find_or_insert now k l))) = available now l k"
proof (cases "get_bucket l k")
  case None
  then show ?thesis
    using find_or_insert_effect(3) [OF inv clock None] same
    by (simp add: available_def refill_fields fresh_bucket_def)
next
  case (Some b)
  then show ?thesis
    using find_or_insert_effect(2) [OF inv clock Some] same by (simp add: available_def refill_fields)
qed

lemma Allow_unfold:
  assumes inv: "lim_inv l" and clock: "clock_ok now l" and rate: "rate l > 0"
  obtains m b where
    "found_ok now k l (fst (find_or_insert now k l)) (snd (find_or_insert now k l))"
    "m = (if hits (snd (find_or_insert now k l)) = 1
          then (fst (find_or_insert now k l))\<lparr>oneShot := oneShot (fst (find_or_insert now k l)) - 1\<rparr>
          else fst (find_or_insert now k l))"
    "owner b = owner (snd (find_or_insert now k l))" "hits b = hits (snd (find_or_insert now k l)) + 1"
    "lastCheck b = now"
    "tokens b = available now l k - (if 1 \<le> available now l k then 1 else 0)"
    "Allow now k l = (1 \<le> available now l k, place m k b (tokens b < 1))"
proof -
  obtain m0 b0 where fi: "find_or_insert now k l = (m0, b0)" by fastforce
  note f = find_or_insert_effect(1) [OF inv clock, of k, unfolded fi fst_conv snd_conv]
  define m where "m = (if hits b0 = 1 then m0\<lparr>oneShot := oneShot m0 - 1\<rparr> else m0)"
  have "burst m = burst l" "rate m = rate l" using f by (simp_all add: found_ok_def m_def)
  then have tok: "tokens (refill m now b0) = available now l k"
    using refill_available [OF inv clock, of m k] fi by simp
  have al: "Allow now k l =
      (if available now l k < 1 then (False, place m k (refill m now b0) True)
       else (True, place m k ((refill m now b0)\<lparr>tokens := available now l k - 1\<rparr>) (available now l k - 1 < 1)))"
    using rate tok unfolding Allow_def fi Let_def prod.case m_def [symmetric] by simp
  show thesis
  proof (cases "available now l k < 1")
    case True
    show thesis
      by (rule that [of m "refill m now b0"]) (use f fi True al tok in \<open>simp_all add: refill_fields(2-4) m_def\<close>)
  next
    case False
    show thesis
      by (rule that [of m "(refill m now b0)\<lparr>tokens := available now l k - 1\<rparr>"])
        (use f fi False al tok in \<open>simp_all add: refill_fields(2-4) m_def\<close>)
  qed
qed

lemma Allow_effect:
  assumes inv: "lim_inv l" and clock: "clock_ok now l" and rate: "rate l > 0"
  shows "fst (Allow now k l) \<longleftrightarrow> 1 \<le> available now l k"
    and "lim_inv (snd (Allow now k l))" and "clock_ok now (snd (Allow now k l))"
    and "\<exists>b. get_bucket (snd (Allow now k l)) k = Some b \<and> lastCheck b = now \<and>
           tokens b = available now l k - (if 1 \<le> available now l k then 1 else 0)"
    and "j \<noteq> k \<Longrightarrow> get_bucket (snd (Allow now k l)) j =
           (if get_bucket l k = None then get_bucket (make_room l) j else get_bucket l j)"
    and "rate (snd (Allow now k l)) = rate l" and "burst (snd (Allow now k l)) = burst l"
    and "maxKeys (snd (Allow now k l)) = maxKeys l"
proof -
  let ?f = "find_or_insert now k l"
  obtain m b where f: "found_ok now k l (fst ?f) (snd ?f)"
    and m: "m = (if hits (snd ?f) = 1 then (fst ?f)\<lparr>oneShot := oneShot (fst ?f) - 1\<rparr> else fst ?f)"
    and b: "owner b = owner (snd ?f)" "hits b = hits (snd ?f) + 1" "lastCheck b = now"
      "tokens b = available now l k - (if 1 \<le> available now l k then 1 else 0)"
    and al: "Allow now k l = (1 \<le> available now l k, place m k b (tokens b < 1))"
    using Allow_unfold [OF assms] by metis
  have up: "available now l k \<le> of_int (burst l)" by (simp add: available_def split: option.splits)
  have nn: "0 \<le> tokens b" "tokens b \<le> of_int (burst l)"
    using available_nonneg [OF assms, of k] up b(4) by auto
  show "fst (Allow now k l) \<longleftrightarrow> 1 \<le> available now l k" using al by simp
  show "lim_inv (snd (Allow now k l))" "clock_ok now (snd (Allow now k l))"
    using touch_inv [OF f inv m b(1) nn b(2,3)] al by simp_all
  show "\<exists>b. get_bucket (snd (Allow now k l)) k = Some b \<and> lastCheck b = now \<and>
           tokens b = available now l k - (if 1 \<le> available now l k then 1 else 0)"
    using al b(3,4) by (simp add: place_frame)
  have gm: "get_bucket m = get_bucket (fst ?f)" using m by auto
  show "get_bucket (snd (Allow now k l)) j =
      (if get_bucket l k = None then get_bucket (make_room l) j else get_bucket l j)" if "j \<noteq> k"
    using al that gm find_or_insert_effect(2,4) [OF inv clock, of k]
    by (cases "get_bucket l k") (simp_all add: place_frame)
  have "rate m = rate l" "burst m = burst l" "maxKeys m = maxKeys l" using m f by (auto simp: found_ok_def)
  with al show "rate (snd (Allow now k l)) = rate l" "burst (snd (Allow now k l)) = burst l"
    "maxKeys (snd (Allow now k l)) = maxKeys l"
    by (simp_all add: place_frame)
qed

section \<open>Idle sweep\<close>

lemma oldest_at_back:
  assumes inv: "lim_inv l" and ne: "list_of l i \<noteq> []" and j: "j \<in> set (list_of l i)"
  shows "last_of l (last (list_of l i)) \<le> last_of l j"
proof -
  obtain xs k where xs: "list_of l i = xs @ [k]" using ne by (cases "list_of l i" rule: rev_cases) auto
  have "sorted_wrt (\<lambda>j k. last_of l k \<le> last_of l j) (xs @ [k])"
    using inv unfolding xs [symmetric] by (simp add: lim_inv_def lists_ok_def)
  then show ?thesis using j xs by (auto simp: sorted_wrt_append)
qed

lemma sweep_effect:
  assumes "lim_inv l"
  shows "\<exists>l'. sweep i c l = Some l' \<and> lim_inv l' \<and>
    shrunk l {k \<in> set (list_of l i). last_of l k < c} l'"
  using assms
proof (induction "length (list_of l i)" arbitrary: l rule: less_induct)
  case less
  let ?k = "last (list_of l i)"
  show ?case
  proof (cases "list_of l i = []")
    case True
    then show ?thesis using less.prems by (subst sweep.simps) (simp add: shrunk_refl)
  next
    case False
    then have k: "?k \<in> set (list_of l i)" by simp
    then obtain b where b: "get_bucket l ?k = Some b" using lists_cover(4) [OF less.prems, of i] by auto
    show ?thesis
    proof (cases "lastCheck b < c")
      case False
      have none: "{k \<in> set (list_of l i). last_of l k < c} = {}"
        using oldest_at_back [OF less.prems] k False b by (force simp: last_of_def)
      show ?thesis
        unfolding none using False b \<open>list_of l i \<noteq> []\<close> less.prems
        by (subst sweep.simps) (simp add: shrunk_refl)
    next
      case True
      let ?l = "removeKey l ?k"
      note rm = removeKey_inv [OF less.prems b]
      have lst: "list_of ?l i = filter (\<lambda>x. x \<noteq> ?k) (list_of l i)" using rm(2) by (simp add: shrunk_def)
      then have "length (list_of ?l i) < length (list_of l i)" using k by (auto intro: length_filter_less)
      then obtain l' where l': "sweep i c ?l = Some l'" "lim_inv l'"
          "shrunk ?l {k \<in> set (list_of ?l i). last_of ?l k < c} l'"
        using less.hyps rm(1) by blast
      have "last_of ?l j = last_of l j" if "j \<noteq> ?k" for j
        using rm(2) that by (simp add: last_of_def shrunk_def)
      then have "{?k} \<union> {k \<in> set (list_of ?l i). last_of ?l k < c} = {k \<in> set (list_of l i). last_of l k < c}"
        using k b True lst by (auto simp: last_of_def)
      then have "shrunk l {k \<in> set (list_of l i). last_of l k < c} l'"
        using shrunk_trans(1) [OF rm(2) l'(3)] by simp
      with True b \<open>list_of l i \<noteq> []\<close> l' show ?thesis
        by (subst sweep.simps) simp
    qed
  qed
qed

lemma cleanup_effect:
  assumes inv: "lim_inv l"
  obtains l' where "cleanup now l = Some l'" "lim_inv l'"
    "shrunk l {k \<in> dom (get_bucket l). last_of l k < idle_cutoff now} l'"
proof -
  let ?c = "idle_cutoff now"
  obtain m where m: "sweep Active ?c l = Some m" "lim_inv m" "shrunk l {k \<in> set (active l). last_of l k < ?c} m"
    using sweep_effect [OF inv, of Active ?c] by auto
  obtain l' where l': "sweep Blocked ?c m = Some l'" "lim_inv l'" "shrunk m {k \<in> set (blocked m). last_of m k < ?c} l'"
    using sweep_effect [OF m(2), of Blocked ?c] by auto
  have "{k \<in> set (active l). last_of l k < ?c} \<inter> set (blocked l) = {}" using lists_cover(2) [OF inv] by auto
  then have blk: "blocked m = blocked l" by (rule shrunk_blocked [OF m(3)])
  have "last_of m k = last_of l k" if "k \<in> set (blocked l)" for k
    using m(3) that lists_cover(2) [OF inv] by (auto simp: last_of_def shrunk_def)
  then have "{k \<in> set (active l). last_of l k < ?c} \<union> {k \<in> set (blocked m). last_of m k < ?c} =
      {k \<in> dom (get_bucket l). last_of l k < ?c}"
    using blk lists_cover(1) [OF inv] by auto
  then have "shrunk l {k \<in> dom (get_bucket l). last_of l k < ?c} l'"
    using shrunk_trans(1) [OF m(3) l'(3)] by simp
  with m(1) l'(1,2) show thesis by (intro that) (simp_all add: cleanup_def)
qed

section \<open>Histories\<close>

text \<open>
  Every state a limiter can be in: it is created empty, and then serves requests and sweeps, one at
  a time, with a clock that never goes back.
\<close>

inductive limiter_run :: "limiter \<Rightarrow> int \<Rightarrow> limiter \<Rightarrow> bool" for l0 where
  start: "limiter_run l0 t l0"
| allow: "limiter_run l0 t l \<Longrightarrow> t \<le> u \<Longrightarrow> limiter_run l0 u (snd (Allow u k l))"
| sweeping: "limiter_run l0 t l \<Longrightarrow> t \<le> u \<Longrightarrow> cleanup u l = Some l' \<Longrightarrow> limiter_run l0 u l'"

lemma clock_ok_mono: "clock_ok t l \<Longrightarrow> t \<le> u \<Longrightarrow> clock_ok u l"
  unfolding clock_ok_def by (meson order_trans)

lemma New_inv:
  "1 \<le> b \<Longrightarrow> 0 < mk \<Longrightarrow> mk < 2 ^ 32 \<Longrightarrow> lim_inv (NewWithMaxKeys r b mk)"
  "clock_ok t (NewWithMaxKeys r b mk)"
proof -
  have nil: "list_of (NewWithMaxKeys r b mk) i = []" "get_bucket (NewWithMaxKeys r b mk) k = None" for i k
    by (cases i; simp add: NewWithMaxKeys_def get_bucket_def)+
  show "lim_inv (NewWithMaxKeys r b mk)" if "1 \<le> b" "0 < mk" "mk < 2 ^ 32"
    using that by (simp add: lim_inv_def lists_ok_def nil)
      (simp add: NewWithMaxKeys_def seen_once_def Len_def)
  show "clock_ok t (NewWithMaxKeys r b mk)" by (simp add: clock_ok_def nil)
qed

lemma limiter_run_inv:
  assumes "limiter_run l0 t l" and "lim_inv l0" and "\<And>u. clock_ok u l0"
  shows "lim_inv l \<and> clock_ok t l"
  using assms(1)
proof (induction rule: limiter_run.induct)
  case (start t)
  then show ?case using assms by simp
next
  case (allow t l u k)
  then have "lim_inv l" "clock_ok u l" by (auto intro: clock_ok_mono)
  then show ?case using Allow_effect(2,3) by (cases "rate l > 0") (auto simp: Allow_def)
next
  case (sweeping t l u l')
  then show ?case using cleanup_effect [of l u] shrunk_clock clock_ok_mono by (metis option.inject)
qed

section \<open>The long-run bound\<close>

text \<open>A sequence of requests, each an instant and a key, and the number of those of one key that were granted.\<close>

fun granted :: "string \<Rightarrow> limiter \<Rightarrow> (int \<times> string) list \<Rightarrow> nat" where
  "granted k l [] = 0"
| "granted k l ((t, j) # evs) =
     (if j = k \<and> fst (Allow t j l) then 1 else 0) + granted k (snd (Allow t j l)) evs"

fun in_order :: "int \<Rightarrow> (int \<times> string) list \<Rightarrow> bool" where
  "in_order t [] = True"
| "in_order t ((u, k) # evs) = (t \<le> u \<and> in_order u evs)"

fun end_time :: "int \<Rightarrow> (int \<times> string) list \<Rightarrow> int" where
  "end_time t [] = t"
| "end_time t ((u, k) # evs) = end_time u evs"

lemma end_time_mono: "in_order t evs \<Longrightarrow> t \<le> end_time t evs"
  by (induction evs arbitrary: t rule: in_order.induct) (auto intro: order_trans)

lemma make_room_spare:
  assumes "int (Len l) < maxKeys l"
  shows "make_room l = l"
  using assms by (simp add: make_room_def)

lemma Allow_spare_dom:
  assumes "lim_inv l" "clock_ok t l" "rate l > 0" and "get_bucket l j = None \<Longrightarrow> int (Len l) < maxKeys l"
  shows "i \<noteq> j \<Longrightarrow> get_bucket (snd (Allow t j l)) i = get_bucket l i"
    and "dom (get_bucket (snd (Allow t j l))) = insert j (dom (get_bucket l))"
proof -
  show *: "get_bucket (snd (Allow t j l)) i = get_bucket l i" if "i \<noteq> j" for i
    using Allow_effect(5) [OF assms(1-3) that] assms(4) make_room_spare by auto
  obtain b where "get_bucket (snd (Allow t j l)) j = Some b" using Allow_effect(4) [OF assms(1-3)] by blast
  with * show "dom (get_bucket (snd (Allow t j l))) = insert j (dom (get_bucket l))"
    by (auto simp: dom_def split: if_splits) (metis option.distinct(1))+
qed

lemma available_later:
  assumes "get_bucket l' k = get_bucket l k" and "burst l' = burst l" and "rate l' = rate l"
  shows "available t l' k = available t l k"
  using assms by (simp add: available_def split: option.split)

lemma available_elapse:
  assumes inv: "lim_inv l" and "rate l > 0" and "t \<le> u"
  shows "available u l k \<le> available t l k + of_int (u - t) / 1000000000 * rate l"
proof (cases "get_bucket l k")
  case None
  then show ?thesis using assms(2,3) by (simp add: available_def)
next
  case (Some b)
  have "of_int (u - lastCheck b) / 1000000000 * rate l =
      of_int (t - lastCheck b) / 1000000000 * rate l + of_int (u - t) / (1000000000 :: rat) * rate l"
    by (simp add: field_simps)
  moreover have "0 \<le> of_int (u - t) / (1000000000 :: rat) * rate l" using assms(2,3) by simp
  ultimately show ?thesis unfolding available_def Some option.case by linarith
qed

lemma Allow_spends:
  assumes inv: "lim_inv l" and clock: "clock_ok t l" and rate: "rate l > 0"
  shows "available t (snd (Allow t k l)) k = available t l k - (if fst (Allow t k l) then 1 else 0)"
proof -
  obtain b where b: "get_bucket (snd (Allow t k l)) k = Some b" "lastCheck b = t"
      "tokens b = available t l k - (if 1 \<le> available t l k then 1 else 0)"
    using Allow_effect(4) [OF assms] by blast
  have "tokens b \<le> of_int (burst l)"
    using Allow_effect(2,7) [OF assms, of k] b(1) by (auto simp: lim_inv_def bucket_ok_def)
  then show ?thesis
    using b Allow_effect(1,7) [OF assms, of k] by (auto simp: available_def)
qed

lemma granted_le_available:
  assumes "lim_inv l" "clock_ok t l" "rate l > 0" "in_order t evs"
    and "int (card (dom (get_bucket l) \<union> snd ` set evs)) \<le> maxKeys l"
  shows "of_nat (granted k l evs) \<le> available t l k + of_int (end_time t evs - t) / 1000000000 * rate l"
  using assms
proof (induction evs arbitrary: t l)
  case Nil
  then show ?case using available_nonneg by simp
next
  case (Cons ev evs)
  obtain u j where ev: "ev = (u, j)" by fastforce
  let ?l = "snd (Allow u j l)"
  have tu: "t \<le> u" "in_order u evs" using Cons.prems(4) ev by auto
  have clock: "clock_ok u l" using Cons.prems(2) tu(1) by (rule clock_ok_mono)
  note eff = Allow_effect [OF Cons.prems(1) clock Cons.prems(3), of j]
  have fin: "finite (dom (get_bucket l))" using lists_cover(1) [OF Cons.prems(1)] by simp
  have room: "int (Len l) < maxKeys l" if "get_bucket l j = None"
  proof -
    have "card (insert j (dom (get_bucket l))) \<le> card (dom (get_bucket l) \<union> snd ` set (ev # evs))"
      using ev fin by (intro card_mono) auto
    moreover have "j \<notin> dom (get_bucket l)" using that by auto
    ultimately show ?thesis
      using Cons.prems(1,5) fin Len_card [of l] by (simp add: lim_inv_def lists_ok_def)
  qed
  note spare = Allow_spare_dom [OF Cons.prems(1) clock Cons.prems(3) room]
  have "dom (get_bucket ?l) \<union> snd ` set evs = dom (get_bucket l) \<union> snd ` set (ev # evs)"
    using spare(2) ev by auto
  then have IH: "of_nat (granted k ?l evs) \<le>
      available u ?l k + of_int (end_time u evs - u) / 1000000000 * rate l"
    using Cons.IH [OF eff(2,3)] Cons.prems(3,5) tu(2) eff(6,8) by simp
  have now: "of_nat (if j = k \<and> fst (Allow u j l) then 1 else 0) + available u ?l k = available u l k"
  proof (cases "j = k")
    case True
    then show ?thesis using Allow_spends [OF Cons.prems(1) clock Cons.prems(3), of k] by simp
  next
    case False
    then show ?thesis using available_later [OF spare(1) eff(7,6)] by simp
  qed
  have "available u l k \<le> available t l k + of_int (u - t) / 1000000000 * rate l"
    using Cons.prems(1,3) tu(1) by (rule available_elapse)
  moreover have "of_int (u - t) / 1000000000 * rate l + of_int (end_time u evs - u) / 1000000000 * rate l =
      of_int (end_time u evs - t) / 1000000000 * rate l"
    by (simp add: field_simps)
  ultimately show ?case using IH now ev by simp
qed

lemma limiter_run_frame:
  assumes "limiter_run l0 t l" and "lim_inv l0" and "\<And>u. clock_ok u l0"
  shows "rate l = rate l0 \<and> burst l = burst l0 \<and> maxKeys l = maxKeys l0"
  using assms(1)
proof (induction rule: limiter_run.induct)
  case (start t)
  then show ?case by simp
next
  case (allow t l u k)
  then have "lim_inv l" "clock_ok u l"
    using limiter_run_inv [OF allow.hyps(1) assms(2,3)] clock_ok_mono by blast+
  with allow.IH show ?case using Allow_effect(6-8) by (cases "rate l > 0") (auto simp: Allow_def)
next
  case (sweeping t l u l')
  have "lim_inv l" using limiter_run_inv [OF sweeping.hyps(1) assms(2,3)] by blast
  then obtain S where "shrunk l S l'" using cleanup_effect [of l u] sweeping.hyps(3) by (metis option.inject)
  with sweeping.IH show ?case by (simp add: shrunk_def)
qed

lemma limiter_run_facts:
  assumes "limiter_run (NewWithMaxKeys r b mk) t l" and "1 \<le> b" and "0 < mk" and "mk < 2 ^ 32"
  shows "lim_inv l" "clock_ok t l" "rate l = r / 60" "burst l = b" "maxKeys l = mk"
  using limiter_run_inv [OF assms(1)] limiter_run_frame [OF assms(1)] New_inv [where r = r] assms(2-4)
  by (auto simp: NewWithMaxKeys_def)

text \<open>A small limiter in use: one request a second, bursts of two, three keys.\<close>

definition demo_start :: limiter where
  "demo_start = NewWithMaxKeys 60 2 3"

definition demo_limiter :: limiter where
  "demo_limiter = snd (Allow 4 ''b'' (snd (Allow 3 ''a'' (snd (Allow 2 ''a'' (snd (Allow 1 ''c'' demo_start)))))))"

lemma demo_run: "limiter_run (NewWithMaxKeys 60 2 3) 4 demo_limiter"
  unfolding demo_limiter_def demo_start_def
  by (rule limiter_run.allow [OF limiter_run.allow [OF limiter_run.allow [OF limiter_run.allow
        [OF limiter_run.start [of _ 0]]]]]) simp_all

lemmas demo_facts = limiter_run_facts [OF demo_run, simplified]

section \<open>The limiter as seen by its clients\<close>

text \<open>
  What the HTTP layer relies on: a state with an invariant that time and requests keep, and a wait that
  says exactly when a denied key is granted again. The whole-second \<^verbatim>\<open>Retry-After\<close> computed from it is
  then enough, and no smaller number of whole seconds is.
\<close>

locale rate_gate =
  fixes inv :: "int \<Rightarrow> 's \<Rightarrow> bool"
    and allow :: "int \<Rightarrow> string \<Rightarrow> 's \<Rightarrow> bool \<times> 's"
    and wait :: "'s \<Rightarrow> string \<Rightarrow> rat"
  assumes inv_later: "inv t s \<Longrightarrow> t \<le> u \<Longrightarrow> inv u s"
    and inv_allow: "inv t s \<Longrightarrow> inv t (snd (allow t k s))"
    and denied_until: "inv t s \<Longrightarrow> \<not> fst (allow t k s) \<Longrightarrow> t \<le> u \<Longrightarrow>
      fst (allow u k (snd (allow t k s))) = (wait (snd (allow t k s)) k \<le> of_int (u - t) / 1000000000)"
begin

lemma retry_enough:
  assumes "inv t s" and "\<not> fst (allow t k s)"
    and "t + max 1 (ceiling (wait (snd (allow t k s)) k)) * 1000000000 \<le> u"
  shows "fst (allow u k (snd (allow t k s)))"
proof -
  let ?w = "wait (snd (allow t k s)) k"
  have tu: "t \<le> u" using assms(3) by linarith
  have "?w \<le> of_int (max 1 (ceiling ?w))" by (simp add: ceiling_le_iff [symmetric] del: of_int_max)
  also have "\<dots> \<le> of_int (u - t) / 1000000000"
  proof -
    have "of_int (max 1 (ceiling ?w) * 1000000000) \<le> (of_int (u - t) :: rat)"
      using assms(3) unfolding of_int_le_iff by linarith
    then show ?thesis unfolding of_int_mult of_int_numeral by (simp add: pos_le_divide_eq del: of_int_max)
  qed
  finally show ?thesis using denied_until [OF assms(1,2) tu] by simp
qed

lemma retry_least:
  assumes "inv t s" and "\<not> fst (allow t k s)" and "0 \<le> n" and "n < ceiling (wait (snd (allow t k s)) k)"
  shows "\<not> fst (allow (t + n * 1000000000) k (snd (allow t k s)))"
proof -
  have "of_int n < wait (snd (allow t k s)) k" using assms(4) by (simp add: less_ceiling_iff)
  then show ?thesis using denied_until [OF assms(1,2), of "t + n * 1000000000"] assms(3) by simp
qed

end

definition limiter_ok :: "int \<Rightarrow> limiter \<Rightarrow> bool" where
  "limiter_ok t l \<longleftrightarrow> lim_inv l \<and> clock_ok t l \<and> 0 < rate l"

lemma tracked_wait:
  assumes ok: "limiter_ok t l" and b: "get_bucket l k = Some c" and tu: "t \<le> u"
  shows "fst (Allow u k l) = (SecondsUntilNextToken l k \<le> of_int (u - lastCheck c) / 1000000000)"
    and "(k \<in> set (blocked l)) = (0 < SecondsUntilNextToken l k)"
proof -
  have inv: "lim_inv l" and rate: "rate l > 0" and clock: "clock_ok u l"
    using ok clock_ok_mono [OF _ tu] by (auto simp: limiter_ok_def)
  define e where "e = of_int (u - lastCheck c) / (1000000000 :: rat)"
  have e: "0 \<le> e" using clock b by (auto simp: e_def clock_ok_def)
  have c: "bucket_ok l c" "lists_ok l" using inv b by (auto simp: lim_inv_def)
  have "1 \<le> (of_int (burst l) :: rat)" using inv by (simp add: lim_inv_def)
  then have dec: "fst (Allow u k l) \<longleftrightarrow> 1 \<le> tokens c + e * rate l"
    using Allow_effect(1) [OF inv clock rate, of k] b by (simp add: available_def e_def)
  have pos: "k \<in> set (blocked l) \<longleftrightarrow> tokens c < 1"
    using c owner_unique [OF c(2) b, of Blocked] by (auto simp: bucket_ok_def)
  have "(fst (Allow u k l) \<longleftrightarrow> SecondsUntilNextToken l k \<le> e) \<and>
    (k \<in> set (blocked l)) = (0 < SecondsUntilNextToken l k)"
  proof (cases "tokens c < 1")
    case True
    then have s: "SecondsUntilNextToken l k = (1 - tokens c) / rate l"
      using rate b by (simp add: SecondsUntilNextToken_def)
    have "(1 - tokens c) / rate l \<le> e \<longleftrightarrow> 1 \<le> tokens c + e * rate l"
      using rate by (simp add: field_simps)
    then show ?thesis using s dec pos True rate by simp
  next
    case False
    then have "SecondsUntilNextToken l k = 0" using b by (simp add: SecondsUntilNextToken_def)
    moreover have "0 \<le> e * rate l" using e rate by simp
    ultimately show ?thesis using dec pos False e by simp
  qed
  then show "fst (Allow u k l) = (SecondsUntilNextToken l k \<le> of_int (u - lastCheck c) / 1000000000)"
    and "(k \<in> set (blocked l)) = (0 < SecondsUntilNextToken l k)"
    by (simp_all add: e_def)
qed

lemma limiter_ok_later: "limiter_ok t l \<Longrightarrow> t \<le> u \<Longrightarrow> limiter_ok u l"
  using clock_ok_mono by (auto simp: limiter_ok_def)

lemma limiter_ok_allow: "limiter_ok t l \<Longrightarrow> limiter_ok t (snd (Allow t k l))"
  using Allow_effect(2,3,6) by (auto simp: limiter_ok_def)

lemma denied_wait:
  assumes "limiter_ok t l" and "t \<le> u"
  shows "fst (Allow u k (snd (Allow t k l))) =
    (SecondsUntilNextToken (snd (Allow t k l)) k \<le> of_int (u - t) / 1000000000)"
proof -
  obtain c where "get_bucket (snd (Allow t k l)) k = Some c" "lastCheck c = t"
    using Allow_effect(4) [of l t k] assms(1) by (auto simp: limiter_ok_def)
  then show ?thesis using tracked_wait(1) [OF limiter_ok_allow [OF assms(1)] _ assms(2)] by simp
qed

interpretation limiter_gate: rate_gate limiter_ok Allow SecondsUntilNextToken
  by unfold_locales (auto simp: limiter_ok_later limiter_ok_allow denied_wait)

section \<open>Properties\<close>

text \<open>
  C12: However requests and idle sweeps are ordered, a limiter created with a positive burst and key cap
  never tracks more keys than its cap, every tracked key is in exactly one of the two LRU lists, the
  blocked list holds exactly the keys without a whole token, both lists are ordered by last use, and
  the one-shot counter (a 32-bit word) counts exactly the keys seen once.
\<close>

theorem limiter_invariant:
  assumes "limiter_run (NewWithMaxKeys r b mk) t l" and "1 \<le> b" and "0 < mk" and "mk < 2 ^ 32"
  shows "int (Len l) \<le> maxKeys l \<and> set (active l) \<inter> set (blocked l) = {} \<and>
    dom (get_bucket l) = set (active l) \<union> set (blocked l) \<and>
    (\<forall>k c. get_bucket l k = Some c \<longrightarrow> (k \<in> set (blocked l) \<longleftrightarrow> tokens c < 1)) \<and>
    sorted_wrt (\<lambda>j k. last_of l k \<le> last_of l j) (active l) \<and>
    sorted_wrt (\<lambda>j k. last_of l k \<le> last_of l j) (blocked l) \<and>
    unat (oneShot l) = seen_once l"
proof -
  have inv: "lim_inv l" using assms by (rule limiter_run_facts(1))
  have "sorted_wrt (\<lambda>j k. last_of l k \<le> last_of l j) (list_of l i)" for i
    using inv by (simp add: lim_inv_def lists_ok_def)
  from this [of Active] this [of Blocked] show ?thesis
    using inv lists_cover(1,2) [OF inv] seen_once_small [OF inv]
      owner_unique [of l _ _ Blocked]
    by (auto simp: lim_inv_def bucket_ok_def unat_of_nat take_bit_nat_eq_self split: if_splits)
qed

theorem limiter_invariant_witness:
  "(1::int) \<le> 2 \<and> int (Len demo_limiter) \<le> maxKeys demo_limiter \<and> unat (oneShot demo_limiter) = seen_once demo_limiter"
  using limiter_invariant [OF demo_run] by simp

text \<open>
  A request is granted exactly when the key has a whole token, counting what has been refilled since
  its last request and a full burst for a key not tracked; a grant spends one token and a denial
  none; and the other tracked keys keep their buckets unless the request made the limiter evict.
\<close>

theorem Allow_decision:
  assumes "lim_inv l" and "clock_ok now l" and "rate l > 0"
  shows "fst (Allow now k l) = (1 \<le> available now l k) \<and>
    available now (snd (Allow now k l)) k = available now l k - (if fst (Allow now k l) then 1 else 0) \<and>
    (\<forall>j. j \<noteq> k \<longrightarrow> get_bucket l k \<noteq> None \<or> int (Len l) < maxKeys l \<longrightarrow>
       get_bucket (snd (Allow now k l)) j = get_bucket l j)"
  using Allow_effect(1,5) [OF assms] Allow_spends [OF assms] make_room_spare by auto

theorem Allow_decision_witness:
  "fst (Allow 5 ''a'' demo_limiter) = (1 \<le> available 5 demo_limiter ''a'')"
  using Allow_decision [of demo_limiter 5 "''a''"] demo_facts clock_ok_mono [of 4 demo_limiter 5] by simp

text \<open>
  Eviction of \<^term>\<open>n\<close> keys removes exactly \<^term>\<open>n\<close> keys and changes no other bucket. A throttled key is
  removed only when every active key is gone, and then least recently used first; a repeat visitor
  only when every active key seen once is gone.
\<close>

theorem evictLocked_order:
  assumes "lim_inv l" and "0 < n" and "n \<le> int (Len l)"
  shows "\<exists>S. int (card S) = n \<and> S \<subseteq> dom (get_bucket l) \<and>
    (\<forall>k. get_bucket (evictLocked n l) k = (if k \<in> S then None else get_bucket l k)) \<and>
    (S \<inter> set (blocked l) \<noteq> {} \<longrightarrow> set (active l) \<subseteq> S) \<and>
    (\<exists>m. S \<inter> set (blocked l) = set (take m (rev (blocked l)))) \<and>
    ((\<exists>k\<in>S. hits_of l k > 1) \<longrightarrow> {k \<in> set (active l). hits_of l k = 1} \<subseteq> S)"
  using evictLocked_effect [OF assms] unfolding evicted_ok_def shrunk_def by blast

lemma demo_Len: "Len demo_limiter = 3"
  by code_simp

theorem evictLocked_order_witness:
  "\<exists>S. card S = 2 \<and> (\<forall>k. get_bucket (evictLocked 2 demo_limiter) k = (if k \<in> S then None else get_bucket demo_limiter k))"
proof -
  have "(2::int) \<le> int (Len demo_limiter)" by (simp add: demo_Len)
  from evictLocked_order [OF demo_facts(1) _ this] show ?thesis by auto
qed

text \<open>
  While the active list can pay for an eviction, a throttled client keeps its bucket whatever other
  clients do: no flood of new keys resets its tokens.
\<close>

theorem throttled_key_survives:
  assumes "lim_inv l" and "clock_ok now l" and "rate l > 0" and "k \<in> set (blocked l)" and "j \<noteq> k"
    and "trimCount l \<le> int (length (active l))"
  shows "get_bucket (snd (Allow now j l)) k = get_bucket l k"
proof -
  obtain S where S: "shrunk l S (make_room l)"
    "S \<noteq> {} \<Longrightarrow> evicted_ok (trimCount l) l S (make_room l) \<and> int (Len l) = maxKeys l"
    using make_room_effect [OF assms(1)] by metis
  have "k \<notin> S"
  proof
    assume k: "k \<in> S"
    then have ev: "evicted_ok (trimCount l) l S (make_room l)" using S(2) by blast
    then have sub: "insert k (set (active l)) \<subseteq> S" using k assms(4) by (auto simp: evicted_ok_def)
    have "finite S" using S(1) lists_cover(1) [OF assms(1)] by (auto simp: shrunk_def intro: finite_subset)
    then have "card (insert k (set (active l))) \<le> card S" using sub by (rule card_mono)
    moreover have "k \<notin> set (active l)" using lists_cover(2) [OF assms(1)] assms(4) by auto
    ultimately show False
      using ev assms(6) lists_cover(3) [OF assms(1), of Active] by (simp add: evicted_ok_def distinct_card)
  qed
  then have "get_bucket (make_room l) k = get_bucket l k" using S(1) by (simp add: shrunk_def)
  then show ?thesis using Allow_effect(5) [OF assms(1-3), of k j] assms(5) by simp
qed

lemma demo_lists: "active demo_limiter = [''b'', ''c''] \<and> blocked demo_limiter = [''a''] \<and> trimCount demo_limiter = 2"
  by code_simp

theorem throttled_key_survives_witness:
  "''a'' \<in> set (blocked demo_limiter) \<and> get_bucket demo_limiter ''d'' = None \<and>
   get_bucket (snd (Allow 5 ''d'' demo_limiter)) ''a'' = get_bucket demo_limiter ''a''"
proof -
  have "get_bucket demo_limiter ''d'' = None" by code_simp
  then show ?thesis
    using throttled_key_survives [of demo_limiter 5 "''a''" "''d''"] demo_facts demo_lists
      clock_ok_mono [of 4 demo_limiter 5] by simp
qed



text \<open>
  The waiting time a denied client is told is exact: asked at any later instant, a tracked key is
  granted if and only if at least \<^verbatim>\<open>SecondsUntilNextToken\<close> seconds have passed since its last request,
  and the wait is positive exactly for the keys in the blocked list.
\<close>

theorem SecondsUntilNextToken_exact:
  assumes "limiter_run (NewWithMaxKeys r b mk) t l" and "1 \<le> b" and "0 < mk" and "mk < 2 ^ 32" and "0 < r"
    and "get_bucket l k = Some c" and "t \<le> u"
  shows "(fst (Allow u k l) = (SecondsUntilNextToken l k \<le> of_int (u - lastCheck c) / 1000000000)) \<and>
    (k \<in> set (blocked l)) = (0 < SecondsUntilNextToken l k)"
proof -
  have "limiter_ok t l"
    using limiter_run_facts [OF assms(1-4)] assms(5) by (simp add: limiter_ok_def)
  from tracked_wait [OF this assms(6,7)] show ?thesis by blast
qed

theorem SecondsUntilNextToken_exact_witness:
  "\<exists>c. get_bucket demo_limiter ''a'' = Some c \<and>
    (fst (Allow 1000000003 ''a'' demo_limiter) =
      (SecondsUntilNextToken demo_limiter ''a'' \<le> of_int (1000000003 - lastCheck c) / 1000000000))"
proof -
  have "''a'' \<in> dom (get_bucket demo_limiter)"
    using lists_cover(1) [OF demo_facts(1)] demo_lists by simp
  then obtain c where "get_bucket demo_limiter ''a'' = Some c" by blast
  with SecondsUntilNextToken_exact [OF demo_run _ _ _ _ this, of 1000000003] show ?thesis by simp
qed

text \<open>
  The idle sweep ends, keeps the limiter's invariant, and removes exactly the keys not used for ten
  minutes, from both lists, leaving every other bucket as it was.
\<close>

theorem cleanup_removes_idle:
  assumes "lim_inv l"
  shows "\<exists>l'. cleanup now l = Some l' \<and> lim_inv l' \<and>
    (\<forall>k. get_bucket l' k =
       (case get_bucket l k of None \<Rightarrow> None
        | Some b \<Rightarrow> if lastCheck b < now - 600000000000 then None else Some b))"
proof -
  obtain l' where l': "cleanup now l = Some l'" "lim_inv l'"
    "shrunk l {k \<in> dom (get_bucket l). last_of l k < idle_cutoff now} l'"
    using cleanup_effect [OF assms] by metis
  have "get_bucket l' k = (case get_bucket l k of None \<Rightarrow> None
        | Some b \<Rightarrow> if lastCheck b < now - 600000000000 then None else Some b)" for k
    using l'(3) by (cases "get_bucket l k") (auto simp: shrunk_def last_of_def idle_cutoff_def)
  with l' show ?thesis by blast
qed

theorem cleanup_removes_idle_witness:
  "\<exists>l'. cleanup 600000000003 demo_limiter = Some l' \<and> lim_inv l' \<and> get_bucket l' ''c'' = None"
proof -
  obtain l' where l': "cleanup 600000000003 demo_limiter = Some l'" "lim_inv l'"
    "\<And>k. get_bucket l' k = (case get_bucket demo_limiter k of None \<Rightarrow> None
        | Some b \<Rightarrow> if lastCheck b < 600000000003 - 600000000000 then None else Some b)"
    using cleanup_removes_idle [OF demo_facts(1), of 600000000003] by blast
  have "map_option lastCheck (get_bucket demo_limiter ''c'') = Some 1" by code_simp
  with l' show ?thesis by auto
qed

text \<open>
  A new key arriving at a full limiter makes it drop nine tenths of the cap in one pass and keep the
  remaining tenth: with the default cap of 50,000 keys, 5,000 buckets are left before the new key is
  added. The constant is documented as the fraction a pass leaves behind.
\<close>

theorem eviction_drops_nine_tenths:
  assumes "lim_inv l" and "int (Len l) = maxKeys l"
  shows "int (Len (evictLocked (trimCount l) l)) = maxKeys l - max 1 (9 * maxKeys l div 10)"
proof -
  have full: "int (Len l) \<ge> maxKeys l" using assms(2) by simp
  obtain S where S: "evicted_ok (trimCount l) l S (evictLocked (trimCount l) l)"
    using evictLocked_effect [OF assms(1) trimCount_range [OF assms(1) full]] by blast
  then have "Len (evictLocked (trimCount l) l) + card S = Len l"
    using assms(1) by (intro shrunk_inv_Len) (simp_all add: evicted_ok_def)
  moreover have "int (card S) = trimCount l" using S by (simp add: evicted_ok_def)
  moreover have "trimCount l = max 1 (9 * maxKeys l div 10)"
    using assms by (auto simp: trimCount_def Let_def max_def lim_inv_def)
  ultimately show ?thesis using assms(2) by simp
qed

theorem eviction_drops_nine_tenths_witness:
  "int (Len demo_limiter) = 3 \<and> int (Len (evictLocked (trimCount demo_limiter) demo_limiter)) = 1"
  using eviction_drops_nine_tenths [OF demo_facts(1)] demo_facts(5) demo_Len by simp

end
