(* ===== verification/IpAddr.thy ===== *)
theory IpAddr
  imports GoStrings "HOL-Library.Word"
begin

unbundle bit_operations_syntax

text \<open>
  The part of Go's \<^verbatim>\<open>net\<close> package the program relies on: addresses as byte slices of length 4 or 16,
  \<^verbatim>\<open>ParseIP\<close>, \<^verbatim>\<open>ParseCIDR\<close>, \<^verbatim>\<open>IP.String\<close>, \<^verbatim>\<open>IPNet.Contains\<close>, \<^verbatim>\<open>SplitHostPort\<close> and the address predicates. A
  failed parse is \<^const>\<open>None\<close>. The functions follow the library's documented behaviour and are used by
  the client-address, outbound-guard and block-page theories.
\<close>

type_synonym ip = "8 word list"

section \<open>Numbers\<close>

definition digit_val :: "char \<Rightarrow> int" where
  "digit_val c = int (byte c) - 48"

definition is_hex :: "char \<Rightarrow> bool" where
  "is_hex c \<longleftrightarrow> is_digit c \<or> (97 \<le> byte c \<and> byte c \<le> 102) \<or> (65 \<le> byte c \<and> byte c \<le> 70)"

definition hex_val :: "char \<Rightarrow> int" where
  "hex_val c =
     (if is_digit c then int (byte c) - 48 else if 97 \<le> byte c then int (byte c) - 87 else int (byte c) - 55)"

definition dec_value :: "string \<Rightarrow> int" where
  "dec_value s = foldl (\<lambda>n c. 10 * n + digit_val c) 0 s"

definition hex_value :: "string \<Rightarrow> int" where
  "hex_value s = foldl (\<lambda>n c. 16 * n + hex_val c) 0 s"

fun dec_string :: "nat \<Rightarrow> string" where
  "dec_string n = (if n < 10 then [char_of (48 + n)] else dec_string (n div 10) @ [char_of (48 + n mod 10)])"

definition hex_digit :: "nat \<Rightarrow> char" where
  "hex_digit n = (if n < 10 then char_of (48 + n) else char_of (87 + n))"

fun hex_string :: "nat \<Rightarrow> string" where
  "hex_string n = (if n < 16 then [hex_digit n] else hex_string (n div 16) @ [hex_digit (n mod 16)])"

declare dec_string.simps [simp del] hex_string.simps [simp del]

section \<open>Parsing\<close>

definition octet :: "string \<Rightarrow> 8 word option" where
  "octet s =
     (if s = [] \<or> \<not> list_all is_digit s \<or> (length s > 1 \<and> hd s = CHR ''0'') \<or> dec_value s > 255 then None
      else Some (of_int (dec_value s)))"

definition parse_v4 :: "string \<Rightarrow> ip option" where
  "parse_v4 s =
     (case map octet (split_on CHR ''.'' s) of
        [Some a, Some b, Some c, Some d] \<Rightarrow> Some [a, b, c, d]
      | _ \<Rightarrow> None)"

text \<open>
  The groups of an IPv6 literal from the current position: the bytes read so far and the place of a
  \<^verbatim>\<open>::\<close>, if one was seen. The result has at most sixteen bytes.
\<close>

definition group_bytes :: "int \<Rightarrow> ip" where
  "group_bytes n = [of_int (n div 256), of_int (n mod 256)]"

function parse_groups :: "string \<Rightarrow> ip \<Rightarrow> nat option \<Rightarrow> (ip \<times> nat option) option" where
  "parse_groups s acc ell =
     (if length acc \<ge> 16 then (if s = [] then Some (acc, ell) else None)
      else
        let digits = takeWhile is_hex s; rest = dropWhile is_hex s in
        if digits = [] \<or> length digits > 4 then None
        else if rest \<noteq> [] \<and> hd rest = CHR ''.'' then
          (if (ell = None \<and> length acc \<noteq> 12) \<or> length acc + 4 > 16 then None
           else map_option (\<lambda>v4. (acc @ v4, ell)) (parse_v4 s))
        else
          let acc' = acc @ group_bytes (hex_value digits) in
          if rest = [] then Some (acc', ell)
          else if hd rest \<noteq> CHR '':'' \<or> tl rest = [] then None
          else if hd (tl rest) = CHR '':'' then
            (if ell \<noteq> None then None
             else if tl (tl rest) = [] then Some (acc', Some (length acc'))
             else parse_groups (tl (tl rest)) acc' (Some (length acc')))
          else parse_groups (tl rest) acc' ell)"
  by pat_completeness auto
termination
proof (relation "measure (\<lambda>(s, acc, ell). length s)", goal_cases)
  case 1
  then show ?case by simp
next
  case (2 s acc ell digits rest acc')
  have "length rest \<le> length s" unfolding 2(3) by (rule length_dropWhile_le)
  with 2(7) show ?case by (cases rest) auto
next
  case (3 s acc ell digits rest acc')
  have "length rest \<le> length s" unfolding 3(3) by (rule length_dropWhile_le)
  with 3(7) show ?case by (cases rest) auto
qed

declare parse_groups.simps [simp del]

definition expand_ellipsis :: "ip \<times> nat option \<Rightarrow> ip option" where
  "expand_ellipsis r =
     (case r of
        (acc, None) \<Rightarrow> if length acc = 16 then Some acc else None
      | (acc, Some e) \<Rightarrow>
          if length acc < 16 then Some (take e acc @ replicate (16 - length acc) 0 @ drop e acc) else None)"

definition parse_v6 :: "string \<Rightarrow> ip option" where
  "parse_v6 s =
     (if has_prefix s ''::'' then
        (if length s = 2 then Some (replicate 16 0)
         else Option.bind (parse_groups (drop 2 s) [] (Some 0)) expand_ellipsis)
      else Option.bind (parse_groups s [] None) expand_ellipsis)"

definition v4_in_v6 :: "ip \<Rightarrow> ip" where
  "v4_in_v6 v = replicate 10 0 @ [0xff, 0xff] @ v"

definition ParseIP :: "string \<Rightarrow> ip option" where
  "ParseIP s =
     (case find (\<lambda>c. c \<in> {CHR ''.'', CHR '':'', CHR ''%''}) s of
        Some c \<Rightarrow>
          if c = CHR ''.'' then map_option v4_in_v6 (parse_v4 s)
          else if c = CHR '':'' then parse_v6 s
          else None
      | None \<Rightarrow> None)"

section \<open>Addresses\<close>

definition To4 :: "ip \<Rightarrow> ip option" where
  "To4 a =
     (if length a = 4 then Some a
      else if length a = 16 \<and> take 10 a = replicate 10 0 \<and> a ! 10 = 0xff \<and> a ! 11 = 0xff then Some (drop 12 a)
      else None)"

definition IsLoopback :: "ip \<Rightarrow> bool" where
  "IsLoopback a = (case To4 a of Some v \<Rightarrow> v ! 0 = 127 | None \<Rightarrow> a = replicate 15 0 @ [1])"

definition IsPrivate :: "ip \<Rightarrow> bool" where
  "IsPrivate a =
     (case To4 a of
        Some v \<Rightarrow> v ! 0 = 10 \<or> (v ! 0 = 172 \<and> v ! 1 AND 0xf0 = 16) \<or> (v ! 0 = 192 \<and> v ! 1 = 168)
      | None \<Rightarrow> length a = 16 \<and> a ! 0 AND 0xfe = 0xfc)"

definition IsLinkLocalUnicast :: "ip \<Rightarrow> bool" where
  "IsLinkLocalUnicast a =
     (case To4 a of
        Some v \<Rightarrow> v ! 0 = 169 \<and> v ! 1 = 254
      | None \<Rightarrow> length a = 16 \<and> a ! 0 = 0xfe \<and> a ! 1 AND 0xc0 = 0x80)"

definition IsLinkLocalMulticast :: "ip \<Rightarrow> bool" where
  "IsLinkLocalMulticast a =
     (case To4 a of
        Some v \<Rightarrow> v ! 0 = 224 \<and> v ! 1 = 0 \<and> v ! 2 = 0
      | None \<Rightarrow> length a = 16 \<and> a ! 0 = 0xff \<and> a ! 1 AND 0x0f = 0x02)"

definition IsMulticast :: "ip \<Rightarrow> bool" where
  "IsMulticast a =
     (case To4 a of
        Some v \<Rightarrow> v ! 0 AND 0xf0 = 0xe0
      | None \<Rightarrow> length a = 16 \<and> a ! 0 = 0xff)"

definition IsUnspecified :: "ip \<Rightarrow> bool" where
  "IsUnspecified a = (To4 a = Some [0, 0, 0, 0] \<or> a = replicate 16 0)"

section \<open>Text form\<close>

definition v4_string :: "ip \<Rightarrow> string" where
  "v4_string v = join_with ''.'' (map (\<lambda>b. dec_string (unat b)) v)"

fun groups16 :: "ip \<Rightarrow> nat list" where
  "groups16 (a # b # r) = (unat a * 256 + unat b) # groups16 r"
| "groups16 _ = []"

text \<open>Start and length of the longest run of zero groups, the first of several.\<close>

definition zero_run :: "nat list \<Rightarrow> nat \<Rightarrow> nat" where
  "zero_run gs i = length (takeWhile (\<lambda>g. g = 0) (drop i gs))"

definition best_run :: "nat list \<Rightarrow> nat \<times> nat" where
  "best_run gs =
     foldl (\<lambda>(s, n) i. if zero_run gs i > n then (i, zero_run gs i) else (s, n)) (0, 1) [0..<length gs]"

definition v6_string :: "ip \<Rightarrow> string" where
  "v6_string a =
     (let gs = groups16 a; (s, n) = best_run gs in
      if n < 2 then join_with '':'' (map hex_string gs)
      else join_with '':'' (map hex_string (take s gs)) @ ''::'' @ join_with '':'' (map hex_string (drop (s + n) gs)))"

definition ip_string :: "ip \<Rightarrow> string" where
  "ip_string a = (case To4 a of Some v \<Rightarrow> v4_string v | None \<Rightarrow> v6_string a)"

section \<open>Networks\<close>

record ip_net =
  net_ip :: ip
  net_mask :: ip

definition cidr_mask :: "nat \<Rightarrow> nat \<Rightarrow> ip" where
  "cidr_mask ones bytes =
     map (\<lambda>i. if 8 * (i + 1) \<le> ones then 0xff
              else if ones \<le> 8 * i then 0
              else NOT (mask (8 - (ones - 8 * i)))) [0..<bytes]"

definition and_bytes :: "ip \<Rightarrow> ip \<Rightarrow> ip" where
  "and_bytes a m = map2 (\<lambda>x y. x AND y) a m"

definition ParseCIDR :: "string \<Rightarrow> ip_net option" where
  "ParseCIDR s =
     (let i = index_byte s CHR ''/'' in
      if i < 0 then None
      else
        let addr = take (nat i) s; bits = drop (nat i + 1) s in
        case ParseIP addr of
          None \<Rightarrow> None
        | Some a \<Rightarrow>
            let (raw, len) = (if contains addr '':'' then (a, 16) else (drop 12 a, 4)) in
            if bits = [] \<or> \<not> list_all is_digit bits \<or> dec_value bits > 8 * int len then None
            else
              let m = cidr_mask (nat (dec_value bits)) len in
              Some \<lparr>net_ip = and_bytes raw m, net_mask = m\<rparr>)"

text \<open>\<^verbatim>\<open>IPNet.Contains\<close>, with the number and mask brought to one length first.\<close>

definition net_number :: "ip_net \<Rightarrow> (ip \<times> ip) option" where
  "net_number n =
     (let nn = (case To4 (net_ip n) of Some v \<Rightarrow> v | None \<Rightarrow> net_ip n) in
      if length nn \<noteq> 4 \<and> length nn \<noteq> 16 then None
      else if length (net_mask n) = length nn then Some (nn, net_mask n)
      else if length (net_mask n) = 16 \<and> length nn = 4 then Some (nn, drop 12 (net_mask n))
      else None)"

definition net_contains :: "ip_net \<Rightarrow> ip \<Rightarrow> bool" where
  "net_contains n a =
     (case net_number n of
        None \<Rightarrow> False
      | Some (nn, m) \<Rightarrow>
          let x = (case To4 a of Some v \<Rightarrow> v | None \<Rightarrow> a) in
          length x = length nn \<and> and_bytes nn m = and_bytes x m)"

definition mask_ones :: "ip_net \<Rightarrow> nat" where
  "mask_ones n = length (takeWhile id (concat (map (\<lambda>b. map (bit b) (rev [0..<8])) (net_mask n))))"

section \<open>Host and port\<close>

definition SplitHostPort :: "string \<Rightarrow> (string \<times> string) option" where
  "SplitHostPort s =
     (let i = last_index_byte s CHR '':'' in
      if i < 0 then None
      else if s \<noteq> [] \<and> hd s = CHR ''['' then
        (let e = index_byte s CHR '']'' in
         if e < 0 \<or> e + 1 \<noteq> i then None
         else if CHR ''['' \<in> set (drop 1 s) \<or> CHR '']'' \<in> set (drop (nat e + 1) s) then None
         else Some (take (nat e - 1) (drop 1 s), drop (nat i + 1) s))
      else if CHR '':'' \<in> set (take (nat i) s) \<or> CHR ''['' \<in> set s \<or> CHR '']'' \<in> set s then None
      else Some (take (nat i) s, drop (nat i + 1) s))"

definition JoinHostPort :: "string \<Rightarrow> string \<Rightarrow> string" where
  "JoinHostPort h p = (if CHR '':'' \<in> set h then ''['' @ h @ '']:'' @ p else h @ '':'' @ p)"

section \<open>Laws\<close>

lemma To4_length:
  assumes "To4 a = Some v"
  shows "length v = 4"
proof (cases "length a = 4")
  case True
  then show ?thesis using assms by (simp add: To4_def)
next
  case False
  then have "length a = 16" "v = drop 12 a"
    using assms unfolding To4_def by (metis option.distinct(1) option.inject)+
  then show ?thesis by simp
qed

lemma To4_idem: "To4 a = Some v \<Longrightarrow> To4 v = Some v"
  using To4_length [of a v] by (simp add: To4_def [of v])

lemma To4_v4_in_v6: "length v = 4 \<Longrightarrow> To4 (v4_in_v6 v) = Some v"
  by (simp add: To4_def v4_in_v6_def nth_append)

lemma v4_four:
  assumes "To4 a = Some v"
  obtains b0 b1 b2 b3 where "v = [b0, b1, b2, b3]"
proof -
  have "length v = 4" using assms by (rule To4_length)
  then show thesis using that by (auto simp: length_Suc_conv numeral_eq_Suc)
qed

lemma net_contains_To4:
  "To4 a = Some v \<Longrightarrow> net_contains n v = net_contains n a"
  unfolding net_contains_def by (simp only: To4_idem option.case)

lemma parse_v4_length: "parse_v4 s = Some v \<Longrightarrow> length v = 4"
  by (auto simp: parse_v4_def split: list.splits option.splits)

end
