(* ===== verification/NetGuard.thy ===== *)
theory NetGuard
  imports IpAddr
begin

text \<open>
  The outbound guard of \<^verbatim>\<open>internal/netguard/http.go\<close>: which addresses an outbound fetch may connect to,
  how a host is resolved and checked, the redirect policies and the dialer a guarded transport
  installs. URL parsing and DNS resolution are arguments: a parser \<^term>\<open>parse :: string \<Rightarrow> 'u option\<close> and a
  resolver \<^term>\<open>lookup :: string \<Rightarrow> ip list option\<close>. A nil \<^verbatim>\<open>net.IP\<close> is the empty list.
\<close>

section \<open>Errors and URLs\<close>

datatype net_error =
    ErrBlockedAddress string
  | ErrParseURL
  | ErrMissingURL
  | ErrScheme string
  | ErrMissingHost
  | ErrResolve string
  | ErrNoAddresses string
  | ErrTooManyRedirects
  | ErrBlockedRedirect net_error
  | ErrDowngrade string
  | ErrSplitHostPort string
  | ErrUnguardableTransport

record http_url =
  Scheme :: string
  Hostname :: string

definition normalizeHost :: "string \<Rightarrow> string" where
  "normalizeHost host =
     trim_by (\<lambda>c. c = CHR ''['' \<or> c = CHR '']'') (trim_suffix (trim_space (to_lower host)) ''.'')"

definition isLocalHostname :: "string \<Rightarrow> bool" where
  "isLocalHostname host \<longleftrightarrow> host = ''localhost'' \<or> has_suffix host ''.localhost''"

section \<open>Blocked addresses\<close>

text \<open>\<^verbatim>\<open>mustParseCIDRs\<close> panics on a literal that does not parse.\<close>

fun mustParseCIDRs :: "string list \<Rightarrow> ip_net list option" where
  "mustParseCIDRs [] = Some []"
| "mustParseCIDRs (c # cs) =
     (case ParseCIDR c of
        None \<Rightarrow> None
      | Some n \<Rightarrow> map_option (Cons n) (mustParseCIDRs cs))"

definition nonRoutableV4 :: "ip_net list" where
  "nonRoutableV4 = the (mustParseCIDRs [''0.0.0.0/8'', ''192.0.0.0/24'', ''198.18.0.0/15'', ''240.0.0.0/4''])"

definition nonRoutableV6 :: "ip_net list" where
  "nonRoutableV6 = the (mustParseCIDRs [''::/96'', ''64:ff9b::/96'', ''2001::/32'', ''2002::/16''])"

definition IsCGNAT :: "ip \<Rightarrow> bool" where
  "IsCGNAT a = (case To4 a of None \<Rightarrow> False | Some v \<Rightarrow> v ! 0 = 100 \<and> v ! 1 \<ge> 64 \<and> v ! 1 \<le> 127)"

definition IsBlockedIP :: "ip \<Rightarrow> bool" where
  "IsBlockedIP a =
     (if a = [] then True
      else if IsLoopback a \<or> IsPrivate a \<or> IsLinkLocalUnicast a \<or> IsLinkLocalMulticast a \<or>
              IsMulticast a \<or> IsUnspecified a \<or> IsCGNAT a then True
      else case To4 a of
        Some v \<Rightarrow> list_ex (\<lambda>n. net_contains n v) nonRoutableV4
      | None \<Rightarrow> list_ex (\<lambda>n. net_contains n a) nonRoutableV6)"

section \<open>Validation and resolution\<close>

definition ValidateParsedURL :: "http_url option \<Rightarrow> bool \<Rightarrow> net_error + unit" where
  "ValidateParsedURL parsed allowPrivate =
     (case parsed of
        None \<Rightarrow> Inl ErrMissingURL
      | Some u \<Rightarrow>
          if Scheme u \<noteq> ''http'' \<and> Scheme u \<noteq> ''https'' then Inl (ErrScheme (Scheme u))
          else
            let host = normalizeHost (Hostname u) in
            if host = [] then Inl ErrMissingHost
            else if allowPrivate then Inr ()
            else if isLocalHostname host then Inl (ErrBlockedAddress host)
            else case ParseIP host of
              Some a \<Rightarrow> if IsBlockedIP a then Inl (ErrBlockedAddress host) else Inr ()
            | None \<Rightarrow> Inr ())"

definition ValidateURL :: "(string \<Rightarrow> http_url option) \<Rightarrow> string \<Rightarrow> bool \<Rightarrow> net_error + http_url" where
  "ValidateURL parse raw allowPrivate =
     (case parse (trim_space raw) of
        None \<Rightarrow> Inl ErrParseURL
      | Some u \<Rightarrow> (case ValidateParsedURL (Some u) allowPrivate of Inl e \<Rightarrow> Inl e | Inr _ \<Rightarrow> Inr u))"

definition ResolveAllowedIPs :: "(string \<Rightarrow> ip list option) \<Rightarrow> string \<Rightarrow> bool \<Rightarrow> net_error + ip list" where
  "ResolveAllowedIPs lookup host0 allowPrivate =
     (let host = normalizeHost host0 in
      if host = [] then Inl ErrMissingHost
      else case ParseIP host of
        Some a \<Rightarrow> if \<not> allowPrivate \<and> IsBlockedIP a then Inl (ErrBlockedAddress host) else Inr [a]
      | None \<Rightarrow>
          if \<not> allowPrivate \<and> isLocalHostname host then Inl (ErrBlockedAddress host)
          else case lookup host of
            None \<Rightarrow> Inl (ErrResolve host)
          | Some ips \<Rightarrow>
              if ips = [] then Inl (ErrNoAddresses host)
              else if \<not> allowPrivate \<and> list_ex IsBlockedIP ips then Inl (ErrBlockedAddress host)
              else Inr ips)"

definition RedirectPolicy :: "(string \<Rightarrow> ip list option) \<Rightarrow> bool \<Rightarrow> http_url \<Rightarrow> nat \<Rightarrow> net_error + unit" where
  "RedirectPolicy lookup allowPrivate u via =
     (if via \<ge> 10 then Inl ErrTooManyRedirects
      else case ValidateParsedURL (Some u) allowPrivate of
        Inl e \<Rightarrow> Inl (ErrBlockedRedirect e)
      | Inr _ \<Rightarrow>
          case ResolveAllowedIPs lookup (Hostname u) allowPrivate of
            Inl e \<Rightarrow> Inl (ErrBlockedRedirect e)
          | Inr _ \<Rightarrow> Inr ())"

definition CheckRedirect :: "(string \<Rightarrow> ip list option) \<Rightarrow> http_url \<Rightarrow> nat \<Rightarrow> net_error + unit" where
  "CheckRedirect lookup u via = RedirectPolicy lookup False u via"

definition RedirectPolicyHTTPS :: "(string \<Rightarrow> ip list option) \<Rightarrow> bool \<Rightarrow> http_url \<Rightarrow> nat \<Rightarrow> net_error + unit" where
  "RedirectPolicyHTTPS lookup allowPrivate u via =
     (if \<not> equal_fold (Scheme u) ''https'' then Inl (ErrBlockedRedirect (ErrDowngrade (Scheme u)))
      else RedirectPolicy lookup allowPrivate u via)"

section \<open>Guarded transport\<close>

text \<open>
  The base of a transport: an \<^verbatim>\<open>*http.Transport\<close> with its proxy function, or some other round tripper.
  A proxy function is represented by a name; \<^verbatim>\<open>guardedProxy\<close> also returns the new value of the
  once-per-configuration warning flag and whether this call logs the warning.
\<close>

datatype round_tripper = HTTPTransport "string option" | CustomRoundTripper

definition guardedProxy :: "bool \<Rightarrow> string option \<Rightarrow> bool \<Rightarrow> string option \<times> bool \<times> bool" where
  "guardedProxy optIn inherited proxyBypassWarned =
     (if \<not> optIn then (None, False, False)
      else
        let proxy = (case inherited of None \<Rightarrow> Some ''ProxyFromEnvironment'' | Some p \<Rightarrow> Some p)
        in (proxy, True, \<not> proxyBypassWarned))"

text \<open>The address the installed \<^verbatim>\<open>DialContext\<close> hands to the base dialer.\<close>

definition guarded_dial :: "(string \<Rightarrow> ip list option) \<Rightarrow> bool \<Rightarrow> string \<Rightarrow> net_error + string" where
  "guarded_dial lookup allowPrivate address =
     (case SplitHostPort address of
        None \<Rightarrow> Inl (ErrSplitHostPort address)
      | Some (host, port) \<Rightarrow>
          case ResolveAllowedIPs lookup host allowPrivate of
            Inl e \<Rightarrow> Inl e
          | Inr ips \<Rightarrow> Inr (JoinHostPort (ip_string (hd ips)) port))"

text \<open>
  What a guarded transport connects to when it fetches from an address: the proxy's address when it
  keeps a proxy, the destination's otherwise; a custom round tripper is refused.
\<close>

definition GuardedTransport ::
  "(string \<Rightarrow> ip list option) \<Rightarrow> bool \<Rightarrow> (string \<Rightarrow> string) \<Rightarrow> round_tripper \<Rightarrow> bool \<Rightarrow> string \<Rightarrow> net_error + string" where
  "GuardedTransport lookup optIn proxy_address base allowPrivate address =
     (case base of
        CustomRoundTripper \<Rightarrow> Inl ErrUnguardableTransport
      | HTTPTransport inherited \<Rightarrow>
          (case fst (guardedProxy optIn inherited False) of
             None \<Rightarrow> guarded_dial lookup allowPrivate address
           | Some p \<Rightarrow> guarded_dial lookup allowPrivate (proxy_address p)))"

section \<open>Properties\<close>

lemma ResolveAllowedIPs_safe:
  assumes "ResolveAllowedIPs lookup host False = Inr ips"
  shows "ips \<noteq> [] \<and> (\<forall>a\<in>set ips. \<not> IsBlockedIP a)"
  using assms
  by (auto simp: ResolveAllowedIPs_def Let_def list_ex_iff split: if_splits option.splits)


lemma public_fetch: "GuardedTransport (\<lambda>h. Some [[8, 8, 8, 8]]) False (\<lambda>p. p) (HTTPTransport None) False ''dns.google:443'' = Inr ''8.8.8.8:443''"
  by code_simp


section \<open>Blocked ranges\<close>

text \<open>A statement about every byte, checked on the 256 of them.\<close>

lemma byte_forall:
  assumes "list_all (\<lambda>n. P (of_nat n :: 8 word)) [0..<256]"
  shows "P w"
proof -
  have "unat w < 256" using unsigned_less [of w] by simp
  moreover have "\<forall>n\<in>{0..<256}. P (of_nat n :: 8 word)" using assms by (simp add: list_all_iff)
  ultimately have "P (of_nat (unat w))" by (metis atLeastLessThan_iff zero_le)
  then show ?thesis by simp
qed

lemma byte_masks:
  "(w :: 8 word) AND 0xf0 = 0xe0 \<longleftrightarrow> 224 \<le> w \<and> w \<le> 239"
  "w AND 0xf0 = 16 \<longleftrightarrow> 16 \<le> w \<and> w \<le> 31"
  "w AND 0xfe = 18 \<longleftrightarrow> w = 18 \<or> w = 19"
  "w AND 0xf0 = 0xf0 \<longleftrightarrow> 240 \<le> w"
proof -
  have "list_all (\<lambda>n. ((of_nat n :: 8 word) AND 0xf0 = 0xe0 \<longleftrightarrow> 224 \<le> (of_nat n :: 8 word) \<and> (of_nat n :: 8 word) \<le> 239) \<and>
      ((of_nat n :: 8 word) AND 0xf0 = 16 \<longleftrightarrow> 16 \<le> (of_nat n :: 8 word) \<and> (of_nat n :: 8 word) \<le> 31) \<and>
      ((of_nat n :: 8 word) AND 0xfe = 18 \<longleftrightarrow> (of_nat n :: 8 word) = 18 \<or> (of_nat n :: 8 word) = 19) \<and>
      ((of_nat n :: 8 word) AND 0xf0 = 0xf0 \<longleftrightarrow> 240 \<le> (of_nat n :: 8 word))) [0..<256]"
    by code_simp
  from byte_forall [of "\<lambda>w. (w AND 0xf0 = 0xe0 \<longleftrightarrow> 224 \<le> w \<and> w \<le> 239) \<and> (w AND 0xf0 = 16 \<longleftrightarrow> 16 \<le> w \<and> w \<le> 31) \<and>
      (w AND 0xfe = 18 \<longleftrightarrow> w = 18 \<or> w = 19) \<and> (w AND 0xf0 = 0xf0 \<longleftrightarrow> 240 \<le> w)", OF this, of w]
  show "w AND 0xf0 = 0xe0 \<longleftrightarrow> 224 \<le> w \<and> w \<le> 239" "w AND 0xf0 = 16 \<longleftrightarrow> 16 \<le> w \<and> w \<le> 31"
    "w AND 0xfe = 18 \<longleftrightarrow> w = 18 \<or> w = 19" "w AND 0xf0 = 0xf0 \<longleftrightarrow> 240 \<le> w"
    by simp_all
qed

lemma nonRoutableV4_nets:
  "nonRoutableV4 =
     [\<lparr>net_ip = [0, 0, 0, 0], net_mask = [255, 0, 0, 0]\<rparr>,
      \<lparr>net_ip = [192, 0, 0, 0], net_mask = [255, 255, 255, 0]\<rparr>,
      \<lparr>net_ip = [198, 18, 0, 0], net_mask = [255, 254, 0, 0]\<rparr>,
      \<lparr>net_ip = [240, 0, 0, 0], net_mask = [240, 0, 0, 0]\<rparr>]"
  by code_simp

lemma parse_v6_net0:
  "ParseCIDR ''::/96'' = Some \<lparr>net_ip = [0, 0, 0, 0, 0, 0, 0, 0, 0, 0, 0, 0, 0, 0, 0, 0],
     net_mask = [255, 255, 255, 255, 255, 255, 255, 255, 255, 255, 255, 255, 0, 0, 0, 0]\<rparr>"
  by code_simp

lemma parse_v6_net1:
  "ParseCIDR ''64:ff9b::/96'' = Some \<lparr>net_ip = [0, 100, 255, 155, 0, 0, 0, 0, 0, 0, 0, 0, 0, 0, 0, 0],
     net_mask = [255, 255, 255, 255, 255, 255, 255, 255, 255, 255, 255, 255, 0, 0, 0, 0]\<rparr>"
  by code_simp

lemma parse_v6_net2:
  "ParseCIDR ''2001::/32'' = Some \<lparr>net_ip = [32, 1, 0, 0, 0, 0, 0, 0, 0, 0, 0, 0, 0, 0, 0, 0],
     net_mask = [255, 255, 255, 255, 0, 0, 0, 0, 0, 0, 0, 0, 0, 0, 0, 0]\<rparr>"
  by code_simp

lemma parse_v6_net3:
  "ParseCIDR ''2002::/16'' = Some \<lparr>net_ip = [32, 2, 0, 0, 0, 0, 0, 0, 0, 0, 0, 0, 0, 0, 0, 0],
     net_mask = [255, 255, 0, 0, 0, 0, 0, 0, 0, 0, 0, 0, 0, 0, 0, 0]\<rparr>"
  by code_simp

lemmas nonRoutableV6_nets =
  nonRoutableV6_def [simplified parse_v6_net0 parse_v6_net1 parse_v6_net2 parse_v6_net3 mustParseCIDRs.simps
    option.case option.map option.sel]

lemma all_ones_byte: "(w :: 8 word) AND 255 = w"
proof -
  have "list_all (\<lambda>n. (of_nat n :: 8 word) AND 255 = of_nat n) [0..<256]" by code_simp
  then show ?thesis by (rule byte_forall)
qed

lemma v4_net_contains:
  "net_contains \<lparr>net_ip = [n0, n1, n2, n3], net_mask = [m0, m1, m2, m3]\<rparr> [a, b, c, d] \<longleftrightarrow>
     n0 AND m0 = a AND m0 \<and> n1 AND m1 = b AND m1 \<and> n2 AND m2 = c AND m2 \<and> n3 AND m3 = d AND m3"
  by (simp add: net_contains_def net_number_def To4_def and_bytes_def)

text \<open>
  The IPv4 addresses an outbound fetch may not reach, byte by byte, in the 4-byte form and in the
  16-byte form alike: this network, private, loopback, shared, link-local, protocol assignments,
  benchmarking, multicast and reserved space, and nothing else.
\<close>

theorem IsBlockedIP_v4_ranges:
  assumes "To4 addr = Some [a, b, c, d]"
  shows "IsBlockedIP addr \<longleftrightarrow>
    a = 0 \<or> a = 10 \<or> a = 127 \<or> (a = 100 \<and> 64 \<le> b \<and> b \<le> 127) \<or> (a = 169 \<and> b = 254) \<or>
    (a = 172 \<and> 16 \<le> b \<and> b \<le> 31) \<or> (a = 192 \<and> b = 168) \<or> (a = 192 \<and> b = 0 \<and> c = 0) \<or>
    (a = 198 \<and> (b = 18 \<or> b = 19)) \<or> 224 \<le> a"
proof -
  have ne: "addr \<noteq> []" using assms by (auto simp: To4_def)
  have high: "224 \<le> a \<longleftrightarrow> (224 \<le> a \<and> a \<le> 239) \<or> 240 \<le> a" by (auto simp: word_le_nat_alt)
  have unspec: "addr = replicate 16 0 \<Longrightarrow> False" using assms by (auto simp: To4_def)
  have nets: "list_ex (\<lambda>n. net_contains n [a, b, c, d]) nonRoutableV4 \<longleftrightarrow>
      a = 0 \<or> (a = 192 \<and> b = 0 \<and> c = 0) \<or> (a = 198 \<and> (b = 18 \<or> b = 19)) \<or> 240 \<le> a"
    unfolding nonRoutableV4_nets list_ex_Cons_iff list_ex_Nil_iff v4_net_contains
    using byte_masks(3) [of b] byte_masks(4) [of a] by (auto simp: all_ones_byte)
  have preds: "IsLoopback addr \<longleftrightarrow> a = 127" "IsLinkLocalUnicast addr \<longleftrightarrow> a = 169 \<and> b = 254"
    "IsPrivate addr \<longleftrightarrow> a = 10 \<or> (a = 172 \<and> 16 \<le> b \<and> b \<le> 31) \<or> (a = 192 \<and> b = 168)"
    "IsLinkLocalMulticast addr \<longleftrightarrow> a = 224 \<and> b = 0 \<and> c = 0" "IsMulticast addr \<longleftrightarrow> 224 \<le> a \<and> a \<le> 239"
    "IsUnspecified addr \<longleftrightarrow> a = 0 \<and> b = 0 \<and> c = 0 \<and> d = 0"
    "IsCGNAT addr \<longleftrightarrow> a = 100 \<and> 64 \<le> b \<and> b \<le> 127"
    using unspec
    by (simp_all add: IsLoopback_def IsPrivate_def IsLinkLocalUnicast_def IsLinkLocalMulticast_def
        IsMulticast_def IsUnspecified_def IsCGNAT_def assms byte_masks(1) [of a] byte_masks(2) [of b])
      blast
  have mc: "a = 224 \<Longrightarrow> 224 \<le> a" by simp
  show ?thesis
    unfolding IsBlockedIP_def preds assms option.case nets using ne high mc by argo
qed

theorem IsBlockedIP_v4_ranges_witness:
  "To4 (v4_in_v6 [169, 254, 169, 254]) = Some [169, 254, 169, 254] \<and> IsBlockedIP (v4_in_v6 [169, 254, 169, 254]) \<and>
   \<not> IsBlockedIP (v4_in_v6 [8, 8, 8, 8])"
  using IsBlockedIP_v4_ranges [OF To4_v4_in_v6, of 169 254 169 254] IsBlockedIP_v4_ranges [OF To4_v4_in_v6, of 8 8 8 8]
    To4_v4_in_v6 [of "[169, 254, 169, 254]"]
  by (simp add: word_le_nat_alt)

lemma blocked_if_in_v6_net:
  assumes "a \<noteq> []" and "To4 a = None" and "n \<in> set nonRoutableV6" and "net_contains n a"
  shows "IsBlockedIP a"
  using assms by (auto simp: IsBlockedIP_def list_ex_iff)

lemma and_bytes_append:
  "length a = length m \<Longrightarrow> and_bytes (a @ b) (m @ n) = and_bytes a m @ and_bytes b n"
  by (simp add: and_bytes_def)

lemma and_bytes_ones: "and_bytes a (replicate (length a) 255) = a"
  by (induction a) (simp_all add: and_bytes_def all_ones_byte)

lemma and_bytes_zeros: "and_bytes a (replicate (length a) 0) = replicate (length a) 0"
  by (induction a) (simp_all add: and_bytes_def)

text \<open>A network given by whole bytes contains exactly the addresses that start with them.\<close>

lemma byte_prefix_net:
  assumes "length p = k" and "k + r = 16" and "length a = 16" and "To4 a = None" and "To4 (p @ replicate r 0) = None"
    and "n = \<lparr>net_ip = p @ replicate r 0, net_mask = replicate k 255 @ replicate r 0\<rparr>"
  shows "net_contains n a \<longleftrightarrow> take k a = p"
proof -
  have num: "net_number n = Some (p @ replicate r 0, replicate k 255 @ replicate r 0)"
    using assms(1,2,5,6) by (simp add: net_number_def)
  have len: "length (take k a) = k" "length (drop k a) = r" using assms(2,3) by auto
  have "and_bytes a (replicate k 255 @ replicate r 0) = take k a @ replicate r 0"
    using and_bytes_append [of "take k a" "replicate k 255" "drop k a" "replicate r 0"]
      and_bytes_ones [of "take k a"] and_bytes_zeros [of "drop k a"]
    unfolding len by simp
  moreover have "and_bytes (p @ replicate r 0) (replicate k 255 @ replicate r 0) = p @ replicate r 0"
    using and_bytes_append [of p "replicate k 255" "replicate r 0" "replicate r 0"]
      and_bytes_ones [of p] and_bytes_zeros [of "replicate r 0 :: ip"] assms(1) by simp
  ultimately show ?thesis
    using num assms(1-4) by (auto simp: net_contains_def)
qed

lemma v6_prefix_nets:
  "nonRoutableV6 ! 3 = \<lparr>net_ip = [32, 2] @ replicate 14 0, net_mask = replicate 2 255 @ replicate 14 0\<rparr>"
  "nonRoutableV6 ! 2 = \<lparr>net_ip = [32, 1, 0, 0] @ replicate 12 0,
     net_mask = replicate 4 255 @ replicate 12 0\<rparr>"
  "nonRoutableV6 ! 1 = \<lparr>net_ip = [0, 100, 255, 155, 0, 0, 0, 0, 0, 0, 0, 0] @ replicate 4 0,
     net_mask = replicate 12 255 @ replicate 4 0\<rparr>"
  "nonRoutableV6 ! 0 = \<lparr>net_ip = [0, 0, 0, 0, 0, 0, 0, 0, 0, 0, 0, 0] @ replicate 4 0,
     net_mask = replicate 12 255 @ replicate 4 0\<rparr>"
  unfolding nonRoutableV6_nets by (atomize (full)) code_simp

lemma v6_prefix_not4:
  "To4 ([32, 2] @ replicate 14 0) = None" "To4 ([32, 1, 0, 0] @ replicate 12 0) = None"
  "To4 ([0, 100, 255, 155, 0, 0, 0, 0, 0, 0, 0, 0] @ replicate 4 0) = None"
  "To4 ([0, 0, 0, 0, 0, 0, 0, 0, 0, 0, 0, 0] @ replicate 4 0) = None"
  by (atomize (full)) code_simp

text \<open>
  No IPv6 spelling smuggles an IPv4 destination past the guard: every 6to4, Teredo, NAT64 and
  IPv4-compatible address is blocked, whatever IPv4 address it carries.
\<close>

theorem transition_ranges_blocked:
  assumes "length a = 16"
    and "take 2 a = [32, 2] \<or> take 4 a = [32, 1, 0, 0] \<or>
      take 12 a = [0, 100, 255, 155, 0, 0, 0, 0, 0, 0, 0, 0] \<or> take 12 a = [0, 0, 0, 0, 0, 0, 0, 0, 0, 0, 0, 0]"
  shows "IsBlockedIP a"
proof -
  define n0 n1 n2 n3 where "n0 = nonRoutableV6 ! 0" and "n1 = nonRoutableV6 ! 1"
    and "n2 = nonRoutableV6 ! 2" and "n3 = nonRoutableV6 ! 3"
  have mem: "n0 \<in> set nonRoutableV6" "n1 \<in> set nonRoutableV6" "n2 \<in> set nonRoutableV6" "n3 \<in> set nonRoutableV6"
    unfolding n0_def n1_def n2_def n3_def nonRoutableV6_nets by simp_all
  have not4: "To4 a = None"
  proof (rule ccontr)
    assume "To4 a \<noteq> None"
    then have t: "take 10 a = replicate 10 0" "a ! 11 = 255"
      using assms(1) by (auto simp: To4_def split: if_splits)
    have z: "a ! i = 0" if "i < 10" for i using t(1) that by (metis nth_replicate nth_take)
    have "take 2 a ! 0 = a ! 0" "take 4 a ! 0 = a ! 0" "take 12 a ! 2 = a ! 2" "take 12 a ! 11 = a ! 11"
      by simp_all
    then show False using t(2) z [of 0] z [of 2] assms(2) by (elim disjE) simp_all
  qed
  have "net_contains n3 a \<or> net_contains n2 a \<or> net_contains n1 a \<or> net_contains n0 a"
    using assms(2) byte_prefix_net [OF _ _ assms(1) not4 v6_prefix_not4(1) v6_prefix_nets(1)]
      byte_prefix_net [OF _ _ assms(1) not4 v6_prefix_not4(2) v6_prefix_nets(2)]
      byte_prefix_net [OF _ _ assms(1) not4 v6_prefix_not4(3) v6_prefix_nets(3)]
      byte_prefix_net [OF _ _ assms(1) not4 v6_prefix_not4(4) v6_prefix_nets(4)]
    unfolding n0_def n1_def n2_def n3_def by auto
  with not4 mem assms(1) show ?thesis using blocked_if_in_v6_net [of a] by force
qed

theorem transition_ranges_blocked_witness:
  "IsBlockedIP [32, 2, 169, 254, 169, 254, 0, 0, 0, 0, 0, 0, 0, 0, 0, 1]"
  using transition_ranges_blocked [of "[32, 2, 169, 254, 169, 254, 0, 0, 0, 0, 0, 0, 0, 0, 0, 1]"] by simp

text \<open>
  A redirect followed under the default policy stays within ten hops, on http or https, and every
  address its host resolves to is public; under the https-only policy it also stays on https.
\<close>

theorem redirect_hops_public:
  assumes "RedirectPolicyHTTPS lookup False u via = Inr ()"
  shows "via < 10 \<and> Scheme u = ''https'' \<and>
    (\<exists>ips. ResolveAllowedIPs lookup (Hostname u) False = Inr ips \<and> ips \<noteq> [] \<and> (\<forall>a\<in>set ips. \<not> IsBlockedIP a))"
proof -
  have "equal_fold (Scheme u) ''https''" and pol: "RedirectPolicy lookup False u via = Inr ()"
    using assms by (auto simp: RedirectPolicyHTTPS_def split: if_splits)
  from pol have "via < 10" and val: "ValidateParsedURL (Some u) False = Inr ()"
    by (auto simp: RedirectPolicy_def split: if_splits sum.splits)
  from val have "Scheme u = ''http'' \<or> Scheme u = ''https''"
    by (auto simp: ValidateParsedURL_def split: if_splits)
  moreover have "\<not> equal_fold ''http'' ''https''" by code_simp
  ultimately have "Scheme u = ''https''" using \<open>equal_fold (Scheme u) ''https''\<close> by auto
  moreover obtain ips where "ResolveAllowedIPs lookup (Hostname u) False = Inr ips"
    using pol by (auto simp: RedirectPolicy_def split: if_splits sum.splits)
  ultimately show ?thesis using \<open>via < 10\<close> ResolveAllowedIPs_safe by blast
qed

lemma public_redirect:
  "RedirectPolicyHTTPS (\<lambda>h. Some [[8, 8, 8, 8]]) False \<lparr>Scheme = ''https'', Hostname = ''dns.google''\<rparr> 1 = Inr ()"
  by code_simp

theorem redirect_hops_public_witness:
  "\<exists>ips. ResolveAllowedIPs (\<lambda>h. Some [[8, 8, 8, 8]]) ''dns.google'' False = Inr ips \<and> (\<forall>a\<in>set ips. \<not> IsBlockedIP a)"
  using redirect_hops_public [OF public_redirect] by auto

text \<open>
  Where private sources are allowed, the redirect policy checks no address at all: a redirect to any
  IP literal is followed, the link-local metadata address 169.254.169.254 included. The comment on
  the policy says link-local and metadata targets stay blocked unconditionally.
\<close>

theorem private_policy_follows_link_local:
  assumes "Scheme u = ''http'' \<or> Scheme u = ''https''" and "normalizeHost (Hostname u) \<noteq> []"
    and "ParseIP (normalizeHost (Hostname u)) = Some a" and "via < 10"
  shows "RedirectPolicy lookup True u via = Inr ()"
  using assms by (auto simp: RedirectPolicy_def ValidateParsedURL_def ResolveAllowedIPs_def Let_def)

lemma metadata_literal:
  "normalizeHost ''169.254.169.254'' = ''169.254.169.254''"
  "ParseIP ''169.254.169.254'' = Some (v4_in_v6 [169, 254, 169, 254])"
  by (atomize (full)) code_simp

theorem private_policy_follows_link_local_witness:
  "IsLinkLocalUnicast (v4_in_v6 [169, 254, 169, 254]) \<and>
   RedirectPolicy (\<lambda>h. None) True \<lparr>Scheme = ''http'', Hostname = ''169.254.169.254''\<rparr> 0 = Inr ()"
proof -
  have "IsLinkLocalUnicast (v4_in_v6 [169, 254, 169, 254])" by code_simp
  then show ?thesis
    using private_policy_follows_link_local [of "\<lparr>Scheme = ''http'', Hostname = ''169.254.169.254''\<rparr>"
        "v4_in_v6 [169, 254, 169, 254]" 0 "\<lambda>h. None"]
    by (simp add: metadata_literal)
qed

end
