(* ===== verification/EnvConfig.thy ===== *)
theory EnvConfig
  imports NetGuard
begin

text \<open>
  Configuration read from the environment (\<^verbatim>\<open>internal/config/env.go\<close>) and the check of the block-page
  address for production (\<^verbatim>\<open>internal/config/production.go\<close>). The environment is a function from names to
  values, an unset variable being the empty string, and reading a secret file is an argument.
\<close>

section \<open>Reading values\<close>

type_synonym env = "string \<Rightarrow> string"

definition env_String :: "env \<Rightarrow> string \<Rightarrow> string \<Rightarrow> string" where
  "env_String getenv key fallback = (if getenv key = [] then fallback else getenv key)"

text \<open>\<^verbatim>\<open>strconv.Atoi\<close>: an optional sign and decimal digits, within the 64-bit range.\<close>

definition Atoi :: "string \<Rightarrow> int option" where
  "Atoi s =
     (let neg = (s \<noteq> [] \<and> hd s = CHR ''-'');
          digits = (if s \<noteq> [] \<and> (hd s = CHR ''-'' \<or> hd s = CHR ''+'') then tl s else s);
          v = (if neg then - dec_value digits else dec_value digits)
      in if digits = [] \<or> \<not> list_all is_digit digits then None
         else if v < - (2 ^ 63) \<or> v \<ge> 2 ^ 63 then None
         else Some v)"

definition env_Int :: "env \<Rightarrow> string \<Rightarrow> int \<Rightarrow> int" where
  "env_Int getenv key fallback =
     (if getenv key = [] then fallback
      else case Atoi (getenv key) of None \<Rightarrow> fallback | Some n \<Rightarrow> n)"

text \<open>A duration is a signed 64-bit count of nanoseconds; the product wraps.\<close>

definition wrap64 :: "int \<Rightarrow> int" where
  "wrap64 n = (n + 2 ^ 63) mod 2 ^ 64 - 2 ^ 63"

definition DurationMillis :: "env \<Rightarrow> string \<Rightarrow> int \<Rightarrow> int" where
  "DurationMillis getenv key fallback =
     (if getenv key = [] then fallback
      else case Atoi (getenv key) of None \<Rightarrow> fallback | Some n \<Rightarrow> wrap64 (n * 1000000))"

definition DurationSeconds :: "env \<Rightarrow> string \<Rightarrow> int \<Rightarrow> int" where
  "DurationSeconds getenv key fallback =
     (if getenv key = [] then fallback
      else case Atoi (getenv key) of None \<Rightarrow> fallback | Some n \<Rightarrow> wrap64 (n * 1000000000))"

definition env_Bool :: "env \<Rightarrow> string \<Rightarrow> bool \<Rightarrow> bool" where
  "env_Bool getenv key fallback =
     (let value = getenv key in
      if value = [] then fallback
      else if value \<in> {''1'', ''true'', ''yes'', ''on''} then True
      else if value \<in> {''0'', ''false'', ''no'', ''off''} then False
      else fallback)"

section \<open>The security profile\<close>

datatype env_error = EnvRequired | EnvUnsupported string

definition Environment :: "env \<Rightarrow> string" where
  "Environment getenv =
     (let value = to_lower (trim_space (getenv ''SAFE_ZONE_ENV''))
      in if value = [] then ''local'' else value)"

definition NormalizeEnvironment :: "string \<Rightarrow> env_error + string" where
  "NormalizeEnvironment value =
     (let e = to_lower (trim_space value) in
      if e \<in> {''local'', ''test'', ''development'', ''production''} then Inr e
      else if e = ''prod'' then Inr ''production''
      else if e = [] then Inl EnvRequired
      else Inl (EnvUnsupported value))"

definition EnvironmentAllowsGeneratedSecrets :: "string \<Rightarrow> bool" where
  "EnvironmentAllowsGeneratedSecrets e \<longleftrightarrow> e = ''local'' \<or> e = ''test''"

definition EnvironmentRequiresValidatedSecrets :: "string \<Rightarrow> bool" where
  "EnvironmentRequiresValidatedSecrets e \<longleftrightarrow> e = ''production'' \<or> e = ''development''"

definition IsProduction :: "env \<Rightarrow> bool" where
  "IsProduction getenv \<longleftrightarrow> Environment getenv \<in> {''production'', ''prod''}"

text \<open>A secret comes from its variable, or from the file its \<^verbatim>\<open>_FILE\<close> variable names; a read can fail.\<close>

definition SecretFileRoot :: "env \<Rightarrow> string" where
  "SecretFileRoot getenv = env_String getenv ''SAFE_ZONE_SECRET_FILE_ROOT'' ''./ops/secrets''"

definition SecretStringE :: "(string \<Rightarrow> string \<Rightarrow> string option) \<Rightarrow> env \<Rightarrow> string \<Rightarrow> string option" where
  "SecretStringE read_within getenv key =
     (if getenv key \<noteq> [] then Some (getenv key)
      else
        let filePath = trim_space (getenv (key @ ''_FILE'')) in
        if filePath = [] then Some []
        else map_option trim_space (read_within (SecretFileRoot getenv) filePath))"

definition SecretString :: "(string \<Rightarrow> string \<Rightarrow> string option) \<Rightarrow> env \<Rightarrow> string \<Rightarrow> string \<Rightarrow> string" where
  "SecretString read_within getenv key fallback =
     (case SecretStringE read_within getenv key of
        None \<Rightarrow> fallback
      | Some v \<Rightarrow> if v = [] then fallback else v)"

section \<open>The block-page address\<close>

datatype ip_problem =
    NotFilledIn | EmptyIP | InvalidIP | LoopbackIP | UnspecifiedIP | MulticastIP | LinkLocalIP
  | DocumentationIP | SpecialPurposeIP

datatype ip_warning = NoWarning | PrivateIP | SharedIP

definition ValidateIP :: "string \<Rightarrow> ip_problem + ip" where
  "ValidateIP value =
     (let trimmed = trim_space value in
      if trimmed = [] then Inl EmptyIP
      else case ParseIP trimmed of None \<Rightarrow> Inl InvalidIP | Some a \<Rightarrow> Inr a)"

definition documentationNets :: "ip_net list" where
  "documentationNets =
     the (mustParseCIDRs [''192.0.2.0/24'', ''198.51.100.0/24'', ''203.0.113.0/24'', ''2001:db8::/32'', ''3fff::/20''])"

definition specialPurposeNets :: "ip_net list" where
  "specialPurposeNets =
     the (mustParseCIDRs [''0.0.0.0/8'', ''192.0.0.0/24'', ''192.88.99.0/24'', ''198.18.0.0/15'', ''240.0.0.0/4'',
       ''100::/64'', ''2001:2::/48'', ''2001:10::/28'', ''2001:20::/28''])"

definition sharedAddressSpaceNets :: "ip_net list" where
  "sharedAddressSpaceNets = the (mustParseCIDRs [''100.64.0.0/10''])"

definition inNets :: "ip \<Rightarrow> ip_net list \<Rightarrow> bool" where
  "inNets a nets \<longleftrightarrow> list_ex (\<lambda>n. net_contains n a) nets"

definition ValidateProductionBlockPageIP :: "string \<Rightarrow> ip_problem + ip_warning" where
  "ValidateProductionBlockPageIP value =
     (let trimmed = trim_space value in
      if trimmed = [] \<or> has_prefix (to_lower trimmed) ''replace-with-'' then Inl NotFilledIn
      else case ValidateIP trimmed of
        Inl e \<Rightarrow> Inl e
      | Inr a \<Rightarrow>
          if IsLoopback a then Inl LoopbackIP
          else if IsUnspecified a then Inl UnspecifiedIP
          else if IsMulticast a \<or> IsLinkLocalMulticast a then Inl MulticastIP
          else if IsLinkLocalUnicast a then Inl LinkLocalIP
          else if inNets a documentationNets then Inl DocumentationIP
          else if inNets a specialPurposeNets then Inl SpecialPurposeIP
          else if IsPrivate a then Inr PrivateIP
          else if inNets a sharedAddressSpaceNets then Inr SharedIP
          else Inr NoWarning)"

section \<open>Properties\<close>

text \<open>
  Every environment name the services accept has exactly one of the two secret policies: local and
  test may generate secrets, development and production must validate them. The name is accepted in
  any case and with surrounding space, normalising is idempotent, and a service that considers itself
  in production always validates its secrets.
\<close>

theorem environment_profiles:
  assumes "NormalizeEnvironment value = Inr e"
  shows "(EnvironmentAllowsGeneratedSecrets e = (\<not> EnvironmentRequiresValidatedSecrets e)) \<and>
    NormalizeEnvironment e = Inr e \<and>
    (getenv ''SAFE_ZONE_ENV'' = value \<longrightarrow> IsProduction getenv = (e = ''production''))"
proof -
  have "to_lower (trim_space ''local'') = ''local''" "to_lower (trim_space ''test'') = ''test''"
    "to_lower (trim_space ''development'') = ''development''" "to_lower (trim_space ''production'') = ''production''"
    by (atomize (full)) code_simp
  then show ?thesis
    using assms
    by (auto simp: NormalizeEnvironment_def Let_def EnvironmentAllowsGeneratedSecrets_def
        EnvironmentRequiresValidatedSecrets_def IsProduction_def Environment_def split: if_splits)
qed

theorem environment_profiles_witness:
  "NormalizeEnvironment ''  Prod '' = Inr ''production'' \<and>
   EnvironmentAllowsGeneratedSecrets ''production'' = (\<not> EnvironmentRequiresValidatedSecrets ''production'')"
proof -
  have "NormalizeEnvironment ''  Prod '' = Inr ''production''" by code_simp
  with environment_profiles [OF this] show ?thesis by blast
qed

text \<open>The special-purpose list contains every IPv4 network the outbound guard adds to the address predicates.\<close>

lemma guard_nets_special: "set nonRoutableV4 \<subseteq> set specialPurposeNets"
  by (simp add: nonRoutableV4_def specialPurposeNets_def) code_simp

lemma shared_net: "sharedAddressSpaceNets = [\<lparr>net_ip = [100, 64, 0, 0], net_mask = [255, 192, 0, 0]\<rparr>]"
  by code_simp

lemma byte_mask_shared: "(w :: 8 word) AND 192 = 64 \<longleftrightarrow> 64 \<le> w \<and> w \<le> 127"
proof -
  have "list_all (\<lambda>n. (of_nat n :: 8 word) AND 192 = 64 \<longleftrightarrow> 64 \<le> (of_nat n :: 8 word) \<and> (of_nat n :: 8 word) \<le> 127) [0..<256]"
    by code_simp
  then show ?thesis by (rule byte_forall)
qed

text \<open>
  An IPv4 block-page address that passes the production check without a warning is one the outbound
  guard would also connect to: the two lists of unusable space agree on IPv4, private and shared
  space being the only parts the production check merely warns about.
\<close>

theorem block_page_address_public:
  assumes "ValidateProductionBlockPageIP value = Inr NoWarning"
    and "ParseIP (trim_space value) = Some a" and "To4 a = Some v"
  shows "\<not> IsBlockedIP a"
proof -
  obtain v0 v1 v2 v3 where v: "v = [v0, v1, v2, v3]" using assms(3) by (rule v4_four)
  have ok: "\<not> IsLoopback a" "\<not> IsUnspecified a" "\<not> IsMulticast a" "\<not> IsLinkLocalMulticast a"
    "\<not> IsLinkLocalUnicast a" "\<not> inNets a specialPurposeNets" "\<not> IsPrivate a" "\<not> inNets a sharedAddressSpaceNets"
    using assms(1,2) by (auto simp: ValidateProductionBlockPageIP_def ValidateIP_def Let_def split: if_splits option.splits)
  have "\<not> inNets v sharedAddressSpaceNets"
    using ok(8) net_contains_To4 [OF assms(3)] by (simp add: inNets_def)
  then have "\<not> IsCGNAT a"
    using assms(3) byte_mask_shared [of v1]
    by (auto simp: IsCGNAT_def inNets_def shared_net v v4_net_contains all_ones_byte)
  moreover have "\<not> list_ex (\<lambda>n. net_contains n v) nonRoutableV4"
    using ok(6) guard_nets_special net_contains_To4 [OF assms(3)] by (auto simp: inNets_def list_ex_iff)
  moreover have "a \<noteq> []" using assms(3) by (auto simp: To4_def)
  ultimately show ?thesis using ok assms(3) by (simp add: IsBlockedIP_def)
qed

theorem block_page_address_public_witness:
  "\<exists>a. ParseIP (trim_space '' 8.8.4.4'') = Some a \<and> \<not> IsBlockedIP a"
proof -
  have "ValidateProductionBlockPageIP '' 8.8.4.4'' = Inr NoWarning"
    "ParseIP (trim_space '' 8.8.4.4'') = Some (v4_in_v6 [8, 8, 4, 4])"
    by (atomize (full)) code_simp
  with block_page_address_public [OF this To4_v4_in_v6] show ?thesis by simp
qed

end
