(* ===== verification/Middleware.thy ===== *)
theory Middleware
  imports LimiterProps EnvConfig
begin

text \<open>
  The HTTP rate-limiting layer of \<^verbatim>\<open>internal/ratelimit/middleware.go\<close>: which address a request is
  counted under, which limiter governs its path, and the answer it gets. The process-wide proxy
  configuration is explicit state, resolved from the environment on first use; limiters are shared,
  so they are kept in a store and named by an index, a nil limiter being \<^const>\<open>None\<close>.
\<close>

section \<open>Requests and the trusted-proxy configuration\<close>

record request =
  RemoteAddr :: string
  XForwardedFor :: string
  XRealIP :: string
  URLPath :: string

record proxy_state =
  trustedProxies :: "ip_net list"
  trustedProxyConfig :: "ip_net list option"

datatype proxy_warning = InvalidProxyList string | BroadProxyPrefix ip_net

definition DefaultTrustedProxies :: string where
  "DefaultTrustedProxies = ''127.0.0.0/8,::1/128''"

definition TrustedProxiesEnv :: string where
  "TrustedProxiesEnv = ''SAFE_ZONE_TRUSTED_PROXIES''"

fun parse_entries :: "string list \<Rightarrow> string + ip_net list" where
  "parse_entries [] = Inr []"
| "parse_entries (e # es) =
     (let entry = trim_space e in
      if entry = [] then parse_entries es
      else case ParseCIDR entry of
        None \<Rightarrow> Inl entry
      | Some n \<Rightarrow> (case parse_entries es of Inl err \<Rightarrow> Inl err | Inr ns \<Rightarrow> Inr (n # ns)))"

definition ParseTrustedProxies :: "string \<Rightarrow> string + ip_net list" where
  "ParseTrustedProxies s = parse_entries (split_on CHR '','' s)"

definition SetTrustedProxies :: "ip_net list \<Rightarrow> proxy_state \<Rightarrow> proxy_state" where
  "SetTrustedProxies nets st = st\<lparr>trustedProxies := nets, trustedProxyConfig := Some nets\<rparr>"

text \<open>\<^verbatim>\<open>IPMask.Size\<close>: the leading ones, or zero when the mask is not ones followed by zeros.\<close>

definition mask_size :: "ip_net \<Rightarrow> nat" where
  "mask_size n =
     (let bits = concat (map (\<lambda>b. map (bit b) (rev [0..<8])) (net_mask n)); ones = mask_ones n
      in if list_ex id (drop ones bits) then 0 else ones)"

definition overBroadProxyPrefix :: "ip_net \<Rightarrow> bool" where
  "overBroadProxyPrefix n =
     (if IsLoopback (net_ip n) then False
      else case To4 (net_ip n) of Some _ \<Rightarrow> mask_size n \<le> 8 | None \<Rightarrow> mask_size n \<le> 16)"

definition configureTrustedProxies :: "env \<Rightarrow> proxy_state \<Rightarrow> ip_net list \<times> proxy_warning list \<times> proxy_state" where
  "configureTrustedProxies getenv st =
     (let raw = env_String getenv TrustedProxiesEnv DefaultTrustedProxies;
          (proxies, warnings) =
            (case ParseTrustedProxies raw of
               Inl err \<Rightarrow>
                 (case ParseTrustedProxies DefaultTrustedProxies of Inl _ \<Rightarrow> [] | Inr fallback \<Rightarrow> fallback,
                  [InvalidProxyList err])
             | Inr ps \<Rightarrow> (ps, map BroadProxyPrefix (filter overBroadProxyPrefix ps)))
      in (proxies, warnings, SetTrustedProxies proxies st))"

definition resolveTrustedProxies :: "env \<Rightarrow> proxy_state \<Rightarrow> ip_net list \<times> proxy_state" where
  "resolveTrustedProxies getenv st =
     (case trustedProxyConfig st of
        Some cached \<Rightarrow> (cached, st)
      | None \<Rightarrow> (let (ps, _, st') = configureTrustedProxies getenv st in (ps, st')))"

definition TrustedProxies :: "env \<Rightarrow> proxy_state \<Rightarrow> ip_net list \<times> proxy_state" where
  "TrustedProxies getenv st = (let (_, st') = resolveTrustedProxies getenv st in (trustedProxies st', st'))"

section \<open>The client address\<close>

definition parseHeaderIP :: "string \<Rightarrow> ip option" where
  "parseHeaderIP value0 =
     (let value = trim_space value0 in
      if value = [] then None
      else
        let host = (case SplitHostPort value of Some (h, _) \<Rightarrow> h | None \<Rightarrow> value)
        in ParseIP (trim_by (\<lambda>c. c = CHR ''['' \<or> c = CHR '']'') host))"

definition isTrustedProxyIP :: "env \<Rightarrow> ip \<Rightarrow> proxy_state \<Rightarrow> bool \<times> proxy_state" where
  "isTrustedProxyIP getenv a st =
     (let (nets, st') = resolveTrustedProxies getenv st
      in (list_ex (\<lambda>n. net_contains n a) nets, st'))"

definition isTrustedProxy :: "env \<Rightarrow> string \<Rightarrow> proxy_state \<Rightarrow> bool \<times> proxy_state" where
  "isTrustedProxy getenv s st =
     (case parseHeaderIP s of
        None \<Rightarrow> (False, st)
      | Some a \<Rightarrow> isTrustedProxyIP getenv a st)"

text \<open>The walk over the valid hops from the right, the list given rightmost first.\<close>

fun rightmost_untrusted :: "env \<Rightarrow> ip list \<Rightarrow> proxy_state \<Rightarrow> string \<times> proxy_state" where
  "rightmost_untrusted getenv [] st = ([], st)"
| "rightmost_untrusted getenv (a # as) st =
     (let (trusted, st') = isTrustedProxyIP getenv a st
      in if \<not> trusted then (ip_string a, st') else rightmost_untrusted getenv as st')"

definition valid_hops :: "string \<Rightarrow> ip list" where
  "valid_hops xff = List.map_filter parseHeaderIP (split_on CHR '','' xff)"

definition clientIPFromXForwardedFor :: "env \<Rightarrow> string \<Rightarrow> proxy_state \<Rightarrow> string \<times> proxy_state" where
  "clientIPFromXForwardedFor getenv xff st = rightmost_untrusted getenv (rev (valid_hops xff)) st"

definition peer_host :: "request \<Rightarrow> string" where
  "peer_host r = (case SplitHostPort (RemoteAddr r) of Some (h, _) \<Rightarrow> h | None \<Rightarrow> RemoteAddr r)"

definition ClientIP :: "env \<Rightarrow> request \<Rightarrow> proxy_state \<Rightarrow> string \<times> proxy_state" where
  "ClientIP getenv r st =
     (let host = peer_host r; (trusted, st1) = isTrustedProxy getenv host st in
      if \<not> trusted then (host, st1)
      else
        let (xip, st2) =
              (if XForwardedFor r = [] then ([], st1) else clientIPFromXForwardedFor getenv (XForwardedFor r) st1)
        in if xip \<noteq> [] then (xip, st2)
           else if XRealIP r \<noteq> [] then
             (case parseHeaderIP (XRealIP r) of Some a \<Rightarrow> (ip_string a, st2) | None \<Rightarrow> (host, st2))
           else (host, st2))"

section \<open>The tiered middleware\<close>

record tier =
  PathPrefix :: string
  tierLimiter :: "nat option"

record tiered =
  tiers :: "tier list"
  fallbackLimiter :: "nat option"

definition NewTieredMiddleware :: "nat option \<Rightarrow> tier list \<Rightarrow> tiered" where
  "NewTieredMiddleware fallback ts = \<lparr>tiers = ts, fallbackLimiter = fallback\<rparr>"

definition limiterFor :: "tiered \<Rightarrow> string \<Rightarrow> nat option" where
  "limiterFor tm path =
     (case find (\<lambda>t. has_prefix path (PathPrefix t)) (tiers tm) of
        Some t \<Rightarrow> tierLimiter t
      | None \<Rightarrow> fallbackLimiter tm)"

definition LimiterFor :: "tiered \<Rightarrow> string \<Rightarrow> nat option" where
  "LimiterFor tm path = limiterFor tm path"

datatype rate_answer = ServeNext | TooManyRequests int

definition retry_secs :: "rat \<Rightarrow> int" where
  "retry_secs retryAfter = (let secs = ceiling retryAfter in if secs < 1 then 1 else secs)"

record http_state =
  proxies :: proxy_state
  limiters :: "nat \<Rightarrow> limiter"

definition Wrap :: "env \<Rightarrow> tiered \<Rightarrow> int \<Rightarrow> request \<Rightarrow> http_state \<Rightarrow> rate_answer \<times> http_state" where
  "Wrap getenv tm now r st =
     (let (ip, ps) = ClientIP getenv r (proxies st); st1 = st\<lparr>proxies := ps\<rparr> in
      case limiterFor tm (URLPath r) of
        None \<Rightarrow> (ServeNext, st1)
      | Some i \<Rightarrow>
          let (ok, l) = Allow now ip (limiters st1 i); st2 = st1\<lparr>limiters := (limiters st1)(i := l)\<rparr> in
          if \<not> ok then (TooManyRequests (retry_secs (SecondsUntilNextToken l ip)), st2)
          else (ServeNext, st2))"

section \<open>Resolution\<close>

lemma resolve_cases:
  obtains nets st' where "resolveTrustedProxies getenv st = (nets, st')"
    "trustedProxyConfig st' = Some nets" "\<And>g. resolveTrustedProxies g st' = (nets, st')"
proof (cases "trustedProxyConfig st")
  case None
  obtain ps ws st' where c: "configureTrustedProxies getenv st = (ps, ws, st')" by (metis prod_cases3)
  then have "st' = SetTrustedProxies ps st" by (auto simp: configureTrustedProxies_def Let_def split_beta)
  then have "trustedProxyConfig st' = Some ps" by (simp add: SetTrustedProxies_def)
  then show thesis using None c by (intro that [of ps st']) (simp_all add: resolveTrustedProxies_def)
next
  case (Some cached)
  then show thesis by (intro that [of cached st]) (simp_all add: resolveTrustedProxies_def)
qed

definition trusted_nets :: "env \<Rightarrow> proxy_state \<Rightarrow> ip_net list" where
  "trusted_nets getenv st = fst (resolveTrustedProxies getenv st)"

definition trusts :: "env \<Rightarrow> proxy_state \<Rightarrow> ip \<Rightarrow> bool" where
  "trusts getenv st a \<longleftrightarrow> list_ex (\<lambda>n. net_contains n a) (trusted_nets getenv st)"

text \<open>A step that leaves the configuration alone or resolves it: the trust decision stays the same.\<close>

definition same_trust :: "env \<Rightarrow> proxy_state \<Rightarrow> proxy_state \<Rightarrow> bool" where
  "same_trust getenv st st' \<longleftrightarrow> st' = st \<or> st' = snd (resolveTrustedProxies getenv st)"

lemma same_trust_nets:
  assumes "same_trust getenv st st'"
  shows "trusted_nets getenv st' = trusted_nets getenv st"
    and "snd (resolveTrustedProxies getenv st') = snd (resolveTrustedProxies getenv st)"
proof -
  obtain nets st'' where "resolveTrustedProxies getenv st = (nets, st'')"
    "\<And>g. resolveTrustedProxies g st'' = (nets, st'')"
    using resolve_cases [of getenv st] by metis
  then show "trusted_nets getenv st' = trusted_nets getenv st"
    and "snd (resolveTrustedProxies getenv st') = snd (resolveTrustedProxies getenv st)"
    using assms by (auto simp: same_trust_def trusted_nets_def)
qed

lemma same_trust_refl: "same_trust getenv st st"
  by (simp add: same_trust_def)

lemma same_trust_trans:
  "same_trust getenv st st' \<Longrightarrow> same_trust getenv st' st'' \<Longrightarrow> same_trust getenv st st''"
  using same_trust_nets(2) [of getenv st st'] by (auto simp: same_trust_def)

lemma isTrustedProxyIP_effect:
  "fst (isTrustedProxyIP getenv a st) = trusts getenv st a"
  "same_trust getenv st (snd (isTrustedProxyIP getenv a st))"
  by (simp_all add: isTrustedProxyIP_def trusts_def trusted_nets_def split_beta same_trust_def)

lemma trusts_same: "same_trust getenv st st' \<Longrightarrow> trusts getenv st' a = trusts getenv st a"
  by (simp add: trusts_def same_trust_nets)

lemma isTrustedProxy_effect:
  "fst (isTrustedProxy getenv s st) = (case parseHeaderIP s of None \<Rightarrow> False | Some a \<Rightarrow> trusts getenv st a)"
  "same_trust getenv st (snd (isTrustedProxy getenv s st))"
  by (simp_all add: isTrustedProxy_def isTrustedProxyIP_effect same_trust_refl split: option.split)

lemma find_in_set: "find P xs = Some a \<Longrightarrow> a \<in> set xs"
  by (induction xs) (auto split: if_splits)

lemma rightmost_untrusted_effect:
  "fst (rightmost_untrusted getenv as st) =
     (case find (\<lambda>a. \<not> trusts getenv st a) as of Some a \<Rightarrow> ip_string a | None \<Rightarrow> []) \<and>
   same_trust getenv st (snd (rightmost_untrusted getenv as st))"
proof (induction as arbitrary: st)
  case Nil
  then show ?case by (simp add: same_trust_refl)
next
  case (Cons a as)
  obtain t st' where t: "isTrustedProxyIP getenv a st = (t, st')" by fastforce
  then have eff: "t = trusts getenv st a" "same_trust getenv st st'"
    using isTrustedProxyIP_effect [where getenv = getenv and a = a and st = st] by simp_all
  show ?case using Cons [of st'] t eff trusts_same [OF eff(2)] same_trust_trans [OF eff(2)] by simp
qed

lemma find_append_Some: "find P xs = Some a \<Longrightarrow> find P (xs @ ys) = Some a"
  by (induction xs) (auto split: if_splits)

lemma loopback_list:
  "ParseTrustedProxies DefaultTrustedProxies =
     Inr [\<lparr>net_ip = [127, 0, 0, 0], net_mask = [255, 0, 0, 0]\<rparr>,
          \<lparr>net_ip = [0, 0, 0, 0, 0, 0, 0, 0, 0, 0, 0, 0, 0, 0, 0, 1],
           net_mask = [255, 255, 255, 255, 255, 255, 255, 255, 255, 255, 255, 255, 255, 255, 255, 255]\<rparr>]"
  by code_simp

section \<open>Text forms are not empty\<close>

lemma dec_string_ne [simp]: "dec_string n \<noteq> []"
  by (subst dec_string.simps) simp

lemma hex_string_ne [simp]: "hex_string n \<noteq> []"
  by (subst hex_string.simps) simp

lemma join_with_ne: "ws \<noteq> [] \<Longrightarrow> hd ws \<noteq> [] \<Longrightarrow> join_with sep ws \<noteq> []"
  by (cases ws; cases "tl ws") auto

lemma parse_v6_length: "parse_v6 s = Some a \<Longrightarrow> length a = 16"
  by (auto simp: parse_v6_def expand_ellipsis_def Option.bind_eq_Some_conv split: if_splits option.splits prod.splits)

lemma ParseIP_length: "ParseIP s = Some a \<Longrightarrow> length a = 16"
  using parse_v6_length parse_v4_length
  by (auto simp: ParseIP_def v4_in_v6_def split: option.splits if_splits)

lemma groups16_ne: "length a = 16 \<Longrightarrow> groups16 a \<noteq> []"
  by (cases a rule: groups16.cases) auto

lemma ip_string_ne:
  assumes "length a = 16"
  shows "ip_string a \<noteq> []"
proof (cases "To4 a")
  case None
  then show ?thesis
    using groups16_ne [OF assms] by (auto simp: ip_string_def v6_string_def Let_def split_beta join_with_ne hd_map)
next
  case (Some v)
  then obtain b0 b1 b2 b3 where "v = [b0, b1, b2, b3]" by (rule v4_four)
  with Some show ?thesis by (simp add: ip_string_def v4_string_def)
qed

lemma parseHeaderIP_ne: "parseHeaderIP s = Some a \<Longrightarrow> ip_string a \<noteq> []"
  using ParseIP_length ip_string_ne by (auto simp: parseHeaderIP_def Let_def split: if_splits option.splits)

lemma valid_hops_ne: "a \<in> set (valid_hops xff) \<Longrightarrow> ip_string a \<noteq> []"
  using parseHeaderIP_ne by (auto simp: valid_hops_def List.map_filter_def)

lemma ClientIP_cases:
  "fst (ClientIP getenv r st) =
     (if \<not> (case parseHeaderIP (peer_host r) of None \<Rightarrow> False | Some a \<Rightarrow> trusts getenv st a) then peer_host r
      else case find (\<lambda>a. \<not> trusts getenv st a) (rev (if XForwardedFor r = [] then [] else valid_hops (XForwardedFor r))) of
        Some a \<Rightarrow> ip_string a
      | None \<Rightarrow> (case (if XRealIP r = [] then None else parseHeaderIP (XRealIP r)) of
                   Some a \<Rightarrow> ip_string a | None \<Rightarrow> peer_host r))"
proof -
  obtain t st1 where t: "isTrustedProxy getenv (peer_host r) st = (t, st1)" by fastforce
  then have eff: "t = (case parseHeaderIP (peer_host r) of None \<Rightarrow> False | Some a \<Rightarrow> trusts getenv st a)"
    "same_trust getenv st st1"
    using isTrustedProxy_effect [where getenv = getenv and s = "peer_host r" and st = st] by simp_all
  let ?hops = "rev (if XForwardedFor r = [] then [] else valid_hops (XForwardedFor r))"
  let ?x = "if XForwardedFor r = [] then ([], st1) else clientIPFromXForwardedFor getenv (XForwardedFor r) st1"
  have x: "fst ?x = (case find (\<lambda>a. \<not> trusts getenv st a) ?hops of Some a \<Rightarrow> ip_string a | None \<Rightarrow> [])"
    using rightmost_untrusted_effect [of getenv "rev (valid_hops (XForwardedFor r))" st1]
    by (simp add: clientIPFromXForwardedFor_def trusts_same [OF eff(2)])
  have ne: "ip_string a \<noteq> []" if "find (\<lambda>a. \<not> trusts getenv st a) ?hops = Some a" for a
    using find_in_set [OF that] valid_hops_ne by (auto split: if_splits)
  show ?thesis
    using x ne unfolding ClientIP_def Let_def t eff(1) [symmetric]
    by (cases "find (\<lambda>a. \<not> trusts getenv st a) ?hops") (auto simp: split_beta split: option.splits)
qed

lemma ClientIP_same:
  assumes "trusts getenv st' = trusts getenv st"
  shows "fst (ClientIP getenv r st') = fst (ClientIP getenv r st)"
  unfolding ClientIP_cases assms ..

section \<open>Properties\<close>

text \<open>
  The address a request is counted under. From a peer that is not a trusted proxy it is the socket
  address, whatever the headers say. From a trusted proxy it is the rightmost forwarded hop that is
  not itself trusted; when there is none, the \<^verbatim>\<open>X-Real-IP\<close> address if it parses, else the socket
  address: never a hop to the left of an untrusted one.
\<close>

theorem ClientIP_decision:
  "fst (ClientIP getenv r st) =
     (if \<not> (case parseHeaderIP (peer_host r) of None \<Rightarrow> False | Some a \<Rightarrow> trusts getenv st a) then peer_host r
      else case find (\<lambda>a. \<not> trusts getenv st a) (rev (if XForwardedFor r = [] then [] else valid_hops (XForwardedFor r))) of
        Some a \<Rightarrow> ip_string a
      | None \<Rightarrow> (case (if XRealIP r = [] then None else parseHeaderIP (XRealIP r)) of
                   Some a \<Rightarrow> ip_string a | None \<Rightarrow> peer_host r))"
  by (rule ClientIP_cases)

lemma valid_hops_append: "valid_hops (forged @ '','' @ genuine) = valid_hops forged @ valid_hops genuine"
  using split_on_append_sep [of "CHR '',''" forged genuine]
  by (simp add: valid_hops_def List.map_filter_def)

text \<open>
  C32: A client cannot choose its own rate-limit key. When the proxies in front of the service append the
  hops \<^term>\<open>genuine\<close>, one of which is not a trusted proxy, whatever the client wrote into the header
  before them changes nothing.
\<close>

theorem forged_hops_ignored:
  assumes "\<exists>a\<in>set (valid_hops genuine). \<not> trusts getenv st a"
    and "XForwardedFor r = genuine" and "XForwardedFor r' = forged @ '','' @ genuine"
    and "RemoteAddr r' = RemoteAddr r" and "XRealIP r' = XRealIP r"
  shows "fst (ClientIP getenv r' st) = fst (ClientIP getenv r st)"
proof -
  obtain a where a: "find (\<lambda>a. \<not> trusts getenv st a) (rev (valid_hops genuine)) = Some a"
    using assms(1) by (metis find_None_iff not_None_eq set_rev)
  then have a': "find (\<lambda>a. \<not> trusts getenv st a) (rev (valid_hops (forged @ '','' @ genuine))) = Some a"
    by (simp only: valid_hops_append rev_append find_append_Some)
  have "genuine \<noteq> []"
    using a by (auto simp: valid_hops_def List.map_filter_def parseHeaderIP_def)
  with a a' show ?thesis
    unfolding ClientIP_cases assms(2,3) peer_host_def assms(4,5) by simp
qed

lemma demo_proxy:
  "let st = \<lparr>trustedProxies = [], trustedProxyConfig = None\<rparr> in
   valid_hops ''203.0.113.9, 127.0.0.1'' = [v4_in_v6 [203, 0, 113, 9], v4_in_v6 [127, 0, 0, 1]] \<and>
   \<not> trusts (\<lambda>k. []) st (v4_in_v6 [203, 0, 113, 9])"
  by code_simp

theorem forged_hops_ignored_witness:
  "fst (ClientIP (\<lambda>k. []) \<lparr>RemoteAddr = ''127.0.0.1:9'', XForwardedFor = ''6.6.6.6'' @ '','' @ ''203.0.113.9, 127.0.0.1'', XRealIP = [], URLPath = []\<rparr>
      \<lparr>trustedProxies = [], trustedProxyConfig = None\<rparr>) =
   fst (ClientIP (\<lambda>k. []) \<lparr>RemoteAddr = ''127.0.0.1:9'', XForwardedFor = ''203.0.113.9, 127.0.0.1'', XRealIP = [], URLPath = []\<rparr>
      \<lparr>trustedProxies = [], trustedProxyConfig = None\<rparr>)"
  by (rule forged_hops_ignored [where genuine = "''203.0.113.9, 127.0.0.1''" and forged = "''6.6.6.6''"])
    (use demo_proxy in \<open>simp_all add: Let_def\<close>)

text \<open>
  A malformed entry in the proxy list never widens the trust boundary: the list in force is then
  loopback only. Otherwise it is exactly the configured networks, in order. Once resolved, the list is
  not read from the environment again.
\<close>

theorem trusted_proxies_fail_closed:
  assumes "trustedProxyConfig st = None"
  shows "(case ParseTrustedProxies (env_String getenv TrustedProxiesEnv DefaultTrustedProxies) of
       Inl e \<Rightarrow> Inr (fst (resolveTrustedProxies getenv st)) = ParseTrustedProxies DefaultTrustedProxies
     | Inr ns \<Rightarrow> fst (resolveTrustedProxies getenv st) = ns) \<and>
    resolveTrustedProxies getenv' (snd (resolveTrustedProxies getenv st)) = resolveTrustedProxies getenv st"
proof -
  have "\<exists>ns. ParseTrustedProxies DefaultTrustedProxies = Inr ns"
    by (simp add: loopback_list)
  moreover have "resolveTrustedProxies getenv' (snd (resolveTrustedProxies getenv st)) = resolveTrustedProxies getenv st"
    using resolve_cases [of getenv st] by (metis snd_conv)
  ultimately show ?thesis
    using assms
    by (auto simp: resolveTrustedProxies_def configureTrustedProxies_def Let_def split: sum.splits)
qed

theorem trusted_proxies_fail_closed_witness:
  "resolveTrustedProxies (\<lambda>k. ''10.0.0.0/8'')
     (snd (resolveTrustedProxies (\<lambda>k. ''10.0.0.0/33'') \<lparr>trustedProxies = [], trustedProxyConfig = None\<rparr>)) =
   resolveTrustedProxies (\<lambda>k. ''10.0.0.0/33'') \<lparr>trustedProxies = [], trustedProxyConfig = None\<rparr>"
  using trusted_proxies_fail_closed [of "\<lparr>trustedProxies = [], trustedProxyConfig = None\<rparr>" "\<lambda>k. ''10.0.0.0/33''"
      "\<lambda>k. ''10.0.0.0/8''"] by simp

lemma ClientIP_keeps_trust: "same_trust getenv st (snd (ClientIP getenv r st))"
proof -
  obtain t st1 where t: "isTrustedProxy getenv (peer_host r) st = (t, st1)" by fastforce
  then have s1: "same_trust getenv st st1"
    using isTrustedProxy_effect(2) [where getenv = getenv and s = "peer_host r" and st = st] by simp
  let ?x = "if XForwardedFor r = [] then ([], st1) else clientIPFromXForwardedFor getenv (XForwardedFor r) st1"
  have s2: "same_trust getenv st1 (snd ?x)"
    using rightmost_untrusted_effect [of getenv "rev (valid_hops (XForwardedFor r))" st1]
    by (simp add: clientIPFromXForwardedFor_def same_trust_refl)
  have "snd (ClientIP getenv r st) = st1 \<or> snd (ClientIP getenv r st) = snd ?x"
    unfolding ClientIP_def Let_def t by (simp add: split_beta split: option.splits)
  then show ?thesis using s1 same_trust_trans [OF s1 s2] by auto
qed

lemma trusts_after: "trusts getenv (snd (ClientIP getenv r st)) = trusts getenv st"
  by (rule ext) (rule trusts_same [OF ClientIP_keeps_trust])

text \<open>The unfolding of one request that meets a limiter.\<close>

lemma Wrap_limited:
  assumes "limiterFor tm (URLPath r) = Some i"
  shows "Wrap getenv tm now r st =
    (let ip = fst (ClientIP getenv r (proxies st)); a = Allow now ip (limiters st i);
         st' = st\<lparr>proxies := snd (ClientIP getenv r (proxies st)), limiters := (limiters st)(i := snd a)\<rparr>
     in (if fst a then ServeNext else TooManyRequests (retry_secs (SecondsUntilNextToken (snd a) ip)), st'))"
  using assms by (simp add: Wrap_def Let_def split_beta)

text \<open>
  A request touches only the limiter of the first tier whose prefix its path has. A rejected request is
  told a number of whole seconds, at least one, after which the same request is served, and no
  smaller positive number of whole seconds would do.
\<close>

theorem Wrap_retry_after_exact:
  assumes "limiterFor tm (URLPath r) = Some i" and "limiter_ok now (limiters st i)"
    and "Wrap getenv tm now r st = (TooManyRequests secs, st')"
  shows "1 \<le> secs \<and> (\<forall>j. j \<noteq> i \<longrightarrow> limiters st' j = limiters st j) \<and>
    (\<forall>later. now + secs * 1000000000 \<le> later \<longrightarrow> fst (Wrap getenv tm later r st') = ServeNext) \<and>
    (\<forall>n. 1 \<le> n \<and> n < secs \<longrightarrow> fst (Wrap getenv tm (now + n * 1000000000) r st') \<noteq> ServeNext)"
proof -
  define ip where "ip = fst (ClientIP getenv r (proxies st))"
  define l where "l = limiters st i"
  have w: "\<not> fst (Allow now ip l)" "secs = retry_secs (SecondsUntilNextToken (snd (Allow now ip l)) ip)"
    "st' = st\<lparr>proxies := snd (ClientIP getenv r (proxies st)), limiters := (limiters st)(i := snd (Allow now ip l))\<rparr>"
    using assms(3) unfolding Wrap_limited [OF assms(1)] Let_def ip_def l_def by (auto split: if_splits)
  have same_ip: "fst (ClientIP getenv r (proxies st')) = ip"
    unfolding w(3) ip_def using ClientIP_same [OF trusts_after] by simp
  have again: "fst (Wrap getenv tm t r st') = ServeNext \<longleftrightarrow> fst (Allow t ip (snd (Allow now ip l)))" for t
    unfolding Wrap_limited [OF assms(1)] Let_def same_ip by (simp add: w(3))
  have secs: "secs = max 1 (ceiling (SecondsUntilNextToken (snd (Allow now ip l)) ip))"
    unfolding w(2) retry_secs_def Let_def by (simp add: max_def)
  have ok: "limiter_ok now l" using assms(2) by (simp add: l_def)
  have "fst (Wrap getenv tm later r st') = ServeNext" if "now + secs * 1000000000 \<le> later" for later
    using limiter_gate.retry_enough [OF ok w(1)] that unfolding secs again by blast
  moreover have "fst (Wrap getenv tm (now + n * 1000000000) r st') \<noteq> ServeNext" if "1 \<le> n" "n < secs" for n
    using limiter_gate.retry_least [OF ok w(1), of n] that unfolding secs again by (simp add: max_def split: if_splits)
  moreover have "1 \<le> secs" unfolding secs by simp
  ultimately show ?thesis using w(3) by simp
qed

definition demo_tiers :: tiered where
  "demo_tiers = NewTieredMiddleware (Some 0) [\<lparr>PathPrefix = ''/api/auth'', tierLimiter = Some 1\<rparr>]"

definition demo_http :: http_state where
  "demo_http = \<lparr>proxies = \<lparr>trustedProxies = [], trustedProxyConfig = Some []\<rparr>, limiters = (\<lambda>i. demo_limiter)\<rparr>"

definition demo_request :: request where
  "demo_request = \<lparr>RemoteAddr = ''a'', XForwardedFor = [], XRealIP = [], URLPath = ''/api/auth/login''\<rparr>"

lemma demo_rejected:
  "limiterFor demo_tiers (URLPath demo_request) = Some 1 \<and>
   fst (Wrap (\<lambda>k. []) demo_tiers 5 demo_request demo_http) = TooManyRequests 1"
  by code_simp

theorem Wrap_retry_after_exact_witness:
  "\<exists>st'. Wrap (\<lambda>k. []) demo_tiers 5 demo_request demo_http = (TooManyRequests 1, st') \<and>
     fst (Wrap (\<lambda>k. []) demo_tiers 1000000005 demo_request st') = ServeNext"
proof -
  obtain st' where st': "Wrap (\<lambda>k. []) demo_tiers 5 demo_request demo_http = (TooManyRequests 1, st')"
    using demo_rejected by (metis fst_conv surj_pair)
  have "limiter_ok 5 (limiters demo_http 1)"
    using demo_facts clock_ok_mono [of 4 demo_limiter 5] by (simp add: demo_http_def limiter_ok_def)
  from Wrap_retry_after_exact [OF _ this st'] st' show ?thesis using demo_rejected by simp
qed

end
