(* ===== verification/DnsCache.thy ===== *)
theory DnsCache
  imports GoStrings IpAddr "HOL-Library.AList"
begin

text \<open>
  The upstream response cache of \<^verbatim>\<open>internal/dns/resolver/cache.go\<close> and the DoH freshness lifetime of
  \<^verbatim>\<open>internal/dns/doh/cache.go\<close>. Messages carry the header fields and records the code looks at; TTLs are
  32-bit words, time is an integer number of nanoseconds passed in by the caller. The map and the LRU
  list hold the same entries, so they are one association list, most recently used first. The DNS
  message library is a record of functions: \<^verbatim>\<open>Fqdn\<close>, \<^verbatim>\<open>Msg.IsTsig\<close>, \<^verbatim>\<open>Msg.Len\<close>, the two fields of an OPT record that
  live in its TTL, and \<^verbatim>\<open>Msg.SetReply\<close>.
\<close>

section \<open>Messages\<close>

record question =
  q_name :: string
  q_type :: "16 word"
  q_class :: "16 word"

datatype rr_data =
    RR_A ip
  | RR_AAAA ip
  | RR_CNAME string
  | RR_SOA "32 word"
  | RR_OPT "nat list"
  | RR_TSIG
  | RR_Other string

record rr =
  rr_name :: string
  rr_class :: "16 word"
  rr_ttl :: "32 word"
  rr_data :: rr_data

record dns_msg =
  m_id :: "16 word"
  m_response :: bool
  m_truncated :: bool
  m_authoritative :: bool
  m_ra :: bool
  m_rd :: bool
  m_cd :: bool
  m_ad :: bool
  m_opcode :: nat
  m_rcode :: nat
  m_question :: "question list"
  m_answer :: "rr list"
  m_ns :: "rr list"
  m_extra :: "rr list"

record dns_lib =
  fqdn :: "string \<Rightarrow> string"
  is_tsig :: "dns_msg \<Rightarrow> bool"
  msg_len :: "dns_msg \<Rightarrow> int"
  opt_version :: "32 word \<Rightarrow> nat"
  opt_do :: "32 word \<Rightarrow> bool"
  set_reply :: "dns_msg \<Rightarrow> dns_msg"

definition OpcodeQuery :: nat where "OpcodeQuery = 0"
definition RcodeSuccess :: nat where "RcodeSuccess = 0"
definition RcodeNameError :: nat where "RcodeNameError = 3"
definition RcodeRefused :: nat where "RcodeRefused = 5"
definition EDNS0PADDING :: nat where "EDNS0PADDING = 12"

text \<open>Records whose TTL field is not a lifetime.\<close>

definition is_meta :: "rr \<Rightarrow> bool" where
  "is_meta r = (case rr_data r of RR_OPT _ \<Rightarrow> True | RR_TSIG \<Rightarrow> True | _ \<Rightarrow> False)"

definition all_rrs :: "dns_msg \<Rightarrow> rr list" where
  "all_rrs m = m_answer m @ m_ns m @ m_extra m"

definition map_rrs :: "(rr \<Rightarrow> rr) \<Rightarrow> dns_msg \<Rightarrow> dns_msg" where
  "map_rrs f m = m\<lparr>m_answer := map f (m_answer m), m_ns := map f (m_ns m), m_extra := map f (m_extra m)\<rparr>"

section \<open>State\<close>

record cache_key =
  k_name :: string
  k_qtype :: "16 word"
  k_qclass :: "16 word"
  k_do :: bool
  k_cd :: bool
  k_ad :: bool
  k_rd :: bool
  k_edns :: bool

record cache_entry =
  e_message :: dns_msg
  e_storedAt :: int
  e_ttl :: "32 word"
  e_hits :: nat

record response_cache =
  maxEntries :: int
  maxTTL :: "32 word"
  lru :: "(cache_key \<times> cache_entry) list"
  refreshing :: "cache_key list"

definition DefaultDNSCacheEntries :: int where
  "DefaultDNSCacheEntries = 4096"

definition DNSCacheMaxTTLSeconds :: "32 word" where
  "DNSCacheMaxTTLSeconds = 300"

definition maxDNSCacheMessageSize :: int where
  "maxDNSCacheMessageSize = 8192"

definition DNSCacheStaleWindow :: int where
  "DNSCacheStaleWindow = 3600000000000"

definition DNSCacheStaleTTL :: "32 word" where
  "DNSCacheStaleTTL = 30"

definition refreshAheadMinHits :: nat where
  "refreshAheadMinHits = 3"

definition seconds :: "32 word \<Rightarrow> int" where
  "seconds ttl = uint ttl * 1000000000"

definition newResponseCache :: "int \<Rightarrow> 32 word \<Rightarrow> response_cache option" where
  "newResponseCache maxE maxT =
     (if maxE \<le> 0 then None else Some \<lparr>maxEntries = maxE, maxTTL = maxT, lru = [], refreshing = []\<rparr>)"

definition NewResponseCache :: "int \<Rightarrow> response_cache option" where
  "NewResponseCache maxE = newResponseCache maxE DNSCacheMaxTTLSeconds"

record cache_stats =
  st_enabled :: bool
  st_entries :: nat
  st_maxEntries :: int

definition Stats :: "response_cache option \<Rightarrow> cache_stats" where
  "Stats c =
     (case c of
        Some rc \<Rightarrow>
          if maxEntries rc \<le> 0 then \<lparr>st_enabled = False, st_entries = 0, st_maxEntries = 0\<rparr>
          else \<lparr>st_enabled = True, st_entries = length (lru rc), st_maxEntries = maxEntries rc\<rparr>
      | None \<Rightarrow> \<lparr>st_enabled = False, st_entries = 0, st_maxEntries = 0\<rparr>)"

section \<open>Keys\<close>

text \<open>
  The scan of the additional section: only one OPT record of version zero, with no option but padding,
  keeps a query cacheable. The result is the DO bit and the number of OPT records.
\<close>

fun scan_extra :: "dns_lib \<Rightarrow> rr list \<Rightarrow> nat \<Rightarrow> bool \<Rightarrow> (nat \<times> bool) option" where
  "scan_extra L [] optCount do = Some (optCount, do)"
| "scan_extra L (r # rs) optCount do =
     (case rr_data r of
        RR_OPT options \<Rightarrow>
          if optCount + 1 > 1 \<or> opt_version L (rr_ttl r) \<noteq> 0 then None
          else if list_ex (\<lambda>opt. opt \<noteq> EDNS0PADDING) options then None
          else scan_extra L rs (optCount + 1) (opt_do L (rr_ttl r))
      | _ \<Rightarrow> None)"

definition responseCacheKeyFor :: "dns_lib \<Rightarrow> dns_msg \<Rightarrow> cache_key option" where
  "responseCacheKeyFor L query =
     (if m_response query \<or> m_truncated query \<or> m_opcode query \<noteq> OpcodeQuery \<or> length (m_question query) \<noteq> 1
      then None
      else if is_tsig L query then None
      else
        let q = hd (m_question query) in
        if trim_space (q_name q) = [] then None
        else case scan_extra L (m_extra query) 0 False of
          None \<Rightarrow> None
        | Some (optCount, do) \<Rightarrow>
            Some \<lparr>k_name = to_lower (fqdn L (q_name q)), k_qtype = q_type q, k_qclass = q_class q,
                  k_do = do, k_cd = m_cd query, k_ad = m_ad query, k_rd = m_rd query, k_edns = (optCount = 1)\<rparr>)"

definition Cacheable :: "dns_lib \<Rightarrow> dns_msg \<Rightarrow> response_cache option \<Rightarrow> bool" where
  "Cacheable L query c =
     (case c of
        None \<Rightarrow> False
      | Some rc \<Rightarrow> maxEntries rc > 0 \<and> responseCacheKeyFor L query \<noteq> None)"

section \<open>What may be stored\<close>

definition cacheableResponse :: "dns_lib \<Rightarrow> dns_msg \<Rightarrow> bool" where
  "cacheableResponse L response =
     (if m_truncated response \<or> is_tsig L response \<or> length (m_question response) \<noteq> 1 \<or>
         msg_len L response > maxDNSCacheMessageSize then False
      else if m_rcode response \<noteq> RcodeSuccess \<and> m_rcode response \<noteq> RcodeNameError then False
      else \<not> list_ex (\<lambda>r. case rr_data r of RR_OPT options \<Rightarrow> options \<noteq> [] | _ \<Rightarrow> False) (all_rrs response))"

definition cap_ttl :: "32 word \<Rightarrow> rr \<Rightarrow> rr" where
  "cap_ttl m r = (if \<not> is_meta r \<and> rr_ttl r > m then r\<lparr>rr_ttl := m\<rparr> else r)"

text \<open>The smallest TTL of the ordinary records, \<^const>\<open>None\<close> when there is none.\<close>

fun min_ttl :: "rr list \<Rightarrow> 32 word option \<Rightarrow> 32 word option" where
  "min_ttl [] acc = acc"
| "min_ttl (r # rs) acc =
     (if is_meta r then min_ttl rs acc
      else case acc of
        None \<Rightarrow> min_ttl rs (Some (rr_ttl r))
      | Some t \<Rightarrow> min_ttl rs (Some (if rr_ttl r < t then rr_ttl r else t)))"

fun soa_cap :: "rr list \<Rightarrow> 32 word \<Rightarrow> 32 word" where
  "soa_cap [] t = t"
| "soa_cap (r # rs) t =
     (case rr_data r of
        RR_SOA m \<Rightarrow> soa_cap rs (if m < t then m else t)
      | _ \<Rightarrow> soa_cap rs t)"

definition clampResponseTTLs :: "dns_msg \<Rightarrow> 32 word \<Rightarrow> 32 word \<times> dns_msg" where
  "clampResponseTTLs m0 maxT =
     (let m1 = (if maxT > 0 then map_rrs (cap_ttl maxT) m0 else m0) in
      case min_ttl (all_rrs m1) None of
        None \<Rightarrow> (0, m1)
      | Some t \<Rightarrow>
          let ttl = (if m_rcode m1 = RcodeNameError \<or> m_answer m1 = [] then soa_cap (m_ns m1) t else t)
          in (ttl, map_rrs (cap_ttl ttl) m1))"

definition ageRecordTTL :: "32 word \<Rightarrow> rr \<Rightarrow> rr" where
  "ageRecordTTL age r =
     (if is_meta r then r
      else r\<lparr>rr_ttl := (if age \<ge> rr_ttl r then 0 else rr_ttl r - age)\<rparr>)"

section \<open>Operations\<close>

definition set_question_name :: "string \<Rightarrow> dns_msg \<Rightarrow> dns_msg" where
  "set_question_name n m =
     (case m_question m of [] \<Rightarrow> m | q # qs \<Rightarrow> m\<lparr>m_question := q\<lparr>q_name := n\<rparr> # qs\<rparr>)"

definition question_name :: "dns_msg \<Rightarrow> string" where
  "question_name m = (case m_question m of [] \<Rightarrow> [] | q # _ \<Rightarrow> q_name q)"

definition restore_name :: "string \<Rightarrow> string \<Rightarrow> rr \<Rightarrow> rr" where
  "restore_name cached asked r = (if equal_fold (rr_name r) cached then r\<lparr>rr_name := asked\<rparr> else r)"

definition hit_response :: "dns_msg \<Rightarrow> cache_entry \<Rightarrow> int \<Rightarrow> dns_msg" where
  "hit_response query e age =
     map_rrs (\<lambda>r. ageRecordTTL (word_of_int (age div 1000000000))
                    (restore_name (question_name (e_message e)) (question_name query) r))
       (set_question_name (question_name query) ((e_message e)\<lparr>m_id := m_id query\<rparr>))"

definition entry_age :: "int \<Rightarrow> cache_entry \<Rightarrow> int" where
  "entry_age now e = (let age = now - e_storedAt e in if age < 0 then 0 else age)"

definition Get :: "dns_lib \<Rightarrow> int \<Rightarrow> dns_msg \<Rightarrow> response_cache option \<Rightarrow> dns_msg option \<times> response_cache option" where
  "Get L now query c =
     (case c of
        None \<Rightarrow> (None, c)
      | Some rc \<Rightarrow>
          if maxEntries rc \<le> 0 then (None, c)
          else case responseCacheKeyFor L query of
            None \<Rightarrow> (None, c)
          | Some key \<Rightarrow>
              case map_of (lru rc) key of
                None \<Rightarrow> (None, c)
              | Some e \<Rightarrow>
                  if entry_age now e \<ge> seconds (e_ttl e)
                  then (None, Some (rc\<lparr>lru := AList.delete key (lru rc)\<rparr>))
                  else (Some (hit_response query e (entry_age now e)),
                        Some (rc\<lparr>lru := (key, e\<lparr>e_hits := e_hits e + 1\<rparr>) # AList.delete key (lru rc)\<rparr>)))"

definition Put :: "dns_lib \<Rightarrow> int \<Rightarrow> dns_msg \<Rightarrow> dns_msg \<Rightarrow> response_cache option \<Rightarrow> bool \<times> bool \<times> response_cache option" where
  "Put L now query response c =
     (case c of
        None \<Rightarrow> (False, False, c)
      | Some rc \<Rightarrow>
          if maxEntries rc \<le> 0 then (False, False, c)
          else case responseCacheKeyFor L query of
            None \<Rightarrow> (False, False, c)
          | Some key \<Rightarrow>
              if \<not> cacheableResponse L response then (False, False, c)
              else
                let (ttl, message) = clampResponseTTLs response (maxTTL rc) in
                if ttl = 0 then (False, False, c)
                else case map_of (lru rc) key of
                  Some e \<Rightarrow>
                    (True, False, Some (rc\<lparr>lru := (key, e\<lparr>e_message := message, e_storedAt := now, e_ttl := ttl\<rparr>)
                                                   # AList.delete key (lru rc)\<rparr>))
                | None \<Rightarrow>
                    let l1 = (key, \<lparr>e_message = message, e_storedAt = now, e_ttl = ttl, e_hits = 0\<rparr>) # lru rc in
                    if int (length l1) > maxEntries rc then (True, True, Some (rc\<lparr>lru := butlast l1\<rparr>))
                    else (True, False, Some (rc\<lparr>lru := l1\<rparr>)))"

definition GetStale :: "dns_lib \<Rightarrow> int \<Rightarrow> dns_msg \<Rightarrow> response_cache option \<Rightarrow> dns_msg option" where
  "GetStale L now query c =
     (case c of
        None \<Rightarrow> None
      | Some rc \<Rightarrow>
          if maxEntries rc \<le> 0 then None
          else case responseCacheKeyFor L query of
            None \<Rightarrow> None
          | Some key \<Rightarrow>
              case map_of (lru rc) key of
                None \<Rightarrow> None
              | Some e \<Rightarrow>
                  if entry_age now e < seconds (e_ttl e) \<or> entry_age now e > seconds (e_ttl e) + DNSCacheStaleWindow
                  then None
                  else Some (map_rrs (\<lambda>r. r\<lparr>rr_ttl := DNSCacheStaleTTL\<rparr>)
                         (set_question_name (question_name query) ((e_message e)\<lparr>m_id := m_id query\<rparr>))))"

definition ShouldRefresh :: "dns_lib \<Rightarrow> int \<Rightarrow> dns_msg \<Rightarrow> response_cache option \<Rightarrow> bool" where
  "ShouldRefresh L now query c =
     (case c of
        None \<Rightarrow> False
      | Some rc \<Rightarrow>
          if maxEntries rc \<le> 0 then False
          else case responseCacheKeyFor L query of
            None \<Rightarrow> False
          | Some key \<Rightarrow>
              case map_of (lru rc) key of
                None \<Rightarrow> False
              | Some e \<Rightarrow>
                  e_hits e \<ge> refreshAheadMinHits \<and> now - e_storedAt e \<ge> 0 \<and>
                  now - e_storedAt e \<ge> uint (e_ttl e) div 2 * 1000000000)"

definition BeginRefresh :: "dns_lib \<Rightarrow> dns_msg \<Rightarrow> response_cache option \<Rightarrow> bool \<times> response_cache option" where
  "BeginRefresh L query c =
     (case c of
        None \<Rightarrow> (False, c)
      | Some rc \<Rightarrow>
          case responseCacheKeyFor L query of
            None \<Rightarrow> (False, c)
          | Some key \<Rightarrow>
              if key \<in> set (refreshing rc) then (False, c)
              else (True, Some (rc\<lparr>refreshing := key # refreshing rc\<rparr>)))"

definition EndRefresh :: "dns_lib \<Rightarrow> dns_msg \<Rightarrow> response_cache option \<Rightarrow> response_cache option" where
  "EndRefresh L query c =
     (case c of
        None \<Rightarrow> c
      | Some rc \<Rightarrow>
          case responseCacheKeyFor L query of
            None \<Rightarrow> c
          | Some key \<Rightarrow> Some (rc\<lparr>refreshing := removeAll key (refreshing rc)\<rparr>))"

section \<open>DoH freshness\<close>

definition minUint32 :: "32 word \<Rightarrow> 32 word \<Rightarrow> 32 word" where
  "minUint32 a b = (if b < a then b else a)"

fun answer_freshness :: "rr list \<Rightarrow> 32 word option \<Rightarrow> 32 word" where
  "answer_freshness [] acc = (case acc of None \<Rightarrow> 0 | Some f \<Rightarrow> f)"
| "answer_freshness (r # rs) acc =
     answer_freshness rs (Some (case acc of None \<Rightarrow> rr_ttl r | Some f \<Rightarrow> if rr_ttl r < f then rr_ttl r else f))"

fun soa_freshness :: "rr list \<Rightarrow> 32 word" where
  "soa_freshness [] = 0"
| "soa_freshness (r # rs) =
     (case rr_data r of RR_SOA m \<Rightarrow> minUint32 (rr_ttl r) m | _ \<Rightarrow> soa_freshness rs)"

definition CacheFreshnessLifetime :: "dns_msg \<Rightarrow> 32 word" where
  "CacheFreshnessLifetime response =
     (if m_answer response \<noteq> [] then answer_freshness (m_answer response) None
      else soa_freshness (m_ns response))"

end
