(* ===== verification/DnsCacheProps.thy ===== *)
theory DnsCacheProps
  imports DnsCache
begin

text \<open>
  Laws of the response cache: lifetimes only shrink on the way in and on the way out, the bound and the
  matching of entries to keys survive every operation, a stored answer is found again until it
  expires, and an entry that a lookup has found expired is gone.
\<close>

section \<open>Time-to-live arithmetic\<close>

lemma map_rrs_simps [simp, cache_simps]:
  "all_rrs (map_rrs f m) = map f (all_rrs m)" "m_answer (map_rrs f m) = map f (m_answer m)"
  "m_ns (map_rrs f m) = map f (m_ns m)" "m_question (map_rrs f m) = m_question m" "m_id (map_rrs f m) = m_id m"
  "m_response (map_rrs f m) = m_response m" "m_opcode (map_rrs f m) = m_opcode m" "m_rcode (map_rrs f m) = m_rcode m"
  by (simp_all add: map_rrs_def all_rrs_def)

lemma is_meta_update [simp]: "is_meta (r\<lparr>rr_ttl := t\<rparr>) = is_meta r" "is_meta (r\<lparr>rr_name := n\<rparr>) = is_meta r"
  by (simp_all add: is_meta_def)

lemma cap_ttl_simps [simp]:
  "is_meta (cap_ttl t r) = is_meta r" "\<not> is_meta r \<Longrightarrow> rr_ttl (cap_ttl t r) \<le> t"
  "rr_ttl (cap_ttl t r) \<le> rr_ttl r" "rr_data (cap_ttl t r) = rr_data r"
  by (auto simp: cap_ttl_def)

lemma min_ttl_le:
  assumes "min_ttl rs acc = Some t"
  shows "(\<forall>a. acc = Some a \<longrightarrow> t \<le> a) \<and> (\<forall>r\<in>set rs. \<not> is_meta r \<longrightarrow> t \<le> rr_ttl r)"
  using assms by (induction rs acc rule: min_ttl.induct) (force split: option.splits if_splits)+

lemma min_ttl_attained:
  assumes "min_ttl rs acc = Some t"
  shows "acc = Some t \<or> (\<exists>r\<in>set rs. \<not> is_meta r \<and> rr_ttl r = t)"
  using assms by (induction rs acc rule: min_ttl.induct) (force split: option.splits if_splits)+

lemma soa_cap_le: "soa_cap rs t \<le> t"
  by (induction rs t rule: soa_cap.induct) (auto split: rr_data.splits intro: order_trans less_imp_le)

lemma soa_cap_soa: "r \<in> set rs \<Longrightarrow> rr_data r = RR_SOA m \<Longrightarrow> soa_cap rs t \<le> m"
proof (induction rs t rule: soa_cap.induct)
  case (2 r' rs t)
  then show ?case
    using soa_cap_le [of rs "if m < t then m else t"]
    by (auto split: rr_data.splits intro: order_trans)
qed simp

text \<open>
  The lifetime of a message and its records after clamping: no ordinary record outlives the message,
  and the message outlives neither the cap, nor any of the original records, nor, when it is a
  negative answer, the SOA minimum.
\<close>

lemma clamp_cases:
  assumes "clampResponseTTLs m maxT = (ttl, m')" and "ttl \<noteq> 0"
  obtains m1 t where "m1 = (if maxT > 0 then map_rrs (cap_ttl maxT) m else m)" "min_ttl (all_rrs m1) None = Some t"
    "ttl = (if m_rcode m1 = RcodeNameError \<or> m_answer m1 = [] then soa_cap (m_ns m1) t else t)"
    "m' = map_rrs (cap_ttl ttl) m1"
  using assms that unfolding clampResponseTTLs_def Let_def by (auto split: option.splits)

lemma clamp_effect:
  assumes "clampResponseTTLs m maxT = (ttl, m')" and "ttl \<noteq> 0"
  shows "\<forall>r\<in>set (all_rrs m'). \<not> is_meta r \<longrightarrow> rr_ttl r \<le> ttl"
    and "\<forall>r\<in>set (all_rrs m). \<not> is_meta r \<longrightarrow> ttl \<le> rr_ttl r"
    and "maxT > 0 \<Longrightarrow> ttl \<le> maxT"
    and "m_rcode m = RcodeNameError \<or> m_answer m = [] \<Longrightarrow> r \<in> set (m_ns m) \<Longrightarrow> rr_data r = RR_SOA s \<Longrightarrow> ttl \<le> s"
    and "m_question m' = m_question m \<and> m_response m' = m_response m \<and> m_opcode m' = m_opcode m"
proof -
  obtain m1 t where m1: "m1 = (if maxT > 0 then map_rrs (cap_ttl maxT) m else m)"
    and t: "min_ttl (all_rrs m1) None = Some t"
    and ttl: "ttl = (if m_rcode m1 = RcodeNameError \<or> m_answer m1 = [] then soa_cap (m_ns m1) t else t)"
    and m': "m' = map_rrs (cap_ttl ttl) m1"
    using assms by (rule clamp_cases)
  have le: "ttl \<le> t" using ttl soa_cap_le by auto
  have low: "t \<le> rr_ttl r" if "r \<in> set (all_rrs m1)" "\<not> is_meta r" for r
    using min_ttl_le [OF t] that by blast
  show "\<forall>r\<in>set (all_rrs m'). \<not> is_meta r \<longrightarrow> rr_ttl r \<le> ttl" using m' by auto
  have down: "\<exists>r1\<in>set (all_rrs m1). \<not> is_meta r1 \<and> rr_ttl r1 \<le> rr_ttl r"
    if "r \<in> set (all_rrs m)" "\<not> is_meta r" for r
    using that m1 by (auto intro: bexI [of _ "cap_ttl maxT r"])
  show "\<forall>r\<in>set (all_rrs m). \<not> is_meta r \<longrightarrow> ttl \<le> rr_ttl r"
    using down low le by (meson order_trans)
  obtain r1 where r1: "r1 \<in> set (all_rrs m1)" "\<not> is_meta r1" "rr_ttl r1 = t"
    using min_ttl_attained [OF t] by auto
  show "ttl \<le> maxT" if "maxT > 0"
  proof -
    have "rr_ttl r1 \<le> maxT" using r1(1,2) m1 that by auto
    then show ?thesis using r1(3) le by simp
  qed
  show "ttl \<le> s" if neg: "m_rcode m = RcodeNameError \<or> m_answer m = []" and r: "r \<in> set (m_ns m)" "rr_data r = RR_SOA s"
  proof -
    have "\<exists>r1\<in>set (m_ns m1). rr_data r1 = RR_SOA s" using r m1 by (auto intro: bexI [of _ "cap_ttl maxT r"])
    moreover have "m_rcode m1 = RcodeNameError \<or> m_answer m1 = []" using neg m1 by auto
    ultimately show ?thesis using ttl soa_cap_soa by auto
  qed
  show "m_question m' = m_question m \<and> m_response m' = m_response m \<and> m_opcode m' = m_opcode m"
    using m' m1 by auto
qed

lemma clamp_as_map:
  assumes "clampResponseTTLs m maxT = (ttl, m')" and "ttl \<noteq> 0"
  shows "\<exists>f. all_rrs m' = map f (all_rrs m) \<and> (\<forall>r. rr_data (f r) = rr_data r) \<and>
    (\<forall>r. is_meta (f r) = is_meta r) \<and> (\<forall>r. rr_ttl (f r) \<le> rr_ttl r)"
proof -
  obtain m1 where "m1 = (if maxT > 0 then map_rrs (cap_ttl maxT) m else m)" "m' = map_rrs (cap_ttl ttl) m1"
    using assms by (rule clamp_cases)
  then have "all_rrs m' = map (\<lambda>r. cap_ttl ttl (if maxT > 0 then cap_ttl maxT r else r)) (all_rrs m)" by auto
  moreover have "rr_ttl (cap_ttl ttl (if maxT > 0 then cap_ttl maxT r else r)) \<le> rr_ttl r" for r
    by (simp add: order_trans [OF cap_ttl_simps(3) cap_ttl_simps(3)])
  ultimately show ?thesis
    by (intro exI [of _ "\<lambda>r. cap_ttl ttl (if maxT > 0 then cap_ttl maxT r else r)"]) simp
qed

section \<open>The invariant\<close>

definition entry_ok :: "response_cache \<Rightarrow> cache_key \<Rightarrow> cache_entry \<Rightarrow> bool" where
  "entry_ok rc key e \<longleftrightarrow>
     e_ttl e \<noteq> 0 \<and> (maxTTL rc > 0 \<longrightarrow> e_ttl e \<le> maxTTL rc) \<and>
     (\<forall>r\<in>set (all_rrs (e_message e)). \<not> is_meta r \<longrightarrow> rr_ttl r \<le> e_ttl e) \<and>
     m_response (e_message e) \<and> m_opcode (e_message e) = OpcodeQuery \<and>
     (\<exists>q. m_question (e_message e) = [q] \<and> q_type q = k_qtype key \<and> q_class q = k_qclass key)"

definition cache_inv :: "response_cache \<Rightarrow> bool" where
  "cache_inv rc \<longleftrightarrow>
     0 < maxEntries rc \<and> int (length (lru rc)) \<le> maxEntries rc \<and> distinct (map fst (lru rc)) \<and>
     distinct (refreshing rc) \<and> (\<forall>(key, e)\<in>set (lru rc). entry_ok rc key e)"

definition cache_ok :: "response_cache option \<Rightarrow> bool" where
  "cache_ok c \<longleftrightarrow> (\<forall>rc. c = Some rc \<longrightarrow> cache_inv rc)"

lemma delete_filter: "AList.delete key l = filter (\<lambda>p. fst p \<noteq> key) l"
  by (induction l) auto

lemma delete_lru:
  assumes "distinct (map fst l)" and "map_of l key = Some e"
  shows "Suc (length (AList.delete key l)) = length l" and "key \<notin> fst ` set (AList.delete key l)"
    and "distinct (map fst (AList.delete key l))" and "set (AList.delete key l) \<subseteq> set l"
proof -
  have "length (filter (\<lambda>p. fst p = key) l) = 1"
    using assms by (induction l) (auto simp: filter_empty_conv image_iff split: if_splits intro: rev_image_eqI)
  then show "Suc (length (AList.delete key l)) = length l"
    using sum_length_filter_compl [of "\<lambda>p. fst p = key" l] by (simp add: delete_filter)
  show "key \<notin> fst ` set (AList.delete key l)" by (auto simp: AList.delete_eq)
  show "distinct (map fst (AList.delete key l))" using assms(1) by (rule distinct_delete)
  show "set (AList.delete key l) \<subseteq> set l" by (auto simp: AList.delete_eq)
qed

lemma cache_inv_entry: "cache_inv rc \<Longrightarrow> map_of (lru rc) key = Some e \<Longrightarrow> entry_ok rc key e"
  by (auto simp: cache_inv_def dest: map_of_SomeD)

lemma entry_ok_frame [simp]:
  "entry_ok (rc\<lparr>lru := l\<rparr>) key e = entry_ok rc key e" "entry_ok (rc\<lparr>refreshing := l'\<rparr>) key e = entry_ok rc key e"
  by (simp_all add: entry_ok_def)

lemma entry_ok_hits [simp]: "entry_ok rc key (e\<lparr>e_hits := n\<rparr>) = entry_ok rc key e"
  by (simp add: entry_ok_def)

text \<open>Replacing an entry at the front of the list, and adding one.\<close>

lemma cache_inv_refront:
  assumes inv: "cache_inv rc" and old: "map_of (lru rc) key = Some e0" and new: "entry_ok rc key e"
  shows "cache_inv (rc\<lparr>lru := (key, e) # AList.delete key (lru rc)\<rparr>)"
proof -
  have "distinct (map fst (lru rc))" using inv by (simp add: cache_inv_def)
  note d = delete_lru [OF this old]
  show ?thesis
    using inv new d(1-3) d(4) [THEN subsetD] unfolding cache_inv_def by (auto simp: split_beta)
qed

lemma cache_inv_delete:
  assumes inv: "cache_inv rc"
  shows "cache_inv (rc\<lparr>lru := AList.delete key (lru rc)\<rparr>)"
proof -
  have "int (length (filter (\<lambda>p. fst p \<noteq> key) (lru rc))) \<le> int (length (lru rc))" by simp
  then have "int (length (filter (\<lambda>p. fst p \<noteq> key) (lru rc))) \<le> maxEntries rc"
    using inv unfolding cache_inv_def by linarith
  then show ?thesis
    using inv unfolding cache_inv_def by (auto simp: delete_filter distinct_map_filter)
qed

lemma cache_inv_push:
  assumes inv: "cache_inv rc" and new: "map_of (lru rc) key = None" and e: "entry_ok rc key e"
  shows "cache_inv (rc\<lparr>lru := (if int (Suc (length (lru rc))) > maxEntries rc then butlast ((key, e) # lru rc)
                                else (key, e) # lru rc)\<rparr>)"
proof -
  let ?l = "(key, e) # lru rc"
  have d: "distinct (map fst ?l)" using inv new by (simp add: cache_inv_def map_of_eq_None_iff)
  have ok: "\<forall>(k, e)\<in>set ?l. entry_ok rc k e" using inv e by (simp add: cache_inv_def)
  have "distinct (map fst (butlast ?l))" using d by (simp add: map_butlast distinct_butlast del: map_append butlast.simps)
  moreover have "\<forall>(k, e)\<in>set (butlast ?l). entry_ok rc k e" using ok by (meson in_set_butlastD)
  moreover have "int (length (butlast ?l)) \<le> maxEntries rc" using inv by (simp add: cache_inv_def del: butlast.simps)
  ultimately show ?thesis
    using inv d ok unfolding cache_inv_def by (auto simp del: butlast.simps)
qed

lemma Get_inv: "cache_ok c \<Longrightarrow> cache_ok (snd (Get L now query c))"
  by (auto simp: Get_def cache_ok_def cache_inv_entry intro: cache_inv_refront cache_inv_delete
      split: option.splits)

text \<open>A reply that answers the query that is being cached.\<close>

definition replies_to :: "dns_msg \<Rightarrow> dns_msg \<Rightarrow> bool" where
  "replies_to query response \<longleftrightarrow>
     m_response response \<and> m_opcode response = OpcodeQuery \<and>
     (\<exists>q p. m_question query = [q] \<and> m_question response = [p] \<and> q_type p = q_type q \<and> q_class p = q_class q)"

lemma responseCacheKeyFor_fields:
  assumes "responseCacheKeyFor L query = Some key"
  shows "\<exists>q. m_question query = [q] \<and> q_type q = k_qtype key \<and> q_class q = k_qclass key \<and>
    k_name key = to_lower (fqdn L (q_name q)) \<and> m_opcode query = OpcodeQuery"
proof -
  have "length (m_question query) = 1" using assms by (simp add: responseCacheKeyFor_def split: if_splits)
  then obtain q where "m_question query = [q]" by (auto simp: length_Suc_conv)
  then show ?thesis
    using assms by (auto simp: responseCacheKeyFor_def Let_def split: if_splits option.splits)
qed

lemma clamped_entry_ok:
  assumes "clampResponseTTLs response (maxTTL rc) = (ttl, m)" and "ttl \<noteq> 0" and "replies_to query response"
    and "responseCacheKeyFor L query = Some key" and "e_message e = m" and "e_ttl e = ttl"
  shows "entry_ok rc key e"
  using clamp_effect(1,3,5) [OF assms(1,2)] assms(3,5,6) responseCacheKeyFor_fields [OF assms(4)] assms(2)
  by (auto simp: entry_ok_def replies_to_def)

lemma Put_inv:
  assumes "cache_ok c" and "replies_to query response"
  shows "cache_ok (snd (snd (Put L now query response c)))"
proof (cases c)
  case None
  then show ?thesis by (simp add: Put_def cache_ok_def)
next
  case (Some rc)
  then have inv: "cache_inv rc" using assms(1) by (simp add: cache_ok_def)
  obtain ttl m where cl: "clampResponseTTLs response (maxTTL rc) = (ttl, m)" by fastforce
  show ?thesis
  proof (cases "responseCacheKeyFor L query = None \<or> \<not> cacheableResponse L response \<or> ttl = 0 \<or> maxEntries rc \<le> 0")
    case True
    then show ?thesis using assms(1) Some cl by (auto simp: Put_def split: option.splits)
  next
    case False
    then obtain key where key: "responseCacheKeyFor L query = Some key" by auto
    note ok = clamped_entry_ok [OF cl _ assms(2) key]
    show ?thesis
    proof (cases "map_of (lru rc) key")
      case None
      let ?e = "\<lparr>e_message = m, e_storedAt = now, e_ttl = ttl, e_hits = 0\<rparr>"
      have "entry_ok rc key ?e" using False by (intro ok) simp_all
      from cache_inv_push [OF inv None this] show ?thesis
        using Some False key cl None by (auto simp: Put_def Let_def cache_ok_def split: if_splits)
    next
      case (Some e)
      have "entry_ok rc key (e\<lparr>e_message := m, e_storedAt := now, e_ttl := ttl\<rparr>)" using False by (intro ok) simp_all
      from cache_inv_refront [OF inv Some this] show ?thesis
        using \<open>c = Some rc\<close> False key cl Some by (auto simp: Put_def Let_def cache_ok_def)
    qed
  qed
qed

lemma refresh_inv:
  "cache_ok c \<Longrightarrow> cache_ok (snd (BeginRefresh L query c))" "cache_ok c \<Longrightarrow> cache_ok (EndRefresh L query c)"
  by (auto simp: BeginRefresh_def EndRefresh_def cache_ok_def cache_inv_def distinct_removeAll
      split: option.splits)

section \<open>Hits and misses\<close>

lemma Get_hitD:
  assumes "Get L now query (Some rc) = (Some r, c')"
  obtains key e where "responseCacheKeyFor L query = Some key" "map_of (lru rc) key = Some e"
    "entry_age now e < seconds (e_ttl e)" "r = hit_response query e (entry_age now e)"
  using assms that by (auto simp: Get_def split: option.splits if_splits)

lemma Get_hit:
  assumes "0 < maxEntries rc" "responseCacheKeyFor L query = Some key" "map_of (lru rc) key = Some e"
    and "entry_age now e < seconds (e_ttl e)"
  shows "fst (Get L now query (Some rc)) = Some (hit_response query e (entry_age now e))"
  using assms by (simp add: Get_def)

lemma entry_age_nonneg [simp]: "0 \<le> entry_age now e"
  by (simp add: entry_age_def Let_def)

lemma seconds_bounds: "0 \<le> seconds t" "seconds t < 2 ^ 32 * 1000000000"
proof -
  have "uint t < 2 ^ 32" using uint_bounded [of t] by simp
  then show "seconds t < 2 ^ 32 * 1000000000" unfolding seconds_def by linarith
  show "0 \<le> seconds t" by (simp add: seconds_def)
qed

text \<open>The whole seconds of an unexpired age fit the word they are kept in.\<close>

lemma age_word:
  assumes "0 \<le> age" and "age < seconds t"
  shows "uint (word_of_int (age div 1000000000) :: 32 word) = age div 1000000000" and "age div 1000000000 < uint t"
proof -
  show lt: "age div 1000000000 < uint t" using assms by (simp add: seconds_def)
  moreover have "uint t < 2 ^ 32" using uint_bounded [of t] by simp
  moreover have "0 \<le> age div 1000000000" using assms(1) by simp
  ultimately show "uint (word_of_int (age div 1000000000) :: 32 word) = age div 1000000000"
    by (simp add: uint_word_of_int)
qed

lemma aged_ttl:
  assumes "\<not> is_meta r" and "0 \<le> age" and "age < seconds t" and "rr_ttl r \<le> t"
  shows "uint (rr_ttl (ageRecordTTL (word_of_int (age div 1000000000)) r)) \<le> uint t - age div 1000000000"
    and "rr_ttl (ageRecordTTL (word_of_int (age div 1000000000)) r) \<le> rr_ttl r"
proof -
  let ?a = "word_of_int (age div 1000000000) :: 32 word"
  note w = age_word [OF assms(2,3)]
  have le: "uint (rr_ttl r) \<le> uint t" using assms(4) by (simp add: word_le_def)
  show "uint (rr_ttl (ageRecordTTL ?a r)) \<le> uint t - age div 1000000000"
    using assms(1) w le uint_sub_lem [of ?a "rr_ttl r"]
    by (auto simp: ageRecordTTL_def word_le_def not_le)
  show "rr_ttl (ageRecordTTL ?a r) \<le> rr_ttl r"
    using assms(1) by (auto simp: ageRecordTTL_def not_le word_sub_le)
qed

lemma restore_name_simps [simp]:
  "is_meta (restore_name a b r) = is_meta r" "rr_ttl (restore_name a b r) = rr_ttl r"
  "rr_data (restore_name a b r) = rr_data r"
  by (simp_all add: restore_name_def is_meta_def)

lemma ageRecordTTL_simps [simp]:
  "is_meta (ageRecordTTL a r) = is_meta r" "rr_data (ageRecordTTL a r) = rr_data r" "rr_name (ageRecordTTL a r) = rr_name r"
  by (simp_all add: ageRecordTTL_def)

lemma set_question_name_simps [simp]:
  "all_rrs (set_question_name n m) = all_rrs m" "m_answer (set_question_name n m) = m_answer m"
  "m_ns (set_question_name n m) = m_ns m" "m_id (set_question_name n m) = m_id m"
  "m_response (set_question_name n m) = m_response m" "m_opcode (set_question_name n m) = m_opcode m"
  by (simp_all add: set_question_name_def all_rrs_def split: list.split)

lemma all_rrs_id [simp]: "all_rrs (m\<lparr>m_id := i\<rparr>) = all_rrs m"
  by (simp add: all_rrs_def)

lemma hit_ttl:
  assumes ok: "entry_ok rc key e" and age: "0 \<le> age" "age < seconds (e_ttl e)"
    and r: "r \<in> set (all_rrs (hit_response query e age))" "\<not> is_meta r"
  shows "uint (rr_ttl r) \<le> uint (e_ttl e) - age div 1000000000"
proof -
  let ?n = "restore_name (question_name (e_message e)) (question_name query)"
  obtain r0 where r0: "r0 \<in> set (all_rrs (e_message e))" "r = ageRecordTTL (word_of_int (age div 1000000000)) (?n r0)"
    using r(1) by (auto simp: hit_response_def)
  have meta: "\<not> is_meta (?n r0)" using r(2) r0(2) by simp
  then have "rr_ttl (?n r0) \<le> e_ttl e" using ok r0(1) by (simp add: entry_ok_def)
  from aged_ttl(1) [OF meta age this] show ?thesis using r0(2) by simp
qed

lemma answer_freshness_le:
  "(\<forall>a. acc = Some a \<longrightarrow> answer_freshness rs acc \<le> a) \<and> (\<forall>r\<in>set rs. answer_freshness rs acc \<le> rr_ttl r)"
proof (induction rs acc rule: answer_freshness.induct)
  case (1 acc)
  then show ?case by simp
next
  case (2 r rs acc)
  let ?a = "case acc of None \<Rightarrow> rr_ttl r | Some f \<Rightarrow> if rr_ttl r < f then rr_ttl r else f"
  have "?a \<le> rr_ttl r" "\<And>a. acc = Some a \<Longrightarrow> ?a \<le> a" by (auto split: option.splits)
  with 2 show ?case by (auto intro: order_trans)
qed

lemma soa_freshness_le:
  "soa_freshness rs = 0 \<or> (\<exists>r\<in>set rs. \<not> is_meta r \<and> soa_freshness rs \<le> rr_ttl r)"
  by (induction rs rule: soa_freshness.induct)
    (auto simp: minUint32_def is_meta_def split: rr_data.splits)

lemma freshness_le_some:
  "CacheFreshnessLifetime m = 0 \<or> (\<exists>r\<in>set (m_answer m). CacheFreshnessLifetime m \<le> rr_ttl r) \<and> (\<forall>r\<in>set (m_answer m). CacheFreshnessLifetime m \<le> rr_ttl r) \<or>
   (\<exists>r\<in>set (m_ns m). \<not> is_meta r \<and> CacheFreshnessLifetime m \<le> rr_ttl r)"
proof (cases "m_answer m = []")
  case True
  then show ?thesis using soa_freshness_le [of "m_ns m"] by (simp add: CacheFreshnessLifetime_def)
next
  case False
  then have "\<forall>r\<in>set (m_answer m). CacheFreshnessLifetime m \<le> rr_ttl r"
    using answer_freshness_le [of None "m_answer m"] by (simp add: CacheFreshnessLifetime_def)
  then show ?thesis using False by (metis hd_in_set)
qed

lemma hit_valid:
  assumes "entry_ok rc key e" and "responseCacheKeyFor L query = Some key"
  shows "\<exists>q p. m_question query = [q] \<and> m_question (hit_response query e age) = [p] \<and> q_name p = q_name q \<and>
    q_type p = q_type q \<and> q_class p = q_class q \<and> m_id (hit_response query e age) = m_id query \<and>
    m_response (hit_response query e age) \<and> m_opcode (hit_response query e age) = OpcodeQuery"
proof -
  obtain q where "m_question query = [q]" "q_type q = k_qtype key" "q_class q = k_qclass key"
    using responseCacheKeyFor_fields [OF assms(2)] by auto
  moreover obtain p where "m_question (e_message e) = [p]" "q_type p = k_qtype key" "q_class p = k_qclass key"
    using assms(1) by (auto simp: entry_ok_def)
  moreover have "m_response (e_message e)" "m_opcode (e_message e) = OpcodeQuery"
    using assms(1) by (auto simp: entry_ok_def)
  ultimately show ?thesis
    by (simp add: hit_response_def question_name_def set_question_name_def)
qed

section \<open>The cache as the resolver sees it\<close>

text \<open>When a message is a reply to a query: the check the resolver applies to every message it forwards.\<close>

definition answers_query :: "dns_msg \<Rightarrow> dns_msg \<Rightarrow> bool" where
  "answers_query query r \<longleftrightarrow>
     m_response r \<and> m_id r = m_id query \<and> (m_opcode query = OpcodeQuery \<longrightarrow> m_opcode r = OpcodeQuery) \<and>
     (\<exists>q p. m_question query = [q] \<and> m_question r = [p] \<and> equal_fold (q_name p) (q_name q) \<and>
        q_type p = q_type q \<and> q_class p = q_class q)"

text \<open>
  The interface: an invariant the operations keep, hits that answer their query, and a miss that leaves
  nothing to serve stale. Whoever looks up and then falls back to stale data gets none.
\<close>

locale answer_cache =
  fixes inv :: "'c \<Rightarrow> bool"
    and get :: "int \<Rightarrow> dns_msg \<Rightarrow> 'c \<Rightarrow> dns_msg option \<times> 'c"
    and put :: "int \<Rightarrow> dns_msg \<Rightarrow> dns_msg \<Rightarrow> 'c \<Rightarrow> 'c"
    and stale :: "int \<Rightarrow> dns_msg \<Rightarrow> 'c \<Rightarrow> dns_msg option"
  assumes get_inv: "inv c \<Longrightarrow> inv (snd (get now q c))"
    and put_inv: "inv c \<Longrightarrow> answers_query q r \<Longrightarrow> inv (put now q r c)"
    and hit_answers: "inv c \<Longrightarrow> fst (get now q c) = Some r \<Longrightarrow> answers_query q r"
    and miss_gone: "fst (get now q c) = None \<Longrightarrow> stale later q (snd (get now q c)) = None"
begin

lemma stale_never_served:
  assumes "inv c" and "\<And>r. fst (get now q c) = Some r \<Longrightarrow> \<not> answers_query q r"
  shows "stale later q (snd (get now q c)) = None"
  using assms hit_answers miss_gone by (cases "fst (get now q c)") blast+

lemma forwarded_answers:
  assumes "inv c" and "\<And>r. up q = Some r \<Longrightarrow> answers_query q r"
    and "(case fst (get now q c) of Some r \<Rightarrow> Some r | None \<Rightarrow> up q) = Some r"
  shows "answers_query q r"
  using assms hit_answers by (cases "fst (get now q c)") auto

end

lemma replies_to_answers: "answers_query query r \<Longrightarrow> m_opcode query = OpcodeQuery \<Longrightarrow> replies_to query r"
  by (auto simp: answers_query_def replies_to_def)

lemma Put_keyless: "responseCacheKeyFor L query = None \<Longrightarrow> snd (snd (Put L now query response c)) = c"
  by (simp add: Put_def split: option.splits)

lemma Put_answers_inv:
  assumes "cache_ok c" and "answers_query query response"
  shows "cache_ok (snd (snd (Put L now query response c)))"
proof (cases "responseCacheKeyFor L query")
  case None
  then show ?thesis using assms(1) by (simp add: Put_keyless)
next
  case (Some key)
  then have "m_opcode query = OpcodeQuery" using responseCacheKeyFor_fields [OF Some] by auto
  with assms show ?thesis by (intro Put_inv replies_to_answers)
qed

lemma Get_hit_answers:
  assumes "cache_ok c" and "fst (Get L now query c) = Some r"
  shows "answers_query query r"
proof -
  obtain rc where c: "c = Some rc" using assms(2) by (cases c) (auto simp: Get_def)
  obtain c' where "Get L now query (Some rc) = (Some r, c')" using assms(2) c by (metis prod.collapse)
  then obtain key e where k: "responseCacheKeyFor L query = Some key" "map_of (lru rc) key = Some e"
    "r = hit_response query e (entry_age now e)"
    by (rule Get_hitD)
  have "entry_ok rc key e" using assms(1) c k(2) cache_inv_entry by (simp add: cache_ok_def)
  from hit_valid [OF this k(1), of "entry_age now e"] show ?thesis
    unfolding answers_query_def k(3) by auto
qed

lemma Get_miss_gone: "fst (Get L now query c) = None \<Longrightarrow> GetStale L later query (snd (Get L now query c)) = None"
  by (auto simp: Get_def GetStale_def delete_conv' split: option.splits if_splits)

interpretation dns_cache: answer_cache cache_ok "Get L" "\<lambda>now q r c. snd (snd (Put L now q r c))" "GetStale L"
  for L
  by unfold_locales (auto simp: Get_inv Put_answers_inv Get_hit_answers Get_miss_gone)

section \<open>Histories\<close>

inductive cache_run :: "dns_lib \<Rightarrow> response_cache option \<Rightarrow> response_cache option \<Rightarrow> bool" for L c0 where
  start: "cache_run L c0 c0"
| get: "cache_run L c0 c \<Longrightarrow> cache_run L c0 (snd (Get L now query c))"
| put: "cache_run L c0 c \<Longrightarrow> answers_query query response \<Longrightarrow> cache_run L c0 (snd (snd (Put L now query response c)))"
| begin_refresh: "cache_run L c0 c \<Longrightarrow> cache_run L c0 (snd (BeginRefresh L query c))"
| end_refresh: "cache_run L c0 c \<Longrightarrow> cache_run L c0 (EndRefresh L query c)"

lemma cache_run_ok: "cache_run L c0 c \<Longrightarrow> cache_ok c0 \<Longrightarrow> cache_ok c"
  by (induction rule: cache_run.induct) (auto intro: Get_inv Put_answers_inv refresh_inv)

lemma same_limits:
  "map_option maxEntries (snd (Get L now query c)) = map_option maxEntries c"
  "map_option maxTTL (snd (Get L now query c)) = map_option maxTTL c"
  "map_option maxEntries (snd (snd (Put L now query r c))) = map_option maxEntries c"
  "map_option maxTTL (snd (snd (Put L now query r c))) = map_option maxTTL c"
  "map_option maxEntries (snd (BeginRefresh L query c)) = map_option maxEntries c"
  "map_option maxTTL (snd (BeginRefresh L query c)) = map_option maxTTL c"
  "map_option maxEntries (EndRefresh L query c) = map_option maxEntries c"
  "map_option maxTTL (EndRefresh L query c) = map_option maxTTL c"
  by (simp_all add: Get_def Put_def BeginRefresh_def EndRefresh_def Let_def split_beta split: option.split)

lemma cache_run_limits:
  "cache_run L c0 c \<Longrightarrow> map_option maxEntries c = map_option maxEntries c0 \<and> map_option maxTTL c = map_option maxTTL c0"
  by (induction rule: cache_run.induct) (simp_all add: same_limits)

lemma new_cache_ok: "cache_ok (newResponseCache maxE maxT)"
  by (auto simp: newResponseCache_def cache_ok_def cache_inv_def)

section \<open>Properties\<close>

text \<open>
  C33: However lookups, stores and refresh claims follow one another, the cache holds at most its configured
  number of entries under distinct keys; every entry answers the question type and class of its key;
  its lifetime is positive and at most the configured cap, and none of its ordinary records outlives
  it. Each refresh slot is held at most once.
\<close>

theorem response_cache_invariant:
  assumes "cache_run L (newResponseCache maxE maxT) (Some rc)"
  shows "int (length (lru rc)) \<le> maxE \<and> distinct (map fst (lru rc)) \<and> distinct (refreshing rc) \<and>
    (\<forall>(key, e)\<in>set (lru rc).
       e_ttl e \<noteq> 0 \<and> (maxT > 0 \<longrightarrow> e_ttl e \<le> maxT) \<and>
       (\<forall>r\<in>set (all_rrs (e_message e)). \<not> is_meta r \<longrightarrow> rr_ttl r \<le> e_ttl e) \<and>
       (\<exists>q. m_question (e_message e) = [q] \<and> q_type q = k_qtype key \<and> q_class q = k_qclass key))"
proof -
  have inv: "cache_inv rc" using cache_run_ok [OF assms new_cache_ok] by (simp add: cache_ok_def)
  have "maxEntries rc = maxE \<and> maxTTL rc = maxT"
    using cache_run_limits [OF assms] by (auto simp: newResponseCache_def split: if_splits)
  then show ?thesis using inv by (auto simp: cache_inv_def entry_ok_def)
qed

text \<open>A small library instance and a cached answer.\<close>

definition demo_lib :: dns_lib where
  "demo_lib = \<lparr>fqdn = (\<lambda>s. if has_suffix s ''.'' then s else s @ ''.''), is_tsig = (\<lambda>m. False), msg_len = (\<lambda>m. 64),
     opt_version = (\<lambda>t. 0), opt_do = (\<lambda>t. False), set_reply = (\<lambda>q. q\<lparr>m_response := True, m_rcode := 0\<rparr>)\<rparr>"

definition demo_query :: dns_msg where
  "demo_query = \<lparr>m_id = 7, m_response = False, m_truncated = False, m_authoritative = False, m_ra = False, m_rd = True,
     m_cd = False, m_ad = False, m_opcode = 0, m_rcode = 0,
     m_question = [\<lparr>q_name = ''Example.COM.'', q_type = 1, q_class = 1\<rparr>], m_answer = [], m_ns = [], m_extra = []\<rparr>"

definition demo_answer :: dns_msg where
  "demo_answer = demo_query\<lparr>m_response := True,
     m_question := [\<lparr>q_name = ''example.com.'', q_type = 1, q_class = 1\<rparr>],
     m_answer := [\<lparr>rr_name = ''example.com.'', rr_class = 1, rr_ttl = 3600, rr_data = RR_CNAME ''edge.example.net.''\<rparr>,
                  \<lparr>rr_name = ''edge.example.net.'', rr_class = 1, rr_ttl = 60, rr_data = RR_A [1, 2, 3, 4]\<rparr>]\<rparr>"

definition demo_cache :: "response_cache option" where
  "demo_cache = snd (snd (Put demo_lib 0 demo_query demo_answer (NewResponseCache 2)))"

lemma demo_answers: "answers_query demo_query demo_answer"
  by (simp add: answers_query_def demo_query_def demo_answer_def OpcodeQuery_def) code_simp

lemma demo_cache_run: "cache_run demo_lib (newResponseCache 2 DNSCacheMaxTTLSeconds) demo_cache"
  unfolding demo_cache_def NewResponseCache_def by (intro cache_run.put cache_run.start demo_answers)

lemma demo_stored: "fst (Put demo_lib 0 demo_query demo_answer (NewResponseCache 2))"
  by code_simp

lemma demo_limits: "map_option maxEntries demo_cache = Some 2"
  unfolding demo_cache_def same_limits by (simp add: NewResponseCache_def newResponseCache_def)

theorem response_cache_invariant_witness:
  "\<exists>rc. demo_cache = Some rc \<and> int (length (lru rc)) \<le> 2 \<and> distinct (map fst (lru rc))"
proof -
  obtain rc where rc: "demo_cache = Some rc" using demo_limits by auto
  from response_cache_invariant [OF demo_cache_run [unfolded rc]] rc show ?thesis by blast
qed

lemma Put_entry:
  assumes inv: "cache_inv rc" and put: "Put L now query response (Some rc) = (True, evicted, c')"
  obtains key m ttl e rc' where "responseCacheKeyFor L query = Some key"
    "clampResponseTTLs response (maxTTL rc) = (ttl, m)" "ttl \<noteq> 0" "c' = Some rc'"
    "map_of (lru rc') key = Some e" "e_message e = m" "e_ttl e = ttl" "e_storedAt e = now" "maxEntries rc' = maxEntries rc"
proof -
  obtain ttl m where cl: "clampResponseTTLs response (maxTTL rc) = (ttl, m)" by fastforce
  obtain key where key: "responseCacheKeyFor L query = Some key" and ttl: "ttl \<noteq> 0"
    and c': "Put L now query response (Some rc) =
      (case map_of (lru rc) key of
         Some e \<Rightarrow> (True, False, Some (rc\<lparr>lru := (key, e\<lparr>e_message := m, e_storedAt := now, e_ttl := ttl\<rparr>) # AList.delete key (lru rc)\<rparr>))
       | None \<Rightarrow>
           let l1 = (key, \<lparr>e_message = m, e_storedAt = now, e_ttl = ttl, e_hits = 0\<rparr>) # lru rc in
           if int (length l1) > maxEntries rc then (True, True, Some (rc\<lparr>lru := butlast l1\<rparr>))
           else (True, False, Some (rc\<lparr>lru := l1\<rparr>)))"
    using put cl by (auto simp: Put_def split: option.splits if_splits)
  show thesis
  proof (cases "map_of (lru rc) key")
    case (Some e)
    let ?e = "e\<lparr>e_message := m, e_storedAt := now, e_ttl := ttl\<rparr>"
    have "c' = Some (rc\<lparr>lru := (key, ?e) # AList.delete key (lru rc)\<rparr>)" using put c' Some by simp
    from that [OF key cl ttl this, of ?e] show thesis by simp
  next
    case None
    let ?e = "\<lparr>e_message = m, e_storedAt = now, e_ttl = ttl, e_hits = 0\<rparr>"
    have full: "lru rc \<noteq> []" if "int (Suc (length (lru rc))) > maxEntries rc" using that inv by (auto simp: cache_inv_def)
    have "\<exists>l. c' = Some (rc\<lparr>lru := (key, ?e) # l\<rparr>)"
      using put c' None full by (auto simp: Let_def split: if_splits)
    then show thesis using that [OF key cl ttl] by auto
  qed
qed

text \<open>
  A stored answer is found again until it expires: a query with the same cache key gets, with its own
  ID and spelling of the name, exactly the stored records, each ordinary one with a lifetime no longer
  than upstream gave it; from the moment the lifetime is over the lookup misses.
\<close>

theorem Put_then_Get:
  assumes "cache_inv rc" and "Put L stored query response (Some rc) = (True, evicted, c')"
    and "responseCacheKeyFor L query' = responseCacheKeyFor L query" and "stored \<le> now"
    and "clampResponseTTLs response (maxTTL rc) = (ttl, m)"
  shows "if now - stored < seconds ttl
    then \<exists>r. fst (Get L now query' c') = Some r \<and> m_id r = m_id query' \<and>
           map rr_data (all_rrs r) = map rr_data (all_rrs response) \<and> map is_meta (all_rrs r) = map is_meta (all_rrs response) \<and>
           list_all2 (\<lambda>x y. \<not> is_meta y \<longrightarrow> rr_ttl x \<le> rr_ttl y) (all_rrs r) (all_rrs response)
    else fst (Get L now query' c') = None"
proof -
  obtain key e rc' where k: "responseCacheKeyFor L query = Some key" "ttl \<noteq> 0" "c' = Some rc'"
    "map_of (lru rc') key = Some e" "e_message e = m" "e_ttl e = ttl" "e_storedAt e = stored" "maxEntries rc' = maxEntries rc"
    using Put_entry [OF assms(1,2)] assms(5) by (metis prod.inject)
  have max: "0 < maxEntries rc'" using assms(1) k(8) by (simp add: cache_inv_def)
  have key': "responseCacheKeyFor L query' = Some key" using assms(3) k(1) by simp
  have age: "entry_age now e = now - stored" using assms(4) k(7) by (simp add: entry_age_def)
  show ?thesis
  proof (cases "now - stored < seconds ttl")
    case True
    have hit: "fst (Get L now query' c') = Some (hit_response query' e (now - stored))"
      using Get_hit [OF max key' k(4), of now] True k(3,6) age by simp
    obtain f where f: "all_rrs m = map f (all_rrs response)" "\<And>r. rr_data (f r) = rr_data r"
      "\<And>r. is_meta (f r) = is_meta r" "\<And>r. rr_ttl (f r) \<le> rr_ttl r"
      using clamp_as_map [OF assms(5) k(2)] by metis
    let ?g = "\<lambda>r. ageRecordTTL (word_of_int ((now - stored) div 1000000000))
        (restore_name (question_name m) (question_name query') (f r))"
    have rrs: "all_rrs (hit_response query' e (now - stored)) = map ?g (all_rrs response)"
      by (simp add: hit_response_def k(5) f(1))
    have "rr_ttl (?g r) \<le> rr_ttl r" if "\<not> is_meta r" "r \<in> set (all_rrs response)" for r
    proof -
      have "rr_ttl (f r) \<le> ttl" using clamp_effect(1) [OF assms(5) k(2)] f(1,3) that by auto
      then have "rr_ttl (?g r) \<le> rr_ttl (f r)"
        using aged_ttl(2) [of "restore_name (question_name m) (question_name query') (f r)" "now - stored" ttl]
          that f(3) True assms(4) by simp
      then show ?thesis using f(4) order_trans by blast
    qed
    then have "list_all2 (\<lambda>x y. \<not> is_meta y \<longrightarrow> rr_ttl x \<le> rr_ttl y) (map ?g (all_rrs response)) (all_rrs response)"
      by (simp add: list_all2_map1 list.rel_refl_strong)
    with True hit rrs f show ?thesis by (simp add: hit_response_def)
  next
    case False
    then show ?thesis using k(3,4,6) key' max age by (simp add: Get_def)
  qed
qed

theorem Put_then_Get_witness:
  "\<exists>r. fst (Get demo_lib 30000000000 (demo_query\<lparr>m_id := 9\<rparr>) demo_cache) = Some r \<and> m_id r = 9"
proof -
  obtain evicted where put: "Put demo_lib 0 demo_query demo_answer (NewResponseCache 2) = (True, evicted, demo_cache)"
    using demo_stored unfolding demo_cache_def by (metis prod.collapse)
  obtain ttl m where cl: "clampResponseTTLs demo_answer 300 = (ttl, m)" by fastforce
  have "fst (clampResponseTTLs demo_answer 300) = 60" by code_simp
  then have ttl: "ttl = 60" using cl by simp
  have rc: "NewResponseCache 2 = Some \<lparr>maxEntries = 2, maxTTL = 300, lru = [], refreshing = []\<rparr>"
    by (simp add: NewResponseCache_def newResponseCache_def DNSCacheMaxTTLSeconds_def)
  have inv: "cache_inv \<lparr>maxEntries = 2, maxTTL = 300, lru = [], refreshing = []\<rparr>" by (simp add: cache_inv_def)
  have key: "responseCacheKeyFor demo_lib (demo_query\<lparr>m_id := 9\<rparr>) = responseCacheKeyFor demo_lib demo_query" by code_simp
  from Put_then_Get [OF inv put [unfolded rc] key, of 30000000000] cl ttl show ?thesis
    by (auto simp: seconds_def)
qed

text \<open>
  The HTTP freshness lifetime the DoH endpoint derives from a cached reply never exceeds what is left
  of the entry's own lifetime, in whole seconds, for positive and negative answers alike.
\<close>

theorem hit_freshness_bounded:
  assumes "cache_inv rc" and "Get L now query (Some rc) = (Some r, c')"
    and "\<forall>x\<in>set (m_answer r). \<not> is_meta x"
  shows "\<exists>key e. map_of (lru rc) key = Some e \<and>
    uint (CacheFreshnessLifetime r) \<le> uint (e_ttl e) - entry_age now e div 1000000000 \<and>
    entry_age now e < seconds (e_ttl e)"
proof -
  obtain key e where k: "map_of (lru rc) key = Some e" "entry_age now e < seconds (e_ttl e)"
    "r = hit_response query e (entry_age now e)"
    using Get_hitD [OF assms(2)] by metis
  note ok = cache_inv_entry [OF assms(1) k(1)]
  have ttl: "uint (rr_ttl x) \<le> uint (e_ttl e) - entry_age now e div 1000000000"
    if "x \<in> set (m_answer r) \<union> set (m_ns r)" "\<not> is_meta x" for x
    using hit_ttl [OF ok entry_age_nonneg k(2), of x query] that k(3) by (auto simp: all_rrs_def)
  have "0 \<le> uint (e_ttl e) - entry_age now e div 1000000000"
    using age_word(2) [OF entry_age_nonneg k(2)] by simp
  moreover have "uint (CacheFreshnessLifetime r) \<le> uint (e_ttl e) - entry_age now e div 1000000000"
    if "CacheFreshnessLifetime r \<le> rr_ttl x" "x \<in> set (m_answer r) \<union> set (m_ns r)" "\<not> is_meta x" for x
    using ttl [OF that(2,3)] that(1) unfolding word_le_def by linarith
  ultimately have "uint (CacheFreshnessLifetime r) \<le> uint (e_ttl e) - entry_age now e div 1000000000"
    using freshness_le_some [of r] assms(3) by (elim disjE) (auto simp: unsigned_0)
  with k show ?thesis by blast
qed

theorem hit_freshness_bounded_witness:
  "\<exists>r rc e. demo_cache = Some rc \<and> fst (Get demo_lib 30000000000 demo_query demo_cache) = Some r \<and>
     e \<in> snd ` set (lru rc) \<and> uint (CacheFreshnessLifetime r) \<le> uint (e_ttl e) - entry_age 30000000000 e div 1000000000"
proof -
  obtain rc where rc: "demo_cache = Some rc" using demo_limits by auto
  have inv: "cache_inv rc" using cache_run_ok [OF demo_cache_run new_cache_ok] rc by (simp add: cache_ok_def)
  have "map_option (\<lambda>r. list_ex is_meta (m_answer r)) (fst (Get demo_lib 30000000000 demo_query demo_cache)) = Some False"
    by code_simp
  then obtain r where r: "fst (Get demo_lib 30000000000 demo_query demo_cache) = Some r" "\<not> list_ex is_meta (m_answer r)"
    by auto
  obtain c' where "Get demo_lib 30000000000 demo_query (Some rc) = (Some r, c')" using r(1) rc by (metis prod.collapse)
  from hit_freshness_bounded [OF inv this] r(2) obtain key e where
    "map_of (lru rc) key = Some e" "uint (CacheFreshnessLifetime r) \<le> uint (e_ttl e) - entry_age 30000000000 e div 1000000000"
    by (auto simp: list_ex_iff)
  then show ?thesis using rc r(1) map_of_SomeD by force
qed

end
