(* ===== verification/DnsResolver.thy ===== *)
theory DnsResolver
  imports DnsCacheProps
begin

text \<open>
  The query pipeline of \<^verbatim>\<open>internal/dns/resolver/resolver.go\<close>: policy on the asked name, the response cache,
  the upstream, the check that a reply belongs to its query, policy on every CNAME target, and the
  answer for a blocked name. The policy verdict on a name is an argument (whether it is
  \<^verbatim>\<open>block\<close> for this client), and so is the upstream: packing, forwarding and unpacking each may fail. A
  query runs under one clock reading for the lookup and a later one for the store. The background
  refresh is a step of its own.
\<close>

section \<open>Configuration and errors\<close>

datatype resolve_error =
    TooManyConcurrent int
  | NoQuestion
  | PackFailed
  | UpstreamFailed
  | UnpackFailed
  | Mismatch
  | CNAMELimit nat

datatype upstream_result = UpPackError | UpForwardError | UpUnpackError | UpReply dns_msg

record resolver_config =
  BlockPageIP :: string
  BlockStrategy :: string
  DNSTTL :: "32 word"
  MaxConcurrentQueries :: int
  DNSCacheEntries :: int

definition BlockStrategySinkhole :: string where "BlockStrategySinkhole = ''sinkhole''"
definition BlockStrategyNXDomain :: string where "BlockStrategyNXDomain = ''nxdomain''"
definition BlockStrategyRefused :: string where "BlockStrategyRefused = ''refused''"
definition BlockStrategyNullIP :: string where "BlockStrategyNullIP = ''nullip''"

definition maxCNAMEPolicyChecks :: nat where "maxCNAMEPolicyChecks = 8"
definition DefaultMaxConcurrentQueries :: int where "DefaultMaxConcurrentQueries = 256"

record resolver =
  r_config :: resolver_config
  r_cache :: "response_cache option"
  inflight :: int

definition New_resolver :: "resolver_config \<Rightarrow> resolver" where
  "New_resolver cfg =
     \<lparr>r_config = (if BlockStrategy cfg = [] then cfg\<lparr>BlockStrategy := BlockStrategySinkhole\<rparr> else cfg),
      r_cache = NewResponseCache (DNSCacheEntries cfg), inflight = 0\<rparr>"

section \<open>Blocked answers\<close>

definition EffectiveBlockStrategy :: "resolver_config \<Rightarrow> string" where
  "EffectiveBlockStrategy cfg = (if BlockStrategy cfg = [] then BlockStrategySinkhole else BlockStrategy cfg)"

definition IPv4zero :: ip where "IPv4zero = v4_in_v6 [0, 0, 0, 0]"
definition IPv6zero :: ip where "IPv6zero = replicate 16 0"

definition BlockIPv4 :: "resolver_config \<Rightarrow> ip" where
  "BlockIPv4 cfg =
     (if EffectiveBlockStrategy cfg = BlockStrategyNullIP then IPv4zero
      else case ParseIP (BlockPageIP cfg) of
        Some parsed \<Rightarrow> (case To4 parsed of Some v4 \<Rightarrow> v4 | None \<Rightarrow> IPv4zero)
      | None \<Rightarrow> IPv4zero)"

definition To16 :: "ip \<Rightarrow> ip option" where
  "To16 a = (if length a = 4 then Some (v4_in_v6 a) else if length a = 16 then Some a else None)"

definition BlockIPv6 :: "resolver_config \<Rightarrow> ip" where
  "BlockIPv6 cfg =
     (if EffectiveBlockStrategy cfg = BlockStrategyNullIP then IPv6zero
      else case ParseIP (BlockPageIP cfg) of
        Some parsed \<Rightarrow> (case To16 parsed of Some v6 \<Rightarrow> v6 | None \<Rightarrow> IPv6zero)
      | None \<Rightarrow> IPv6zero)"

definition TypeA :: "16 word" where "TypeA = 1"
definition TypeAAAA :: "16 word" where "TypeAAAA = 28"

definition block_records :: "resolver_config \<Rightarrow> question \<Rightarrow> rr list" where
  "block_records cfg q =
     (if q_type q = TypeA then
        [\<lparr>rr_name = q_name q, rr_class = q_class q, rr_ttl = DNSTTL cfg, rr_data = RR_A (BlockIPv4 cfg)\<rparr>]
      else if q_type q = TypeAAAA then
        [\<lparr>rr_name = q_name q, rr_class = q_class q, rr_ttl = DNSTTL cfg, rr_data = RR_AAAA (BlockIPv6 cfg)\<rparr>]
      else [])"

definition BlockedDNSMessage :: "dns_lib \<Rightarrow> resolver_config \<Rightarrow> dns_msg \<Rightarrow> dns_msg" where
  "BlockedDNSMessage L cfg query =
     (let response = (set_reply L query)\<lparr>m_authoritative := True, m_ra := True\<rparr> in
      if EffectiveBlockStrategy cfg = BlockStrategyNXDomain then response\<lparr>m_rcode := RcodeNameError\<rparr>
      else if EffectiveBlockStrategy cfg = BlockStrategyRefused then response\<lparr>m_rcode := RcodeRefused\<rparr>
      else response\<lparr>m_answer := m_answer response @ concat (map (block_records cfg) (m_question query))\<rparr>)"

section \<open>Checking a reply\<close>

datatype reply_error =
    NotAResponse | IdMismatch | OpcodeMismatch | QuestionCount | NameMismatch | TypeMismatch

definition validateUpstreamResponse :: "dns_msg \<Rightarrow> dns_msg \<Rightarrow> reply_error option" where
  "validateUpstreamResponse query response =
     (if \<not> m_response response then Some NotAResponse
      else if m_id response \<noteq> m_id query then Some IdMismatch
      else if m_opcode query = OpcodeQuery \<and> m_opcode response \<noteq> OpcodeQuery then Some OpcodeMismatch
      else if length (m_question response) \<noteq> 1 \<or> length (m_question query) \<noteq> 1 then Some QuestionCount
      else
        let p = hd (m_question response); q = hd (m_question query) in
        if \<not> equal_fold (q_name p) (q_name q) then Some NameMismatch
        else if q_type p \<noteq> q_type q \<or> q_class p \<noteq> q_class q then Some TypeMismatch
        else None)"

section \<open>Cache use\<close>

text \<open>A hit claims the refresh slot when the entry is due; the claim is the last component.\<close>

definition maybeRefreshAhead :: "dns_lib \<Rightarrow> int \<Rightarrow> dns_msg \<Rightarrow> response_cache option \<Rightarrow> bool \<times> response_cache option" where
  "maybeRefreshAhead L now query c =
     (if \<not> ShouldRefresh L now query c then (False, c) else BeginRefresh L query c)"

definition lookupCache :: "dns_lib \<Rightarrow> int \<Rightarrow> dns_msg \<Rightarrow> response_cache option \<Rightarrow> dns_msg option \<times> bool \<times> response_cache option" where
  "lookupCache L now query c =
     (if \<not> Cacheable L query c then (None, False, c)
      else case Get L now query c of
        (None, c1) \<Rightarrow> (None, False, c1)
      | (Some response, c1) \<Rightarrow>
          if validateUpstreamResponse query response \<noteq> None then (None, False, c1)
          else let (claimed, c2) = maybeRefreshAhead L now query c1 in (Some response, claimed, c2))"

definition lookupStale :: "dns_lib \<Rightarrow> int \<Rightarrow> dns_msg \<Rightarrow> response_cache option \<Rightarrow> dns_msg option" where
  "lookupStale L now query c =
     (case GetStale L now query c of
        None \<Rightarrow> None
      | Some stale \<Rightarrow> if validateUpstreamResponse query stale \<noteq> None then None else Some stale)"

definition storeCache :: "dns_lib \<Rightarrow> int \<Rightarrow> dns_msg \<Rightarrow> dns_msg \<Rightarrow> response_cache option \<Rightarrow> response_cache option" where
  "storeCache L now query response c = snd (snd (Put L now query response c))"

text \<open>The body of the background refresh, once its upstream query has come back.\<close>

definition finish_refresh :: "dns_lib \<Rightarrow> int \<Rightarrow> dns_msg \<Rightarrow> upstream_result \<Rightarrow> response_cache option \<Rightarrow> response_cache option" where
  "finish_refresh L now query up c =
     EndRefresh L query
       (case up of
          UpReply response \<Rightarrow>
            if validateUpstreamResponse query response \<noteq> None then c else storeCache L now query response c
        | _ \<Rightarrow> c)"

section \<open>Resolving\<close>

definition dot_trimmed :: "string \<Rightarrow> string" where
  "dot_trimmed name = trim_suffix name ''.''"

text \<open>
  The walk over the CNAME targets: a blocked target blocks the query, and more targets than the limit
  end the query with an error.
\<close>

datatype cname_verdict = CNAMEsClean | CNAMEBlocked | CNAMEOverflow

fun check_cnames :: "(string \<Rightarrow> bool) \<Rightarrow> rr list \<Rightarrow> nat \<Rightarrow> cname_verdict" where
  "check_cnames blocks [] checked = CNAMEsClean"
| "check_cnames blocks (r # rs) checked =
     (case rr_data r of
        RR_CNAME target \<Rightarrow>
          if target = [] then check_cnames blocks rs checked
          else if checked + 1 > maxCNAMEPolicyChecks then CNAMEOverflow
          else if blocks (dot_trimmed target) then CNAMEBlocked
          else check_cnames blocks rs (checked + 1)
      | _ \<Rightarrow> check_cnames blocks rs checked)"

definition finish_query ::
  "dns_lib \<Rightarrow> resolver_config \<Rightarrow> (string \<Rightarrow> bool) \<Rightarrow> int \<Rightarrow> dns_msg \<Rightarrow> dns_msg \<Rightarrow> bool \<Rightarrow> response_cache option \<Rightarrow>
   (resolve_error + dns_msg) \<times> response_cache option" where
  "finish_query L cfg blocks later query response cacheHit c =
     (case check_cnames blocks (all_rrs response) 0 of
        CNAMEOverflow \<Rightarrow> (Inl (CNAMELimit maxCNAMEPolicyChecks), c)
      | CNAMEBlocked \<Rightarrow> (Inr (BlockedDNSMessage L cfg query), c)
      | CNAMEsClean \<Rightarrow> (Inr response, if cacheHit then c else storeCache L later query response c))"

definition answer_query ::
  "dns_lib \<Rightarrow> resolver_config \<Rightarrow> (string \<Rightarrow> bool) \<Rightarrow> (dns_msg \<Rightarrow> upstream_result) \<Rightarrow> int \<Rightarrow> int \<Rightarrow> dns_msg \<Rightarrow>
   response_cache option \<Rightarrow> (resolve_error + dns_msg) \<times> response_cache option" where
  "answer_query L cfg blocks upstream now later query c =
     (if blocks (dot_trimmed (question_name query)) then (Inr (BlockedDNSMessage L cfg query), c)
      else
        let (hit, _, c1) = lookupCache L now query c in
        case hit of
          Some response \<Rightarrow> finish_query L cfg blocks later query response True c1
        | None \<Rightarrow>
            (case upstream query of
               UpPackError \<Rightarrow> (Inl PackFailed, c1)
             | UpForwardError \<Rightarrow>
                 (case lookupStale L later query c1 of
                    Some stale \<Rightarrow> (Inr stale, c1)
                  | None \<Rightarrow> (Inl UpstreamFailed, c1))
             | UpUnpackError \<Rightarrow> (Inl UnpackFailed, c1)
             | UpReply response \<Rightarrow>
                 if validateUpstreamResponse query response \<noteq> None then (Inl Mismatch, c1)
                 else finish_query L cfg blocks later query response False c1))"

definition concurrency_limit :: "resolver_config \<Rightarrow> int" where
  "concurrency_limit cfg =
     (if MaxConcurrentQueries cfg \<le> 0 then DefaultMaxConcurrentQueries else MaxConcurrentQueries cfg)"

text \<open>The counter is taken on entry and given back on every way out.\<close>

definition ResolveQuery ::
  "dns_lib \<Rightarrow> (string \<Rightarrow> bool) \<Rightarrow> (dns_msg \<Rightarrow> upstream_result) \<Rightarrow> int \<Rightarrow> int \<Rightarrow> dns_msg \<Rightarrow> resolver \<Rightarrow>
   (resolve_error + dns_msg) \<times> resolver" where
  "ResolveQuery L blocks upstream now later query r =
     (let cfg = r_config r; r1 = r\<lparr>inflight := inflight r + 1\<rparr> in
      if inflight r1 > concurrency_limit cfg
      then (Inl (TooManyConcurrent (concurrency_limit cfg)), r1\<lparr>inflight := inflight r1 - 1\<rparr>)
      else if m_question query = [] then (Inl NoQuestion, r1\<lparr>inflight := inflight r1 - 1\<rparr>)
      else
        let (result, c) = answer_query L cfg blocks upstream now later query (r_cache r1)
        in (result, r1\<lparr>r_cache := c, inflight := inflight r1 - 1\<rparr>))"

end
