(* ===== verification/DnsResolverProps.thy ===== *)
theory DnsResolverProps
  imports DnsResolver
begin

text \<open>
  Properties of the resolver: policy holds for every answer that leaves it, whether it came from the
  cache or from upstream; a blocked name never gets an empty answer; every way out gives the
  concurrency slot back and keeps the cache's invariant; and stale answers are never served.
\<close>

section \<open>Shared facts\<close>

lemma validate_answers: "validateUpstreamResponse query r = None \<longleftrightarrow> answers_query query r"
proof
  assume v: "validateUpstreamResponse query r = None"
  then have len: "length (m_question r) = 1" "length (m_question query) = 1"
    by (auto simp: validateUpstreamResponse_def Let_def split: if_splits)
  obtain p q where pq: "m_question r = [p]" "m_question query = [q]"
    using len by (metis One_nat_def length_0_conv length_Suc_conv)
  with v show "answers_query query r"
    by (auto simp: validateUpstreamResponse_def answers_query_def Let_def split: if_splits)
next
  assume "answers_query query r"
  then show "validateUpstreamResponse query r = None"
    by (auto simp: validateUpstreamResponse_def answers_query_def Let_def)
qed

lemma map_filter_Cons: "List.map_filter f (x # xs) = (case f x of None \<Rightarrow> List.map_filter f xs | Some y \<Rightarrow> y # List.map_filter f xs)"
  by (simp add: List.map_filter_simps)

definition cname_of :: "rr \<Rightarrow> string option" where
  "cname_of r = (case rr_data r of RR_CNAME t \<Rightarrow> if t = [] then None else Some t | _ \<Rightarrow> None)"

definition cname_targets :: "dns_msg \<Rightarrow> string list" where
  "cname_targets m = List.map_filter cname_of (all_rrs m)"

lemma check_cnames_Cons:
  "check_cnames blocks (r # rs) n =
     (case cname_of r of
        None \<Rightarrow> check_cnames blocks rs n
      | Some t \<Rightarrow>
          if n + 1 > maxCNAMEPolicyChecks then CNAMEOverflow
          else if blocks (dot_trimmed t) then CNAMEBlocked
          else check_cnames blocks rs (n + 1))"
  by (simp add: cname_of_def split: rr_data.split)

lemma check_cnames_clean:
  "check_cnames blocks rs n = CNAMEsClean \<Longrightarrow> n \<le> maxCNAMEPolicyChecks \<Longrightarrow>
   n + length (List.map_filter cname_of rs) \<le> maxCNAMEPolicyChecks \<and>
   (\<forall>t\<in>set (List.map_filter cname_of rs). \<not> blocks (dot_trimmed t))"
proof (induction rs arbitrary: n)
  case Nil
  then show ?case by (simp add: List.map_filter_simps)
next
  case (Cons r rs)
  show ?case
  proof (cases "cname_of r")
    case None
    then show ?thesis using Cons by (simp add: check_cnames_Cons map_filter_Cons del: check_cnames.simps)
  next
    case (Some t)
    then have "n + 1 \<le> maxCNAMEPolicyChecks" "\<not> blocks (dot_trimmed t)" "check_cnames blocks rs (n + 1) = CNAMEsClean"
      using Cons.prems(1) by (auto simp: check_cnames_Cons simp del: check_cnames.simps split: if_splits)
    then show ?thesis using Cons.IH [of "n + 1"] Some by (simp add: map_filter_Cons)
  qed
qed

lemma lookupCache_hit:
  "fst (lookupCache L now query c) = Some r \<Longrightarrow> answers_query query r"
  by (auto simp: lookupCache_def Let_def split_beta validate_answers split: if_splits option.splits)

lemma lookupCache_miss_stale:
  assumes "cache_ok c" and "fst (lookupCache L now query c) = None"
  shows "lookupStale L later query (snd (snd (lookupCache L now query c))) = None"
proof (cases "Cacheable L query c")
  case False
  then have "GetStale L later query c = None"
    by (auto simp: Cacheable_def GetStale_def split: option.splits)
  with False show ?thesis by (simp add: lookupCache_def lookupStale_def)
next
  case True
  have miss: "snd (snd (lookupCache L now query c)) = snd (Get L now query c) \<and>
      (\<forall>r. fst (Get L now query c) = Some r \<longrightarrow> \<not> answers_query query r)"
    using True assms(2)
    by (auto simp: lookupCache_def Let_def split_beta validate_answers split: if_splits option.splits prod.splits)
  then have "GetStale L later query (snd (Get L now query c)) = None"
    using dns_cache.stale_never_served [OF assms(1)] by blast
  then show ?thesis using miss by (simp add: lookupStale_def)
qed

lemma lookupCache_ok: "cache_ok c \<Longrightarrow> cache_ok (snd (snd (lookupCache L now query c)))"
  using Get_inv [of c L now query] refresh_inv(1) [of "snd (Get L now query c)" L query]
  by (auto simp: lookupCache_def maybeRefreshAhead_def Let_def split_beta split: prod.splits option.splits)

lemma storeCache_ok: "cache_ok c \<Longrightarrow> answers_query query r \<Longrightarrow> cache_ok (storeCache L now query r c)"
  by (simp add: storeCache_def Put_answers_inv)

lemma finish_query_ok:
  "cache_ok c \<Longrightarrow> answers_query query r \<Longrightarrow> cache_ok (snd (finish_query L cfg blocks later query r hit c))"
  by (simp add: finish_query_def storeCache_ok split: cname_verdict.split)

lemma answer_query_ok:
  assumes "cache_ok c"
  shows "cache_ok (snd (answer_query L cfg blocks upstream now later query c))"
  using assms lookupCache_ok [OF assms, of L now query] lookupCache_hit [of L now query c]
  by (auto simp: answer_query_def Let_def split_beta validate_answers intro!: finish_query_ok
      split: option.splits upstream_result.splits)

lemma finish_refresh_ok: "cache_ok c \<Longrightarrow> cache_ok (finish_refresh L now query up c)"
  unfolding finish_refresh_def
  by (rule refresh_inv(2)) (auto simp: validate_answers storeCache_ok split: upstream_result.splits)

text \<open>What can leave the pipeline as a success, and why.\<close>

lemma finish_query_result:
  assumes "fst (finish_query L cfg blocks later query r hit c) = Inr m"
  shows "m = BlockedDNSMessage L cfg query \<or>
    m = r \<and> length (cname_targets m) \<le> maxCNAMEPolicyChecks \<and> (\<forall>t\<in>set (cname_targets m). \<not> blocks (dot_trimmed t))"
  using assms check_cnames_clean [of blocks "all_rrs r" 0]
  by (auto simp: finish_query_def cname_targets_def split: cname_verdict.splits)

lemma answer_query_result:
  assumes ok: "cache_ok c" and res: "fst (answer_query L cfg blocks upstream now later query c) = Inr m"
  shows "m = BlockedDNSMessage L cfg query \<or>
    \<not> blocks (dot_trimmed (question_name query)) \<and> answers_query query m \<and>
    length (cname_targets m) \<le> maxCNAMEPolicyChecks \<and> (\<forall>t\<in>set (cname_targets m). \<not> blocks (dot_trimmed t))"
proof (cases "blocks (dot_trimmed (question_name query))")
  case True
  then show ?thesis using res by (simp add: answer_query_def)
next
  case False
  let ?c1 = "snd (snd (lookupCache L now query c))"
  show ?thesis
  proof (cases "fst (lookupCache L now query c)")
    case (Some r)
    then have "fst (finish_query L cfg blocks later query r True ?c1) = Inr m"
      using res False by (simp add: answer_query_def Let_def split_beta)
    from finish_query_result [OF this] show ?thesis using False lookupCache_hit [OF Some] by blast
  next
    case None
    then obtain r where up: "upstream query = UpReply r" "validateUpstreamResponse query r = None"
      and fin: "fst (finish_query L cfg blocks later query r False ?c1) = Inr m"
      using res False lookupCache_miss_stale [OF ok None, of later]
      by (auto simp: answer_query_def Let_def split_beta split: upstream_result.splits if_splits)
    from finish_query_result [OF fin] show ?thesis using False up(2) by (auto simp: validate_answers)
  qed
qed

section \<open>Histories\<close>

text \<open>Queries and completed background refreshes, in any order.\<close>

inductive resolver_run :: "dns_lib \<Rightarrow> resolver \<Rightarrow> resolver \<Rightarrow> bool" for L r0 where
  start: "resolver_run L r0 r0"
| query: "resolver_run L r0 r \<Longrightarrow> resolver_run L r0 (snd (ResolveQuery L blocks upstream now later q r))"
| refreshed: "resolver_run L r0 r \<Longrightarrow> resolver_run L r0 (r\<lparr>r_cache := finish_refresh L now q up (r_cache r)\<rparr>)"

lemma ResolveQuery_state:
  "snd (ResolveQuery L blocks upstream now later query r) =
     (if inflight r + 1 > concurrency_limit (r_config r) \<or> m_question query = [] then r
      else r\<lparr>r_cache := snd (answer_query L (r_config r) blocks upstream now later query (r_cache r))\<rparr>)"
  by (simp add: ResolveQuery_def Let_def split_beta)

lemma resolver_run_ok:
  assumes "resolver_run L r0 r" and "cache_ok (r_cache r0)"
  shows "cache_ok (r_cache r) \<and> inflight r = inflight r0 \<and> r_config r = r_config r0"
  using assms
  by (induction rule: resolver_run.induct) (auto simp: ResolveQuery_state answer_query_ok finish_refresh_ok)

lemma New_resolver_ok: "cache_ok (r_cache (New_resolver cfg))"
  using new_cache_ok by (simp add: New_resolver_def NewResponseCache_def)

section \<open>Properties\<close>


definition demo_config :: resolver_config where
  "demo_config = \<lparr>BlockPageIP = ''203.0.113.7'', BlockStrategy = [], DNSTTL = 60, MaxConcurrentQueries = 0, DNSCacheEntries = 16\<rparr>"

lemma demo_resolved:
  "fst (ResolveQuery demo_lib (\<lambda>d. d = ''ads.example.net'') (\<lambda>q. UpReply demo_answer) 0 1 demo_query (New_resolver demo_config)) = Inr demo_answer"
  by code_simp


text \<open>
  C35: A name the policy blocks is answered without asking upstream and without touching the cache. Under
  the address strategies an A or AAAA question always gets exactly one record, with the configured
  address or the null address when that does not parse, so a block never degrades into an empty
  answer; the other strategies answer NXDOMAIN or REFUSED.
\<close>

theorem blocked_name_answer:
  assumes "blocks (dot_trimmed (q_name q))" and "m_question query = [q]"
    and "inflight r < concurrency_limit (r_config r)" and "m_answer (set_reply L query) = []"
  shows "ResolveQuery L blocks upstream now later query r = (Inr (BlockedDNSMessage L (r_config r) query), r) \<and>
    (let s = EffectiveBlockStrategy (r_config r); m = BlockedDNSMessage L (r_config r) query in
     if s = BlockStrategyNXDomain then m_rcode m = RcodeNameError
     else if s = BlockStrategyRefused then m_rcode m = RcodeRefused
     else if q_type q = TypeA then \<exists>a. map rr_data (m_answer m) = [RR_A a] \<and> length a \<in> {4, 16}
     else if q_type q = TypeAAAA then \<exists>a. map rr_data (m_answer m) = [RR_AAAA a] \<and> length a = 16
     else m_answer m = [])"
proof -
  have v4: "length (BlockIPv4 cfg) \<in> {4, 16}" for cfg
    using To4_length by (auto simp: BlockIPv4_def IPv4zero_def v4_in_v6_def split: option.splits)
  have v6: "length (BlockIPv6 cfg) = 16" for cfg
    by (auto simp: BlockIPv6_def IPv6zero_def To16_def v4_in_v6_def split: option.splits)
  have "ResolveQuery L blocks upstream now later query r = (Inr (BlockedDNSMessage L (r_config r) query), r)"
    using assms(1-3) by (simp add: ResolveQuery_def answer_query_def question_name_def Let_def)
  then show ?thesis
    using assms(2,4) v4 v6
    by (auto simp: BlockedDNSMessage_def block_records_def Let_def TypeA_def TypeAAAA_def)
qed

theorem blocked_name_answer_witness:
  "ResolveQuery demo_lib (\<lambda>d. True) (\<lambda>q. UpForwardError) 0 1 demo_query (New_resolver demo_config) =
     (Inr (BlockedDNSMessage demo_lib (r_config (New_resolver demo_config)) demo_query), New_resolver demo_config)"
  by (rule blocked_name_answer [of "\<lambda>d. True" "\<lparr>q_name = ''Example.COM.'', q_type = 1, q_class = 1\<rparr>", THEN conjunct1])
    (simp_all add: demo_query_def demo_lib_def New_resolver_def demo_config_def concurrency_limit_def DefaultMaxConcurrentQueries_def)

text \<open>
  Every way out of a query, errors included, gives its concurrency slot back; at the limit a query is
  refused and nothing changes; and the cache's invariant survives any sequence of queries and
  background refreshes.
\<close>

theorem concurrency_slot_returned:
  assumes "resolver_run L (New_resolver cfg) r"
  shows "inflight r = 0 \<and> cache_ok (r_cache r) \<and>
    inflight (snd (ResolveQuery L blocks upstream now later query r)) = inflight r \<and>
    (inflight r + n \<ge> concurrency_limit (r_config r) \<longrightarrow>
      ResolveQuery L blocks upstream now later query (r\<lparr>inflight := inflight r + n\<rparr>) =
        (Inl (TooManyConcurrent (concurrency_limit (r_config r))), r\<lparr>inflight := inflight r + n\<rparr>))"
proof -
  have "inflight (New_resolver cfg) = 0" by (simp add: New_resolver_def)
  then have "inflight r = 0 \<and> cache_ok (r_cache r)" using resolver_run_ok [OF assms New_resolver_ok] by simp
  moreover have "inflight (snd (ResolveQuery L blocks upstream now later query r)) = inflight r"
    by (simp add: ResolveQuery_state)
  ultimately show ?thesis by (simp add: ResolveQuery_def Let_def)
qed

theorem concurrency_slot_returned_witness:
  "inflight (New_resolver demo_config) = 0 \<and>
   inflight (snd (ResolveQuery demo_lib (\<lambda>d. False) (\<lambda>q. UpForwardError) 0 1 demo_query (New_resolver demo_config))) = inflight (New_resolver demo_config)"
  using concurrency_slot_returned [OF resolver_run.start] by blast

text \<open>
  The stale answer for an upstream outage is never served: the lookup that precedes the upstream query
  deletes the expired entry it finds, so the fallback finds nothing and the client gets an error,
  whenever the failure is noticed.
\<close>

theorem serve_stale_never_happens:
  assumes "resolver_run L (New_resolver cfg) r" and "upstream query = UpForwardError"
    and "fst (lookupCache L now query (r_cache r)) = None" and "\<not> blocks (dot_trimmed (question_name query))"
    and "m_question query \<noteq> []" and "inflight r < concurrency_limit (r_config r)"
  shows "fst (ResolveQuery L blocks upstream now later query r) = Inl UpstreamFailed"
proof -
  have ok: "cache_ok (r_cache r)" using resolver_run_ok [OF assms(1) New_resolver_ok] by blast
  have "fst (answer_query L (r_config r) blocks upstream now later query (r_cache r)) = Inl UpstreamFailed"
    using lookupCache_miss_stale [OF ok assms(3), of later] assms(2-4)
    by (simp add: answer_query_def Let_def split_beta)
  then show ?thesis using assms(5,6) by (simp add: ResolveQuery_def Let_def split_beta)
qed

text \<open>A resolver whose only entry has just expired.\<close>

definition demo_resolver :: resolver where
  "demo_resolver = snd (ResolveQuery demo_lib (\<lambda>d. False) (\<lambda>q. UpReply demo_answer) 0 1 demo_query (New_resolver demo_config))"

lemma demo_resolver_run: "resolver_run demo_lib (New_resolver demo_config) demo_resolver"
  unfolding demo_resolver_def by (intro resolver_run.query resolver_run.start)

lemma demo_expired:
  "fst (lookupCache demo_lib 61000000000 demo_query (r_cache demo_resolver)) = None \<and>
   GetStale demo_lib 61000000000 demo_query (r_cache demo_resolver) \<noteq> None \<and>
   inflight demo_resolver < concurrency_limit (r_config demo_resolver) \<and> m_question demo_query \<noteq> []"
  by code_simp

theorem serve_stale_never_happens_witness:
  "GetStale demo_lib 61000000000 demo_query (r_cache demo_resolver) \<noteq> None \<and>
   fst (ResolveQuery demo_lib (\<lambda>d. False) (\<lambda>q. UpForwardError) 61000000000 61000000001 demo_query demo_resolver) = Inl UpstreamFailed"
  using serve_stale_never_happens [OF demo_resolver_run, of "\<lambda>q. UpForwardError" demo_query 61000000000 "\<lambda>d. False" 61000000001]
    demo_expired by simp

end
