(* ===== verification/ParentWalk.thy ===== *)
theory ParentWalk
  imports DomainName
begin

text \<open>
  The walk from a domain to its parents that stops at the registrable label. Two lookups of the
  program make it, \<^verbatim>\<open>Whitelist.IsAllowed\<close> of \<^verbatim>\<open>internal/risk/whitelist.go\<close> and
  \<^verbatim>\<open>GetEffectiveOverride\<close> of \<^verbatim>\<open>internal/store/groups.go\<close>: both split the domain at its dots, ask
  \<^verbatim>\<open>RegistrableWalkFloor\<close> how many labels may be dropped, and try the domain, then each parent.
\<close>

definition walk_candidates :: "libs \<Rightarrow> string \<Rightarrow> string list" where
  "walk_candidates L domain =
     (let parts = split_on (CHR ''.'') domain
      in map (\<lambda>i. join_with ''.'' (drop i parts))
           [0..<min (length parts) (RegistrableWalkFloor L domain + 1)])"

lemma walk_candidates_nonempty [simp]: "walk_candidates L domain \<noteq> []"
  by (simp add: walk_candidates_def Let_def)

lemma walk_candidates_self: "hd (walk_candidates L domain) = domain"
  by (simp add: walk_candidates_def Let_def hd_map upt_conv_Cons)

lemma in_walk_candidates:
  "c \<in> set (walk_candidates L domain) \<longleftrightarrow>
     (\<exists>i. i < length (split_on (CHR ''.'') domain) \<and> i \<le> RegistrableWalkFloor L domain \<and>
          c = join_with ''.'' (drop i (split_on (CHR ''.'') domain)))"
  by (auto simp: walk_candidates_def Let_def)

lemma join_drop_is_or_under:
  assumes "i < length ls" "j \<le> i"
  shows "is_or_under (join_with ''.'' (drop j ls)) (join_with ''.'' (drop i ls))"
proof (cases "i = j")
  case False
  then have "drop j ls = take (i - j) (drop j ls) @ drop i ls"
    using assms(2) by (metis append_take_drop_id drop_drop le_add_diff_inverse2)
  moreover have "take (i - j) (drop j ls) \<noteq> []" "drop i ls \<noteq> []" using False assms by auto
  ultimately have "join_with ''.'' (drop j ls) =
      join_with ''.'' (take (i - j) (drop j ls)) @ ''.'' @ join_with ''.'' (drop i ls)"
    using join_with_append by metis
  then show ?thesis by (auto simp: is_or_under_def has_suffix_iff)
qed (simp add: is_or_under_def)

lemma walk_candidates_parent:
  assumes "c \<in> set (walk_candidates L domain)"
  shows "is_or_under domain c"
proof -
  obtain i where i: "i < length (split_on (CHR ''.'') domain)"
    "c = join_with ''.'' (drop i (split_on (CHR ''.'') domain))"
    using assms in_walk_candidates by blast
  show ?thesis using join_drop_is_or_under[OF i(1), of 0] i(2) by simp
qed

text \<open>No candidate lies above the registrable domain, so a public suffix is never tried.\<close>

lemma walk_candidates_registrable:
  assumes "psl_label_suffix L" "NormalizeDomain L domain = Inr domain"
    "etld_plus_one L domain = Some r" "c \<in> set (walk_candidates L domain)"
  shows "is_or_under c r"
proof -
  let ?ls = "split_on (CHR ''.'') domain" and ?n = "RegistrableWalkFloor L domain"
  note floor = RegistrableWalkFloor_drop[OF assms(1,2,3)]
  obtain i where i: "i \<le> ?n" "c = join_with ''.'' (drop i ?ls)"
    using assms(4) in_walk_candidates by blast
  have "?n < length ?ls" using floor by (metis drop_eq_Nil not_le split_on_nonempty)
  from join_drop_is_or_under[OF this i(1)] show ?thesis unfolding floor i(2) by simp
qed

text \<open>A domain with no registrable label is asked about verbatim only.\<close>

lemma walk_candidates_no_registrable:
  assumes "RegistrableWalkFloor L domain = 0"
  shows "walk_candidates L domain = [domain]"
proof -
  have "min (length (split_on (CHR ''.'') domain)) 1 = 1"
    by (cases "split_on (CHR ''.'') domain") simp_all
  then show ?thesis by (simp add: walk_candidates_def Let_def assms)
qed

end
