(* ===== verification/WhitelistStore.thy ===== *)
theory WhitelistStore
  imports ParentWalk EnvConfig
begin

text \<open>
  The durable allow list of \<^verbatim>\<open>internal/store/whitelist.go\<close>: the table \<^verbatim>\<open>whitelist_domains\<close> with a
  primary key, and the row of \<^verbatim>\<open>system_config\<close> that carries its revision. A statement can fail: the
  argument \<open>fault\<close> says at which stage the driver reports an error. A transaction works on a copy of
  the tables that replaces them at the commit, and every early return drops it
  (\<^verbatim>\<open>defer tx.Rollback()\<close>). The environment supplies the two safety floors.
\<close>

section \<open>State\<close>

record wl_db =
  wl_enabled :: bool
  wl_rows :: "string list"
  wl_rev_row :: "string option"

datatype wl_stage =
    CountRows | BeginTx | DeleteRows | InsertChunk nat | ReadRevision | WriteRevision | CommitTx
  | ReadConfig | StreamRows

datatype wl_error =
    StoreDisabled
  | SqlError wl_stage
  | BelowAbsoluteFloor
  | BelowRelativeFloor
  | BadRevision string

definition whitelistInsertChunkSize :: nat where
  "whitelistInsertChunkSize = 500"

section \<open>Floors\<close>

definition whitelistMinAbsolute :: "env \<Rightarrow> int" where
  "whitelistMinAbsolute getenv =
     (let value = env_Int getenv ''SAFE_ZONE_WHITELIST_MIN_ENTRIES'' 100
      in if value < 0 then 0 else value)"

definition whitelistMinRelative :: "env \<Rightarrow> int" where
  "whitelistMinRelative getenv =
     (let value = env_Int getenv ''SAFE_ZONE_WHITELIST_MIN_PERCENT'' 50
      in if value < 0 then 0 else if value > 100 then 100 else value)"

section \<open>Reads\<close>

definition GetWhitelistCount :: "(wl_stage \<Rightarrow> bool) \<Rightarrow> wl_db \<Rightarrow> wl_error + int" where
  "GetWhitelistCount fault db =
     (if \<not> wl_enabled db then Inl StoreDisabled
      else if fault CountRows then Inl (SqlError CountRows)
      else Inr (int (length (wl_rows db))))"

text \<open>The value of a revision row: a missing or blank row is revision zero.\<close>

definition read_row :: "string option \<Rightarrow> wl_error + int" where
  "read_row row =
     (let raw = trim_space (case row of None \<Rightarrow> [] | Some v \<Rightarrow> v) in
      if raw = [] then Inr 0
      else case Atoi raw of
        None \<Rightarrow> Inl (BadRevision raw)
      | Some revision \<Rightarrow> if revision < 0 then Inl (BadRevision raw) else Inr revision)"

definition GetWhitelistRevision :: "(wl_stage \<Rightarrow> bool) \<Rightarrow> wl_db \<Rightarrow> wl_error + int" where
  "GetWhitelistRevision fault db =
     (if \<not> wl_enabled db then Inl StoreDisabled
      else if fault ReadConfig then Inl (SqlError ReadConfig)
      else read_row (wl_rev_row db))"

definition StreamWhitelist :: "(wl_stage \<Rightarrow> bool) \<Rightarrow> wl_db \<Rightarrow> wl_error + string list" where
  "StreamWhitelist fault db =
     (if \<not> wl_enabled db then Inr []
      else if fault StreamRows then Inl (SqlError StreamRows)
      else Inr (wl_rows db))"

definition IsDomainWhitelisted :: "(wl_stage \<Rightarrow> bool) \<Rightarrow> wl_db \<Rightarrow> string \<Rightarrow> wl_error + bool" where
  "IsDomainWhitelisted fault db domain =
     (if \<not> wl_enabled db then Inl StoreDisabled
      else if fault StreamRows then Inl (SqlError StreamRows)
      else Inr (domain \<in> set (wl_rows db)))"

section \<open>Replacing the set\<close>

text \<open>\<^verbatim>\<open>INSERT OR IGNORE\<close> on a primary key: empty domains are not bound, present ones are ignored.\<close>

definition insert_rows :: "string list \<Rightarrow> string list \<Rightarrow> string list" where
  "insert_rows rows ds = foldl (\<lambda>rs d. if d = [] \<or> d \<in> set rs then rs else rs @ [d]) rows ds"

function insert_chunks ::
  "(wl_stage \<Rightarrow> bool) \<Rightarrow> string list \<Rightarrow> nat \<Rightarrow> string list \<Rightarrow> wl_error + string list" where
  "insert_chunks fault accepted start rows =
     (if start < length accepted then
        (let chunk = take whitelistInsertChunkSize (drop start accepted) in
         if \<forall>d \<in> set chunk. d = [] then
           insert_chunks fault accepted (start + whitelistInsertChunkSize) rows
         else if fault (InsertChunk start) then Inl (SqlError (InsertChunk start))
         else insert_chunks fault accepted (start + whitelistInsertChunkSize) (insert_rows rows chunk))
      else Inr rows)"
  by auto
termination
  by (relation "measure (\<lambda>(fault, accepted, start, rows). length accepted - start)")
     (auto simp: whitelistInsertChunkSize_def)

declare insert_chunks.simps [simp del]

definition format_int :: "int \<Rightarrow> string" where
  "format_int n = (if n < 0 then ''-'' @ dec_string (nat (- n)) else dec_string (nat n))"

text \<open>
  Incrementing a revision row inside a transaction, the body that \<^verbatim>\<open>bumpWhitelistRevision\<close> and
  \<^verbatim>\<open>bumpClientMappingsRevision\<close> share: a missing row counts as zero, a corrupt one is an error.
\<close>

definition bump_row :: "bool \<Rightarrow> bool \<Rightarrow> string option \<Rightarrow> wl_error + int \<times> string" where
  "bump_row read_fails write_fails row =
     (if read_fails then Inl (SqlError ReadRevision)
      else
        (let write = (\<lambda>current.
               if write_fails then Inl (SqlError WriteRevision)
               else (let next = wrap64 (current + 1) in Inr (next, format_int next)))
         in case row of
              None \<Rightarrow> write 0
            | Some raw \<Rightarrow>
                (case Atoi (trim_space raw) of
                   None \<Rightarrow> Inl (BadRevision raw)
                 | Some current \<Rightarrow> if current < 0 then Inl (BadRevision raw) else write current)))"

definition bumpWhitelistRevision ::
  "(wl_stage \<Rightarrow> bool) \<Rightarrow> string option \<Rightarrow> wl_error + int \<times> string" where
  "bumpWhitelistRevision fault row = bump_row (fault ReadRevision) (fault WriteRevision) row"

definition replace_rows ::
  "(wl_stage \<Rightarrow> bool) \<Rightarrow> wl_db \<Rightarrow> string list \<Rightarrow> wl_error option \<times> wl_db" where
  "replace_rows fault db accepted =
     (if fault BeginTx then (Some (SqlError BeginTx), db)
      else if fault DeleteRows then (Some (SqlError DeleteRows), db)
      else case insert_chunks fault accepted 0 [] of
        Inl e \<Rightarrow> (Some e, db)
      | Inr rows \<Rightarrow>
          (case bumpWhitelistRevision fault (wl_rev_row db) of
             Inl e \<Rightarrow> (Some e, db)
           | Inr (next, raw) \<Rightarrow>
               if fault CommitTx then (Some (SqlError CommitTx), db)
               else (None, db\<lparr>wl_rows := rows, wl_rev_row := Some raw\<rparr>)))"

definition updateWhitelist ::
  "libs \<Rightarrow> env \<Rightarrow> (wl_stage \<Rightarrow> bool) \<Rightarrow> wl_db \<Rightarrow> string list \<Rightarrow> bool \<Rightarrow> wl_error option \<times> wl_db" where
  "updateWhitelist L getenv fault db domains enforceFloor =
     (if \<not> wl_enabled db then (Some StoreDisabled, db)
      else
        (let accepted = filter (IsRegistrableDomain L) domains in
         case GetWhitelistCount fault db of
           Inl e \<Rightarrow> (Some e, db)
         | Inr previous \<Rightarrow>
             if enforceFloor \<and> previous > 0 \<and> int (length accepted) < whitelistMinAbsolute getenv
             then (Some BelowAbsoluteFloor, db)
             else if enforceFloor \<and> previous > 0 \<and>
                int (length accepted) * 100 < previous * whitelistMinRelative getenv
             then (Some BelowRelativeFloor, db)
             else replace_rows fault db accepted))"

definition UpdateWhitelist ::
  "libs \<Rightarrow> env \<Rightarrow> (wl_stage \<Rightarrow> bool) \<Rightarrow> wl_db \<Rightarrow> string list \<Rightarrow> wl_error option \<times> wl_db" where
  "UpdateWhitelist L getenv fault db domains = updateWhitelist L getenv fault db domains True"

definition RestoreWhitelist ::
  "libs \<Rightarrow> env \<Rightarrow> (wl_stage \<Rightarrow> bool) \<Rightarrow> wl_db \<Rightarrow> string list \<Rightarrow> wl_error option \<times> wl_db" where
  "RestoreWhitelist L getenv fault db domains = updateWhitelist L getenv fault db domains False"

section \<open>Inserted rows\<close>

lemma set_insert_rows: "set (insert_rows rows ds) = set rows \<union> {d \<in> set ds. d \<noteq> []}"
  unfolding insert_rows_def by (induction ds arbitrary: rows) auto

lemma distinct_insert_rows: "distinct rows \<Longrightarrow> distinct (insert_rows rows ds)"
  unfolding insert_rows_def by (induction ds arbitrary: rows) auto

lemma insert_chunks_Inr:
  "insert_chunks fault accepted start rows = Inr rows' \<Longrightarrow>
     set rows' = set rows \<union> {d \<in> set (drop start accepted). d \<noteq> []} \<and>
     (distinct rows \<longrightarrow> distinct rows')"
proof (induction fault accepted start rows rule: insert_chunks.induct)
  case (1 fault accepted start rows)
  let ?n = whitelistInsertChunkSize
  let ?chunk = "take ?n (drop start accepted)"
  have split: "set (drop start accepted) = set ?chunk \<union> set (drop (start + ?n) accepted)"
    by (metis append_take_drop_id drop_drop add.commute set_append)
  show ?case
  proof (cases "start < length accepted")
    case True
    show ?thesis
    proof (cases "\<forall>d \<in> set ?chunk. d = []")
      case empty: True
      have "insert_chunks fault accepted (start + ?n) rows = Inr rows'"
        using "1.prems" True empty by (simp add: insert_chunks.simps[of fault accepted start rows] Let_def)
      from "1.IH"(1)[OF True refl empty this] empty show ?thesis unfolding split by auto
    next
      case nonempty: False
      have nf: "\<not> fault (InsertChunk start)"
        and rec: "insert_chunks fault accepted (start + ?n) (insert_rows rows ?chunk) = Inr rows'"
        using "1.prems" True nonempty
        by (auto simp: insert_chunks.simps[of fault accepted start rows] Let_def split: if_splits)
      from "1.IH"(2)[OF True refl nonempty nf rec] show ?thesis
        unfolding split by (auto simp: set_insert_rows distinct_insert_rows)
    qed
  next
    case False
    with "1.prems" show ?thesis by (simp add: insert_chunks.simps[of fault accepted start rows])
  qed
qed

lemma insert_chunks_no_fault:
  "\<forall>s. \<not> fault (InsertChunk s) \<Longrightarrow> \<exists>rows'. insert_chunks fault accepted start rows = Inr rows'"
proof (induction fault accepted start rows rule: insert_chunks.induct)
  case (1 fault accepted start rows)
  show ?case
    using 1 by (subst insert_chunks.simps) (auto simp: Let_def)
qed

section \<open>The revision counter\<close>

lemma dec_string_digits: "list_all is_digit (dec_string n) \<and> dec_string n \<noteq> []"
proof (induction n rule: dec_string.induct)
  case (1 n)
  have "is_digit (char_of (48 + k))" if "k < 10" for k :: nat
    using that by (simp add: is_digit_def)
  with 1 show ?case by (subst (1 2) dec_string.simps) simp
qed

lemma dec_value_dec_string: "dec_value (dec_string n) = int n"
proof (induction n rule: dec_string.induct)
  case (1 n)
  have digit: "digit_val (char_of (48 + k)) = int k" if "k < 10" for k :: nat
    using that by (simp add: digit_val_def)
  show ?case
  proof (cases "n < 10")
    case True
    then show ?thesis by (subst dec_string.simps) (simp add: dec_value_def digit)
  next
    case False
    then have "dec_value (dec_string n) = 10 * dec_value (dec_string (n div 10)) + int (n mod 10)"
      by (subst dec_string.simps) (simp add: dec_value_def digit)
    with 1[OF False] show ?thesis by (simp add: zdiv_int zmod_int)
  qed
qed

lemma is_digit_no_sign: "is_digit c \<Longrightarrow> c \<noteq> CHR ''-'' \<and> c \<noteq> CHR ''+'' \<and> \<not> is_space c"
  by (auto simp: is_digit_def is_space_def byte_def)

lemma digits_trimmed:
  assumes "list_all is_digit s"
  shows "trim_space s = s"
  unfolding trim_space_def
proof (rule trim_by_id)
  show "s = [] \<or> \<not> is_space (hd s) \<and> \<not> is_space (last s)"
    using assms by (metis hd_in_set is_digit_no_sign last_in_set list_all_iff)
qed

lemma Atoi_format_int:
  assumes "0 \<le> n" "n < 2 ^ 63"
  shows "Atoi (trim_space (format_int n)) = Some n" "trim_space (format_int n) \<noteq> []"
proof -
  let ?s = "dec_string (nat n)"
  have fmt: "trim_space (format_int n) = ?s"
    using assms dec_string_digits[of "nat n"] by (simp add: format_int_def digits_trimmed)
  have ds: "list_all is_digit ?s" "?s \<noteq> []" using dec_string_digits by auto
  then have "is_digit (hd ?s)" by (cases "dec_string (nat n)") auto
  then have sign: "hd ?s \<noteq> CHR ''-''" "hd ?s \<noteq> CHR ''+''" by (simp_all add: is_digit_no_sign)
  show "Atoi (trim_space (format_int n)) = Some n"
    using assms ds sign by (simp add: fmt Atoi_def Let_def dec_value_dec_string)
  show "trim_space (format_int n) \<noteq> []" using fmt ds by simp
qed

lemma Atoi_bounds: "Atoi s = Some n \<Longrightarrow> n < 2 ^ 63"
  by (auto simp: Atoi_def Let_def split: if_splits)

lemma Atoi_negative:
  assumes "n < 0"
  shows "Atoi (trim_space (format_int n)) = None \<or> (\<exists>k < 0. Atoi (trim_space (format_int n)) = Some k)"
    "trim_space (format_int n) \<noteq> []"
proof -
  let ?d = "dec_string (nat (- n))"
  have d: "list_all is_digit ?d" "?d \<noteq> []" using dec_string_digits by auto
  have "is_digit (last ?d)" using d by (metis last_in_set list_all_iff)
  then have sp: "\<not> is_space (last ?d)" by (simp add: is_digit_no_sign)
  have "\<not> is_space (CHR ''-'')" by (simp add: is_space_def byte_def)
  note sp = sp this
  have tr: "trim_space (''-'' @ ?d) = ''-'' @ ?d"
    unfolding trim_space_def using d(2) sp by (intro trim_by_id) auto
  then have fmt: "trim_space (format_int n) = CHR ''-'' # ?d"
    using assms by (simp add: format_int_def)
  have "dec_value ?d > 0" using assms by (simp add: dec_value_dec_string)
  then show "Atoi (trim_space (format_int n)) = None \<or>
      (\<exists>k < 0. Atoi (trim_space (format_int n)) = Some k)"
    by (auto simp: fmt Atoi_def Let_def)
  show "trim_space (format_int n) \<noteq> []" using fmt by simp
qed

abbreviation no_fault :: "wl_stage \<Rightarrow> bool" where
  "no_fault \<equiv> (\<lambda>_. False)"

lemma bump_row_readable:
  assumes "bump_row rfail wfail row = Inr (next, raw)"
  shows "\<exists>n. read_row row = Inr n \<and> next = wrap64 (n + 1) \<and> raw = format_int next \<and> 0 \<le> n \<and> n < 2 ^ 63"
proof (cases row)
  case None
  with assms show ?thesis by (auto simp: bump_row_def read_row_def Let_def split: if_splits)
next
  case (Some v)
  with assms obtain n where n: "Atoi (trim_space v) = Some n" "0 \<le> n" "next = wrap64 (n + 1)"
    "raw = format_int next"
    by (auto simp: bump_row_def Let_def split: if_splits option.splits)
  have "trim_space v \<noteq> []" using n(1) by (auto simp: Atoi_def)
  with n Some Atoi_bounds[OF n(1)] show ?thesis by (auto simp: read_row_def Let_def)
qed

lemma read_row_bumped:
  assumes "0 \<le> n" "n < 2 ^ 63"
  shows "if n + 1 < 2 ^ 63 then read_row (Some (format_int (wrap64 (n + 1)))) = Inr (n + 1)
     else \<exists>e. read_row (Some (format_int (wrap64 (n + 1)))) = Inl e"
proof (cases "n + 1 < 2 ^ 63")
  case True
  then have "wrap64 (n + 1) = n + 1" using assms(1) by (simp add: wrap64_def)
  with True assms Atoi_format_int[of "n + 1"] show ?thesis by (simp add: read_row_def Let_def)
next
  case False
  then have "n + 1 = 2 ^ 63" using assms(2) by simp
  then have "wrap64 (n + 1) < 0" by (simp add: wrap64_def)
  with False Atoi_negative[of "wrap64 (n + 1)"] show ?thesis by (auto simp: read_row_def Let_def)
qed

lemma bump_readable:
  assumes "bumpWhitelistRevision fault (wl_rev_row db) = Inr (next, raw)" "wl_enabled db"
  shows "\<exists>n. GetWhitelistRevision no_fault db = Inr n \<and> next = wrap64 (n + 1) \<and>
     raw = format_int next \<and> 0 \<le> n \<and> n < 2 ^ 63"
  using assms bump_row_readable by (simp add: bumpWhitelistRevision_def GetWhitelistRevision_def)

lemma read_bumped:
  assumes "wl_enabled db" "wl_rev_row db = Some (format_int (wrap64 (n + 1)))" "0 \<le> n" "n < 2 ^ 63"
  shows "if n + 1 < 2 ^ 63 then GetWhitelistRevision no_fault db = Inr (n + 1)
     else \<exists>e. GetWhitelistRevision no_fault db = Inl e"
  using assms read_row_bumped[OF assms(3,4)] by (simp add: GetWhitelistRevision_def)

lemma replace_rows_success:
  assumes "replace_rows fault db accepted = (None, db')" "wl_enabled db"
  shows "\<exists>n. GetWhitelistRevision no_fault db = Inr n \<and> 0 \<le> n \<and>
     (if n + 1 < 2 ^ 63 then GetWhitelistRevision no_fault db' = Inr (n + 1)
      else \<exists>e. GetWhitelistRevision no_fault db' = Inl e) \<and>
     distinct (wl_rows db') \<and> set (wl_rows db') = {d \<in> set accepted. d \<noteq> []} \<and> wl_enabled db'"
proof -
  obtain rows nxt raw where ins: "insert_chunks fault accepted 0 [] = Inr rows"
    and bump: "bumpWhitelistRevision fault (wl_rev_row db) = Inr (nxt, raw)"
    and db': "db' = db\<lparr>wl_rows := rows, wl_rev_row := Some raw\<rparr>"
    using assms(1) by (auto simp: replace_rows_def split: if_splits sum.splits)
  from bump_readable[OF bump assms(2)] obtain n where n: "GetWhitelistRevision no_fault db = Inr n"
    "nxt = wrap64 (n + 1)" "raw = format_int nxt" "0 \<le> n" "n < 2 ^ 63" by blast
  show ?thesis
    using n read_bumped[of db' n] insert_chunks_Inr[OF ins] assms(2) by (auto simp: db')
qed

lemma replace_rows_error: "replace_rows fault db accepted = (Some e, db') \<Longrightarrow> db' = db"
  by (auto simp: replace_rows_def split: if_splits sum.splits)

lemma updateWhitelist_error:
  "updateWhitelist L getenv fault db domains fl = (Some e, db') \<Longrightarrow> db' = db"
  by (auto simp: updateWhitelist_def Let_def split: if_splits sum.splits dest: replace_rows_error)

lemma registrable_nonempty: "IsRegistrableDomain L d \<Longrightarrow> d \<noteq> []"
  by (auto simp: IsRegistrableDomain_def NormalizeDomain_def)

lemma updateWhitelist_success:
  assumes "updateWhitelist L getenv fault db domains fl = (None, db')"
  shows "replace_rows fault db (filter (IsRegistrableDomain L) domains) = (None, db')"
    and "wl_enabled db"
    and "fl \<Longrightarrow> wl_rows db \<noteq> [] \<Longrightarrow>
      whitelistMinAbsolute getenv \<le> int (length (filter (IsRegistrableDomain L) domains)) \<and>
      int (length (wl_rows db)) * whitelistMinRelative getenv
        \<le> int (length (filter (IsRegistrableDomain L) domains)) * 100"
  using assms
  by (auto simp: updateWhitelist_def GetWhitelistCount_def Let_def split: if_splits sum.splits)

section \<open>Histories of the store\<close>

inductive wl_evolves :: "libs \<Rightarrow> env \<Rightarrow> wl_db \<Rightarrow> wl_db \<Rightarrow> bool" for L getenv where
  evolves_refl: "wl_evolves L getenv db db"
| evolves_step: "wl_evolves L getenv db db1 \<Longrightarrow>
    updateWhitelist L getenv fault db1 domains fl = (err, db2) \<Longrightarrow> wl_evolves L getenv db db2"

text \<open>
  As long as the revision is readable it never decreases, and two states of one history with the
  same revision hold the same rows. When the counter leaves the 64-bit range the stored value is
  negative, which every reader and every later replacement refuses.
\<close>

lemma wl_evolves_revision:
  assumes "wl_evolves L getenv db db'" "GetWhitelistRevision no_fault db = Inr n"
  shows "wl_enabled db' \<and> (\<forall>n'. GetWhitelistRevision no_fault db' = Inr n' \<longrightarrow>
      n \<le> n' \<and> (n = n' \<longrightarrow> wl_rows db' = wl_rows db))"
  using assms
proof (induction rule: wl_evolves.induct)
  case evolves_refl
  then show ?case by (auto simp: GetWhitelistRevision_def split: if_splits)
next
  case (evolves_step db db1 fault domains fl err db2)
  note IH = evolves_step.IH[OF evolves_step.prems]
  show ?case
  proof (cases err)
    case None
    note rep = updateWhitelist_success(1,2)[OF evolves_step.hyps(2)[unfolded None]]
    from replace_rows_success[OF rep] obtain m where m: "GetWhitelistRevision no_fault db1 = Inr m"
      "if m + 1 < 2 ^ 63 then GetWhitelistRevision no_fault db2 = Inr (m + 1)
       else \<exists>e. GetWhitelistRevision no_fault db2 = Inl e" "wl_enabled db2"
      by blast
    have "n \<le> m" using IH m(1) by simp
    with m(2,3) show ?thesis by (auto split: if_splits)
  next
    case (Some e)
    with evolves_step.hyps(2) updateWhitelist_error have "db2 = db1" by blast
    with IH show ?thesis by simp
  qed
qed

lemma wl_stuck:
  assumes "wl_evolves L getenv db db'" "GetWhitelistRevision no_fault db = Inl e"
  shows "db' = db"
  using assms
proof (induction rule: wl_evolves.induct)
  case (evolves_step db db1 fault domains fl err db2)
  then have eq: "db1 = db" by blast
  have "err \<noteq> None"
  proof
    assume "err = None"
    note suc = updateWhitelist_success(1,2)[OF evolves_step.hyps(2)[unfolded this]]
    from replace_rows_success[OF suc] evolves_step.prems eq show False by auto
  qed
  with evolves_step.hyps(2) updateWhitelist_error eq show ?case by blast
qed simp

end
