(* ===== verification/Bloom.thy ===== *)
theory Bloom
  imports GoStrings "HOL-Library.Word"
begin

unbundle bit_operations_syntax

text \<open>
  The Bloom filter of \<^verbatim>\<open>internal/risk/bloom.go\<close>: an FNV-1a hash split into two halves, double hashing
  on 64-bit words, and a bit array in a byte slice. The floating-point sizing formulas of
  \<^verbatim>\<open>NewBloomFilter\<close> (\<^verbatim>\<open>math.Log\<close>, \<^verbatim>\<open>math.Ceil\<close>, \<^verbatim>\<open>math.Round\<close>) are two functions of the record
  \<open>bloom_sizing\<close>, the number of bits and the number of hashes before alignment and clamping, so the
  theorems hold for every sizing. The locale \<open>membership_filter\<close> states what a filter promises to its
  client, and is interpreted on the operations modelled here.
\<close>

section \<open>The filter\<close>

record bloom_sizing =
  optimal_bits :: "int \<Rightarrow> rat \<Rightarrow> 64 word"
  optimal_hashes :: "64 word \<Rightarrow> int \<Rightarrow> 64 word"

record bloom =
  bf_m :: "64 word"
  bf_k :: "64 word"
  bf_bits :: "8 word list"

definition NewBloomFilter :: "bloom_sizing \<Rightarrow> int \<Rightarrow> rat \<Rightarrow> bloom" where
  "NewBloomFilter F n0 p0 =
     (let n = (if n0 \<le> 0 then 1000 else n0);
          p = (if p0 \<le> 0 \<or> 1 \<le> p0 then 1 / 100 else p0);
          m0 = optimal_bits F n p;
          m = (if m0 mod 8 \<noteq> 0 then (m0 div 8 + 1) * 8 else m0);
          k0 = optimal_hashes F m n;
          k = (if k0 < 1 then 1 else k0)
      in \<lparr>bf_m = m, bf_k = k, bf_bits = replicate (unat (m div 8)) 0\<rparr>)"

definition fnv_offset64 :: "64 word" where
  "fnv_offset64 = 14695981039346656037"

definition fnv_prime64 :: "64 word" where
  "fnv_prime64 = 1099511628211"

definition fnv64a :: "string \<Rightarrow> 64 word" where
  "fnv64a data = foldl (\<lambda>h c. (h XOR of_nat (byte c)) * fnv_prime64) fnv_offset64 data"

definition bloom_hash :: "string \<Rightarrow> 32 word \<times> 32 word" where
  "bloom_hash data =
     (let sum = fnv64a data in (ucast (sum AND 0xffffffff), ucast (drop_bit 32 sum)))"

text \<open>The index of the i-th probe, \<^verbatim>\<open>(uint64(h1) + i*uint64(h2)) % bf.m\<close>, in wrapping arithmetic.\<close>

definition probe :: "bloom \<Rightarrow> string \<Rightarrow> nat \<Rightarrow> 64 word" where
  "probe bf data i =
     (let (h1, h2) = bloom_hash data in (ucast h1 + of_nat i * ucast h2) mod bf_m bf)"

definition set_bit_at :: "8 word list \<Rightarrow> 64 word \<Rightarrow> 8 word list" where
  "set_bit_at bits idx =
     (let byteIdx = unat (idx div 8); bitIdx = unat (idx mod 8)
      in bits[byteIdx := (bits ! byteIdx) OR push_bit bitIdx 1])"

definition bit_at :: "8 word list \<Rightarrow> 64 word \<Rightarrow> bool" where
  "bit_at bits idx \<longleftrightarrow>
     (let byteIdx = unat (idx div 8); bitIdx = unat (idx mod 8)
      in (bits ! byteIdx) AND push_bit bitIdx 1 \<noteq> 0)"

definition bloom_Add :: "bloom \<Rightarrow> string \<Rightarrow> bloom" where
  "bloom_Add bf data =
     (if bf_bits bf = [] then bf
      else bf\<lparr>bf_bits := foldl (\<lambda>bits i. set_bit_at bits (probe bf data i)) (bf_bits bf)
                            [0..<unat (bf_k bf)]\<rparr>)"

definition bloom_Test :: "bloom \<Rightarrow> string \<Rightarrow> bool" where
  "bloom_Test bf data =
     (if bf_bits bf = [] then False
      else list_all (\<lambda>i. bit_at (bf_bits bf) (probe bf data i)) [0..<unat (bf_k bf)])"

definition bloom_Info :: "bloom \<Rightarrow> 64 word \<times> 64 word" where
  "bloom_Info bf = (bf_m bf, bf_k bf)"

section \<open>Well-formed filters\<close>

text \<open>The byte slice has one byte for every eight bits of m, so no probe indexes past it.\<close>

definition bloom_inv :: "bloom \<Rightarrow> bool" where
  "bloom_inv bf \<longleftrightarrow>
     bf_m bf mod 8 = 0 \<and> length (bf_bits bf) = unat (bf_m bf div 8) \<and> bf_bits bf \<noteq> []"

lemma align8: "((x :: 64 word) div 8 + 1) * 8 mod 8 = 0"
proof -
  have "take_bit 3 (push_bit 3 (x div 8 + 1)) = 0"
    by (rule bit_word_eqI) (simp add: bit_take_bit_iff bit_push_bit_iff)
  then show ?thesis by (simp add: take_bit_eq_mod push_bit_eq_mult)
qed

lemma word_div8_unat: "unat ((x :: 64 word) div 8) = unat x div 8"
  by (simp add: unat_div)

lemma probe_less:
  assumes "bloom_inv bf"
  shows "unat (probe bf data i div 8) < length (bf_bits bf)"
proof -
  obtain w where pr: "probe bf data i = w mod bf_m bf"
    by (cases "bloom_hash data") (simp add: probe_def)
  have len: "length (bf_bits bf) = unat (bf_m bf) div 8" and ne: "unat (bf_m bf) div 8 > 0"
    using assms by (auto simp: bloom_inv_def word_div8_unat simp flip: length_greater_0_conv)
  have "unat (bf_m bf mod 8) = 0" using assms by (simp add: bloom_inv_def)
  then have m8: "unat (bf_m bf) mod 8 = 0" by (simp add: unat_mod)
  have "unat (w mod bf_m bf) < unat (bf_m bf)" using ne by (simp add: unat_mod)
  then have "unat (w mod bf_m bf) div 8 < unat (bf_m bf) div 8" using m8 by auto
  then show ?thesis by (simp add: pr len word_div8_unat)
qed

lemma length_set_bit_at [simp]: "length (set_bit_at bits idx) = length bits"
  by (simp add: set_bit_at_def Let_def)

lemma and_bit_iff: "(b :: 8 word) AND 2 ^ i \<noteq> 0 \<longleftrightarrow> bit b i"
proof -
  have "b AND 2 ^ i = (if bit b i then 2 ^ i else 0)"
    by (rule bit_word_eqI) (auto simp: bit_and_iff bit_exp_iff)
  moreover have "(2 :: 8 word) ^ i \<noteq> 0" if "bit b i"
    using bit_imp_le_length[OF that] by (simp add: exp_eq_zero_iff)
  ultimately show ?thesis by auto
qed

lemma bit_at_iff: "bit_at bits idx \<longleftrightarrow> bit (bits ! unat (idx div 8)) (unat (idx mod 8))"
  by (simp add: bit_at_def Let_def and_bit_iff)

lemma mod8_less: "unat ((idx :: 64 word) mod 8) < 8"
  by (simp add: unat_mod)

lemma bit_at_set_bit_at_self:
  assumes "unat (idx div 8) < length bits"
  shows "bit_at (set_bit_at bits idx) idx"
  using assms mod8_less[of idx]
  by (simp add: bit_at_iff set_bit_at_def Let_def bit_or_iff bit_exp_iff possible_bit_word)

lemma bit_at_set_bit_at_mono:
  assumes "bit_at bits j"
  shows "bit_at (set_bit_at bits idx) j"
proof (cases "unat (idx div 8) < length bits")
  case True
  with assms show ?thesis
    by (auto simp: bit_at_iff set_bit_at_def Let_def nth_list_update bit_or_iff)
next
  case False
  then have "set_bit_at bits idx = bits"
    by (simp add: set_bit_at_def Let_def list_update_beyond)
  with assms show ?thesis by simp
qed

lemma length_set_bits: "length (foldl (\<lambda>bits i. set_bit_at bits (f i)) bits is) = length bits"
  by (induction "is" arbitrary: bits) simp_all

lemma set_bits_mono:
  "bit_at bits j \<Longrightarrow> bit_at (foldl (\<lambda>bits i. set_bit_at bits (f i)) bits is) j"
  by (induction "is" arbitrary: bits) (simp_all add: bit_at_set_bit_at_mono)

lemma set_bits_sets:
  "\<forall>i \<in> set is. unat (f i div 8) < length bits \<Longrightarrow> i \<in> set is \<Longrightarrow>
   bit_at (foldl (\<lambda>bits i. set_bit_at bits (f i)) bits is) (f i)"
proof (induction "is" arbitrary: bits)
  case (Cons j js)
  then show ?case
    by (cases "i = j") (auto simp: set_bits_mono bit_at_set_bit_at_self)
qed simp

lemma probe_bits_update [simp]: "probe (bf\<lparr>bf_bits := bs\<rparr>) data i = probe bf data i"
  by (simp add: probe_def)

lemma bloom_Add_inv: "bloom_inv bf \<Longrightarrow> bloom_inv (bloom_Add bf data)"
  using length_set_bits[of "probe bf data" "bf_bits bf" "[0..<unat (bf_k bf)]"]
  by (auto simp: bloom_inv_def bloom_Add_def)

lemma bloom_Add_mono:
  assumes "bloom_inv bf" "bloom_Test bf y"
  shows "bloom_Test (bloom_Add bf x) y"
proof -
  have "bf_bits (bloom_Add bf x) \<noteq> []" using bloom_Add_inv[OF assms(1)] by (simp add: bloom_inv_def)
  with assms show ?thesis
    by (auto simp: bloom_Test_def bloom_Add_def list_all_iff set_bits_mono split: if_splits)
qed

lemma bloom_Add_Test:
  assumes "bloom_inv bf"
  shows "bloom_Test (bloom_Add bf x) x"
proof -
  have "bf_bits (bloom_Add bf x) \<noteq> []" using bloom_Add_inv[OF assms] by (simp add: bloom_inv_def)
  moreover have "\<forall>i \<in> set [0..<unat (bf_k bf)]. unat (probe bf x i div 8) < length (bf_bits bf)"
    by (simp add: probe_less assms)
  ultimately show ?thesis
    using assms set_bits_sets[of "[0..<unat (bf_k bf)]" "probe bf x" "bf_bits bf"]
    by (auto simp: bloom_Test_def bloom_Add_def list_all_iff bloom_inv_def)
qed

lemma NewBloomFilter_inv:
  assumes "8 \<le> bf_m (NewBloomFilter F n p)"
  shows "bloom_inv (NewBloomFilter F n p)"
proof -
  let ?bf = "NewBloomFilter F n p"
  have "bf_m ?bf mod 8 = 0"
    using align8 by (simp add: NewBloomFilter_def Let_def del: distrib_right_numeral)
  moreover have "bf_bits ?bf = replicate (unat (bf_m ?bf div 8)) 0"
    by (simp add: NewBloomFilter_def Let_def)
  moreover have "unat (bf_m ?bf div 8) > 0"
    using assms by (simp add: word_div8_unat word_le_nat_alt)
  ultimately show ?thesis by (auto simp: bloom_inv_def)
qed

section \<open>What a filter promises\<close>

locale membership_filter =
  fixes add :: "'f \<Rightarrow> 'a \<Rightarrow> 'f"
    and test :: "'f \<Rightarrow> 'a \<Rightarrow> bool"
    and usable :: "'f \<Rightarrow> bool"
  assumes usable_add: "usable f \<Longrightarrow> usable (add f x)"
    and test_added: "usable f \<Longrightarrow> test (add f x) x"
    and test_kept: "usable f \<Longrightarrow> test f y \<Longrightarrow> test (add f x) y"
begin

lemma usable_foldl: "usable f \<Longrightarrow> usable (foldl add f xs)"
  by (induction xs arbitrary: f) (simp_all add: usable_add)

lemma kept_foldl: "usable f \<Longrightarrow> test f y \<Longrightarrow> test (foldl add f xs) y"
  by (induction xs arbitrary: f) (simp_all add: usable_add test_kept)

lemma no_false_negative: "usable f \<Longrightarrow> x \<in> set xs \<Longrightarrow> test (foldl add f xs) x"
  by (induction xs arbitrary: f) (auto simp: usable_add test_added kept_foldl)

end

interpretation bloom_set: membership_filter bloom_Add bloom_Test bloom_inv
  by unfold_locales (simp_all add: bloom_Add_inv bloom_Add_Test bloom_Add_mono)

end
