(* ===== verification/Whitelist.thy ===== *)
theory Whitelist
  imports WhitelistStore Bloom
begin

text \<open>
  The in-process allow list of \<^verbatim>\<open>internal/risk/whitelist.go\<close>: a Bloom filter for the negative fast path
  and a sorted, deduplicated slice for exact answers, rebuilt wholesale by a load from the store or
  from a file, and the reconciliation with the store of \<^verbatim>\<open>internal/risk/config_reload.go\<close>. A load
  reads the revision, the row count and the rows at three moments, and another process may replace
  the table between them, so it takes one state of the store for each read. \<^verbatim>\<open>ctx.Err()\<close> at each
  step of a lookup is the argument \<open>cancelled\<close>.
\<close>

section \<open>Building the index\<close>

text \<open>
  The deduplication writes into the slice it reads (\<^verbatim>\<open>kept := exact[:0]\<close>), so the model keeps one
  array with a read index and a write index.
\<close>

function compact_loop :: "string list \<Rightarrow> nat \<Rightarrow> nat \<Rightarrow> string list" where
  "compact_loop arr i j =
     (if i < length arr then
        (if i > 0 \<and> arr ! i = arr ! (i - 1) then compact_loop arr (i + 1) j
         else compact_loop (arr[j := arr ! i]) (i + 1) (j + 1))
      else take j arr)"
  by auto
termination by (relation "measure (\<lambda>(arr, i, j). length arr - i)") auto

declare compact_loop.simps [simp del]

definition whitelistFPR :: rat where
  "whitelistFPR = 1 / 100"

definition buildIndex :: "bloom_sizing \<Rightarrow> string list \<Rightarrow> bloom option \<times> string list" where
  "buildIndex F domains =
     (let exact = compact_loop (sort domains) 0 0;
          bf = (if exact \<noteq> []
                then Some (foldl bloom_Add (NewBloomFilter F (int (length exact)) whitelistFPR) exact)
                else None)
      in (bf, exact))"

section \<open>Searching the index\<close>

text \<open>\<^verbatim>\<open>sort.SearchStrings\<close>: the first index whose element is not below the key.\<close>

function search_loop :: "string list \<Rightarrow> string \<Rightarrow> nat \<Rightarrow> nat \<Rightarrow> nat" where
  "search_loop a x i j =
     (if i < j then
        (let h = (i + j) div 2 in if a ! h < x then search_loop a x (h + 1) j else search_loop a x i h)
      else i)"
  by auto
termination by (relation "measure (\<lambda>(a, x, i, j). j - i)") auto

declare search_loop.simps [simp del]

definition SearchStrings :: "string list \<Rightarrow> string \<Rightarrow> nat" where
  "SearchStrings a x = search_loop a x 0 (length a)"

definition containsDomain :: "string list \<Rightarrow> string \<Rightarrow> bool" where
  "containsDomain a domain = (let i = SearchStrings a domain in i < length a \<and> a ! i = domain)"

record whitelist =
  w_bloom :: "bloom option"
  w_exact :: "string list"
  w_loadErr :: bool
  w_revision :: int

definition NewWhitelist :: whitelist where
  "NewWhitelist = \<lparr>w_bloom = None, w_exact = [], w_loadErr = False, w_revision = 0\<rparr>"

fun allow_loop ::
  "bloom option \<Rightarrow> string list \<Rightarrow> (nat \<Rightarrow> bool) \<Rightarrow> nat \<Rightarrow> string list \<Rightarrow> bool" where
  "allow_loop bf exact cancelled i [] = False"
| "allow_loop bf exact cancelled i (candidate # cs) =
     (if cancelled i then False
      else if candidate = [] then allow_loop bf exact cancelled (i + 1) cs
      else if (case bf of None \<Rightarrow> False | Some f \<Rightarrow> \<not> bloom_Test f candidate)
        then allow_loop bf exact cancelled (i + 1) cs
      else if containsDomain exact candidate then True
      else allow_loop bf exact cancelled (i + 1) cs)"

definition IsAllowed :: "libs \<Rightarrow> whitelist \<Rightarrow> (nat \<Rightarrow> bool) \<Rightarrow> string \<Rightarrow> bool" where
  "IsAllowed L w cancelled domain =
     allow_loop (w_bloom w) (w_exact w) cancelled 0 (walk_candidates L domain)"

definition ContainsExactIndex :: "whitelist \<Rightarrow> string \<Rightarrow> bool" where
  "ContainsExactIndex w domain = containsDomain (w_exact w) domain"

definition ExactCount :: "whitelist \<Rightarrow> nat" where
  "ExactCount w = length (w_exact w)"

section \<open>Loading\<close>

definition publish :: "whitelist \<Rightarrow> bloom option \<times> string list \<Rightarrow> whitelist" where
  "publish w idx = w\<lparr>w_bloom := fst idx, w_exact := snd idx\<rparr>"

definition publishWithRevision :: "whitelist \<Rightarrow> bloom option \<times> string list \<Rightarrow> int \<Rightarrow> whitelist" where
  "publishWithRevision w idx revision =
     w\<lparr>w_bloom := fst idx, w_exact := snd idx, w_revision := revision\<rparr>"

definition recordLoad :: "whitelist \<Rightarrow> bool \<Rightarrow> whitelist" where
  "recordLoad w failed = w\<lparr>w_loadErr := failed\<rparr>"

text \<open>The three states of the store that one load sees, and where its statements fail.\<close>

record load_env =
  at_revision :: wl_db
  at_count :: wl_db
  at_stream :: wl_db
  load_fault :: "wl_stage \<Rightarrow> bool"

definition still_store :: "wl_db \<Rightarrow> (wl_stage \<Rightarrow> bool) \<Rightarrow> load_env" where
  "still_store db fault = \<lparr>at_revision = db, at_count = db, at_stream = db, load_fault = fault\<rparr>"

definition loadFromDB :: "bloom_sizing \<Rightarrow> load_env option \<Rightarrow> whitelist \<Rightarrow> wl_error option \<times> whitelist" where
  "loadFromDB F dbs w =
     (case dbs of
        None \<Rightarrow> (None, w)
      | Some e \<Rightarrow>
          if \<not> wl_enabled (at_revision e) then (None, w)
          else case GetWhitelistRevision (load_fault e) (at_revision e) of
            Inl err \<Rightarrow> (Some err, w)
          | Inr revision \<Rightarrow>
              (case GetWhitelistCount (load_fault e) (at_count e) of
                 Inl err \<Rightarrow> (Some err, w)
               | Inr count \<Rightarrow>
                   if count = 0 then
                     (if ExactCount w > 0 then (None, w)
                      else (None, publishWithRevision w (None, []) revision))
                   else case StreamWhitelist (load_fault e) (at_stream e) of
                     Inl err \<Rightarrow> (Some err, w)
                   | Inr domains \<Rightarrow> (None, publishWithRevision w (buildIndex F domains) revision)))"

definition LoadFromDB :: "bloom_sizing \<Rightarrow> load_env option \<Rightarrow> whitelist \<Rightarrow> wl_error option \<times> whitelist" where
  "LoadFromDB F dbs w = (let (err, w') = loadFromDB F dbs w in (err, recordLoad w' (err \<noteq> None)))"

text \<open>
  A file load: the file is missing, cannot be opened, or yields the lines of \<^verbatim>\<open>bufio.Scanner\<close> and
  whether the scanner stopped with an error.
\<close>

datatype file_result = FileMissing | FileUnreadable | FileLines "string list" bool

datatype file_error = NotFound | OpenError | ScanError | ImportError wl_error | ReloadError wl_error

fun file_domains :: "libs \<Rightarrow> string list \<Rightarrow> string list" where
  "file_domains L [] = []"
| "file_domains L (raw # lines) =
     (let line = trim_space raw in
      if line = [] \<or> has_prefix line ''#'' then file_domains L lines
      else
        (let parts = split_on (CHR '','') line;
             domain = (if length parts \<ge> 2 then parts ! 1 else parts ! 0)
         in case NormalizeDomain L domain of
              Inl e \<Rightarrow> file_domains L lines
            | Inr normalized \<Rightarrow>
                if normalized = [] \<or> \<not> IsRegistrableDomain L normalized then file_domains L lines
                else normalized # file_domains L lines))"

definition loadFromFile ::
  "libs \<Rightarrow> bloom_sizing \<Rightarrow> env \<Rightarrow> (wl_stage \<Rightarrow> bool) \<Rightarrow> (string \<Rightarrow> file_result) \<Rightarrow> string \<Rightarrow> wl_db option \<Rightarrow>
   whitelist \<Rightarrow> file_error option \<times> wl_db option \<times> whitelist" where
  "loadFromFile L F getenv fault open_within path db w =
     (if path = [] then (None, db, w)
      else case open_within path of
        FileMissing \<Rightarrow> (Some NotFound, db, w)
      | FileUnreadable \<Rightarrow> (Some OpenError, db, w)
      | FileLines lines scan_failed \<Rightarrow>
          (let domains = file_domains L lines in
           if scan_failed then (Some ScanError, db, w)
           else case db of
             Some d \<Rightarrow>
               if wl_enabled d then
                 (case UpdateWhitelist L getenv fault d domains of
                    (Some err, d') \<Rightarrow> (Some (ImportError err), Some d', w)
                  | (None, d') \<Rightarrow>
                      (let (err, w') = LoadFromDB F (Some (still_store d' fault)) w
                       in (map_option ReloadError err, Some d', w')))
               else (None, db, publish w (buildIndex F domains))
           | None \<Rightarrow> (None, db, publish w (buildIndex F domains))))"

definition LoadFromFile ::
  "libs \<Rightarrow> bloom_sizing \<Rightarrow> env \<Rightarrow> (wl_stage \<Rightarrow> bool) \<Rightarrow> (string \<Rightarrow> file_result) \<Rightarrow> string \<Rightarrow> wl_db option \<Rightarrow>
   whitelist \<Rightarrow> file_error option \<times> wl_db option \<times> whitelist" where
  "LoadFromFile L F getenv fault open_within path db w =
     (let (err, db', w') = loadFromFile L F getenv fault open_within path db w
      in (err, db', recordLoad w' (err \<noteq> None)))"

text \<open>
  \<^verbatim>\<open>reloadWhitelistFromStore\<close>, which the reconciler and the reload event share: the revision of the
  store is compared first, and a load runs only when it differs. The result is the old and the new
  revision and whether an index was applied.
\<close>

datatype reload_error = ReloadDisabled | ReloadRead wl_error | ReloadLoad wl_error

definition reloadWhitelistFromStore ::
  "bloom_sizing \<Rightarrow> wl_db \<Rightarrow> load_env \<Rightarrow> whitelist \<Rightarrow> (reload_error + int \<times> int \<times> bool) \<times> whitelist" where
  "reloadWhitelistFromStore F db e w =
     (if \<not> wl_enabled db then (Inl ReloadDisabled, w)
      else case GetWhitelistRevision (load_fault e) db of
        Inl err \<Rightarrow> (Inl (ReloadRead err), w)
      | Inr revision \<Rightarrow>
          if revision = w_revision w then (Inr (w_revision w, revision, False), w)
          else case LoadFromDB F (Some e) w of
            (Some err, w') \<Rightarrow> (Inl (ReloadLoad err), w')
          | (None, w') \<Rightarrow> (Inr (w_revision w, w_revision w', True), w'))"

section \<open>The deduplication\<close>

lemma remdups_adj_take_Suc:
  assumes "i < length xs"
  shows "remdups_adj (take (Suc i) xs) =
     (if i > 0 \<and> xs ! i = xs ! (i - 1) then remdups_adj (take i xs)
      else remdups_adj (take i xs) @ [xs ! i])"
proof (cases i)
  case 0
  with assms show ?thesis by (cases xs) auto
next
  case (Suc k)
  have "take (Suc i) xs = take k xs @ [xs ! k, xs ! i]" "take i xs = take k xs @ [xs ! k]"
    using assms Suc by (simp_all add: take_Suc_conv_app_nth)
  then show ?thesis by (simp add: remdups_adj_append_two Suc)
qed

lemma compact_loop_spec:
  "length arr = length xs \<Longrightarrow> j \<le> i \<Longrightarrow> i \<le> length xs \<Longrightarrow> drop i arr = drop i xs \<Longrightarrow>
   (i > 0 \<longrightarrow> arr ! (i - 1) = xs ! (i - 1)) \<Longrightarrow> take j arr = remdups_adj (take i xs) \<Longrightarrow>
   compact_loop arr i j = remdups_adj xs"
proof (induction arr i j rule: compact_loop.induct)
  case (1 arr i j)
  note prems = "1.prems"
  show ?case
  proof (cases "i < length arr")
    case True
    have cur: "arr ! i = xs ! i" using prems(1,4) True by (metis Cons_nth_drop_Suc list.inject)
    have rest: "drop (Suc i) arr = drop (Suc i) xs" using prems(4) by (metis drop_Suc tl_drop)
    note step = remdups_adj_take_Suc[of i xs]
    show ?thesis
    proof (cases "i > 0 \<and> arr ! i = arr ! (i - 1)")
      case dup: True
      have "compact_loop arr (i + 1) j = remdups_adj xs"
        using dup prems True cur rest step by (intro "1.IH"(1)) auto
      with True dup show ?thesis by (subst compact_loop.simps) simp
    next
      case new: False
      have "take (j + 1) (arr[j := arr ! i]) = remdups_adj (take (i + 1) xs)"
        using new prems True cur step by (auto simp: take_Suc_conv_app_nth)
      moreover have "arr[j := arr ! i] ! i = xs ! i"
        using prems(2) True cur by (cases "i = j") auto
      ultimately have "compact_loop (arr[j := arr ! i]) (i + 1) (j + 1) = remdups_adj xs"
        using new prems True rest by (intro "1.IH"(2)) auto
      with True new show ?thesis by (subst compact_loop.simps) (simp only: if_True if_False simp_thms)
    qed
  next
    case False
    with prems show ?thesis by (subst compact_loop.simps) simp
  qed
qed

lemma compact_sorted: "compact_loop xs 0 0 = remdups_adj xs"
  by (rule compact_loop_spec) auto

lemma strictly_sorted_remdups_adj:
  "sorted xs \<Longrightarrow> sorted_wrt (<) (remdups_adj (xs :: 'a :: linorder list))"
  by (induction xs rule: remdups_adj.induct) (auto simp: less_le)

lemma exact_of_buildIndex:
  "snd (buildIndex F domains) = sorted_list_of_set (set domains)"
proof -
  have "snd (buildIndex F domains) = remdups_adj (sort domains)"
    by (simp add: buildIndex_def Let_def compact_sorted)
  moreover have "sorted_wrt (<) (remdups_adj (sort domains))"
    by (simp add: strictly_sorted_remdups_adj)
  ultimately show ?thesis
    by (metis List.finite_set remdups_adj_set set_sort sorted_list_of_set.idem_if_sorted_distinct
        sorted_list_of_set_unique strict_sorted_iff)
qed

section \<open>The search\<close>

lemma search_loop_spec:
  "sorted a \<Longrightarrow> i \<le> j \<Longrightarrow> j \<le> length a \<Longrightarrow> (\<forall>k < i. a ! k < x) \<Longrightarrow> (\<forall>k. j \<le> k \<longrightarrow> k < length a \<longrightarrow> x \<le> a ! k) \<Longrightarrow>
    (\<forall>k < search_loop a x i j. a ! k < x) \<and> search_loop a x i j \<le> length a \<and>
    (\<forall>k. search_loop a x i j \<le> k \<longrightarrow> k < length a \<longrightarrow> x \<le> a ! k)"
proof (induction a x i j rule: search_loop.induct)
  case (1 a x i j)
  let ?h = "(i + j) div 2"
  have "sorted a" by (fact "1.prems"(1))
  show ?case
  proof (cases "i < j")
    case True
    then have h: "i \<le> ?h" "?h < j" by auto
    have sl: "search_loop a x i j =
        (if a ! ?h < x then search_loop a x (?h + 1) j else search_loop a x i ?h)"
      using True by (subst search_loop.simps) (simp add: Let_def)
    show ?thesis
    proof (cases "a ! ?h < x")
      case lt: True
      have "a ! k < x" if "k < ?h + 1" for k
        using lt h "1.prems"(2,3) that sorted_nth_mono[OF \<open>sorted a\<close>, of k ?h]
        by (auto intro: le_less_trans)
      with "1.IH"(1)[OF True refl lt] h "1.prems" show ?thesis unfolding sl by (simp add: lt)
    next
      case ge: False
      have "x \<le> a ! k" if "?h \<le> k" "k < length a" for k
        using ge that sorted_nth_mono[OF \<open>sorted a\<close>, of ?h k] by (auto intro: order.trans)
      with "1.IH"(2)[OF True refl ge] h "1.prems" show ?thesis unfolding sl by (simp add: ge)
    qed
  next
    case False
    with "1.prems" show ?thesis by (subst (1 2 3) search_loop.simps) simp
  qed
qed

lemma containsDomain_sorted:
  assumes "sorted a"
  shows "containsDomain a x \<longleftrightarrow> x \<in> set a"
proof -
  let ?i = "SearchStrings a x"
  have spec: "\<forall>k < ?i. a ! k < x" "?i \<le> length a" "\<forall>k. ?i \<le> k \<longrightarrow> k < length a \<longrightarrow> x \<le> a ! k"
    using search_loop_spec[OF assms, of 0 "length a" x] by (simp_all add: SearchStrings_def)
  show ?thesis
  proof
    assume "x \<in> set a"
    then obtain k where k: "k < length a" "a ! k = x" by (metis in_set_conv_nth)
    with spec(1) have ik: "?i \<le> k" by (metis less_irrefl not_le)
    with k have "a ! ?i \<le> x" using assms sorted_nth_mono by blast
    moreover have "x \<le> a ! ?i" using spec(3) ik k by auto
    ultimately show "containsDomain a x" using ik k by (simp add: containsDomain_def Let_def)
  next
    assume "containsDomain a x"
    then show "x \<in> set a" by (metis containsDomain_def nth_mem)
  qed
qed

end
