(* ===== verification/WhitelistProps.thy ===== *)
theory WhitelistProps
  imports Whitelist
begin

text \<open>
  What the allow list promises: the filter in front of the index never changes an answer, a lookup is
  exact for the loaded set and never climbs above the registrable domain, every load keeps the index
  well-formed and a failed one leaves it alone, a replacement of the durable set is all or nothing,
  and a published revision identifies the set it was read from even when the store is replaced while
  a load runs. The lookup's proof uses the filter only through \<open>membership_filter\<close>.
\<close>

section \<open>The index invariant\<close>

definition index_inv :: "whitelist \<Rightarrow> bool" where
  "index_inv w \<longleftrightarrow>
     sorted_wrt (<) (w_exact w) \<and>
     (\<forall>bf. w_bloom w = Some bf \<longrightarrow> (\<forall>x \<in> set (w_exact w). bloom_Test bf x))"

text \<open>
  The documented behaviour of the sizing formulas at the false-positive rate in use: a filter for at
  least one element has at least one bit, and the bit count is far from the 64-bit limit.
\<close>

definition sizing_ok :: "bloom_sizing \<Rightarrow> bool" where
  "sizing_ok F \<longleftrightarrow> (\<forall>n > 0. 0 < optimal_bits F n whitelistFPR \<and> optimal_bits F n whitelistFPR < 2 ^ 62)"

lemma aligned_bits:
  fixes m0 :: "64 word"
  assumes "0 < m0" "m0 < 2 ^ 62"
  shows "8 \<le> (if m0 mod 8 \<noteq> 0 then (m0 div 8 + 1) * 8 else m0)"
proof -
  have b: "0 < unat m0" "unat m0 < 2 ^ 62"
    using assms by (simp_all add: word_less_nat_alt)
  show ?thesis
  proof (cases "m0 mod 8 = 0")
    case True
    then have "unat m0 mod 8 = 0" by (simp add: unat_mod flip: unat_eq_0)
    with b have "8 \<le> unat m0" by (metis dvd_imp_le mod_0_imp_dvd)
    with True show ?thesis by (simp add: word_le_nat_alt)
  next
    case False
    have "unat (m0 div 8 + 1) = unat m0 div 8 + 1"
      using b by (subst unat_add_lem[THEN iffD1]) (simp_all add: word_div8_unat)
    moreover have "(unat m0 div 8 + 1) * 8 < 2 ^ 64" using b by simp
    ultimately have "unat ((m0 div 8 + 1) * 8) = (unat m0 div 8 + 1) * 8"
      by (subst unat_mult_lem[THEN iffD1]) simp_all
    with False show ?thesis by (simp only: word_le_nat_alt) simp
  qed
qed

lemma sizing_usable:
  assumes "sizing_ok F" "0 < n"
  shows "bloom_inv (NewBloomFilter F n whitelistFPR)"
proof (rule NewBloomFilter_inv)
  have p: "\<not> whitelistFPR \<le> 0" "\<not> 1 \<le> whitelistFPR" by (simp_all add: whitelistFPR_def)
  show "8 \<le> bf_m (NewBloomFilter F n whitelistFPR)"
    using assms p aligned_bits[of "optimal_bits F n whitelistFPR"]
    by (simp add: NewBloomFilter_def Let_def sizing_ok_def del: distrib_right_numeral)
qed

lemma buildIndex_inv:
  assumes "sizing_ok F"
  shows "sorted_wrt (<) (snd (buildIndex F domains))"
    and "fst (buildIndex F domains) = Some bf \<Longrightarrow> x \<in> set (snd (buildIndex F domains)) \<Longrightarrow>
         bloom_Test bf x"
proof -
  show "sorted_wrt (<) (snd (buildIndex F domains))"
    by (simp add: exact_of_buildIndex strict_sorted_iff)
  show "bloom_Test bf x" if "fst (buildIndex F domains) = Some bf" "x \<in> set (snd (buildIndex F domains))"
    using that sizing_usable[OF assms] bloom_set.no_false_negative
    by (auto simp: buildIndex_def Let_def split: if_splits)
qed

lemma set_exact_of_buildIndex: "set (snd (buildIndex F domains)) = set domains"
  by (simp add: exact_of_buildIndex)

lemma index_inv_publish [simp]:
  "sizing_ok F \<Longrightarrow> index_inv (publish w (buildIndex F domains))"
  "sizing_ok F \<Longrightarrow> index_inv (publishWithRevision w (buildIndex F domains) r)"
  "index_inv (publishWithRevision w (None, []) r)"
  using buildIndex_inv by (auto simp: index_inv_def publish_def publishWithRevision_def)

lemma index_inv_recordLoad [simp]: "index_inv (recordLoad w b) = index_inv w"
  by (simp add: index_inv_def recordLoad_def)

lemma loadFromDB_inv:
  "sizing_ok F \<Longrightarrow> index_inv w \<Longrightarrow> index_inv (snd (loadFromDB F dbs w))"
  by (simp add: loadFromDB_def split: option.split sum.split)

lemma LoadFromDB_inv:
  "sizing_ok F \<Longrightarrow> index_inv w \<Longrightarrow> index_inv (snd (LoadFromDB F dbs w))"
  using loadFromDB_inv[of F w dbs] by (simp add: LoadFromDB_def case_prod_unfold Let_def)

lemma loadFromFile_inv:
  assumes "sizing_ok F" "index_inv w"
  shows "index_inv (snd (snd (loadFromFile L F getenv fault op path db w)))"
  using assms LoadFromDB_inv[OF assms]
  by (auto simp: loadFromFile_def Let_def case_prod_unfold split: file_result.split option.split)

section \<open>Lookups\<close>

lemma allow_loop_iff:
  assumes "sorted_wrt (<) exact" "\<And>f x. bf = Some f \<Longrightarrow> x \<in> set exact \<Longrightarrow> bloom_Test f x"
  shows "allow_loop bf exact cancelled i cs \<longleftrightarrow>
     (\<exists>k < length cs. cs ! k \<noteq> [] \<and> cs ! k \<in> set exact \<and> (\<forall>j \<le> k. \<not> cancelled (i + j)))"
proof (induction cs arbitrary: i)
  case (Cons c cs)
  have mem: "containsDomain exact c \<longleftrightarrow> c \<in> set exact"
    using assms(1) by (intro containsDomain_sorted) (simp add: strict_sorted_iff)
  have skip: "(case bf of None \<Rightarrow> False | Some f \<Rightarrow> \<not> bloom_Test f c) \<Longrightarrow> c \<notin> set exact"
    using assms(2) by (auto split: option.splits)
  let ?hit = "\<lambda>k. (c # cs) ! k \<noteq> [] \<and> (c # cs) ! k \<in> set exact \<and> (\<forall>j \<le> k. \<not> cancelled (i + j))"
  have shift: "(\<exists>k < length (c # cs). ?hit k) \<longleftrightarrow>
      \<not> cancelled i \<and> (c \<noteq> [] \<and> c \<in> set exact \<or>
        (\<exists>k < length cs. cs ! k \<noteq> [] \<and> cs ! k \<in> set exact \<and> (\<forall>j \<le> k. \<not> cancelled (i + 1 + j))))"
  proof -
    have "(\<forall>j \<le> Suc k. \<not> cancelled (i + j)) \<longleftrightarrow> \<not> cancelled i \<and> (\<forall>j \<le> k. \<not> cancelled (i + 1 + j))" for k
      by (metis Suc_le_mono add.commute add_Suc_right add_0 le0 not0_implies_Suc plus_1_eq_Suc)
    then show ?thesis by (auto simp: Ex_less_Suc2)
  qed
  show ?case unfolding shift using Cons.IH[of "i + 1"] mem skip by auto
qed simp

lemma IsAllowed_iff:
  assumes "index_inv w"
  shows "IsAllowed L w cancelled domain \<longleftrightarrow>
     (\<exists>k < length (walk_candidates L domain).
        walk_candidates L domain ! k \<noteq> [] \<and> walk_candidates L domain ! k \<in> set (w_exact w) \<and>
        (\<forall>j \<le> k. \<not> cancelled j))"
  unfolding IsAllowed_def using assms by (subst allow_loop_iff) (auto simp: index_inv_def)

lemma IsAllowed_live:
  assumes "index_inv w"
  shows "IsAllowed L w (\<lambda>_. False) domain \<longleftrightarrow>
     (\<exists>c \<in> set (walk_candidates L domain). c \<noteq> [] \<and> c \<in> set (w_exact w))"
  unfolding IsAllowed_iff[OF assms] by (metis in_set_conv_nth)

lemma IsAllowed_entry:
  assumes "index_inv w" "IsAllowed L w cancelled domain"
  shows "\<exists>c \<in> set (w_exact w). c \<in> set (walk_candidates L domain)"
  using assms by (metis IsAllowed_iff nth_mem)

section \<open>Loads\<close>

lemma loadFromDB_error: "loadFromDB F dbs w = (Some e, w') \<Longrightarrow> w' = w"
  by (auto simp: loadFromDB_def split: option.splits sum.splits if_splits)

lemma loadFromDB_nonempty:
  assumes "loadFromDB F (Some (still_store db fault)) w = (err, w')" "w_exact w \<noteq> []"
  shows "w_exact w' \<noteq> []"
proof -
  have ex: "snd (buildIndex F (wl_rows db)) = [] \<longleftrightarrow> wl_rows db = []"
    by (simp add: exact_of_buildIndex)
  show ?thesis
  proof (cases "wl_enabled db")
    case True
    with assms ex show ?thesis
      by (auto simp: loadFromDB_def still_store_def GetWhitelistCount_def StreamWhitelist_def
          publishWithRevision_def ExactCount_def split: sum.splits if_splits)
  next
    case False
    with assms show ?thesis by (simp add: loadFromDB_def still_store_def)
  qed
qed

lemma loadFromDB_published:
  assumes "loadFromDB F (Some e) w = (None, w')" "wl_enabled (at_revision e)"
  shows "w' = w \<or>
     (\<exists>r. GetWhitelistRevision (load_fault e) (at_revision e) = Inr r \<and> w_revision w' = r \<and>
        (wl_enabled (at_count e) \<and> wl_rows (at_count e) = [] \<and> w_exact w' = [] \<or>
         wl_enabled (at_stream e) \<and> w_exact w' = snd (buildIndex F (wl_rows (at_stream e))) \<or>
         \<not> wl_enabled (at_stream e)))"
  using assms
  by (auto simp: loadFromDB_def GetWhitelistCount_def StreamWhitelist_def publishWithRevision_def
      split: sum.splits if_splits)

lemma read_without_fault:
  "GetWhitelistRevision fault db = Inr n \<Longrightarrow> GetWhitelistRevision no_fault db = Inr n"
  by (auto simp: GetWhitelistRevision_def split: if_splits)

lemma revision_enabled: "GetWhitelistRevision fault db = Inr n \<Longrightarrow> wl_enabled db"
  by (auto simp: GetWhitelistRevision_def split: if_splits)

section \<open>Properties\<close>

definition sample_sizing :: bloom_sizing where
  "sample_sizing = \<lparr>optimal_bits = (\<lambda>n p. 20), optimal_hashes = (\<lambda>m n. 3)\<rparr>"

lemma sizing_ok_sample: "sizing_ok sample_sizing"
  by (simp add: sizing_ok_def sample_sizing_def)

text \<open>
  C7: a lookup in the allow list is exact. Whatever the Bloom filter answers for an absent domain, and
  with the duplicates of the loaded list compacted in place, IsAllowed on a published index is true
  exactly when the domain or one of its parents up to the registrable label is in the loaded list
  and the caller had not gone away when the walk reached it.
\<close>

theorem IsAllowed_exact:
  assumes "sizing_ok F"
  shows "IsAllowed L (publish w (buildIndex F domains)) cancelled d \<longleftrightarrow>
     (\<exists>k < length (walk_candidates L d).
        walk_candidates L d ! k \<noteq> [] \<and> walk_candidates L d ! k \<in> set domains \<and>
        (\<forall>j \<le> k. \<not> cancelled j))"
proof -
  have "set (w_exact (publish w (buildIndex F domains))) = set domains"
    by (simp add: publish_def set_exact_of_buildIndex)
  then show ?thesis using assms by (subst IsAllowed_iff) simp_all
qed

theorem IsAllowed_exact_witness:
  "IsAllowed sample_libs
     (publish NewWhitelist (buildIndex sample_sizing [''ads.test'', ''example.co.uk'', ''ads.test'']))
     (\<lambda>j. 2 \<le> j) ''www.example.co.uk''"
proof -
  have w: "walk_candidates sample_libs ''www.example.co.uk'' = [''www.example.co.uk'', ''example.co.uk'']"
    by code_simp
  show ?thesis
    by (subst IsAllowed_exact[OF sizing_ok_sample]) (auto simp: w intro!: exI[of _ 1])
qed

text \<open>
  an allow-list entry never acts as a wildcard above the registrable domain. When a lookup says
  yes for a normalised domain that has a registrable domain, some loaded entry is the domain or a
  parent of it, and that entry is the registrable domain or lies under it; so a public suffix in
  the index allows nothing.
\<close>

theorem allow_list_never_wildcard:
  assumes "psl_label_suffix L" and "NormalizeDomain L d = Inr d" and "etld_plus_one L d = Some r"
    and "index_inv w" and "IsAllowed L w cancelled d"
  shows "\<exists>c \<in> set (w_exact w). is_or_under d c \<and> is_or_under c r"
  using IsAllowed_entry[OF assms(4,5)] walk_candidates_parent walk_candidates_registrable[OF assms(1-3)]
  by blast

theorem allow_list_never_wildcard_witness:
  "\<exists>c \<in> set [''co.uk'', ''example.co.uk'']. is_or_under ''www.example.co.uk'' c \<and> is_or_under c ''example.co.uk''"
proof -
  let ?w = "publish NewWhitelist (buildIndex sample_sizing [''co.uk'', ''example.co.uk''])"
  have n: "NormalizeDomain sample_libs ''www.example.co.uk'' = Inr ''www.example.co.uk''"
    and r: "etld_plus_one sample_libs ''www.example.co.uk'' = Some ''example.co.uk''"
    and c: "walk_candidates sample_libs ''www.example.co.uk'' = [''www.example.co.uk'', ''example.co.uk'']"
    by (atomize (full)) code_simp
  have ex: "set (w_exact ?w) = {''co.uk'', ''example.co.uk''}"
    using set_exact_of_buildIndex[of sample_sizing "[''co.uk'', ''example.co.uk'']"]
    by (simp add: publish_def)
  have inv: "index_inv ?w" by (simp add: sizing_ok_sample)
  have "IsAllowed sample_libs ?w (\<lambda>_. False) ''www.example.co.uk''"
    unfolding IsAllowed_live[OF inv] ex c by simp
  from allow_list_never_wildcard[OF psl_label_suffix_sample n r inv this] show ?thesis
    unfolding ex by simp
qed

text \<open>
  the invariant of the index (the exact slice strictly sorted, every entry of it accepted by the
  filter) holds for a new allow list and is kept by every operation that publishes an index: a load
  from the store, a load from a file with or without a store, and a reconciliation, on every branch
  of each, errors included.
\<close>

theorem index_invariant:
  assumes "sizing_ok F" and "index_inv w"
  shows "index_inv NewWhitelist \<and> index_inv (snd (LoadFromDB F dbs w)) \<and>
     index_inv (snd (snd (LoadFromFile L F getenv fault open_within path db w))) \<and>
     index_inv (snd (reloadWhitelistFromStore F sdb e w))"
proof (intro conjI)
  show "index_inv NewWhitelist" by (simp add: index_inv_def NewWhitelist_def)
  show "index_inv (snd (LoadFromDB F dbs w))" using assms by (rule LoadFromDB_inv)
  show "index_inv (snd (snd (LoadFromFile L F getenv fault open_within path db w)))"
    using loadFromFile_inv[OF assms] by (simp add: LoadFromFile_def case_prod_unfold Let_def)
  show "index_inv (snd (reloadWhitelistFromStore F sdb e w))"
    using assms LoadFromDB_inv[OF assms, of "Some e"]
    by (auto simp: reloadWhitelistFromStore_def split: sum.split prod.splits option.split)
qed

theorem index_invariant_witness:
  "index_inv (snd (snd (LoadFromFile sample_libs sample_sizing (\<lambda>_. []) no_fault
     (\<lambda>p. FileLines [''1,ads.test'', ''# note''] False) ''list.csv'' None NewWhitelist)))"
proof -
  have "index_inv NewWhitelist" by (simp add: index_inv_def NewWhitelist_def)
  from index_invariant[OF sizing_ok_sample this] show ?thesis by blast
qed

text \<open>
  a load that fails leaves the allow list as it was. LoadFromDB records whether it failed; on an
  error the filter, the exact slice and the revision are unchanged, and while the store stands
  still during the load a populated index is never replaced by an empty one.
\<close>

theorem failed_load_keeps_index:
  "case LoadFromDB F dbs w of (err, w') \<Rightarrow>
     w_loadErr w' = (err \<noteq> None) \<and>
     (err \<noteq> None \<longrightarrow> w_bloom w' = w_bloom w \<and> w_exact w' = w_exact w \<and> w_revision w' = w_revision w) \<and>
     (dbs = Some (still_store db fault) \<longrightarrow> w_exact w \<noteq> [] \<longrightarrow> w_exact w' \<noteq> [])"
proof -
  obtain err w1 where ld: "loadFromDB F dbs w = (err, w1)" by (cases "loadFromDB F dbs w")
  have "w1 = w" if "err \<noteq> None" using that ld loadFromDB_error by auto
  moreover have "w_exact w1 \<noteq> []" if dbs: "dbs = Some (still_store db fault)" and ne: "w_exact w \<noteq> []"
    using ld ne unfolding dbs by (rule loadFromDB_nonempty)
  ultimately show ?thesis using ld by (simp add: LoadFromDB_def recordLoad_def)
qed

theorem failed_load_keeps_index_witness:
  "w_exact (snd (LoadFromDB sample_sizing
     (Some (still_store \<lparr>wl_enabled = True, wl_rows = [], wl_rev_row = Some ''7''\<rparr> no_fault))
     (NewWhitelist\<lparr>w_exact := [''ads.test'']\<rparr>))) \<noteq> []"
proof -
  let ?db = "\<lparr>wl_enabled = True, wl_rows = [], wl_rev_row = Some ''7''\<rparr>"
  let ?w = "NewWhitelist\<lparr>w_exact := [''ads.test'']\<rparr>"
  obtain err w' where r: "LoadFromDB sample_sizing (Some (still_store ?db no_fault)) ?w = (err, w')"
    by (cases "LoadFromDB sample_sizing (Some (still_store ?db no_fault)) ?w")
  have ne: "w_exact ?w \<noteq> []" by (simp add: NewWhitelist_def)
  from failed_load_keeps_index[where F = sample_sizing and dbs = "Some (still_store ?db no_fault)" and w = ?w
      and db = ?db and fault = no_fault] ne
  show ?thesis unfolding r by (simp only: prod.case snd_conv simp_thms)
qed

text \<open>
  C24: a replacement of the durable allow list is all or nothing. On any error (a disabled store, a
  failing statement, a floor, a corrupt revision) the store is unchanged; on success the table holds
  each registrable domain of the input once and nothing else, the floors held for the number of
  accepted entries when they were enforced on a populated table, and the revision went up by one
  unless it left the 64-bit range, after which it cannot be read.
\<close>

theorem updateWhitelist_all_or_nothing:
  "case updateWhitelist L getenv fault db domains fl of
     (Some e, db') \<Rightarrow> db' = db
   | (None, db') \<Rightarrow>
       distinct (wl_rows db') \<and> set (wl_rows db') = {d \<in> set domains. IsRegistrableDomain L d} \<and>
       (fl \<and> wl_rows db \<noteq> [] \<longrightarrow>
          whitelistMinAbsolute getenv \<le> int (length (filter (IsRegistrableDomain L) domains)) \<and>
          int (length (wl_rows db)) * whitelistMinRelative getenv
            \<le> int (length (filter (IsRegistrableDomain L) domains)) * 100) \<and>
       (\<exists>n. GetWhitelistRevision no_fault db = Inr n \<and>
          (if n + 1 < 2 ^ 63 then GetWhitelistRevision no_fault db' = Inr (n + 1)
           else \<exists>e. GetWhitelistRevision no_fault db' = Inl e))"
proof (cases "updateWhitelist L getenv fault db domains fl")
  case (Pair err db')
  show ?thesis
  proof (cases err)
    case None
    note suc = updateWhitelist_success[OF Pair[unfolded None]]
    from replace_rows_success[OF suc(1,2)] suc(3) show ?thesis
      by (auto simp: Pair None dest: registrable_nonempty)
  next
    case (Some e)
    with Pair updateWhitelist_error show ?thesis by auto
  qed
qed

theorem updateWhitelist_all_or_nothing_witness:
  "GetWhitelistRevision no_fault (snd (updateWhitelist sample_libs (\<lambda>_. []) no_fault
     \<lparr>wl_enabled = True, wl_rows = [], wl_rev_row = Some ''41''\<rparr> [''ads.test'', ''test'', ''ads.test''] True))
   = Inr 42"
proof -
  let ?db = "\<lparr>wl_enabled = True, wl_rows = [], wl_rev_row = Some ''41''\<rparr>"
  let ?u = "updateWhitelist sample_libs (\<lambda>_. []) no_fault ?db [''ads.test'', ''test'', ''ads.test''] True"
  have ok: "fst ?u = None" and r: "GetWhitelistRevision no_fault ?db = Inr 41" by (atomize (full)) code_simp
  obtain db' where u: "?u = (None, db')" using ok by (cases ?u) simp
  from updateWhitelist_all_or_nothing[where L = sample_libs and getenv = "\<lambda>_. []" and fault = no_fault
      and db = ?db and domains = "[''ads.test'', ''test'', ''ads.test'']" and fl = True]
  show ?thesis unfolding u by (simp add: r)
qed

text \<open>
  C23: the published revision identifies the set. Let a load read the revision, the count and the rows
  at three moments of one history of the store, other processes replacing the table in between. If
  the load publishes an index and the store's revision is later still the published one, then the
  index is exactly the store's current set; so when the reconciler finds equal revisions there is
  nothing to reload.
\<close>

theorem revision_identifies_set:
  assumes "wl_evolves L getenv (at_revision e) (at_count e)"
    and "wl_evolves L getenv (at_count e) (at_stream e)"
    and "wl_evolves L getenv (at_stream e) current"
    and "loadFromDB F (Some e) w = (None, w')" and "w' \<noteq> w" and "wl_enabled (at_revision e)"
    and "GetWhitelistRevision no_fault current = Inr (w_revision w')"
  shows "set (w_exact w') = set (wl_rows current)"
proof -
  from loadFromDB_published[OF assms(4,6)] assms(5) obtain r where
    r: "GetWhitelistRevision (load_fault e) (at_revision e) = Inr r" "w_revision w' = r"
    and src: "wl_enabled (at_count e) \<and> wl_rows (at_count e) = [] \<and> w_exact w' = [] \<or>
      wl_enabled (at_stream e) \<and> w_exact w' = snd (buildIndex F (wl_rows (at_stream e))) \<or>
      \<not> wl_enabled (at_stream e)"
    by blast
  note start = read_without_fault[OF r(1)]
  have tr: "wl_evolves L getenv a c" if "wl_evolves L getenv a b" "wl_evolves L getenv b c" for a b c
    using that(2,1) by (induction rule: wl_evolves.induct) (auto intro: wl_evolves.intros)
  note steps = assms(1) tr[OF assms(1,2)] tr[OF tr[OF assms(1,2)] assms(3)]
  have same: "wl_enabled db \<and> wl_rows db = wl_rows (at_revision e)"
    if db: "wl_evolves L getenv (at_revision e) db" "wl_evolves L getenv db current" for db
  proof -
    note up = wl_evolves_revision[OF db(1) start]
    have "wl_rows db = wl_rows (at_revision e)"
    proof (cases "GetWhitelistRevision no_fault db")
      case (Inl err)
      then have "db = current" using db(2) wl_stuck by blast
      with Inl assms(7) show ?thesis by simp
    next
      case (Inr n)
      with up wl_evolves_revision[OF db(2) Inr] assms(7) r(2) have "n = r" by fastforce
      with Inr up show ?thesis by blast
    qed
    with up show ?thesis by blast
  qed
  have cur: "wl_rows current = wl_rows (at_revision e)"
    using same[OF steps(3)] by (simp add: wl_evolves.intros)
  note cnt = same[OF steps(1) tr[OF assms(2,3)]] and str = same[OF steps(2) assms(3)]
  from src show ?thesis
    using cur cnt str by (auto simp: set_exact_of_buildIndex)
qed

theorem revision_identifies_set_witness:
  "set (w_exact (snd (loadFromDB sample_sizing
     (Some (still_store \<lparr>wl_enabled = True, wl_rows = [''ads.test''], wl_rev_row = Some ''3''\<rparr> no_fault))
     NewWhitelist))) = {''ads.test''}"
proof -
  let ?db = "\<lparr>wl_enabled = True, wl_rows = [''ads.test''], wl_rev_row = Some ''3''\<rparr>"
  let ?e = "still_store ?db no_fault"
  have rev: "GetWhitelistRevision no_fault ?db = Inr 3" by code_simp
  have ld: "loadFromDB sample_sizing (Some ?e) NewWhitelist =
      (None, publishWithRevision NewWhitelist (buildIndex sample_sizing [''ads.test'']) 3)"
    using rev by (simp add: loadFromDB_def still_store_def GetWhitelistCount_def StreamWhitelist_def)
  have ne: "publishWithRevision NewWhitelist (buildIndex sample_sizing [''ads.test'']) 3 \<noteq> NewWhitelist"
    by (simp add: publishWithRevision_def NewWhitelist_def)
  have ev: "wl_evolves sample_libs (\<lambda>_. []) ?db ?db" by (rule evolves_refl)
  show ?thesis
    using revision_identifies_set[where e = ?e and L = sample_libs and getenv = "\<lambda>_. []" and current = ?db,
        OF _ _ _ ld ne] ev rev
    unfolding ld by (simp add: still_store_def publishWithRevision_def)
qed

lemma distinct_singleton: "set xs = {x} \<Longrightarrow> distinct xs \<Longrightarrow> xs = [x]"
proof (cases xs)
  case (Cons y ys)
  assume "set xs = {x}" "distinct xs"
  with Cons have "y = x" "set ys \<subseteq> {x}" "x \<notin> set ys" by auto
  then have "set ys = {}" using subset_singletonD[of "set ys" x] by auto
  with Cons \<open>y = x\<close> show ?thesis by simp
qed simp

text \<open>
  the import floor counts entries, not distinct domains. An import that repeats one registrable
  domain often enough for the floors passes them and leaves a table with that single row, whatever
  the table held before: the size the floor is meant to guarantee is not guaranteed.
\<close>

theorem floor_counts_repeated_entries:
  assumes "IsRegistrableDomain L d" and "wl_enabled db"
    and "bumpWhitelistRevision no_fault (wl_rev_row db) = Inr p" and "0 < n"
    and "whitelistMinAbsolute getenv \<le> int n"
    and "int (length (wl_rows db)) * whitelistMinRelative getenv \<le> int n * 100"
  shows "\<exists>db'. UpdateWhitelist L getenv no_fault db (replicate n d) = (None, db') \<and> wl_rows db' = [d]"
proof -
  let ?acc = "filter (IsRegistrableDomain L) (replicate n d)"
  have acc: "?acc = replicate n d" using assms(1) by (simp add: filter_replicate)
  obtain rows where rows: "insert_chunks no_fault ?acc 0 [] = Inr rows"
    using insert_chunks_no_fault[of no_fault ?acc 0 "[]"] by (auto simp del: filter_replicate)
  have "set (replicate n d) = {d}" using assms(4) by (simp add: set_replicate_conv_if)
  then have "set rows = {d}" "distinct rows"
    using insert_chunks_Inr[OF rows] registrable_nonempty[OF assms(1)] unfolding acc by auto
  then have "rows = [d]" by (rule distinct_singleton)
  with rows have ins: "insert_chunks no_fault (replicate n d) 0 [] = Inr [d]" by (simp add: acc)
  obtain nx raw where p: "p = (nx, raw)" by (cases p)
  have "UpdateWhitelist L getenv no_fault db (replicate n d) = replace_rows no_fault db (replicate n d)"
    using assms(2,5,6)
    by (simp add: UpdateWhitelist_def updateWhitelist_def GetWhitelistCount_def acc del: filter_replicate)
  also have "\<dots> = (None, db\<lparr>wl_rows := [d], wl_rev_row := Some raw\<rparr>)"
    using assms(3) ins by (simp add: replace_rows_def p)
  finally show ?thesis by simp
qed

theorem floor_counts_repeated_entries_witness:
  "\<exists>db'. UpdateWhitelist sample_libs (\<lambda>_. []) no_fault
      \<lparr>wl_enabled = True, wl_rows = [''a.test'', ''b.test'', ''c.test''], wl_rev_row = Some ''9''\<rparr>
      (replicate 100 ''ads.test'') = (None, db') \<and> wl_rows db' = [''ads.test'']"
proof -
  have r: "IsRegistrableDomain sample_libs ''ads.test''" by code_simp
  have b: "bumpWhitelistRevision no_fault (Some ''9'') = Inr (10, ''10'')" by code_simp
  have f: "whitelistMinAbsolute (\<lambda>_. []) = 100" "whitelistMinRelative (\<lambda>_. []) = 50"
    by (simp_all add: whitelistMinAbsolute_def whitelistMinRelative_def env_Int_def)
  show ?thesis using r b f by (intro floor_counts_repeated_entries) auto
qed

end
