(* ===== verification/GroupStore.thy ===== *)
theory GroupStore
  imports WhitelistStore
begin

text \<open>
  Policy groups, client mappings and overrides: \<^verbatim>\<open>internal/store/groups.go\<close> and
  \<^verbatim>\<open>internal/store/overrides.go\<close>. The SQLite tables are lists of rows under the constraints of the schema
  (unique keys, foreign keys with cascading deletes, generated ids), shared by two processes; each
  process keeps its own index of the CIDR mappings with the revision it was built from. A statement
  fails where the argument \<open>fault\<close> says so, and a transaction replaces the tables only at its
  commit. Row timestamps and the ids of override rows, which no decision reads, are left out, and a
  group's category list is the list itself rather than its JSON text.
\<close>

section \<open>Tables\<close>

record client_group =
  cg_id :: int
  cg_name :: string
  cg_description :: string
  BlockCategories :: "string list"
  StrictPhishing :: bool
  StrictMalware :: bool

record client_mapping =
  cm_id :: int
  cm_type :: string
  cm_value :: string
  cm_group :: int

record override =
  ov_domain :: string
  ov_action :: string
  ov_reason :: string

record group_tables =
  gt_enabled :: bool
  gt_groups :: "client_group list"
  gt_mappings :: "client_mapping list"
  gt_overrides :: "(int \<times> override) list"
  gt_global :: "override list"
  gt_rev_row :: "string option"
  gt_next_group :: int
  gt_next_mapping :: int

record cidr_index =
  cidrCache :: "(int \<times> ip_net) list"
  cidrRevision :: int

datatype g_stage =
    QClientID | QExactIP | QGroup | QGroupName | QCidrRows | QGroupOverride string | QGlobalOverride string
  | ExecStmt | GBegin | GReadRev | GWriteRev | GCommit | GReadConfig

datatype g_error =
    GDisabled | GSql g_stage | GConstraint | GGroupNotFound | GMappingNotFound | GOverrideNotFound
  | GProtected | GBadType | GEmptyValue | GBadIP | GBadCIDR | GRevision wl_error | GBadAction
  | GEmptyDomain | GNotRegistrable

type_synonym g_fault = "g_stage \<Rightarrow> bool"

section \<open>Groups\<close>

definition find_group :: "group_tables \<Rightarrow> int \<Rightarrow> client_group option" where
  "find_group T i = find (\<lambda>g. cg_id g = i) (gt_groups T)"

definition find_group_name :: "group_tables \<Rightarrow> string \<Rightarrow> client_group option" where
  "find_group_name T n = find (\<lambda>g. cg_name g = n) (gt_groups T)"

definition GetGroup :: "g_fault \<Rightarrow> group_tables \<Rightarrow> int \<Rightarrow> g_error + client_group" where
  "GetGroup fault T i =
     (if \<not> gt_enabled T then Inl GDisabled
      else if fault QGroup then Inl (GSql QGroup)
      else case find_group T i of None \<Rightarrow> Inl GGroupNotFound | Some g \<Rightarrow> Inr g)"

definition GetGroupByName :: "g_fault \<Rightarrow> group_tables \<Rightarrow> string \<Rightarrow> g_error + client_group" where
  "GetGroupByName fault T n =
     (if \<not> gt_enabled T then Inl GDisabled
      else if fault QGroupName then Inl (GSql QGroupName)
      else case find_group_name T n of None \<Rightarrow> Inl GGroupNotFound | Some g \<Rightarrow> Inr g)"

definition insert_group ::
  "g_fault \<Rightarrow> group_tables \<Rightarrow> string \<Rightarrow> string \<Rightarrow> string list \<Rightarrow> bool \<Rightarrow> bool \<Rightarrow> (g_error + int) \<times> group_tables" where
  "insert_group fault T name desc cats sp sm =
     (if fault ExecStmt then (Inl (GSql ExecStmt), T)
      else if find_group_name T name \<noteq> None then (Inl GConstraint, T)
      else
        (let i = gt_next_group T;
             g = \<lparr>cg_id = i, cg_name = name, cg_description = desc, BlockCategories = cats,
                  StrictPhishing = sp, StrictMalware = sm\<rparr>
         in (Inr i, T\<lparr>gt_groups := gt_groups T @ [g], gt_next_group := i + 1\<rparr>)))"

definition CreateDefaultGroups :: "g_fault \<Rightarrow> group_tables \<Rightarrow> g_error option \<times> group_tables" where
  "CreateDefaultGroups fault T =
     (if \<not> gt_enabled T then (Some GDisabled, T)
      else if fault QGroupName then (Some (GSql QGroupName), T)
      else if find_group_name T ''default'' \<noteq> None then (None, T)
      else case insert_group fault T ''default'' ''Default policy group'' [] False True of
        (Inl e, T') \<Rightarrow> (Some e, T')
      | (Inr i, T') \<Rightarrow> (None, T'))"

definition CreateGroup ::
  "g_fault \<Rightarrow> group_tables \<Rightarrow> string \<Rightarrow> string \<Rightarrow> string list \<Rightarrow> bool \<Rightarrow> bool \<Rightarrow> (g_error + int) \<times> group_tables" where
  "CreateGroup fault T name desc cats sp sm =
     (if \<not> gt_enabled T then (Inl GDisabled, T) else insert_group fault T name desc cats sp sm)"

definition UpdateGroup ::
  "g_fault \<Rightarrow> group_tables \<Rightarrow> int \<Rightarrow> string \<Rightarrow> string \<Rightarrow> string list \<Rightarrow> bool \<Rightarrow> bool \<Rightarrow> g_error option \<times> group_tables" where
  "UpdateGroup fault T i name0 desc cats sp sm =
     (if \<not> gt_enabled T then (Some GDisabled, T)
      else
        (let name = (if i = 1 then ''default'' else name0) in
         if fault ExecStmt then (Some (GSql ExecStmt), T)
         else if find_group T i \<noteq> None \<and> (\<exists>g \<in> set (gt_groups T). cg_id g \<noteq> i \<and> cg_name g = name)
           then (Some GConstraint, T)
         else (None, T\<lparr>gt_groups := map (\<lambda>g.
           if cg_id g = i
           then g\<lparr>cg_name := name, cg_description := desc, BlockCategories := cats,
                 StrictPhishing := sp, StrictMalware := sm\<rparr>
           else g) (gt_groups T)\<rparr>)))"

section \<open>The CIDR index of one process\<close>

definition bumpClientMappingsRevision :: "g_fault \<Rightarrow> string option \<Rightarrow> wl_error + int \<times> string" where
  "bumpClientMappingsRevision fault row = bump_row (fault GReadRev) (fault GWriteRev) row"

definition GetClientMappingsRevision :: "g_fault \<Rightarrow> group_tables \<Rightarrow> g_error + int" where
  "GetClientMappingsRevision fault T =
     (if \<not> gt_enabled T then Inl GDisabled
      else if fault GReadConfig then Inl (GSql GReadConfig)
      else case read_row (gt_rev_row T) of Inl e \<Rightarrow> Inl (GRevision e) | Inr n \<Rightarrow> Inr n)"

definition cidr_rows :: "group_tables \<Rightarrow> (int \<times> ip_net) list" where
  "cidr_rows T =
     List.map_filter (\<lambda>m. if cm_type m = ''cidr''
       then map_option (\<lambda>n. (cm_group m, n)) (ParseCIDR (cm_value m)) else None) (gt_mappings T)"

text \<open>
  The comparison of \<^verbatim>\<open>sort.Slice\<close>. \<^verbatim>\<open>Mask.Size()\<close> returns the leading ones and then the width in bits,
  so the first key is the number of ones, whatever the names \<^verbatim>\<open>bi\<close> and \<^verbatim>\<open>oi\<close> suggest. Networks
  that tie have the same mask, and a stable sort picks one order of them.
\<close>

definition mask_Size :: "ip_net \<Rightarrow> nat \<times> nat" where
  "mask_Size n = (mask_ones n, 8 * length (net_mask n))"

definition cidr_before :: "int \<times> ip_net \<Rightarrow> int \<times> ip_net \<Rightarrow> bool" where
  "cidr_before a b =
     (let (bi, oi) = mask_Size (snd a); (bj, oj) = mask_Size (snd b)
      in if bi \<noteq> bj then bi > bj else oi > oj)"

definition sort_slice :: "(int \<times> ip_net) list \<Rightarrow> (int \<times> ip_net) list" where
  "sort_slice cache =
     foldr (\<lambda>x acc. takeWhile (\<lambda>y. cidr_before y x) acc @ [x] @ dropWhile (\<lambda>y. cidr_before y x) acc) cache []"

text \<open>\<^verbatim>\<open>loadCIDRCache\<close> reads the revision before the rows, each from the tables of its moment.\<close>

definition loadCIDRCache ::
  "g_fault \<Rightarrow> group_tables \<Rightarrow> group_tables \<Rightarrow> cidr_index \<Rightarrow> g_error option \<times> cidr_index" where
  "loadCIDRCache fault T_rev T_rows I =
     (case GetClientMappingsRevision fault T_rev of
        Inl e \<Rightarrow> (Some e, I)
      | Inr revision \<Rightarrow>
          if fault QCidrRows then (Some (GSql QCidrRows), I)
          else (None, I\<lparr>cidrCache := sort_slice (cidr_rows T_rows), cidrRevision := revision\<rparr>))"

definition ReconcileCIDRMappings ::
  "g_fault \<Rightarrow> group_tables \<Rightarrow> cidr_index \<Rightarrow> (g_error + bool) \<times> cidr_index" where
  "ReconcileCIDRMappings fault T I =
     (case GetClientMappingsRevision fault T of
        Inl e \<Rightarrow> (Inl e, I)
      | Inr revision \<Rightarrow>
          if revision = cidrRevision I then (Inr False, I)
          else case loadCIDRCache fault T T I of
            (Some e, I') \<Rightarrow> (Inl e, I')
          | (None, I') \<Rightarrow> (Inr True, I'))"

definition reloadCIDRCache :: "g_fault \<Rightarrow> group_tables \<Rightarrow> cidr_index \<Rightarrow> cidr_index" where
  "reloadCIDRCache fault T I =
     (if \<not> gt_enabled T then I else snd (ReconcileCIDRMappings fault T I))"

section \<open>Mappings\<close>

definition net_string :: "ip_net \<Rightarrow> string" where
  "net_string n =
     (case net_number n of
        None \<Rightarrow> ''<nil>''
      | Some (nn, m) \<Rightarrow> ip_string nn @ ''/'' @ dec_string (mask_ones \<lparr>net_ip = nn, net_mask = m\<rparr>))"

definition normalizeCIDRForStorage :: "ip_net \<Rightarrow> string" where
  "normalizeCIDRForStorage n =
     (case To4 (net_ip n) of
        Some ip4 \<Rightarrow>
          if length (net_ip n) = 16 \<and> mask_ones n \<ge> 96
          then net_string \<lparr>net_ip = ip4, net_mask = cidr_mask (mask_ones n - 96) 4\<rparr>
          else net_string n
      | None \<Rightarrow> net_string n)"

definition check_mapping :: "string \<Rightarrow> string \<Rightarrow> g_error + string" where
  "check_mapping mtype value =
     (if mtype \<noteq> ''ip'' \<and> mtype \<noteq> ''cidr'' \<and> mtype \<noteq> ''client_id'' then Inl GBadType
      else if value = [] then Inl GEmptyValue
      else if mtype = ''ip'' then (if ParseIP value = None then Inl GBadIP else Inr value)
      else if mtype = ''cidr'' then
        (case ParseCIDR value of None \<Rightarrow> Inl GBadCIDR | Some n \<Rightarrow> Inr (normalizeCIDRForStorage n))
      else Inr value)"

text \<open>A transaction that changes the mappings bumps the revision before it commits.\<close>

definition commit_mappings ::
  "g_fault \<Rightarrow> group_tables \<Rightarrow> group_tables \<Rightarrow> g_error option \<times> group_tables" where
  "commit_mappings fault T T' =
     (case bumpClientMappingsRevision fault (gt_rev_row T) of
        Inl e \<Rightarrow> (Some (GRevision e), T)
      | Inr (next, raw) \<Rightarrow>
          if fault GCommit then (Some (GSql GCommit), T)
          else (None, T'\<lparr>gt_rev_row := Some raw\<rparr>))"

definition AddMappingInt ::
  "g_fault \<Rightarrow> group_tables \<Rightarrow> cidr_index \<Rightarrow> string \<Rightarrow> string \<Rightarrow> int \<Rightarrow> (g_error + int) \<times> group_tables \<times> cidr_index" where
  "AddMappingInt fault T I mtype0 value0 gid =
     (if \<not> gt_enabled T then (Inl GDisabled, T, I)
      else
        (let mtype = trim_space (to_lower mtype0) in
         case check_mapping mtype (trim_space value0) of
           Inl e \<Rightarrow> (Inl e, T, I)
         | Inr value \<Rightarrow>
             if fault GBegin then (Inl (GSql GBegin), T, I)
             else if fault ExecStmt then (Inl (GSql ExecStmt), T, I)
             else if (\<exists>m \<in> set (gt_mappings T). cm_type m = mtype \<and> cm_value m = value) \<or> find_group T gid = None
               then (Inl GConstraint, T, I)
             else
               (let i = gt_next_mapping T;
                    m = \<lparr>cm_id = i, cm_type = mtype, cm_value = value, cm_group = gid\<rparr>
                in case commit_mappings fault T
                          (T\<lparr>gt_mappings := gt_mappings T @ [m], gt_next_mapping := i + 1\<rparr>) of
                     (Some e, T') \<Rightarrow> (Inl e, T', I)
                   | (None, T') \<Rightarrow>
                       (Inr i, T', if mtype = ''cidr'' then reloadCIDRCache fault T' I else I))))"

definition DeleteMapping ::
  "g_fault \<Rightarrow> group_tables \<Rightarrow> cidr_index \<Rightarrow> int \<Rightarrow> g_error option \<times> group_tables \<times> cidr_index" where
  "DeleteMapping fault T I i =
     (if \<not> gt_enabled T then (Some GDisabled, T, I)
      else if fault GBegin then (Some (GSql GBegin), T, I)
      else if fault ExecStmt then (Some (GSql ExecStmt), T, I)
      else if \<forall>m \<in> set (gt_mappings T). cm_id m \<noteq> i then (Some GMappingNotFound, T, I)
      else case commit_mappings fault T (T\<lparr>gt_mappings := filter (\<lambda>m. cm_id m \<noteq> i) (gt_mappings T)\<rparr>) of
        (Some e, T') \<Rightarrow> (Some e, T', I)
      | (None, T') \<Rightarrow> (None, T', reloadCIDRCache fault T' I))"

text \<open>Deleting a group cascades to its mappings and its overrides.\<close>

definition DeleteGroup ::
  "g_fault \<Rightarrow> group_tables \<Rightarrow> cidr_index \<Rightarrow> int \<Rightarrow> g_error option \<times> group_tables \<times> cidr_index" where
  "DeleteGroup fault T I i =
     (if \<not> gt_enabled T then (Some GDisabled, T, I)
      else if i = 1 then (Some GProtected, T, I)
      else if fault GBegin then (Some (GSql GBegin), T, I)
      else if fault ExecStmt then (Some (GSql ExecStmt), T, I)
      else if find_group T i = None then (Some GGroupNotFound, T, I)
      else case commit_mappings fault T
                 (T\<lparr>gt_groups := filter (\<lambda>g. cg_id g \<noteq> i) (gt_groups T),
                    gt_mappings := filter (\<lambda>m. cm_group m \<noteq> i) (gt_mappings T),
                    gt_overrides := filter (\<lambda>o'. fst o' \<noteq> i) (gt_overrides T)\<rparr>) of
        (Some e, T') \<Rightarrow> (Some e, T', I)
      | (None, T') \<Rightarrow> (None, T', reloadCIDRCache fault T' I))"

section \<open>Which group a client belongs to\<close>

definition mapped_group :: "group_tables \<Rightarrow> string \<Rightarrow> string \<Rightarrow> int option" where
  "mapped_group T mtype value =
     map_option cm_group (find (\<lambda>m. cm_type m = mtype \<and> cm_value m = value) (gt_mappings T))"

definition cidr_group :: "cidr_index \<Rightarrow> ip \<Rightarrow> int" where
  "cidr_group I a = (case find (\<lambda>e. net_contains (snd e) a) (cidrCache I) of None \<Rightarrow> 0 | Some e \<Rightarrow> fst e)"

definition group_by_network ::
  "g_fault \<Rightarrow> group_tables \<Rightarrow> cidr_index \<Rightarrow> string \<Rightarrow> g_error + client_group" where
  "group_by_network fault T I clientIP =
     (case (if clientIP = [] then None else ParseIP clientIP) of
        Some a \<Rightarrow>
          if cidr_group I a > 0 then GetGroup fault T (cidr_group I a)
          else GetGroupByName fault T ''default''
      | None \<Rightarrow> GetGroupByName fault T ''default'')"

definition group_by_address ::
  "g_fault \<Rightarrow> group_tables \<Rightarrow> cidr_index \<Rightarrow> string \<Rightarrow> g_error + client_group" where
  "group_by_address fault T I clientIP =
     (if clientIP \<noteq> [] then
        (if fault QExactIP then Inl (GSql QExactIP)
         else case mapped_group T ''ip'' clientIP of
           Some gid \<Rightarrow> GetGroup fault T gid
         | None \<Rightarrow> group_by_network fault T I clientIP)
      else group_by_network fault T I clientIP)"

definition GetGroupForClient ::
  "g_fault \<Rightarrow> group_tables \<Rightarrow> cidr_index \<Rightarrow> string \<Rightarrow> string \<Rightarrow> bool \<Rightarrow> g_error + client_group" where
  "GetGroupForClient fault T I clientIP0 clientID0 clientIDTrusted =
     (if \<not> gt_enabled T then GetGroupByName fault T ''default''
      else
        (let clientID = trim_space clientID0; clientIP = trim_space clientIP0 in
         if clientIDTrusted \<and> clientID \<noteq> [] then
           (if fault QClientID then Inl (GSql QClientID)
            else case mapped_group T ''client_id'' clientID of
              Some gid \<Rightarrow> GetGroup fault T gid
            | None \<Rightarrow> group_by_address fault T I clientIP)
         else group_by_address fault T I clientIP))"

section \<open>Overrides\<close>

definition override_domain :: "libs \<Rightarrow> string \<Rightarrow> string \<Rightarrow> g_error + string" where
  "override_domain L domain0 action =
     (if action \<noteq> ''allow'' \<and> action \<noteq> ''block'' then Inl GBadAction
      else
        (let domain = trim_suffix (trim_space (to_lower domain0)) ''.'' in
         if domain = [] then Inl GEmptyDomain
         else if \<not> IsRegistrableDomain L domain then Inl GNotRegistrable
         else Inr domain))"

fun upsert_row :: "('k \<Rightarrow> bool) \<Rightarrow> 'k \<Rightarrow> 'k list \<Rightarrow> 'k list" where
  "upsert_row same r [] = [r]"
| "upsert_row same r (x # xs) = (if same x then r # xs else x # upsert_row same r xs)"

definition UpsertOverride ::
  "libs \<Rightarrow> g_fault \<Rightarrow> group_tables \<Rightarrow> string \<Rightarrow> string \<Rightarrow> string \<Rightarrow> g_error option \<times> group_tables" where
  "UpsertOverride L fault T domain0 action reason =
     (if \<not> gt_enabled T then (Some GDisabled, T)
      else case override_domain L domain0 action of
        Inl e \<Rightarrow> (Some e, T)
      | Inr domain \<Rightarrow>
          if fault ExecStmt then (Some (GSql ExecStmt), T)
          else (None, T\<lparr>gt_global := upsert_row (\<lambda>r. ov_domain r = domain)
                 \<lparr>ov_domain = domain, ov_action = action, ov_reason = reason\<rparr> (gt_global T)\<rparr>))"

definition UpsertGroupOverride ::
  "libs \<Rightarrow> g_fault \<Rightarrow> group_tables \<Rightarrow> int \<Rightarrow> string \<Rightarrow> string \<Rightarrow> string \<Rightarrow> g_error option \<times> group_tables" where
  "UpsertGroupOverride L fault T gid domain0 action reason =
     (if \<not> gt_enabled T then (Some GDisabled, T)
      else case override_domain L domain0 action of
        Inl e \<Rightarrow> (Some e, T)
      | Inr domain \<Rightarrow>
          if fault ExecStmt then (Some (GSql ExecStmt), T)
          else if find_group T gid = None then (Some GConstraint, T)
          else (None, T\<lparr>gt_overrides := upsert_row (\<lambda>r. fst r = gid \<and> ov_domain (snd r) = domain)
                 (gid, \<lparr>ov_domain = domain, ov_action = action, ov_reason = reason\<rparr>) (gt_overrides T)\<rparr>))"

definition DeleteOverride :: "g_fault \<Rightarrow> group_tables \<Rightarrow> string \<Rightarrow> g_error option \<times> group_tables" where
  "DeleteOverride fault T domain =
     (if \<not> gt_enabled T then (Some GDisabled, T)
      else if fault ExecStmt then (Some (GSql ExecStmt), T)
      else if \<forall>r \<in> set (gt_global T). ov_domain r \<noteq> domain then (Some GOverrideNotFound, T)
      else (None, T\<lparr>gt_global := filter (\<lambda>r. ov_domain r \<noteq> domain) (gt_global T)\<rparr>))"

definition DeleteGroupOverride ::
  "g_fault \<Rightarrow> group_tables \<Rightarrow> int \<Rightarrow> string \<Rightarrow> g_error option \<times> group_tables" where
  "DeleteGroupOverride fault T gid domain0 =
     (if \<not> gt_enabled T then (Some GDisabled, T)
      else
        (let domain = trim_space (to_lower domain0) in
         if fault ExecStmt then (Some (GSql ExecStmt), T)
         else if \<forall>r \<in> set (gt_overrides T). \<not> (fst r = gid \<and> ov_domain (snd r) = domain)
           then (Some GOverrideNotFound, T)
         else (None, T\<lparr>gt_overrides :=
           filter (\<lambda>r. \<not> (fst r = gid \<and> ov_domain (snd r) = domain)) (gt_overrides T)\<rparr>)))"

text \<open>The walk from the asked domain to its registrable label, the group's rows before the global ones.\<close>

definition group_row :: "group_tables \<Rightarrow> int \<Rightarrow> string \<Rightarrow> override option" where
  "group_row T gid c =
     map_option snd (find (\<lambda>r. fst r = gid \<and> ov_domain (snd r) = c) (gt_overrides T))"

definition global_row :: "group_tables \<Rightarrow> string \<Rightarrow> override option" where
  "global_row T c = find (\<lambda>r. ov_domain r = c) (gt_global T)"

fun override_walk :: "g_fault \<Rightarrow> group_tables \<Rightarrow> int \<Rightarrow> string list \<Rightarrow> g_error + override option" where
  "override_walk fault T gid [] = Inr None"
| "override_walk fault T gid (candidate # cs) =
     (if fault (QGroupOverride candidate) then Inl (GSql (QGroupOverride candidate))
      else case group_row T gid candidate of
        Some r \<Rightarrow> Inr (Some r)
      | None \<Rightarrow>
          if fault (QGlobalOverride candidate) then Inl (GSql (QGlobalOverride candidate))
          else case global_row T candidate of
            Some r \<Rightarrow> Inr (Some r)
          | None \<Rightarrow> override_walk fault T gid cs)"

definition GetEffectiveOverride ::
  "libs \<Rightarrow> g_fault \<Rightarrow> group_tables \<Rightarrow> int \<Rightarrow> string \<Rightarrow> g_error + override option" where
  "GetEffectiveOverride L fault T gid domain0 =
     (if \<not> gt_enabled T then Inr None
      else override_walk fault T gid (walk_candidates L (trim_space (to_lower domain0))))"

end
