(* ===== verification/GroupProps.thy ===== *)
theory GroupProps
  imports GroupStore
begin

text \<open>
  What the group store promises: the table invariant (keys, foreign keys, the protected default group,
  registrable override domains) is kept by every operation, a client always resolves to a stored
  group while the statements succeed and the CIDR index is fresh, the longest prefix decides among
  the networks that contain an address, and the nearest override on the walk wins.
\<close>

section \<open>The table invariant\<close>

definition groups_ok :: "client_group list \<Rightarrow> int \<Rightarrow> bool" where
  "groups_ok gs next \<longleftrightarrow>
     distinct (map cg_id gs) \<and> distinct (map cg_name gs) \<and>
     (\<forall>g \<in> set gs. 1 \<le> cg_id g \<and> cg_id g < next) \<and>
     (\<exists>g \<in> set gs. cg_id g = 1 \<and> cg_name g = ''default'')"

definition mappings_ok :: "client_group list \<Rightarrow> client_mapping list \<Rightarrow> bool" where
  "mappings_ok gs ms \<longleftrightarrow>
     distinct (map (\<lambda>m. (cm_type m, cm_value m)) ms) \<and> (\<forall>m \<in> set ms. cm_group m \<in> cg_id ` set gs)"

definition override_ok :: "libs \<Rightarrow> override \<Rightarrow> bool" where
  "override_ok L r \<longleftrightarrow>
     (ov_action r = ''allow'' \<or> ov_action r = ''block'') \<and> IsRegistrableDomain L (ov_domain r)"

definition overrides_ok :: "libs \<Rightarrow> client_group list \<Rightarrow> (int \<times> override) list \<Rightarrow> override list \<Rightarrow> bool" where
  "overrides_ok L gs os gl \<longleftrightarrow>
     distinct (map (\<lambda>r. (fst r, ov_domain (snd r))) os) \<and> distinct (map ov_domain gl) \<and>
     (\<forall>r \<in> set os. fst r \<in> cg_id ` set gs \<and> override_ok L (snd r)) \<and> (\<forall>r \<in> set gl. override_ok L r)"

definition tables_inv :: "libs \<Rightarrow> group_tables \<Rightarrow> bool" where
  "tables_inv L T \<longleftrightarrow>
     groups_ok (gt_groups T) (gt_next_group T) \<and> mappings_ok (gt_groups T) (gt_mappings T) \<and>
     overrides_ok L (gt_groups T) (gt_overrides T) (gt_global T)"

lemma find_group_iff: "find_group T i = None \<longleftrightarrow> i \<notin> cg_id ` set (gt_groups T)"
  by (auto simp: find_group_def find_None_iff)

lemma find_group_name_iff: "find_group_name T n = None \<longleftrightarrow> n \<notin> cg_name ` set (gt_groups T)"
  by (auto simp: find_group_name_def find_None_iff)

lemma insert_group_inv:
  assumes "tables_inv L T"
  shows "tables_inv L (snd (insert_group fault T name desc cats sp sm))"
proof -
  let ?g = "\<lparr>cg_id = gt_next_group T, cg_name = name, cg_description = desc, BlockCategories = cats,
    StrictPhishing = sp, StrictMalware = sm\<rparr>"
  have gs: "groups_ok (gt_groups T @ [?g]) (gt_next_group T + 1)" if "find_group_name T name = None"
    using assms that by (force simp: tables_inv_def groups_ok_def find_group_name_iff)
  show ?thesis
  proof (cases "fault ExecStmt \<or> find_group_name T name \<noteq> None")
    case True
    with assms show ?thesis by (auto simp: insert_group_def)
  next
    case False
    then have "snd (insert_group fault T name desc cats sp sm) =
        T\<lparr>gt_groups := gt_groups T @ [?g], gt_next_group := gt_next_group T + 1\<rparr>"
      by (simp add: insert_group_def Let_def)
    with assms gs False show ?thesis
      by (auto simp: tables_inv_def mappings_ok_def overrides_ok_def)
  qed
qed

lemma CreateGroup_inv: "tables_inv L T \<Longrightarrow> tables_inv L (snd (CreateGroup fault T name desc cats sp sm))"
  by (simp add: CreateGroup_def insert_group_inv)

lemma CreateDefaultGroups_inv: "tables_inv L T \<Longrightarrow> tables_inv L (snd (CreateDefaultGroups fault T))"
  using insert_group_inv[of L T fault "''default''" "''Default policy group''" "[]" False True]
  by (auto simp: CreateDefaultGroups_def split: prod.splits sum.splits)

lemma map_update_names:
  assumes "distinct (map cg_id gs)" "distinct (map cg_name gs)"
    "\<forall>g \<in> set gs. cg_id g \<noteq> i \<longrightarrow> cg_name g \<noteq> name"
  shows "distinct (map (\<lambda>g. if cg_id g = i then name else cg_name g) gs)"
  using assms by (induction gs) (auto split: if_splits intro: rev_image_eqI)

lemma groups_ok_update:
  assumes "groups_ok gs n" "\<And>g. cg_id (f g) = cg_id g"
    "\<And>g. cg_name (f g) = (if cg_id g = i then name else cg_name g)"
    "\<forall>g \<in> set gs. cg_id g \<noteq> i \<longrightarrow> cg_name g \<noteq> name" "i = 1 \<Longrightarrow> name = ''default''"
  shows "groups_ok (map f gs) n" and "cg_id ` set (map f gs) = cg_id ` set gs"
proof -
  have ids: "map cg_id (map f gs) = map cg_id gs" by (simp add: assms(2))
  have "distinct (map cg_name (map f gs))"
    using assms(1,4) map_update_names[of gs i name] by (simp add: groups_ok_def assms(3) comp_def)
  moreover obtain g where "g \<in> set gs" "cg_id g = 1" "cg_name g = ''default''"
    using assms(1) by (auto simp: groups_ok_def)
  then have "f g \<in> set (map f gs)" "cg_id (f g) = 1" "cg_name (f g) = ''default''"
    using assms(2,3,5) by auto
  then have "\<exists>g \<in> set (map f gs). cg_id g = 1 \<and> cg_name g = ''default''" by blast
  moreover have "\<forall>g \<in> set (map f gs). 1 \<le> cg_id g \<and> cg_id g < n"
    using assms(1,2) by (simp add: groups_ok_def)
  ultimately show "groups_ok (map f gs) n" using assms(1) ids by (simp only: groups_ok_def simp_thms)
  show "cg_id ` set (map f gs) = cg_id ` set gs" using ids by (metis set_map)
qed

lemma UpdateGroup_inv:
  assumes "tables_inv L T"
  shows "tables_inv L (snd (UpdateGroup fault T i name desc cats sp sm))"
proof -
  obtain nm where nm: "nm = (if i = 1 then ''default'' else name)" by blast
  obtain f :: "client_group \<Rightarrow> client_group" where f: "f = (\<lambda>g. if cg_id g = i
     then g\<lparr>cg_name := nm, cg_description := desc, BlockCategories := cats,
            StrictPhishing := sp, StrictMalware := sm\<rparr> else g)" by blast
  have up: "UpdateGroup fault T i name desc cats sp sm =
      (if \<not> gt_enabled T then (Some GDisabled, T)
       else if fault ExecStmt then (Some (GSql ExecStmt), T)
       else if find_group T i \<noteq> None \<and> (\<exists>g \<in> set (gt_groups T). cg_id g \<noteq> i \<and> cg_name g = nm)
         then (Some GConstraint, T)
       else (None, T\<lparr>gt_groups := map f (gt_groups T)\<rparr>))"
    unfolding UpdateGroup_def Let_def nm f ..
  have keep: "tables_inv L (T\<lparr>gt_groups := gs'\<rparr>)"
    if "groups_ok gs' (gt_next_group T)" "cg_id ` set gs' = cg_id ` set (gt_groups T)" for gs'
    using assms that by (simp add: tables_inv_def mappings_ok_def overrides_ok_def)
  have "tables_inv L (T\<lparr>gt_groups := map f (gt_groups T)\<rparr>)"
    if free: "find_group T i = None \<or> (\<forall>g \<in> set (gt_groups T). cg_id g = i \<or> cg_name g \<noteq> nm)"
  proof (cases "find_group T i = None")
    case True
    then have "map f (gt_groups T) = gt_groups T"
      by (intro map_idI) (auto simp: find_group_iff f)
    with assms show ?thesis by simp
  next
    case False
    note ok = groups_ok_update[of "gt_groups T" "gt_next_group T" f i nm]
    show ?thesis
      using False free assms by (intro keep ok) (auto simp: f nm tables_inv_def)
  qed
  with assms show ?thesis unfolding up by auto
qed

lemma commit_inv:
  "tables_inv L T \<Longrightarrow> tables_inv L T' \<Longrightarrow> tables_inv L (snd (commit_mappings fault T T'))"
  by (auto simp: commit_mappings_def tables_inv_def split: sum.split prod.split)

lemma distinct_map_filter': "distinct (map f xs) \<Longrightarrow> distinct (map f (filter P xs))"
  by (rule distinct_map_filter)

lemma AddMappingInt_inv:
  assumes "tables_inv L T"
  shows "tables_inv L (fst (snd (AddMappingInt fault T I mtype value gid)))"
proof -
  have new: "tables_inv L (T\<lparr>gt_mappings := gt_mappings T @ [m], gt_next_mapping := n\<rparr>)"
    if "\<forall>x \<in> set (gt_mappings T). cm_type x = cm_type m \<longrightarrow> cm_value x \<noteq> cm_value m"
      "find_group T (cm_group m) \<noteq> None" for m n
    using assms that by (auto simp: tables_inv_def mappings_ok_def find_group_iff)
  show ?thesis
    using assms commit_inv[OF assms new]
    by (auto simp: AddMappingInt_def Let_def case_prod_unfold split: sum.split option.split)
qed

lemma DeleteMapping_inv:
  assumes "tables_inv L T"
  shows "tables_inv L (fst (snd (DeleteMapping fault T I i)))"
proof -
  have "tables_inv L (T\<lparr>gt_mappings := filter (\<lambda>m. cm_id m \<noteq> i) (gt_mappings T)\<rparr>)"
    using assms by (auto simp: tables_inv_def mappings_ok_def distinct_map_filter)
  with assms commit_inv[OF assms this, of fault] show ?thesis
    by (auto simp: DeleteMapping_def case_prod_unfold split: option.split)
qed

lemma DeleteGroup_inv:
  assumes "tables_inv L T"
  shows "tables_inv L (fst (snd (DeleteGroup fault T I i)))"
proof (cases "i = 1")
  case True
  with assms show ?thesis by (simp add: DeleteGroup_def)
next
  case False
  have "tables_inv L (T\<lparr>gt_groups := filter (\<lambda>g. cg_id g \<noteq> i) (gt_groups T),
      gt_mappings := filter (\<lambda>m. cm_group m \<noteq> i) (gt_mappings T),
      gt_overrides := filter (\<lambda>r. fst r \<noteq> i) (gt_overrides T)\<rparr>)"
    using assms False
    by (fastforce simp: tables_inv_def mappings_ok_def overrides_ok_def groups_ok_def distinct_map_filter)
  with assms commit_inv[OF assms this, of fault] show ?thesis
    by (auto simp: DeleteGroup_def case_prod_unfold split: option.split)
qed

lemma set_upsert_row: "set (upsert_row same r xs) \<subseteq> insert r (set xs)"
  by (induction xs) auto

lemma distinct_upsert_row:
  assumes "distinct (map key xs)" "\<And>x. x \<in> set xs \<Longrightarrow> same x \<longleftrightarrow> key x = key r"
  shows "distinct (map key (upsert_row same r xs))"
  using assms
proof (induction xs)
  case (Cons x xs)
  have "key ` set (upsert_row same r xs) \<subseteq> insert (key r) (key ` set xs)"
    using set_upsert_row by fastforce
  with Cons show ?case by auto
qed simp

lemma override_domain_ok:
  "override_domain L d action = Inr d' \<Longrightarrow>
     override_ok L \<lparr>ov_domain = d', ov_action = action, ov_reason = reason\<rparr>"
  by (auto simp: override_domain_def override_ok_def Let_def split: if_splits)

lemma UpsertOverride_inv:
  assumes "tables_inv L T"
  shows "tables_inv L (snd (UpsertOverride L fault T d action reason))"
proof (cases "override_domain L d action")
  case (Inr d')
  let ?r = "\<lparr>ov_domain = d', ov_action = action, ov_reason = reason\<rparr>"
  have "distinct (map ov_domain (upsert_row (\<lambda>r. ov_domain r = d') ?r (gt_global T)))"
    using assms by (intro distinct_upsert_row) (auto simp: tables_inv_def overrides_ok_def)
  with assms Inr override_domain_ok[OF Inr, of reason] set_upsert_row[of "\<lambda>r. ov_domain r = d'" ?r "gt_global T"]
  show ?thesis by (auto simp: UpsertOverride_def tables_inv_def overrides_ok_def)
qed (use assms in \<open>simp add: UpsertOverride_def\<close>)

lemma UpsertGroupOverride_inv:
  assumes "tables_inv L T"
  shows "tables_inv L (snd (UpsertGroupOverride L fault T gid d action reason))"
proof (cases "override_domain L d action")
  case (Inr d')
  let ?r = "(gid, \<lparr>ov_domain = d', ov_action = action, ov_reason = reason\<rparr>)"
  let ?same = "\<lambda>r. fst r = gid \<and> ov_domain (snd r) = d'"
  have "distinct (map (\<lambda>r. (fst r, ov_domain (snd r))) (upsert_row ?same ?r (gt_overrides T)))"
    using assms by (intro distinct_upsert_row) (auto simp: tables_inv_def overrides_ok_def)
  with assms Inr override_domain_ok[OF Inr, of reason] set_upsert_row[of ?same ?r "gt_overrides T"]
  show ?thesis
    by (auto simp: UpsertGroupOverride_def tables_inv_def overrides_ok_def find_group_iff)
qed (use assms in \<open>simp add: UpsertGroupOverride_def\<close>)

lemma delete_override_inv:
  assumes "tables_inv L T"
  shows "tables_inv L (snd (DeleteOverride fault T d))"
    and "tables_inv L (snd (DeleteGroupOverride fault T gid d))"
  using assms
  by (auto simp: DeleteOverride_def DeleteGroupOverride_def Let_def tables_inv_def overrides_ok_def
      distinct_map_filter)

section \<open>The sorted index\<close>

lemma cidr_before_iff:
  "cidr_before a b \<longleftrightarrow> mask_ones (snd b) < mask_ones (snd a) \<or>
     mask_ones (snd a) = mask_ones (snd b) \<and> length (net_mask (snd b)) < length (net_mask (snd a))"
  by (auto simp: cidr_before_def mask_Size_def)

lemma set_insert_cidr:
  "set (takeWhile P acc @ [x] @ dropWhile P acc) = insert x (set acc)"
proof -
  have "set acc = set (takeWhile P acc) \<union> set (dropWhile P acc)"
    by (metis set_append takeWhile_dropWhile_id)
  then show ?thesis by auto
qed

lemma set_sort_slice: "set (sort_slice xs) = set xs"
  unfolding sort_slice_def
  by (induction xs) (simp_all only: foldr.simps comp_def id_apply set_insert_cidr list.set)

lemma sorted_insert_cidr:
  assumes "sorted_wrt (\<lambda>a b. \<not> cidr_before b a) acc"
  shows "sorted_wrt (\<lambda>a b. \<not> cidr_before b a)
    (takeWhile (\<lambda>y. cidr_before y x) acc @ [x] @ dropWhile (\<lambda>y. cidr_before y x) acc)"
  using assms
proof (induction acc)
  case (Cons y ys)
  show ?case
  proof (cases "cidr_before y x")
    case True
    then have "\<not> cidr_before x y" by (auto simp: cidr_before_iff)
    moreover have "\<forall>b \<in> set ys. \<not> cidr_before b y" using Cons.prems by simp
    ultimately have "\<forall>b \<in> set (takeWhile (\<lambda>y. cidr_before y x) ys @ [x] @ dropWhile (\<lambda>y. cidr_before y x) ys).
        \<not> cidr_before b y"
      unfolding set_insert_cidr by blast
    with True Cons show ?thesis by simp
  next
    case False
    have "\<not> cidr_before b x" if "b \<in> set ys" for b
      using that False Cons.prems by (auto simp: cidr_before_iff)
    with False Cons.prems show ?thesis by simp
  qed
qed simp

lemma sorted_sort_slice: "sorted_wrt (\<lambda>a b. \<not> cidr_before b a) (sort_slice xs)"
  unfolding sort_slice_def
  by (induction xs) (simp_all only: foldr.simps comp_def id_apply sorted_insert_cidr sorted_wrt.simps)

lemma find_sorted:
  assumes "sorted_wrt R xs" "find P xs = Some x" "y \<in> set xs" "P y" "\<And>z. R z z"
  shows "R x y"
  using assms(1-4)
proof (induction xs)
  case (Cons z zs)
  then show ?case using assms(5) by (auto split: if_splits)
qed simp

lemma find_in_cache: "find P xs = Some x \<Longrightarrow> x \<in> set xs \<and> P x"
  by (auto simp: find_Some_iff)

definition fresh_index :: "group_tables \<Rightarrow> cidr_index \<Rightarrow> bool" where
  "fresh_index T I \<longleftrightarrow> cidrCache I = sort_slice (cidr_rows T)"

lemma cidr_rows_groups:
  assumes "tables_inv L T" "e \<in> set (cidr_rows T)"
  shows "fst e \<in> cg_id ` set (gt_groups T)"
  using assms
  by (auto simp: cidr_rows_def map_filter_def tables_inv_def mappings_ok_def split: if_splits)

lemma cidr_group_longest:
  assumes "fresh_index T I"
  shows "if \<exists>e \<in> set (cidr_rows T). net_contains (snd e) a
     then \<exists>e \<in> set (cidr_rows T). cidr_group I a = fst e \<and> net_contains (snd e) a \<and>
       (\<forall>e' \<in> set (cidr_rows T). net_contains (snd e') a \<longrightarrow> mask_ones (snd e') \<le> mask_ones (snd e))
     else cidr_group I a = 0"
proof (cases "find (\<lambda>e. net_contains (snd e) a) (cidrCache I)")
  case None
  then have "\<forall>e \<in> set (cidr_rows T). \<not> net_contains (snd e) a"
    using assms by (auto simp: find_None_iff fresh_index_def set_sort_slice)
  with None show ?thesis by (simp add: cidr_group_def)
next
  case (Some e)
  then have e: "e \<in> set (cidr_rows T)" "net_contains (snd e) a"
    using find_in_cache[OF Some] assms by (simp_all add: fresh_index_def set_sort_slice)
  have "mask_ones (snd e') \<le> mask_ones (snd e)"
    if "e' \<in> set (cidr_rows T)" "net_contains (snd e') a" for e'
    using find_sorted[OF sorted_sort_slice Some[unfolded assms[unfolded fresh_index_def]], of e'] that
    by (auto simp: set_sort_slice cidr_before_iff)
  with e Some show ?thesis by (auto simp: cidr_group_def)
qed

lemma GetGroup_found:
  assumes "i \<in> cg_id ` set (gt_groups T)" "gt_enabled T" "\<not> fault QGroup"
  shows "\<exists>g \<in> set (gt_groups T). cg_id g = i \<and> GetGroup fault T i = Inr g"
proof -
  obtain g where g: "find_group T i = Some g" using assms(1) find_group_iff by blast
  then have "g \<in> set (gt_groups T)" "cg_id g = i" by (auto simp: find_group_def find_Some_iff)
  with g assms show ?thesis by (auto simp: GetGroup_def)
qed

lemma default_found:
  assumes "tables_inv L T" "gt_enabled T" "\<not> fault QGroupName"
  shows "\<exists>g \<in> set (gt_groups T). cg_name g = ''default'' \<and> cg_id g = 1 \<and>
    GetGroupByName fault T ''default'' = Inr g"
proof -
  obtain d where d: "d \<in> set (gt_groups T)" "cg_id d = 1" "cg_name d = ''default''"
    using assms(1) by (auto simp: tables_inv_def groups_ok_def)
  then obtain g where g: "find_group_name T ''default'' = Some g"
    using find_group_name_iff[of T "''default''"] by force
  then have g': "g \<in> set (gt_groups T)" "cg_name g = ''default''"
    by (auto simp: find_group_name_def find_Some_iff)
  have "g = d"
    using assms(1) d g' by (auto simp: tables_inv_def groups_ok_def distinct_map inj_on_def)
  with g g' d assms show ?thesis by (auto simp: GetGroupByName_def)
qed

section \<open>The override walk\<close>

definition row_at :: "group_tables \<Rightarrow> int \<Rightarrow> string \<Rightarrow> override option" where
  "row_at T gid c = (case group_row T gid c of Some r \<Rightarrow> Some r | None \<Rightarrow> global_row T c)"

lemma row_at_domain: "row_at T gid c = Some r \<Longrightarrow> ov_domain r = c"
  by (auto simp: row_at_def group_row_def global_row_def find_Some_iff split: option.splits)

lemma override_walk_no_fault:
  "override_walk (\<lambda>_. False) T gid cs =
     Inr (case find (\<lambda>c. row_at T gid c \<noteq> None) cs of None \<Rightarrow> None | Some c \<Rightarrow> row_at T gid c)"
  by (induction cs) (auto simp: row_at_def split: option.split)

lemma canonical_no_space: "canonical_domain d \<Longrightarrow> trim_space d = d"
  by (rule trim_space_id) (auto simp: canonical_domain_def dest: valid_domain_char_facts)

section \<open>Properties\<close>

definition empty_tables :: group_tables where
  "empty_tables = \<lparr>gt_enabled = True, gt_groups = [], gt_mappings = [], gt_overrides = [], gt_global = [],
     gt_rev_row = None, gt_next_group = 1, gt_next_mapping = 1\<rparr>"


definition sample_tables :: group_tables where
  "sample_tables = \<lparr>gt_enabled = True,
     gt_groups = [\<lparr>cg_id = 1, cg_name = ''default'', cg_description = [], BlockCategories = [],
                   StrictPhishing = False, StrictMalware = True\<rparr>,
                  \<lparr>cg_id = 2, cg_name = ''kids'', cg_description = [], BlockCategories = [''adult''],
                   StrictPhishing = True, StrictMalware = True\<rparr>],
     gt_mappings = [\<lparr>cm_id = 1, cm_type = ''cidr'', cm_value = ''10.0.0.0/8'', cm_group = 1\<rparr>,
                    \<lparr>cm_id = 2, cm_type = ''cidr'', cm_value = ''10.1.0.0/16'', cm_group = 2\<rparr>],
     gt_overrides = [(2, \<lparr>ov_domain = ''example.co.uk'', ov_action = ''block'', ov_reason = []\<rparr>)],
     gt_global = [\<lparr>ov_domain = ''ads.test'', ov_action = ''allow'', ov_reason = []\<rparr>],
     gt_rev_row = Some ''2'', gt_next_group = 3, gt_next_mapping = 3\<rparr>"

lemma sample_tables_inv: "tables_inv sample_libs sample_tables"
proof -
  have "IsRegistrableDomain sample_libs ''example.co.uk''" "IsRegistrableDomain sample_libs ''ads.test''"
    by (atomize (full)) code_simp
  then show ?thesis
    by (simp add: sample_tables_def tables_inv_def groups_ok_def mappings_ok_def overrides_ok_def override_ok_def)
qed


definition sample_index :: cidr_index where
  "sample_index = \<lparr>cidrCache = sort_slice (cidr_rows sample_tables), cidrRevision = 2\<rparr>"

text \<open>
  C26: while the tables keep their invariant, the statements succeed and the CIDR index is fresh,
  resolving a client never fails: it returns a stored group. A client id that the caller did not
  verify has no influence on the answer, whatever the state of the store and its failures.
\<close>

theorem client_always_resolves:
  assumes "tables_inv L T" and "gt_enabled T" and "fresh_index T I"
  shows "(\<exists>g \<in> set (gt_groups T). GetGroupForClient (\<lambda>_. False) T I ip cid trusted = Inr g) \<and>
     GetGroupForClient fault T' I' ip cid False = GetGroupForClient fault T' I' ip cid' False"
proof
  let ?nf = "\<lambda>_ :: g_stage. False"
  note def = default_found[OF assms(1,2), of ?nf]
  have cidr: "cidr_group I a \<in> cg_id ` set (gt_groups T)" if "cidr_group I a > 0" for a
    using cidr_group_longest[OF assms(3), of a] that cidr_rows_groups[OF assms(1)]
    by (auto split: if_splits)
  have mapped: "gid \<in> cg_id ` set (gt_groups T)" if "mapped_group T mt v = Some gid" for mt v gid
    using that assms(1) by (auto simp: mapped_group_def find_Some_iff tables_inv_def mappings_ok_def)
  have net: "\<exists>g \<in> set (gt_groups T). group_by_network ?nf T I x = Inr g" for x
    using def cidr GetGroup_found[of _ T ?nf] assms(2)
    by (cases "if x = [] then None else ParseIP x") (fastforce simp: group_by_network_def)+
  have addr: "\<exists>g \<in> set (gt_groups T). group_by_address ?nf T I x = Inr g" for x
  proof (cases "x = [] \<or> mapped_group T ''ip'' x = None")
    case True
    with net[of x] show ?thesis by (auto simp: group_by_address_def)
  next
    case False
    then obtain gid where "mapped_group T ''ip'' x = Some gid" "x \<noteq> []" by auto
    with mapped[of "''ip''" x gid] GetGroup_found[of gid T ?nf] assms(2) show ?thesis
      by (auto simp: group_by_address_def)
  qed
  show "\<exists>g \<in> set (gt_groups T). GetGroupForClient ?nf T I ip cid trusted = Inr g"
  proof (cases "trusted \<and> mapped_group T ''client_id'' (trim_space cid) \<noteq> None \<and> trim_space cid \<noteq> []")
    case True
    then obtain gid where "mapped_group T ''client_id'' (trim_space cid) = Some gid" by auto
    with True mapped[of "''client_id''" "trim_space cid" gid] GetGroup_found[of gid T ?nf] assms(2)
    show ?thesis by (auto simp: GetGroupForClient_def Let_def)
  next
    case False
    with addr[of "trim_space ip"] assms(2) show ?thesis by (auto simp: GetGroupForClient_def Let_def)
  qed
  show "GetGroupForClient fault T' I' ip cid False = GetGroupForClient fault T' I' ip cid' False"
    by (simp add: GetGroupForClient_def Let_def)
qed

theorem client_always_resolves_witness:
  "\<exists>g \<in> set (gt_groups sample_tables).
     GetGroupForClient (\<lambda>_. False) sample_tables sample_index ''10.1.2.3'' ''tv'' False = Inr g"
proof -
  have "gt_enabled sample_tables" "fresh_index sample_tables sample_index"
    by (simp_all add: sample_tables_def fresh_index_def sample_index_def)
  from client_always_resolves[OF sample_tables_inv this] show ?thesis by blast
qed


lemma sample_rows:
  "cidr_rows sample_tables =
     [(1, \<lparr>net_ip = [10, 0, 0, 0], net_mask = [255, 0, 0, 0]\<rparr>),
      (2, \<lparr>net_ip = [10, 1, 0, 0], net_mask = [255, 255, 0, 0]\<rparr>)]"
  by code_simp

lemma sample_address: "ParseIP ''10.1.2.3'' = Some [0, 0, 0, 0, 0, 0, 0, 0, 0, 0, 255, 255, 10, 1, 2, 3]"
  by code_simp


text \<open>
  C18: the nearest override wins, and none reaches over the registrable domain. With no failing
  statement the answer is the row of the first domain on the walk (the asked domain, then its
  parents) that has one, the group's own row before the global one; the answer's domain is the
  asked domain or a parent of it, at or below its registrable domain, and when no domain on the
  walk has a row there is no override. A failing statement is an error, never a silent miss.
\<close>

theorem nearest_override_wins:
  assumes "psl_label_suffix L" and "NormalizeDomain L d = Inr d" and "to_lower d = d"
    and "etld_plus_one L d = Some r" and "gt_enabled T"
  shows "(case GetEffectiveOverride L (\<lambda>_. False) T gid d of
       Inl e \<Rightarrow> False
     | Inr None \<Rightarrow> \<forall>c \<in> set (walk_candidates L d). row_at T gid c = None
     | Inr (Some o') \<Rightarrow> is_or_under d (ov_domain o') \<and> is_or_under (ov_domain o') r \<and>
         (\<exists>i < length (walk_candidates L d). row_at T gid (walk_candidates L d ! i) = Some o' \<and>
            (\<forall>j < i. row_at T gid (walk_candidates L d ! j) = None))) \<and>
     (GetEffectiveOverride L fault T gid d = GetEffectiveOverride L (\<lambda>_. False) T gid d \<or>
      (\<exists>e. GetEffectiveOverride L fault T gid d = Inl e))"
proof
  have sp: "trim_space (to_lower d) = d"
    using assms(3) canonical_no_space[OF NormalizeDomain_canonical[OF assms(2)]] by simp
  let ?cs = "walk_candidates L d" and ?P = "\<lambda>c. row_at T gid c \<noteq> None"
  have ov: "GetEffectiveOverride L (\<lambda>_. False) T gid d =
      Inr (case find ?P ?cs of None \<Rightarrow> None | Some c \<Rightarrow> row_at T gid c)"
    using assms(5) by (simp add: GetEffectiveOverride_def sp override_walk_no_fault)
  show "case GetEffectiveOverride L (\<lambda>_. False) T gid d of
       Inl e \<Rightarrow> False
     | Inr None \<Rightarrow> \<forall>c \<in> set ?cs. row_at T gid c = None
     | Inr (Some o') \<Rightarrow> is_or_under d (ov_domain o') \<and> is_or_under (ov_domain o') r \<and>
         (\<exists>i < length ?cs. row_at T gid (?cs ! i) = Some o' \<and> (\<forall>j < i. row_at T gid (?cs ! j) = None))"
  proof (cases "find ?P ?cs")
    case None
    then have "\<forall>c \<in> set ?cs. row_at T gid c = None" by (auto simp: find_None_iff)
    moreover have "GetEffectiveOverride L (\<lambda>_. False) T gid d = Inr None" using ov unfolding None by simp
    ultimately show ?thesis by simp
  next
    case (Some c)
    then obtain i where i: "i < length ?cs" "c = ?cs ! i" "?P c" "\<forall>j < i. \<not> ?P (?cs ! j)"
      by (auto simp: find_Some_iff)
    then obtain o' where o': "row_at T gid c = Some o'" by auto
    have "c \<in> set ?cs" using i by simp
    note w = walk_candidates_parent[OF this] walk_candidates_registrable[OF assms(1,2,4) this]
    have "GetEffectiveOverride L (\<lambda>_. False) T gid d = Inr (Some o')" using ov o' unfolding Some by simp
    then show ?thesis using o' i w row_at_domain[OF o'] by auto
  qed
  have "override_walk fault T gid cs = override_walk (\<lambda>_. False) T gid cs \<or>
      (\<exists>e. override_walk fault T gid cs = Inl e)" for cs
    by (induction cs) (auto split: option.split)
  with assms(5) show "GetEffectiveOverride L fault T gid d = GetEffectiveOverride L (\<lambda>_. False) T gid d \<or>
      (\<exists>e. GetEffectiveOverride L fault T gid d = Inl e)"
    by (simp add: GetEffectiveOverride_def)
qed

theorem nearest_override_wins_witness:
  "GetEffectiveOverride sample_libs (\<lambda>_. False) sample_tables 2 ''www.example.co.uk'' =
     Inr (Some \<lparr>ov_domain = ''example.co.uk'', ov_action = ''block'', ov_reason = []\<rparr>)"
proof -
  have d: "NormalizeDomain sample_libs ''www.example.co.uk'' = Inr ''www.example.co.uk''"
    "to_lower ''www.example.co.uk'' = ''www.example.co.uk''"
    "etld_plus_one sample_libs ''www.example.co.uk'' = Some ''example.co.uk''"
    "gt_enabled sample_tables"
    and c: "walk_candidates sample_libs ''www.example.co.uk'' = [''www.example.co.uk'', ''example.co.uk'']"
    and r: "row_at sample_tables 2 ''www.example.co.uk'' = None"
      "row_at sample_tables 2 ''example.co.uk'' =
        Some \<lparr>ov_domain = ''example.co.uk'', ov_action = ''block'', ov_reason = []\<rparr>"
    by (atomize (full)) code_simp
  note n = nearest_override_wins[OF psl_label_suffix_sample d, of 2, THEN conjunct1]
  show ?thesis
  proof (cases "GetEffectiveOverride sample_libs (\<lambda>_. False) sample_tables 2 ''www.example.co.uk''")
    case (Inl e)
    with n show ?thesis by simp
  next
    case (Inr res)
    show ?thesis
    proof (cases res)
      case None
      with n Inr c r show ?thesis by simp
    next
      case (Some o')
      with n Inr c obtain i where "i < Suc (Suc 0)" "row_at sample_tables 2
          ([''www.example.co.uk'', ''example.co.uk''] ! i) = Some o'" by auto
      with r Inr Some show ?thesis by (auto simp: less_Suc_eq)
    qed
  qed
qed

text \<open>
  a stored network in IPv4-mapped notation shadows every IPv4 network. The sort compares the
  leading ones first, so a row ::ffff:0:0/96 comes before each IPv4 row although it contains every
  IPv4 address; the comment above the comparison says that address families are compared first to
  prevent this.
\<close>

theorem mapped_network_shadows:
  "let mapped = the (ParseCIDR ''::ffff:0:0/96''); lan = the (ParseCIDR ''192.168.1.0/24'')
   in sort_slice [(2, lan), (3, mapped)] = [(3, mapped), (2, lan)] \<and>
      cidr_group \<lparr>cidrCache = sort_slice [(2, lan), (3, mapped)], cidrRevision = 1\<rparr>
        (the (ParseIP ''192.168.1.7'')) = 3"
  by code_simp

end
