(* ===== verification/AdblockExceptions.thy ===== *)
theory AdblockExceptions
  imports TrieProps EnvConfig "HOL-Library.Product_Lexorder" "HOL-Library.Multiset"
begin

text \<open>
  Scoped content exceptions: \<^verbatim>\<open>internal/risk/adblock_exceptions.go\<close>. An exception names a queried domain
  (exact or suffix) and the provenance of one blocklist rule, and suppresses that rule's match. A
  configuration file is validated as a whole and indexed into two maps of buckets; a reload
  publishes the new snapshot or keeps the old one. Decoding the JSON body is the argument
  \<open>decode\<close>, \<^const>\<open>None\<close> when the strict decoder refuses it or finds trailing content, and the
  digest of the revision is the argument \<open>sha256\<close>.
\<close>

section \<open>Entries\<close>

record adblock_exception =
  ex_ID :: string
  ex_Domain :: string
  ex_Scope :: rule_scope
  ex_MatchedRule :: string
  ex_SourceID :: string
  ex_MatchType :: rule_scope
  ex_Category :: string
  ex_Reason :: string

record raw_exceptions =
  raw_Version :: int
  raw_Exceptions :: "adblock_exception list"

definition adblockExceptionsMaxBytes :: nat where "adblockExceptionsMaxBytes = 256 * 1024"
definition adblockExceptionsMaxEntries :: nat where "adblockExceptionsMaxEntries = 1024"
definition adblockExceptionsMaxIDLen :: nat where "adblockExceptionsMaxIDLen = 64"
definition adblockExceptionsMaxReason :: nat where "adblockExceptionsMaxReason = 256"
definition CacheV2LegacySourceID :: string where "CacheV2LegacySourceID = ''legacy-cache''"

datatype exc_error =
  ExcMissing | ExcOversize | ExcTooManyEntries | ExcInvalidJSON | ExcInvalidVersion | ExcInvalidEntry

section \<open>Validation\<close>

definition label_char :: "char \<Rightarrow> bool" where
  "label_char c \<longleftrightarrow> (97 \<le> byte c \<and> byte c \<le> 122) \<or> is_digit c \<or> c = CHR ''-''"

definition label_ok :: "string \<Rightarrow> bool" where
  "label_ok l \<longleftrightarrow>
     \<not> (length l = 0 \<or> length l > 63) \<and> list_all label_char l \<and>
     \<not> (hd l = CHR ''-'' \<or> last l = CHR ''-'')"

definition normalizeExceptionDomain :: "libs \<Rightarrow> string \<Rightarrow> string option" where
  "normalizeExceptionDomain L raw =
     (let trimmed = to_lower (trim_space raw) in
      if trimmed = [] then None
      else if contains trimmed ''://'' \<or> list_ex (\<lambda>c. c \<in> set ''/?#@:'') trimmed \<or> contains trimmed ''*'' \<or>
        list_ex (\<lambda>c. c = CHR '' '' \<or> c = CHR 0x09 \<or> c = CHR 0x0A \<or> c = CHR 0x0D) trimmed then None
      else case idna_to_ascii L trimmed of
        None \<Rightarrow> None
      | Some a \<Rightarrow>
          (let ascii = trim_space a in
           if ascii = [] \<or> length ascii > 253 then None
           else if list_all label_ok (split_on (CHR ''.'') ascii) then Some ascii else None))"

definition is_sub :: "string \<Rightarrow> string \<Rightarrow> bool" where
  "is_sub child parent \<longleftrightarrow> has_suffix child (''.'' @ parent)"

definition selectorsIntersect :: "string \<Rightarrow> rule_scope \<Rightarrow> string \<Rightarrow> rule_scope \<Rightarrow> bool" where
  "selectorsIntersect queryDomain queryScope ruleDomain ruleScope =
     (if queryDomain = ruleDomain then True
      else if queryScope = RuleScopeExact \<and> ruleScope = RuleScopeExact then False
      else if queryScope = RuleScopeExact then is_sub queryDomain ruleDomain
      else if ruleScope = RuleScopeExact then is_sub ruleDomain queryDomain
      else is_sub queryDomain ruleDomain \<or> is_sub ruleDomain queryDomain)"

definition isValidExceptionID :: "string \<Rightarrow> bool" where
  "isValidExceptionID i \<longleftrightarrow>
     \<not> (length i = 0 \<or> length i > adblockExceptionsMaxIDLen) \<and>
     list_all (\<lambda>c. is_letter c \<or> is_digit c \<or> c = CHR ''-'' \<or> c = CHR ''_'') i"

definition canonicalExceptionSourceID :: "string \<Rightarrow> string option" where
  "canonicalExceptionSourceID raw =
     (let trimmed = trim_space raw in
      if trimmed = LegacyRuleSourceID \<or> trimmed = CacheV2LegacySourceID then Some trimmed
      else if length trimmed \<noteq> 32 then None
      else if list_all is_hex trimmed then Some (to_lower trimmed) else None)"

definition selectorKey :: "adblock_exception \<Rightarrow> string" where
  "selectorKey e =
     ex_Domain e @ [CHR 0x00] @ ex_Scope e @ [CHR 0x00] @ ex_MatchedRule e @ [CHR 0x00] @
     ex_SourceID e @ [CHR 0x00] @ ex_MatchType e @ [CHR 0x00] @ ex_Category e"

text \<open>One turn of the loop: the normalised entry, or \<^const>\<open>None\<close> for every entry error.\<close>

definition validate_entry :: "libs \<Rightarrow> string list \<Rightarrow> string list \<Rightarrow> adblock_exception \<Rightarrow> adblock_exception option" where
  "validate_entry L seenIDs seenSelectors re =
     (if \<not> isValidExceptionID (ex_ID re) then None
      else if ex_ID re \<in> set seenIDs then None
      else
        (let reason = trim_space (ex_Reason re) in
         if reason = [] \<or> length reason > adblockExceptionsMaxReason then None
         else case (normalizeExceptionDomain L (ex_Domain re), normalizeExceptionDomain L (ex_MatchedRule re)) of
           (Some domain, Some matchedRule) \<Rightarrow>
             (let scope = to_lower (trim_space (ex_Scope re));
                  matchType = to_lower (trim_space (ex_MatchType re));
                  category = to_lower (trim_space (ex_Category re))
              in if scope \<noteq> RuleScopeExact \<and> scope \<noteq> RuleScopeSuffix then None
                 else if matchType \<noteq> RuleScopeExact \<and> matchType \<noteq> RuleScopeSuffix then None
                 else case canonicalExceptionSourceID (ex_SourceID re) of
                   None \<Rightarrow> None
                 | Some sourceID \<Rightarrow>
                     if category \<noteq> [] \<and> \<not> IsValidRuleCategory category then None
                     else if scope = RuleScopeSuffix \<and> \<not> IsRegistrableDomain L domain then None
                     else if \<not> selectorsIntersect domain scope matchedRule matchType then None
                     else
                       (let e = \<lparr>ex_ID = ex_ID re, ex_Domain = domain, ex_Scope = scope,
                                 ex_MatchedRule = matchedRule, ex_SourceID = sourceID,
                                 ex_MatchType = matchType, ex_Category = category, ex_Reason = reason\<rparr>
                        in if selectorKey e \<in> set seenSelectors then None else Some e))
         | _ \<Rightarrow> None))"

fun validate_entries ::
  "libs \<Rightarrow> string list \<Rightarrow> string list \<Rightarrow> adblock_exception list \<Rightarrow> adblock_exception list option" where
  "validate_entries L ids sels [] = Some []"
| "validate_entries L ids sels (re # res) =
     (case validate_entry L ids sels re of
        None \<Rightarrow> None
      | Some e \<Rightarrow> map_option ((#) e) (validate_entries L (ex_ID e # ids) (selectorKey e # sels) res))"

definition validateAdblockExceptions ::
  "libs \<Rightarrow> (string \<Rightarrow> raw_exceptions option) \<Rightarrow> string \<Rightarrow> exc_error + adblock_exception list" where
  "validateAdblockExceptions L decode body =
     (case decode body of
        None \<Rightarrow> Inl ExcInvalidJSON
      | Some raw \<Rightarrow>
          if raw_Version raw \<noteq> 1 then Inl ExcInvalidVersion
          else if length (raw_Exceptions raw) > adblockExceptionsMaxEntries then Inl ExcTooManyEntries
          else case validate_entries L [] [] (raw_Exceptions raw) of
            None \<Rightarrow> Inl ExcInvalidEntry
          | Some es \<Rightarrow> Inr es)"

section \<open>The snapshot\<close>

type_synonym exc_key = "string \<times> string \<times> rule_scope \<times> string"

record exc_bucket =
  specific :: "exc_key \<rightharpoonup> string"
  wildcard :: "exc_key \<rightharpoonup> string"

record exc_snapshot =
  revision :: string
  exc_count :: nat
  exc_exact :: "string \<rightharpoonup> exc_bucket"
  exc_suffix :: "string \<rightharpoonup> exc_bucket"

definition empty_bucket :: exc_bucket where
  "empty_bucket = \<lparr>specific = Map.empty, wildcard = Map.empty\<rparr>"

definition newEmptyAdblockExceptionSnapshot :: exc_snapshot where
  "newEmptyAdblockExceptionSnapshot =
     \<lparr>revision = [], exc_count = 0, exc_exact = Map.empty, exc_suffix = Map.empty\<rparr>"

definition entry_key :: "adblock_exception \<Rightarrow> exc_key" where
  "entry_key e = (ex_MatchedRule e, ex_SourceID e, ex_MatchType e, ex_Category e)"

definition put_bucket :: "exc_bucket option \<Rightarrow> adblock_exception \<Rightarrow> exc_bucket" where
  "put_bucket ob e =
     (let b = (case ob of None \<Rightarrow> empty_bucket | Some b \<Rightarrow> b)
      in if ex_Category e = [] then b\<lparr>wildcard := (wildcard b)(entry_key e \<mapsto> ex_ID e)\<rparr>
         else b\<lparr>specific := (specific b)(entry_key e \<mapsto> ex_ID e)\<rparr>)"

definition index_entry :: "exc_snapshot \<Rightarrow> adblock_exception \<Rightarrow> exc_snapshot" where
  "index_entry s e =
     (if ex_Scope e = RuleScopeExact
      then s\<lparr>exc_exact := (exc_exact s)(ex_Domain e \<mapsto> put_bucket (exc_exact s (ex_Domain e)) e)\<rparr>
      else s\<lparr>exc_suffix := (exc_suffix s)(ex_Domain e \<mapsto> put_bucket (exc_suffix s (ex_Domain e)) e)\<rparr>)"

text \<open>The bytes that the revision digests: eight big-endian bytes of length before every field.\<close>

definition uint64_bytes :: "nat \<Rightarrow> string" where
  "uint64_bytes n = map (\<lambda>i. char_of (n div 256 ^ i mod 256)) [7, 6, 5, 4, 3, 2, 1, 0]"

definition framed :: "string \<Rightarrow> string" where
  "framed s = uint64_bytes (length s) @ s"

definition revisionDomainSeparator :: string where
  "revisionDomainSeparator = ''safe-zone/adblock-exceptions/revision/v1''"

definition sort_tuple :: "adblock_exception \<Rightarrow>
    string \<times> string \<times> string \<times> string \<times> string \<times> string \<times> string \<times> string" where
  "sort_tuple e = (ex_ID e, ex_Domain e, ex_Scope e, ex_MatchedRule e, ex_SourceID e, ex_MatchType e,
     ex_Category e, ex_Reason e)"

definition entry_bytes :: "adblock_exception \<Rightarrow> string" where
  "entry_bytes e =
     framed (ex_ID e) @ framed (ex_Domain e) @ framed (ex_Scope e) @ framed (ex_MatchedRule e) @
     framed (ex_SourceID e) @ framed (ex_MatchType e) @ framed (ex_Category e) @ framed (ex_Reason e)"

definition revision_bytes :: "adblock_exception list \<Rightarrow> string" where
  "revision_bytes entries =
     (let ordered = sort_key sort_tuple entries
      in framed revisionDomainSeparator @ uint64_bytes (length ordered) @ concat (map entry_bytes ordered))"

definition hashAdblockExceptionRevision :: "(string \<Rightarrow> string) \<Rightarrow> adblock_exception list \<Rightarrow> string" where
  "hashAdblockExceptionRevision sha256 entries =
     concat (map (\<lambda>c. [hex_digit (byte c div 16), hex_digit (byte c mod 16)])
       (take 16 (sha256 (revision_bytes entries))))"

definition buildAdblockExceptionSnapshot ::
  "(string \<Rightarrow> string) \<Rightarrow> adblock_exception list \<Rightarrow> exc_snapshot" where
  "buildAdblockExceptionSnapshot sha256 entries =
     (foldl index_entry
        \<lparr>revision = [], exc_count = length entries, exc_exact = Map.empty, exc_suffix = Map.empty\<rparr> entries)
     \<lparr>revision := hashAdblockExceptionRevision sha256 entries\<rparr>"

section \<open>Matching\<close>

definition matchBucket :: "exc_bucket \<Rightarrow> rule \<Rightarrow> string option" where
  "matchBucket b r =
     (case specific b (rDomain r, rSourceID r, rScope r, rCategory r) of
        Some i \<Rightarrow> Some i
      | None \<Rightarrow> wildcard b (rDomain r, rSourceID r, rScope r, []))"

definition bucket_match :: "exc_bucket option \<Rightarrow> rule \<Rightarrow> string option" where
  "bucket_match ob r = (case ob of None \<Rightarrow> None | Some b \<Rightarrow> matchBucket b r)"

function suffix_match :: "exc_snapshot \<Rightarrow> string \<Rightarrow> rule \<Rightarrow> string option" where
  "suffix_match s candidate r =
     (case bucket_match (exc_suffix s candidate) r of
        Some i \<Rightarrow> Some i
      | None \<Rightarrow>
          (let dot = index_byte candidate CHR ''.'' in
           if dot < 0 then None else suffix_match s (drop (nat dot + 1) candidate) r))"
  by auto
termination
proof (relation "measure (\<lambda>(s, c, r). length c)", goal_cases)
  case (2 s candidate r dot)
  then have "CHR ''.'' \<in> set candidate" by (auto simp: index_byte_def split: if_splits)
  then have "candidate \<noteq> []" by auto
  then show ?case by simp
qed simp

declare suffix_match.simps [simp del]

definition exc_match :: "exc_snapshot option \<Rightarrow> string \<Rightarrow> rule option \<Rightarrow> string option" where
  "exc_match os query orl =
     (case (os, orl) of
        (Some s, Some r) \<Rightarrow>
          if exc_count s = 0 then None
          else (case bucket_match (exc_exact s query) r of
                  Some i \<Rightarrow> Some i
                | None \<Rightarrow> suffix_match s query r)
      | _ \<Rightarrow> None)"

definition normalizeExceptionQuery :: "libs \<Rightarrow> string \<Rightarrow> string option" where
  "normalizeExceptionQuery L query =
     (if list_all (\<lambda>c. byte c < 128) query then (if query \<noteq> [] then Some query else None)
      else case idna_to_ascii L query of
        None \<Rightarrow> None
      | Some converted \<Rightarrow> if converted = [] then None else Some converted)"

definition matchAdblockException :: "libs \<Rightarrow> exc_snapshot option \<Rightarrow> string \<Rightarrow> rule \<Rightarrow> string option" where
  "matchAdblockException L os query r =
     (case os of
        None \<Rightarrow> None
      | Some s \<Rightarrow>
          if exc_count s = 0 then None
          else case normalizeExceptionQuery L query of
            None \<Rightarrow> None
          | Some q \<Rightarrow> exc_match os q (Some r))"

section \<open>Reloading\<close>

datatype exc_file = NoSuchFile | NotOpenable | ReadFailed | FileBytes string

definition loadAdblockExceptionFile ::
  "libs \<Rightarrow> (string \<Rightarrow> raw_exceptions option) \<Rightarrow> (string \<Rightarrow> string) \<Rightarrow> exc_file \<Rightarrow> exc_error + exc_snapshot" where
  "loadAdblockExceptionFile L decode sha256 file =
     (case file of
        NoSuchFile \<Rightarrow> Inl ExcMissing
      | NotOpenable \<Rightarrow> Inl ExcMissing
      | ReadFailed \<Rightarrow> Inl ExcInvalidEntry
      | FileBytes content \<Rightarrow>
          (let body = take (adblockExceptionsMaxBytes + 1) content in
           if length body > adblockExceptionsMaxBytes then Inl ExcOversize
           else case validateAdblockExceptions L decode body of
             Inl e \<Rightarrow> Inl e
           | Inr entries \<Rightarrow> Inr (buildAdblockExceptionSnapshot sha256 entries)))"

record exc_engine =
  exceptionsFile :: string
  exceptionsPinned :: bool
  exceptions :: "exc_snapshot option"
  exceptionsConfigured :: bool
  excLastReload :: "int option"
  excLastOK :: bool
  excLastErr :: "exc_error option"
  excReloadSuccesses :: nat
  excReloadFailures :: nat

definition reloadAdblockExceptions ::
  "libs \<Rightarrow> (string \<Rightarrow> raw_exceptions option) \<Rightarrow> (string \<Rightarrow> string) \<Rightarrow> env \<Rightarrow> (string \<Rightarrow> exc_file) \<Rightarrow> int \<Rightarrow> exc_engine \<Rightarrow>
   exc_engine" where
  "reloadAdblockExceptions L decode sha256 getenv open_within now e0 =
     (let e = (if exceptionsPinned e0 then e0
               else e0\<lparr>exceptionsFile := trim_space (env_String getenv ''SAFE_ZONE_ADBLOCK_EXCEPTIONS_FILE'' [])\<rparr>);
          path = exceptionsFile e
      in if path = [] then
           (if exceptionsConfigured e
            then e\<lparr>exceptions := Some newEmptyAdblockExceptionSnapshot, exceptionsConfigured := False\<rparr> else e)
         else
           (let e = e\<lparr>exceptionsConfigured := True\<rparr> in
            case loadAdblockExceptionFile L decode sha256 (open_within path) of
              Inl err \<Rightarrow>
                e\<lparr>excLastReload := Some now, excLastOK := False, excLastErr := Some err,
                  excReloadFailures := excReloadFailures e + 1\<rparr>
            | Inr snapshot \<Rightarrow>
                e\<lparr>exceptions := Some snapshot, excLastReload := Some now, excLastOK := True,
                  excLastErr := None, excReloadSuccesses := excReloadSuccesses e + 1\<rparr>))"

end
