(* ===== verification/ExceptionProps.thy ===== *)
theory ExceptionProps
  imports AdblockExceptions
begin

text \<open>
  What the content exceptions promise. The snapshot refines a finite map from selectors to exception
  ids; a lookup finds an exception exactly when some configured entry covers the queried domain and
  names the fired rule's provenance, independently of the order of the file; the revision digests
  an unambiguous encoding; a file is accepted only when every entry is well-formed; a reload that
  fails keeps the published snapshot.
\<close>

section \<open>Slots of a snapshot\<close>

type_synonym selector = "bool \<times> string \<times> exc_key"

definition key_category :: "exc_key \<Rightarrow> string" where
  "key_category k = snd (snd (snd k))"

definition exc_slot :: "exc_snapshot \<Rightarrow> selector \<Rightarrow> string option" where
  "exc_slot s sel =
     (case (if fst sel then exc_exact s (fst (snd sel)) else exc_suffix s (fst (snd sel))) of
        None \<Rightarrow> None
      | Some b \<Rightarrow> if key_category (snd (snd sel)) = [] then wildcard b (snd (snd sel))
                  else specific b (snd (snd sel)))"

definition selector_of :: "adblock_exception \<Rightarrow> selector" where
  "selector_of e = (ex_Scope e = RuleScopeExact, ex_Domain e, entry_key e)"

lemma key_category_entry [simp]: "key_category (entry_key e) = ex_Category e"
  by (simp add: key_category_def entry_key_def)

lemma exc_slot_index:
  "exc_slot (index_entry s e) = (exc_slot s)(selector_of e \<mapsto> ex_ID e)"
proof
  fix sel :: selector
  obtain ex d k where sel: "sel = (ex, d, k)" by (cases sel)
  show "exc_slot (index_entry s e) sel = ((exc_slot s)(selector_of e \<mapsto> ex_ID e)) sel"
  proof (cases "sel = selector_of e")
    case True
    then show ?thesis
      by (auto simp: exc_slot_def index_entry_def put_bucket_def selector_of_def Let_def)
  next
    case False
    then show ?thesis
      by (cases "ex_Scope e = RuleScopeExact"; cases "d = ex_Domain e"; cases "k = entry_key e")
         (auto simp: sel exc_slot_def index_entry_def put_bucket_def selector_of_def Let_def empty_bucket_def
            split: option.splits)
  qed
qed

text \<open>No bucket holds a key in the class it does not belong to.\<close>

definition bucket_ok :: "exc_bucket \<Rightarrow> bool" where
  "bucket_ok b \<longleftrightarrow> (\<forall>k. specific b k \<noteq> None \<longrightarrow> key_category k \<noteq> [])"

definition snapshot_ok :: "exc_snapshot \<Rightarrow> bool" where
  "snapshot_ok s \<longleftrightarrow>
     (\<forall>d b. exc_exact s d = Some b \<longrightarrow> bucket_ok b) \<and> (\<forall>d b. exc_suffix s d = Some b \<longrightarrow> bucket_ok b)"

lemma snapshot_ok_index: "snapshot_ok s \<Longrightarrow> snapshot_ok (index_entry s e)"
  by (auto simp: snapshot_ok_def index_entry_def put_bucket_def bucket_ok_def empty_bucket_def Let_def
      split: if_splits option.splits)

lemma foldl_index:
  "snapshot_ok s \<Longrightarrow> snapshot_ok (foldl index_entry s es) \<and>
     exc_slot (foldl index_entry s es) = exc_slot s ++ map_of (rev (map (\<lambda>e. (selector_of e, ex_ID e)) es)) \<and>
     exc_count (foldl index_entry s es) = exc_count s"
proof (induction es arbitrary: s)
  case (Cons e es)
  have "exc_count (index_entry s e) = exc_count s" by (simp add: index_entry_def)
  with Cons.IH[OF snapshot_ok_index[OF Cons.prems]] show ?case
    by (simp add: exc_slot_index map_add_def fun_eq_iff split: option.split)
qed simp

lemma revision_update [simp]:
  "exc_slot (s\<lparr>revision := x\<rparr>) = exc_slot s" "snapshot_ok (s\<lparr>revision := x\<rparr>) = snapshot_ok s"
  by (simp_all add: exc_slot_def snapshot_ok_def fun_eq_iff)

lemma built_snapshot:
  fixes es :: "adblock_exception list"
  shows "snapshot_ok (buildAdblockExceptionSnapshot h es)"
    and "exc_slot (buildAdblockExceptionSnapshot h es) = map_of (rev (map (\<lambda>e. (selector_of e, ex_ID e)) es))"
    and "exc_count (buildAdblockExceptionSnapshot h es) = length es"
proof -
  let ?s = "\<lparr>revision = [], exc_count = length es, exc_exact = Map.empty, exc_suffix = Map.empty\<rparr>"
  have ok: "snapshot_ok ?s" by (simp add: snapshot_ok_def)
  have "exc_slot ?s = Map.empty" by (simp add: exc_slot_def fun_eq_iff)
  with foldl_index[OF ok, of es]
  show "snapshot_ok (buildAdblockExceptionSnapshot h es)"
    and "exc_slot (buildAdblockExceptionSnapshot h es) = map_of (rev (map (\<lambda>e. (selector_of e, ex_ID e)) es))"
    and "exc_count (buildAdblockExceptionSnapshot h es) = length es"
    by (simp_all add: buildAdblockExceptionSnapshot_def)
qed

lemma built_slot_iff:
  assumes "distinct (map selector_of es)"
  shows "exc_slot (buildAdblockExceptionSnapshot h es) k = Some i \<longleftrightarrow>
     (\<exists>e \<in> set es. selector_of e = k \<and> ex_ID e = i)"
proof -
  have "distinct (map fst (rev (map (\<lambda>e. (selector_of e, ex_ID e)) es)))"
    using assms by (simp add: rev_map comp_def flip: rev_map)
  from map_of_eq_Some_iff[OF this] show ?thesis unfolding built_snapshot(2) by auto
qed

definition rule_keys :: "rule \<Rightarrow> exc_key list" where
  "rule_keys r = [(rDomain r, rSourceID r, rScope r, rCategory r), (rDomain r, rSourceID r, rScope r, [])]"

fun first_some :: "('a \<Rightarrow> 'b option) \<Rightarrow> 'a list \<Rightarrow> 'b option" where
  "first_some f [] = None"
| "first_some f (x # xs) = (case f x of Some y \<Rightarrow> Some y | None \<Rightarrow> first_some f xs)"

lemma bucket_match_slots:
  assumes "snapshot_ok s"
  shows "bucket_match (exc_exact s d) r = first_some (\<lambda>k. exc_slot s (True, d, k)) (rule_keys r)"
    and "bucket_match (exc_suffix s d) r = first_some (\<lambda>k. exc_slot s (False, d, k)) (rule_keys r)"
proof -
  have "matchBucket b r = first_some (\<lambda>k. if key_category k = [] then wildcard b k else specific b k) (rule_keys r)"
    if "bucket_ok b" for b
  proof (cases "rCategory r = []")
    case True
    then have "specific b (rDomain r, rSourceID r, rScope r, rCategory r) = None"
      using that unfolding bucket_ok_def by (metis True key_category_def snd_conv)
    with True show ?thesis
      by (auto simp: matchBucket_def rule_keys_def key_category_def split: option.split)
  next
    case False
    then show ?thesis by (auto simp: matchBucket_def rule_keys_def key_category_def split: option.split)
  qed
  with assms show "bucket_match (exc_exact s d) r = first_some (\<lambda>k. exc_slot s (True, d, k)) (rule_keys r)"
    and "bucket_match (exc_suffix s d) r = first_some (\<lambda>k. exc_slot s (False, d, k)) (rule_keys r)"
    by (auto simp: bucket_match_def exc_slot_def snapshot_ok_def rule_keys_def split: option.split)
qed

section \<open>The suffix walk\<close>

lemma index_byte_split:
  assumes "\<not> index_byte q c < 0"
  shows "\<exists>a. q = a @ c # drop (nat (index_byte q c) + 1) q \<and> c \<notin> set a"
proof -
  have c: "c \<in> set q" using assms by (auto simp: index_byte_def split: if_splits)
  then obtain a b where q: "q = a @ c # b" "c \<notin> set a" by (metis split_list_first)
  then have "takeWhile (\<lambda>x. x \<noteq> c) q = a" by (auto simp: takeWhile_append)
  then have "nat (index_byte q c) = length a" using c by (simp add: index_byte_def)
  with q show ?thesis by auto
qed

lemma is_or_under_step:
  assumes "q = a @ CHR ''.'' # rest" "CHR ''.'' \<notin> set a"
  shows "is_or_under q c \<longleftrightarrow> c = q \<or> is_or_under rest c"
proof
  assume "is_or_under q c"
  then consider "q = c" | t where "q = t @ CHR ''.'' # c" by (auto simp: is_or_under_def has_suffix_iff)
  then show "c = q \<or> is_or_under rest c"
  proof cases
    case 2
    then have "t @ CHR ''.'' # c = a @ CHR ''.'' # rest" using assms(1) by simp
    then obtain us where us: "t = a @ us \<and> us @ CHR ''.'' # c = CHR ''.'' # rest \<or>
        t @ us = a \<and> CHR ''.'' # c = us @ CHR ''.'' # rest"
      by (auto simp: append_eq_append_conv2)
    show ?thesis
    proof (cases "us = []")
      case True
      with us show ?thesis by (auto simp: is_or_under_def)
    next
      case False
      with us assms(2) show ?thesis by (cases us) (auto simp: is_or_under_def has_suffix_iff)
    qed
  qed simp
next
  assume "c = q \<or> is_or_under rest c"
  then show "is_or_under q c"
  proof
    assume "is_or_under rest c"
    then consider "rest = c" | t where "rest = t @ CHR ''.'' # c" by (auto simp: is_or_under_def has_suffix_iff)
    then have "\<exists>t. q = t @ CHR ''.'' # c"
    proof cases
      case 1
      with assms(1) show ?thesis by blast
    next
      case 2
      with assms(1) have "q = (a @ CHR ''.'' # t) @ CHR ''.'' # c" by simp
      then show ?thesis by blast
    qed
    then show ?thesis by (auto simp: is_or_under_def has_suffix_iff)
  qed (simp add: is_or_under_def)
qed

lemma is_or_under_no_dot: "CHR ''.'' \<notin> set q \<Longrightarrow> is_or_under q c \<longleftrightarrow> c = q"
  by (auto simp: is_or_under_def has_suffix_iff)

lemma suffix_match_spec:
  "(suffix_match s q r = None \<longleftrightarrow> (\<forall>c. is_or_under q c \<longrightarrow> bucket_match (exc_suffix s c) r = None)) \<and>
   (\<forall>i. suffix_match s q r = Some i \<longrightarrow> (\<exists>c. is_or_under q c \<and> bucket_match (exc_suffix s c) r = Some i))"
proof (induction s q r rule: suffix_match.induct)
  case (1 s q r)
  note unfold = suffix_match.simps[of s q r]
  show ?case
  proof (cases "bucket_match (exc_suffix s q) r")
    case (Some i)
    have "is_or_under q q" by (simp add: is_or_under_def)
    with Some show ?thesis unfolding unfold by auto
  next
    case None
    show ?thesis
    proof (cases "index_byte q CHR ''.'' < 0")
      case True
      then have "CHR ''.'' \<notin> set q" by (auto simp: index_byte_def split: if_splits)
      with None True show ?thesis unfolding unfold by (simp add: is_or_under_no_dot Let_def)
    next
      case False
      let ?rest = "drop (nat (index_byte q CHR ''.'') + 1) q"
      obtain a where "q = a @ CHR ''.'' # ?rest" "CHR ''.'' \<notin> set a"
        using index_byte_split[OF False] by blast
      note step = is_or_under_step[OF this]
      have sm: "suffix_match s q r = suffix_match s ?rest r"
        unfolding unfold using None False by (simp add: Let_def)
      note IH = "1.IH"[OF None refl False]
      show ?thesis unfolding sm step using IH None by auto
    qed
  qed
qed

lemma suffix_match_cong:
  "\<forall>c. bucket_match (exc_suffix s c) r = bucket_match (exc_suffix s' c) r \<Longrightarrow>
   suffix_match s q r = suffix_match s' q r"
proof (induction s q r rule: suffix_match.induct)
  case (1 s q r)
  then have "bucket_match (exc_suffix s q) r = bucket_match (exc_suffix s' q) r" by blast
  then show ?case
    using "1.IH"[OF _ refl] "1.prems"
    by (subst (1 2) suffix_match.simps) (auto simp: Let_def split: option.split)
qed

lemma under_common:
  assumes "is_or_under q d" "is_or_under q r"
  shows "is_or_under d r \<or> is_or_under r d"
proof -
  let ?dot = "CHR ''.''"
  from assms consider "q = d" | "q = r" | t u where "q = t @ ?dot # d" "q = u @ ?dot # r"
    unfolding is_or_under_def has_suffix_iff by (metis append_Cons append_Nil)
  then show ?thesis
  proof cases
    case 3
    then have "t @ ?dot # d = u @ ?dot # r" by simp
    then obtain us where "t = u @ us \<and> us @ ?dot # d = ?dot # r \<or> t @ us = u \<and> ?dot # d = us @ ?dot # r"
      unfolding append_eq_append_conv2 by blast
    then show ?thesis by (cases us) (auto simp: is_or_under_def has_suffix_iff)
  qed (use assms in auto)
qed

section \<open>Validated entries\<close>

definition hostname_ok :: "string \<Rightarrow> bool" where
  "hostname_ok d \<longleftrightarrow> d \<noteq> [] \<and> length d \<le> 253 \<and> list_all label_ok (split_on (CHR ''.'') d)"

definition entry_ok :: "libs \<Rightarrow> adblock_exception \<Rightarrow> bool" where
  "entry_ok L e \<longleftrightarrow>
     isValidExceptionID (ex_ID e) \<and> hostname_ok (ex_Domain e) \<and> hostname_ok (ex_MatchedRule e) \<and>
     ex_Scope e \<in> {RuleScopeExact, RuleScopeSuffix} \<and> ex_MatchType e \<in> {RuleScopeExact, RuleScopeSuffix} \<and>
     (ex_Category e = [] \<or> IsValidRuleCategory (ex_Category e)) \<and>
     (ex_Scope e = RuleScopeSuffix \<longrightarrow> IsRegistrableDomain L (ex_Domain e)) \<and>
     selectorsIntersect (ex_Domain e) (ex_Scope e) (ex_MatchedRule e) (ex_MatchType e) \<and>
     ex_Reason e \<noteq> [] \<and> length (ex_Reason e) \<le> adblockExceptionsMaxReason"

lemma normalizeExceptionDomain_ok: "normalizeExceptionDomain L raw = Some d \<Longrightarrow> hostname_ok d"
  by (auto simp: normalizeExceptionDomain_def hostname_ok_def Let_def split: if_splits option.splits)

lemma validate_entry_ok:
  "validate_entry L ids sels re = Some e \<Longrightarrow>
     entry_ok L e \<and> ex_ID e \<notin> set ids \<and> selectorKey e \<notin> set sels"
  by (auto simp: validate_entry_def entry_ok_def Let_def
      dest!: normalizeExceptionDomain_ok split: if_splits option.splits)

lemma validate_entries_ok:
  "validate_entries L ids sels res = Some es \<Longrightarrow>
     (\<forall>e \<in> set es. entry_ok L e \<and> ex_ID e \<notin> set ids \<and> selectorKey e \<notin> set sels) \<and>
     distinct (map ex_ID es) \<and> distinct (map selectorKey es)"
proof (induction res arbitrary: ids sels es)
  case (Cons re res)
  then obtain e es' where e: "validate_entry L ids sels re = Some e" and es: "es = e # es'"
    and rec: "validate_entries L (ex_ID e # ids) (selectorKey e # sels) res = Some es'"
    by (auto split: option.splits)
  from validate_entry_ok[OF e] Cons.IH[OF rec] show ?case by (auto simp: es)
qed simp

definition exceptions_ok :: "libs \<Rightarrow> adblock_exception list \<Rightarrow> bool" where
  "exceptions_ok L es \<longleftrightarrow>
     (\<forall>e \<in> set es. entry_ok L e) \<and> distinct (map ex_ID es) \<and> distinct (map selectorKey es) \<and>
     length es \<le> adblockExceptionsMaxEntries"

lemma length_validate_entries: "validate_entries L ids sels res = Some es \<Longrightarrow> length es = length res"
  by (induction res arbitrary: ids sels es) (auto split: option.splits)

lemma validate_exceptions_ok:
  "validateAdblockExceptions L decode body = Inr es \<Longrightarrow> exceptions_ok L es"
  by (auto simp: validateAdblockExceptions_def exceptions_ok_def length_validate_entries
      dest: validate_entries_ok split: option.splits if_splits)

lemma scope_neq [simp]: "RuleScopeExact \<noteq> RuleScopeSuffix" "RuleScopeSuffix \<noteq> RuleScopeExact"
  by (simp_all add: RuleScopeExact_def RuleScopeSuffix_def)

lemma exceptions_ok_selectors:
  assumes "exceptions_ok L es"
  shows "distinct (map selector_of es)"
proof -
  have "selectorKey e = selectorKey e'" if "e \<in> set es" "e' \<in> set es" "selector_of e = selector_of e'" for e e'
  proof -
    have "ex_Scope e = ex_Scope e'"
      using that assms unfolding exceptions_ok_def entry_ok_def selector_of_def by (metis insertE prod.inject singletonD)
    with that(3) show ?thesis by (simp add: selectorKey_def selector_of_def entry_key_def)
  qed
  moreover have "distinct es" "inj_on selectorKey (set es)"
    using assms by (auto simp: exceptions_ok_def distinct_map)
  ultimately show ?thesis unfolding distinct_map inj_on_def by blast
qed

section \<open>Which exceptions apply\<close>

definition exception_covers :: "adblock_exception \<Rightarrow> string \<Rightarrow> bool" where
  "exception_covers e q \<longleftrightarrow>
     (if ex_Scope e = RuleScopeExact then q = ex_Domain e else is_or_under q (ex_Domain e))"

definition names_rule :: "adblock_exception \<Rightarrow> rule \<Rightarrow> bool" where
  "names_rule e r \<longleftrightarrow>
     ex_MatchedRule e = rDomain r \<and> ex_SourceID e = rSourceID r \<and> ex_MatchType e = rScope r \<and>
     (ex_Category e = [] \<or> ex_Category e = rCategory r)"

lemma first_some_None: "first_some f xs = None \<longleftrightarrow> (\<forall>x \<in> set xs. f x = None)"
  by (induction xs) (auto split: option.split)

lemma first_some_Some: "first_some f xs = Some y \<Longrightarrow> \<exists>x \<in> set xs. f x = Some y"
  by (induction xs) (auto split: option.splits)

lemma names_rule_iff: "names_rule e r \<longleftrightarrow> entry_key e \<in> set (rule_keys r)"
  by (auto simp: names_rule_def entry_key_def rule_keys_def)

lemma slots_some:
  assumes "distinct (map selector_of es)"
  shows "first_some (\<lambda>k. exc_slot (buildAdblockExceptionSnapshot h es) (x, d, k)) (rule_keys r) = Some i \<Longrightarrow>
     \<exists>e \<in> set es. ex_ID e = i \<and> (ex_Scope e = RuleScopeExact) = x \<and> ex_Domain e = d \<and> names_rule e r"
proof -
  let ?s = "buildAdblockExceptionSnapshot h es"
  assume "first_some (\<lambda>k. exc_slot ?s (x, d, k)) (rule_keys r) = Some i"
  then obtain k where k: "k \<in> set (rule_keys r)" "exc_slot ?s (x, d, k) = Some i"
    using first_some_Some[of "\<lambda>k. exc_slot ?s (x, d, k)"] by blast
  then obtain e where "e \<in> set es" "selector_of e = (x, d, k)" "ex_ID e = i"
    using built_slot_iff[OF assms] by blast
  with k(1) show ?thesis unfolding selector_of_def names_rule_iff by blast
qed

lemma slots_none:
  assumes "distinct (map selector_of es)"
  shows "first_some (\<lambda>k. exc_slot (buildAdblockExceptionSnapshot h es) (x, d, k)) (rule_keys r) = None \<longleftrightarrow>
     \<not> (\<exists>e \<in> set es. (ex_Scope e = RuleScopeExact) = x \<and> ex_Domain e = d \<and> names_rule e r)"
proof -
  have "exc_slot (buildAdblockExceptionSnapshot h es) k = None \<longleftrightarrow> (\<forall>e \<in> set es. selector_of e \<noteq> k)" for k
    using built_slot_iff[OF assms, of h k] by (cases "exc_slot (buildAdblockExceptionSnapshot h es) k") auto
  then show ?thesis by (auto simp: first_some_None names_rule_iff selector_of_def)
qed

lemma exc_match_iff:
  assumes "distinct (map selector_of es)"
  shows "exc_match (Some (buildAdblockExceptionSnapshot h es)) q (Some r) = None \<longleftrightarrow>
       \<not> (\<exists>e \<in> set es. exception_covers e q \<and> names_rule e r)"
    and "exc_match (Some (buildAdblockExceptionSnapshot h es)) q (Some r) = Some i \<Longrightarrow>
       \<exists>e \<in> set es. ex_ID e = i \<and> exception_covers e q \<and> names_rule e r"
proof -
  let ?s = "buildAdblockExceptionSnapshot h es"
  note bm = bucket_match_slots[OF built_snapshot(1)[of h es]]
  note sm = suffix_match_spec[of ?s q r]
  show "exc_match (Some ?s) q (Some r) = None \<longleftrightarrow> \<not> (\<exists>e \<in> set es. exception_covers e q \<and> names_rule e r)"
  proof -
    have "exc_match (Some ?s) q (Some r) = None \<longleftrightarrow>
        es = [] \<or> bucket_match (exc_exact ?s q) r = None \<and> suffix_match ?s q r = None"
      by (auto simp: exc_match_def built_snapshot(3) split: option.splits)
    also have "\<dots> \<longleftrightarrow> es = [] \<or> bucket_match (exc_exact ?s q) r = None \<and>
        (\<forall>c. is_or_under q c \<longrightarrow> bucket_match (exc_suffix ?s c) r = None)"
      using sm by blast
    also have "\<dots> \<longleftrightarrow> \<not> (\<exists>e \<in> set es. exception_covers e q \<and> names_rule e r)"
      unfolding bm slots_none[OF assms] exception_covers_def by auto
    finally show ?thesis .
  qed
  show "\<exists>e \<in> set es. ex_ID e = i \<and> exception_covers e q \<and> names_rule e r"
    if "exc_match (Some ?s) q (Some r) = Some i"
  proof (cases "bucket_match (exc_exact ?s q) r")
    case None
    with that have "suffix_match ?s q r = Some i" by (auto simp: exc_match_def split: if_splits)
    then obtain c where c: "is_or_under q c" "bucket_match (exc_suffix ?s c) r = Some i" using sm by blast
    from slots_some[OF assms c(2)[unfolded bm]] c(1) show ?thesis by (auto simp: exception_covers_def)
  next
    case (Some j)
    with that have "j = i" by (auto simp: exc_match_def split: if_splits)
    with slots_some[OF assms Some[unfolded bm]] show ?thesis by (auto simp: exception_covers_def)
  qed
qed

lemma option_eqI: "(\<And>i. a = Some i \<longleftrightarrow> b = Some i) \<Longrightarrow> a = b"
  by (cases a; cases b) auto

lemma exc_match_perm:
  assumes "distinct (map selector_of es)" "mset es = mset es'"
  shows "exc_match (Some (buildAdblockExceptionSnapshot h es)) q (Some r) =
     exc_match (Some (buildAdblockExceptionSnapshot h es')) q (Some r)"
proof -
  let ?s = "buildAdblockExceptionSnapshot h es" and ?s' = "buildAdblockExceptionSnapshot h es'"
  have d': "distinct (map selector_of es')"
    using assms by (metis distinct_map mset_eq_imp_distinct_iff mset_eq_setD)
  have "exc_slot ?s k = exc_slot ?s' k" for k
    by (rule option_eqI) (simp add: built_slot_iff[OF assms(1)] built_slot_iff[OF d'] mset_eq_setD[OF assms(2)])
  then have slots: "exc_slot ?s = exc_slot ?s'" by (rule ext)
  note bm = bucket_match_slots[OF built_snapshot(1)]
  have "suffix_match ?s q r = suffix_match ?s' q r"
    by (rule suffix_match_cong) (simp add: bm slots)
  moreover have "bucket_match (exc_exact ?s q) r = bucket_match (exc_exact ?s' q) r" by (simp add: bm slots)
  moreover have "length es = length es'" using assms(2) by (rule mset_eq_length)
  ultimately show ?thesis by (simp add: exc_match_def built_snapshot(3) cong: option.case_cong)
qed

section \<open>The revision encoding\<close>

lemma uint64_bytes_inj:
  assumes "uint64_bytes m = uint64_bytes n" "m < 2 ^ 64" "n < 2 ^ 64"
  shows "m = n"
proof -
  have val: "foldl (\<lambda>v c. 256 * v + byte c) 0 (uint64_bytes k) = k" if "k < 2 ^ 64" for k
  proof -
    have step: "256 * (k div 256 ^ j) + byte (char_of (k div 256 ^ i mod 256)) = k div 256 ^ i"
      if "j = Suc i" for i j
    proof -
      have "byte (char_of (x mod 256)) = x mod 256" for x by (rule byte_char_of) simp
      then show ?thesis unfolding that power_Suc2 div_mult2_eq by (simp only: mult_div_mod_eq)
    qed
    have "k div 256 ^ 7 < 256" using \<open>k < 2 ^ 64\<close> by (simp add: div_less_iff_less_mult)
    then have top: "256 * 0 + byte (char_of (k div 256 ^ 7 mod 256)) = k div 256 ^ 7" by simp
    have steps: "256 * (k div 256 ^ 7) + byte (char_of (k div 256 ^ 6 mod 256)) = k div 256 ^ 6"
      "256 * (k div 256 ^ 6) + byte (char_of (k div 256 ^ 5 mod 256)) = k div 256 ^ 5"
      "256 * (k div 256 ^ 5) + byte (char_of (k div 256 ^ 4 mod 256)) = k div 256 ^ 4"
      "256 * (k div 256 ^ 4) + byte (char_of (k div 256 ^ 3 mod 256)) = k div 256 ^ 3"
      "256 * (k div 256 ^ 3) + byte (char_of (k div 256 ^ 2 mod 256)) = k div 256 ^ 2"
      "256 * (k div 256 ^ 2) + byte (char_of (k div 256 ^ 1 mod 256)) = k div 256 ^ 1"
      "256 * (k div 256 ^ 1) + byte (char_of (k div 256 ^ 0 mod 256)) = k div 256 ^ 0"
      by (rule step, simp)+
    show ?thesis
      by (simp only: uint64_bytes_def list.map foldl.simps top steps) simp
  qed
  from val[OF assms(2)] val[OF assms(3)] show ?thesis unfolding assms(1) by (rule trans[OF sym])
qed

lemma length_uint64_bytes [simp]: "length (uint64_bytes n) = 8"
  by (simp add: uint64_bytes_def)

lemma framed_inj:
  assumes "framed s @ u = framed t @ v" "length s < 2 ^ 64" "length t < 2 ^ 64"
  shows "s = t \<and> u = v"
proof -
  have "uint64_bytes (length s) = uint64_bytes (length t)" "s @ u = t @ v"
    using assms(1) by (simp_all add: framed_def)
  then show ?thesis using uint64_bytes_inj assms(2,3) by auto
qed

definition short_fields :: "adblock_exception \<Rightarrow> bool" where
  "short_fields e \<longleftrightarrow>
     (\<forall>f \<in> {ex_ID e, ex_Domain e, ex_Scope e, ex_MatchedRule e, ex_SourceID e, ex_MatchType e,
       ex_Category e, ex_Reason e}. length f < 2 ^ 64)"

lemma entry_bytes_inj:
  assumes "entry_bytes a @ u = entry_bytes b @ v" "short_fields a" "short_fields b"
  shows "a = b \<and> u = v"
proof -
  note sf = assms(2,3)[unfolded short_fields_def]
  note eq = assms(1)[unfolded entry_bytes_def append_assoc]
  have "ex_ID a = ex_ID b" "ex_Domain a = ex_Domain b" "ex_Scope a = ex_Scope b"
    "ex_MatchedRule a = ex_MatchedRule b" "ex_SourceID a = ex_SourceID b" "ex_MatchType a = ex_MatchType b"
    "ex_Category a = ex_Category b" "ex_Reason a = ex_Reason b" "u = v"
    using framed_inj[OF eq] sf by (auto dest!: framed_inj)
  then show ?thesis by simp
qed

lemma entries_bytes_inj:
  "concat (map entry_bytes xs) = concat (map entry_bytes ys) \<Longrightarrow> length xs = length ys \<Longrightarrow>
   \<forall>e \<in> set xs \<union> set ys. short_fields e \<Longrightarrow> xs = ys"
proof (induction xs arbitrary: ys)
  case (Cons x xs)
  then obtain y ys' where ys: "ys = y # ys'" by (cases ys) auto
  with Cons.prems entry_bytes_inj[of x "concat (map entry_bytes xs)" y "concat (map entry_bytes ys')"]
  have "x = y" "concat (map entry_bytes xs) = concat (map entry_bytes ys')" by auto
  with Cons ys show ?case by simp
qed simp

lemma revision_bytes_inj:
  assumes "revision_bytes xs = revision_bytes ys" "length xs < 2 ^ 64" "length ys < 2 ^ 64"
    "\<forall>e \<in> set xs \<union> set ys. short_fields e"
  shows "mset xs = mset ys"
proof -
  let ?xs = "sort_key sort_tuple xs" and ?ys = "sort_key sort_tuple ys"
  have "uint64_bytes (length xs) = uint64_bytes (length ys)"
    "concat (map entry_bytes ?xs) = concat (map entry_bytes ?ys)"
    using assms(1) by (simp_all add: revision_bytes_def Let_def)
  with uint64_bytes_inj assms have "?xs = ?ys" by (intro entries_bytes_inj) auto
  then show ?thesis by (metis mset_sort)
qed

section \<open>Properties\<close>

definition sample_exception :: adblock_exception where
  "sample_exception = \<lparr>ex_ID = ''shop-1'', ex_Domain = ''Ads.test'', ex_Scope = ''suffix'',
     ex_MatchedRule = ''cdn.ads.test'', ex_SourceID = ''legacy'', ex_MatchType = '' Exact'', ex_Category = [],
     ex_Reason = ''breaks checkout''\<rparr>"

definition sample_decode :: "string \<Rightarrow> raw_exceptions option" where
  "sample_decode body = Some \<lparr>raw_Version = 1, raw_Exceptions = [sample_exception]\<rparr>"

definition sample_entry :: adblock_exception where
  "sample_entry = sample_exception\<lparr>ex_Domain := ''ads.test'', ex_MatchType := ''exact''\<rparr>"

lemma sample_validated: "validateAdblockExceptions sample_libs sample_decode [] = Inr [sample_entry]"
  by code_simp

text \<open>
  a configuration file is accepted only as a whole and only when every entry is well-formed: a valid
  unique id, host names in canonical form for the queried domain and the rule, known scopes and
  category, a registrable domain for a suffix selector, a selector that can meet its rule, a
  bounded reason, no two entries with one selector, and at most 1024 entries.
\<close>

theorem exceptions_validated:
  assumes "validateAdblockExceptions L decode body = Inr es"
  shows "exceptions_ok L es"
  using assms by (rule validate_exceptions_ok)

theorem exceptions_validated_witness: "exceptions_ok sample_libs [sample_entry]"
  using exceptions_validated[OF sample_validated] .

text \<open>
  C19: looking up an exception is exact. For the snapshot built from validated entries and an ASCII
  query, a fired rule is suppressed exactly when some entry covers the queried domain (equal to
  it, or for a suffix entry equal to it or a parent of it on a label boundary) and names the rule's
  domain, source and scope and its category or none; the reported id is that of such an entry, and
  any order of the entries in the file gives the same answer.
\<close>

theorem exception_lookup_exact:
  assumes "exceptions_ok L es" and "list_all (\<lambda>c. byte c < 128) q" and "q \<noteq> []"
  shows "(matchAdblockException L (Some (buildAdblockExceptionSnapshot h es)) q r = None \<longleftrightarrow>
      \<not> (\<exists>e \<in> set es. exception_covers e q \<and> names_rule e r)) \<and>
    (\<forall>i. matchAdblockException L (Some (buildAdblockExceptionSnapshot h es)) q r = Some i \<longrightarrow>
      (\<exists>e \<in> set es. ex_ID e = i \<and> exception_covers e q \<and> names_rule e r)) \<and>
    (\<forall>es'. mset es' = mset es \<longrightarrow>
      matchAdblockException L (Some (buildAdblockExceptionSnapshot h es')) q r =
      matchAdblockException L (Some (buildAdblockExceptionSnapshot h es)) q r)"
proof -
  note sel = exceptions_ok_selectors[OF assms(1)]
  have red: "matchAdblockException L (Some (buildAdblockExceptionSnapshot h xs)) q r =
      exc_match (Some (buildAdblockExceptionSnapshot h xs)) q (Some r)" for xs
    using assms(2,3)
    by (auto simp: matchAdblockException_def normalizeExceptionQuery_def exc_match_def built_snapshot(3))
  show ?thesis
    unfolding red using exc_match_iff[OF sel, of h q r] exc_match_perm[OF sel, of _ h q r] by metis
qed

theorem exception_lookup_exact_witness:
  "matchAdblockException sample_libs (Some (buildAdblockExceptionSnapshot id [sample_entry])) ''cdn.ads.test''
     \<lparr>rDomain = ''cdn.ads.test'', rScope = ''exact'', rSourceID = ''legacy'', rCategory = ''ads'',
      rAction = ''block'', rOrigin = OriginWildcard\<rparr> \<noteq> None"
proof -
  let ?r = "\<lparr>rDomain = ''cdn.ads.test'', rScope = ''exact'', rSourceID = ''legacy'', rCategory = ''ads'',
      rAction = ''block'', rOrigin = OriginWildcard\<rparr>"
  have ascii: "list_all (\<lambda>c. byte c < 128) ''cdn.ads.test''" by code_simp
  have "exception_covers sample_entry ''cdn.ads.test''" "names_rule sample_entry ?r" by (atomize (full)) code_simp
  with exception_lookup_exact[OF validate_exceptions_ok[OF sample_validated] ascii, of id ?r]
  show ?thesis by auto
qed

text \<open>
  the bytes that the revision digests determine the configuration: two sets of entries with the
  same encoding are equal as multisets, whatever bytes their reasons contain, so two different
  configurations can share a revision only if the truncated digest collides.
\<close>

theorem revision_encoding_unambiguous:
  assumes "revision_bytes xs = revision_bytes ys" and "length xs < 2 ^ 64" and "length ys < 2 ^ 64"
    and "\<forall>e \<in> set xs \<union> set ys. short_fields e"
  shows "mset xs = mset ys"
  using assms by (rule revision_bytes_inj)

theorem revision_encoding_unambiguous_witness:
  "mset [sample_entry, sample_entry\<lparr>ex_ID := ''x''\<rparr>] = mset [sample_entry\<lparr>ex_ID := ''x''\<rparr>, sample_entry]"
proof (rule revision_encoding_unambiguous)
  show "revision_bytes [sample_entry, sample_entry\<lparr>ex_ID := ''x''\<rparr>] =
      revision_bytes [sample_entry\<lparr>ex_ID := ''x''\<rparr>, sample_entry]"
    by (simp add: revision_bytes_def Let_def sort_tuple_def sample_entry_def sample_exception_def
        insort_key.simps sort_key_def)
qed (simp_all add: short_fields_def sample_entry_def sample_exception_def)

text \<open>
  a reload never loses the last good exceptions. When the file is missing, unreadable, oversized
  or invalid the published snapshot stays, the failure is counted and its class recorded; a valid
  file publishes the snapshot of its entries; clearing the path publishes the empty set; and
  whatever happens the published snapshot is the old one, an empty one or one built from validated
  entries.
\<close>

theorem reload_keeps_last_good:
  assumes "e' = reloadAdblockExceptions L decode h getenv open_within now e"
  shows "(excReloadFailures e' \<noteq> excReloadFailures e \<longrightarrow>
       exceptions e' = exceptions e \<and> excLastErr e' \<noteq> None \<and> \<not> excLastOK e' \<and>
       excReloadFailures e' = excReloadFailures e + 1 \<and> excReloadSuccesses e' = excReloadSuccesses e) \<and>
     (excReloadSuccesses e' \<noteq> excReloadSuccesses e \<longrightarrow>
       excLastOK e' \<and> excLastErr e' = None \<and> excReloadFailures e' = excReloadFailures e \<and>
       (\<exists>es. exceptions_ok L es \<and> exceptions e' = Some (buildAdblockExceptionSnapshot h es))) \<and>
     (exceptions e' = exceptions e \<or> exceptions e' = Some newEmptyAdblockExceptionSnapshot \<or>
       (\<exists>es. exceptions_ok L es \<and> exceptions e' = Some (buildAdblockExceptionSnapshot h es)))"
proof -
  have load: "\<exists>es. exceptions_ok L es \<and> snap = buildAdblockExceptionSnapshot h es"
    if "loadAdblockExceptionFile L decode h fl = Inr snap" for fl snap
    using that
    by (auto dest!: validate_exceptions_ok simp: loadAdblockExceptionFile_def Let_def split: exc_file.splits if_splits sum.splits)
  obtain e1 where e1: "e1 = (if exceptionsPinned e then e
      else e\<lparr>exceptionsFile := trim_space (env_String getenv ''SAFE_ZONE_ADBLOCK_EXCEPTIONS_FILE'' [])\<rparr>)"
    by blast
  have same: "exceptions e1 = exceptions e" "excReloadFailures e1 = excReloadFailures e"
    "excReloadSuccesses e1 = excReloadSuccesses e" by (simp_all add: e1)
  show ?thesis
  proof (cases "loadAdblockExceptionFile L decode h (open_within (exceptionsFile e1))")
    case (Inl err)
    show ?thesis
      unfolding assms reloadAdblockExceptions_def Let_def e1[symmetric] using same
      by (auto simp: Inl)
  next
    case (Inr snap)
    from load[OF this] show ?thesis
      unfolding assms reloadAdblockExceptions_def Let_def e1[symmetric] using same
      by (auto simp: Inr)
  qed
qed

theorem reload_keeps_last_good_witness:
  "exceptions (reloadAdblockExceptions sample_libs sample_decode id (\<lambda>_. []) (\<lambda>p. NoSuchFile) 5
     \<lparr>exceptionsFile = ''exc.json'', exceptionsPinned = True, exceptions = None, exceptionsConfigured = True,
      excLastReload = None, excLastOK = True, excLastErr = None, excReloadSuccesses = 0, excReloadFailures = 0\<rparr>)
   = None"
proof -
  let ?e = "\<lparr>exceptionsFile = ''exc.json'', exceptionsPinned = True, exceptions = None, exceptionsConfigured = True,
      excLastReload = None, excLastOK = True, excLastErr = None, excReloadSuccesses = 0, excReloadFailures = 0\<rparr>"
  let ?e' = "reloadAdblockExceptions sample_libs sample_decode id (\<lambda>_. []) (\<lambda>p. NoSuchFile) 5 ?e"
  have "excReloadFailures ?e' \<noteq> excReloadFailures ?e"
    by (simp add: reloadAdblockExceptions_def loadAdblockExceptionFile_def Let_def)
  with reload_keeps_last_good[OF refl, of sample_libs sample_decode id "\<lambda>_. []" "\<lambda>p. NoSuchFile" 5 ?e]
  show ?thesis by simp
qed

text \<open>
  the check that a selector can meet its rule is exact. On the two scopes, selectorsIntersect says
  yes exactly when some queried name is covered both by the selector and by the rule.
\<close>

theorem selectorsIntersect_exact:
  assumes "s \<in> {RuleScopeExact, RuleScopeSuffix}" and "t \<in> {RuleScopeExact, RuleScopeSuffix}"
  shows "selectorsIntersect d s r t \<longleftrightarrow>
     (\<exists>q. (if s = RuleScopeExact then q = d else is_or_under q d) \<and>
          (if t = RuleScopeExact then q = r else is_or_under q r))"
proof -
  have common: "d = r \<or> is_sub d r \<or> is_sub r d" if "is_or_under q d" "is_or_under q r" for q
  proof -
    have "is_or_under d r \<or> is_or_under r d" using that by (rule under_common)
    then show ?thesis by (auto simp: is_or_under_def is_sub_def)
  qed
  have refl: "is_or_under q q" for q by (simp add: is_or_under_def)
  show ?thesis
    using assms common refl
    by (auto simp: selectorsIntersect_def is_sub_def is_or_under_def)
qed

theorem selectorsIntersect_exact_witness:
  "selectorsIntersect ''a.test'' RuleScopeSuffix ''cdn.a.test'' RuleScopeExact"
  by (subst selectorsIntersect_exact)
     (auto simp: is_or_under_def has_suffix_iff intro!: exI[of _ "''cdn''"])

end
