(* ===== verification/SharedInfra.thy ===== *)
theory SharedInfra
  imports DomainName
begin

text \<open>
  Shared and trusted infrastructure: the tables and predicates of \<^verbatim>\<open>internal/analysis/brand.go\<close>
  that decide whether a host is a CDN root, a shared serving host or lies under a trusted root, the
  brand records with their normalisation, and \<^verbatim>\<open>RegisteredDomain\<close> of
  \<^verbatim>\<open>internal/whois/lookup.go\<close>. A Go map used as a set is the list of its keys.
\<close>

section \<open>Tables\<close>

definition trustedInfraSuffixes :: "string list" where
  "trustedInfraSuffixes =
    [''github.com'', ''taobao.com'', ''alibabadns.com'']"

definition delegatedCDNRoots :: "string list" where
  "delegatedCDNRoots =
    [''akadns.net'', ''akamaihd.net'', ''akamaized.net'', ''amazonaws.com'',
     ''ampproject.org'', ''azureedge.net'', ''azurefd.net'', ''azurestaticapps.net'',
     ''b-cdn.net'', ''b-msedge.net'', ''baishan-cloud.net'', ''bootstrapcdn.com'',
     ''cachefly.net'', ''cdn77.net'', ''cdn77.org'', ''cdngslb.com'', ''cloudflare.net'',
     ''cloudflarestorage.com'', ''cloudfront.net'', ''edgecastcdn.net'', ''edgekey.net'',
     ''edgesuite.net'', ''fastly.net'', ''fastlylb.net'', ''githubusercontent.com'',
     ''googleapis.com'', ''googleusercontent.com'', ''gstatic.com'', ''hwcdn.net'',
     ''incapdns.net'', ''jsdelivr.net'', ''msedge.net'', ''susercontent.com'',
     ''stackpathdns.com'', ''trafficmanager.net'', ''unpkg.com'']"

definition selfServiceHostingRoots :: "string list" where
  "selfServiceHostingRoots =
    [''azurecontainerapps.io'', ''azurewebsites.net'', ''firebaseapp.com'', ''fly.dev'',
     ''github.io'', ''glitch.me'', ''herokuapp.com'', ''netlify.app'', ''onrender.com'',
     ''pages.dev'', ''railway.app'', ''repl.co'', ''replit.app'', ''r2.dev'', ''surge.sh'',
     ''vercel.app'', ''workers.dev'']"

definition sharedServingHosts :: "string list" where
  "sharedServingHosts =
    [''github.com'', ''raw.githubusercontent.com'', ''cdn.jsdelivr.net'',
     ''cdn.ampproject.org'', ''unpkg.com'', ''cdnjs.cloudflare.com'', ''docs.google.com'',
     ''drive.google.com'', ''forms.gle'', ''storage.googleapis.com'', ''sites.google.com'',
     ''script.google.com'', ''firebaseapp.com'', ''firebasestorage.googleapis.com'',
     ''onedrive.live.com'', ''sharepoint.com'', ''1drv.ms'', ''blob.core.windows.net'',
     ''s3.amazonaws.com'', ''workers.dev'', ''pages.dev'', ''vercel.app'', ''netlify.app'',
     ''googleusercontent.com'', ''lh3.googleusercontent.com'',
     ''drive.usercontent.google.com'']"

definition secondLevelSuffixes :: "string list" where
  "secondLevelSuffixes =
    [''com'', ''gov'', ''net'', ''edu'', ''org'', ''co'', ''ac'', ''biz'', ''info'',
     ''pro'', ''name'', ''me'']"

section \<open>Predicates on hosts\<close>

definition RegisteredDomain :: "string \<Rightarrow> string" where
  "RegisteredDomain domain0 =
     (let domain = to_lower (trim_suffix domain0 ''.''); parts = split_on (CHR ''.'') domain in
      if length parts < 2 then []
      else if length parts \<ge> 3 \<and> parts ! (length parts - 2) \<in> set secondLevelSuffixes
      then join_with ''.'' (drop (length parts - 3) parts)
      else join_with ''.'' (drop (length parts - 2) parts))"

definition IsTrustedInfraSuffix :: "string \<Rightarrow> bool" where
  "IsTrustedInfraSuffix domain0 =
     (let domain = to_lower (trim_space domain0) in
      domain \<noteq> [] \<and>
      list_ex (\<lambda>root. domain = root \<or> has_suffix domain (''.'' @ root)) trustedInfraSuffixes)"

definition IsCDNRoot :: "string \<Rightarrow> bool" where
  "IsCDNRoot rootDomain0 =
     (let rootDomain = to_lower (trim_space rootDomain0) in
      rootDomain \<noteq> [] \<and> rootDomain \<in> set delegatedCDNRoots)"

definition IsSharedHostingRoot :: "string \<Rightarrow> bool" where
  "IsSharedHostingRoot rootDomain0 =
     (let rootDomain = to_lower (trim_space rootDomain0) in
      rootDomain \<noteq> [] \<and>
      (rootDomain \<in> set delegatedCDNRoots \<or> rootDomain \<in> set selfServiceHostingRoots))"

definition IsSharedServingHost :: "string \<Rightarrow> bool" where
  "IsSharedServingHost host =
     (let h = to_lower (trim_suffix (trim_space host) ''.'') in
      h \<noteq> [] \<and> h \<in> set sharedServingHosts)"

section \<open>Brand records\<close>

text \<open>A nil slice of alternative domains is \<^const>\<open>None\<close>: the code tells it from an empty one.\<close>

record brand =
  bName :: string
  bOfficialDomain :: string
  bAltDomains :: "string list option"

definition isNormalizedToken :: "string \<Rightarrow> bool" where
  "isNormalizedToken s = list_all (\<lambda>r. \<not> is_space r \<and> lower_char r = r) s"

fun alts_normalized :: "string list \<Rightarrow> string list \<Rightarrow> bool" where
  "alts_normalized earlier [] = True"
| "alts_normalized earlier (alt # alts) =
     (alt \<noteq> [] \<and> isNormalizedToken alt \<and> alt \<notin> set earlier \<and> alts_normalized (earlier @ [alt]) alts)"

definition isNormalizedBrandRecord :: "brand \<Rightarrow> bool" where
  "isNormalizedBrandRecord b =
     (isNormalizedToken (bName b) \<and> isNormalizedToken (bOfficialDomain b) \<and>
      (case bAltDomains b of None \<Rightarrow> False | Some alts \<Rightarrow> alts_normalized [] alts))"

fun collect_alts :: "string set \<Rightarrow> string list \<Rightarrow> string list" where
  "collect_alts seen [] = []"
| "collect_alts seen (alt0 # alts) =
     (let alt = to_lower (trim_space alt0) in
      if alt = [] then collect_alts seen alts
      else if alt \<in> seen then collect_alts seen alts
      else alt # collect_alts (insert alt seen) alts)"

definition normalizeBrandRecordSlow :: "brand \<Rightarrow> brand" where
  "normalizeBrandRecordSlow b =
     b\<lparr>bName := to_lower (trim_space (bName b)),
       bOfficialDomain := to_lower (trim_space (bOfficialDomain b)),
       bAltDomains := Some (collect_alts {} (case bAltDomains b of None \<Rightarrow> [] | Some alts \<Rightarrow> alts))\<rparr>"

definition normalizeBrandRecord :: "brand \<Rightarrow> brand" where
  "normalizeBrandRecord b =
     (if isNormalizedBrandRecord b then b else normalizeBrandRecordSlow b)"

definition brand_alts :: "brand \<Rightarrow> string list" where
  "brand_alts b = (case bAltDomains b of None \<Rightarrow> [] | Some alts \<Rightarrow> alts)"

definition IsTrustedBrandSuffix :: "string \<Rightarrow> brand list \<Rightarrow> bool" where
  "IsTrustedBrandSuffix domain0 brands =
     (let domain = to_lower (trim_space domain0) in
      domain \<noteq> [] \<and>
      list_ex (\<lambda>b. let b = normalizeBrandRecord b; official = bOfficialDomain b in
        (official \<noteq> [] \<and> (domain = official \<or> has_suffix domain (''.'' @ official))) \<or>
        list_ex (\<lambda>alt. domain = alt \<or> has_suffix domain (''.'' @ alt)) (brand_alts b)) brands)"

section \<open>Laws\<close>

lemma isNormalizedToken_fixed:
  assumes "isNormalizedToken s"
  shows "to_lower (trim_space s) = s"
proof -
  have "\<not> is_space c" "lower_char c = c" if "c \<in> set s" for c
    using assms that by (auto simp: isNormalizedToken_def list_all_iff)
  then have "trim_space s = s" "to_lower s = s"
    by (auto simp: trim_space_def to_lower_def map_idI intro!: trim_by_id)
  then show ?thesis by simp
qed

lemma collect_alts_normalized:
  "alts_normalized earlier alts \<Longrightarrow> collect_alts (set earlier) alts = alts"
proof (induction alts arbitrary: earlier)
  case (Cons alt alts)
  have "collect_alts (insert alt (set earlier)) alts = alts"
    using Cons.IH[of "earlier @ [alt]"] Cons.prems by simp
  then show ?case using Cons.prems isNormalizedToken_fixed by (simp add: Let_def)
qed simp

lemma normalizeBrandRecord_slow: "normalizeBrandRecord b = normalizeBrandRecordSlow b"
proof (cases "isNormalizedBrandRecord b")
  case True
  then obtain alts where alts: "bAltDomains b = Some alts" "alts_normalized [] alts"
    by (auto simp: isNormalizedBrandRecord_def split: option.splits)
  then have "collect_alts {} alts = alts" using collect_alts_normalized[of "[]"] by simp
  then show ?thesis using True alts isNormalizedToken_fixed
    by (simp add: normalizeBrandRecord_def normalizeBrandRecordSlow_def isNormalizedBrandRecord_def)
qed (simp add: normalizeBrandRecord_def)

end
