(* ===== verification/ThreatFeed.thy ===== *)
theory ThreatFeed
  imports SharedInfra
begin

text \<open>
  The threat-feed layer of \<^verbatim>\<open>internal/risk/feed.go\<close> and \<^verbatim>\<open>internal/risk/feed_engine.go\<close>, the
  record \<^verbatim>\<open>analysis.Result\<close> every layer produces and the sorted set of \<^verbatim>\<open>internal/cache/redis.go\<close>
  the live feed is read from. The Redis server is a sorted set of domains scored with their expiry
  and a predicate saying which reads fail. Confidences are rational numbers.
\<close>

section \<open>Results\<close>

datatype verdict = NoVerdict | VerdictInvalid | VerdictSafe | VerdictSuspicious | VerdictMalicious

record result =
  aDomain :: string
  aVerdict :: verdict
  aConfidence :: rat
  aScore :: int
  aReasons :: "string list"
  aCategory :: string

text \<open>\<^verbatim>\<open>analysis.Result{}\<close>, which the pipeline recognises by its empty domain.\<close>

definition no_result :: result where
  "no_result = \<lparr>aDomain = [], aVerdict = NoVerdict, aConfidence = 0, aScore = 0, aReasons = [], aCategory = []\<rparr>"

section \<open>Redis\<close>

datatype redis_error = ErrDisabled | RedisFailure

record redis =
  rd_enabled :: bool
  rd_zset :: "string \<rightharpoonup> int"
  rd_zfault :: "string list \<Rightarrow> bool"

definition ZScores :: "'z redis_scheme \<Rightarrow> string list \<Rightarrow> redis_error + int option list" where
  "ZScores r members =
     (if \<not> rd_enabled r then Inl ErrDisabled
      else if members = [] then Inr []
      else if rd_zfault r members then Inl RedisFailure
      else Inr (map (rd_zset r) members))"

section \<open>The feed engine\<close>

record feed_engine =
  feedLookupFailures :: nat
  feedConsecutiveFailures :: nat
  feedLastFailureUnix :: int

definition noteFeedLookupErr :: "int \<Rightarrow> feed_engine \<Rightarrow> feed_engine" where
  "noteFeedLookupErr now e =
     e\<lparr>feedLookupFailures := feedLookupFailures e + 1,
       feedConsecutiveFailures := feedConsecutiveFailures e + 1,
       feedLastFailureUnix := now\<rparr>"

definition noteFeedLookupSuccess :: "feed_engine \<Rightarrow> feed_engine" where
  "noteFeedLookupSuccess e = e\<lparr>feedConsecutiveFailures := 0\<rparr>"

definition threatFeedReason :: string where
  "threatFeedReason = ''matched local threat feed''"

definition sharedFeedApexReason :: string where
  "sharedFeedApexReason = ''shared infrastructure host in threat feed (contextual, needs corroboration)''"

definition ThreatFeedCandidates :: "string \<Rightarrow> string list" where
  "ThreatFeedCandidates domain =
     (let parts = split_on (CHR ''.'') domain in
      filter (\<lambda>c. c \<noteq> []) (map (\<lambda>i. join_with ''.'' (drop i parts)) [0..<length parts]))"

text \<open>The first candidate with a live score: nearest first, expiry in Unix seconds.\<close>

fun first_live :: "int \<Rightarrow> (string \<times> int option) list \<Rightarrow> string" where
  "first_live now [] = []"
| "first_live now ((candidate, score) # rest) =
     (case score of
        Some s \<Rightarrow> if s \<ge> now then candidate else first_live now rest
      | None \<Rightarrow> first_live now rest)"

definition matchAnyThreatFeedCandidate :: "'z redis_scheme \<Rightarrow> int \<Rightarrow> string list \<Rightarrow> redis_error + string" where
  "matchAnyThreatFeedCandidate r now candidates =
     (case ZScores r candidates of
        Inl e \<Rightarrow> Inl e
      | Inr scores \<Rightarrow> Inr (first_live now (zip candidates scores)))"

definition isSharedFeedApex :: "string \<Rightarrow> bool" where
  "isSharedFeedApex host =
     (let h = to_lower (trim_suffix (trim_space host) ''.'') in
      if h = [] then False
      else if IsSharedServingHost h then True
      else h = RegisteredDomain h \<and> IsSharedHostingRoot h)"

definition matchExactThreatFeed :: "'z redis_scheme \<Rightarrow> int \<Rightarrow> string \<Rightarrow> redis_error + bool" where
  "matchExactThreatFeed r now domain =
     (let candidates = ThreatFeedCandidates domain in
      if candidates = [] then Inr False
      else case matchAnyThreatFeedCandidate r now (take 1 candidates) of
        Inl e \<Rightarrow> Inl e
      | Inr matched \<Rightarrow> Inr (matched \<noteq> []))"

definition matchParentCandidate :: "'z redis_scheme \<Rightarrow> int \<Rightarrow> string \<Rightarrow> redis_error + string" where
  "matchParentCandidate r now domain =
     (let candidates = ThreatFeedCandidates domain in
      if length candidates \<le> 1 then Inr []
      else
        (let kept = filter (\<lambda>c. \<not> isSharedFeedApex c) (drop 1 candidates) in
         if kept = [] then Inr [] else matchAnyThreatFeedCandidate r now kept))"

function feed_depth_from :: "string \<Rightarrow> string \<Rightarrow> nat" where
  "feed_depth_from d candidate =
     (if d = candidate then 0
      else (let idx = index_byte d (CHR ''.'') in
            if idx < 0 then 0 else 1 + feed_depth_from (drop (nat idx + 1) d) candidate))"
  by auto
termination
proof (relation "measure (\<lambda>(d, c). length d)", goal_cases)
  case (2 d candidate idx)
  then have "CHR ''.'' \<in> set d" by (auto simp: index_byte_def split: if_splits)
  then have "d \<noteq> []" by auto
  then show ?case by simp
qed simp

declare feed_depth_from.simps [simp del]

definition feedMatchDepth :: "string \<Rightarrow> string \<Rightarrow> nat" where
  "feedMatchDepth domain candidate = feed_depth_from domain candidate"

definition threatFeedHit :: "string \<Rightarrow> result" where
  "threatFeedHit domain =
     \<lparr>aDomain = domain, aVerdict = VerdictMalicious, aConfidence = 1, aScore = 100,
      aReasons = [threatFeedReason], aCategory = []\<rparr>"

definition sharedApexFeedHit :: "string \<Rightarrow> result" where
  "sharedApexFeedHit domain =
     \<lparr>aDomain = domain, aVerdict = VerdictSuspicious, aConfidence = 6 / 10, aScore = 40,
      aReasons = [threatFeedReason, sharedFeedApexReason], aCategory = []\<rparr>"

record feed_scope =
  fs_ExactMatch :: bool
  fs_Candidate :: string
  fs_Depth :: nat
  fs_TrustBypassed :: bool
  fs_SharedApex :: bool

definition no_scope :: feed_scope where
  "no_scope = \<lparr>fs_ExactMatch = False, fs_Candidate = [], fs_Depth = 0, fs_TrustBypassed = False,
               fs_SharedApex = False\<rparr>"

definition feed_failed :: "int \<Rightarrow> redis_error \<Rightarrow> feed_engine \<Rightarrow> feed_engine" where
  "feed_failed now err e = (if err = ErrDisabled then e else noteFeedLookupErr now e)"

definition feedResult ::
  "'z redis_scheme \<Rightarrow> int \<Rightarrow> string \<Rightarrow> brand list \<Rightarrow> feed_engine \<Rightarrow> (result \<times> feed_scope) \<times> feed_engine" where
  "feedResult r now domain brands e =
     (case matchExactThreatFeed r now domain of
        Inl err \<Rightarrow> ((no_result, no_scope), feed_failed now err e)
      | Inr exactHit \<Rightarrow>
          (let e = noteFeedLookupSuccess e in
           if exactHit then
             (if isSharedFeedApex domain
              then ((sharedApexFeedHit domain,
                     no_scope\<lparr>fs_ExactMatch := True, fs_Candidate := domain, fs_SharedApex := True\<rparr>), e)
              else ((threatFeedHit domain, no_scope\<lparr>fs_ExactMatch := True, fs_Candidate := domain\<rparr>), e))
           else if IsTrustedBrandSuffix domain brands \<or> IsTrustedInfraSuffix domain
           then ((no_result, no_scope\<lparr>fs_TrustBypassed := True\<rparr>), e)
           else case matchParentCandidate r now domain of
             Inl err \<Rightarrow> ((no_result, no_scope), feed_failed now err e)
           | Inr candidate \<Rightarrow>
               (let e = noteFeedLookupSuccess e in
                if candidate = [] then ((no_result, no_scope), e)
                else ((threatFeedHit domain,
                       no_scope\<lparr>fs_Candidate := candidate, fs_Depth := feedMatchDepth domain candidate\<rparr>), e))))"

section \<open>Laws\<close>

text \<open>On a canonical domain the candidates are the domain and all its parents, none of them empty.\<close>

lemma join_drop_nonempty:
  assumes "\<forall>l \<in> set ls. l \<noteq> []" "i < length ls"
  shows "join_with ''.'' (drop i ls) \<noteq> []"
proof -
  obtain w ws where d: "drop i ls = w # ws" using assms(2) by (metis Cons_nth_drop_Suc)
  then have "w \<in> set ls" by (metis in_set_dropD list.set_intros(1))
  then have "w \<noteq> []" using assms(1) by blast
  then show ?thesis by (cases ws) (simp_all add: d)
qed

lemma candidates_canonical:
  assumes "canonical_domain d"
  shows "ThreatFeedCandidates d =
     map (\<lambda>i. join_with ''.'' (drop i (split_on (CHR ''.'') d))) [0..<length (split_on (CHR ''.'') d)]"
proof -
  have "\<forall>l \<in> set (split_on (CHR ''.'') d). l \<noteq> []"
    using assms by (simp add: canonical_domain_def)
  then show ?thesis using join_drop_nonempty
    by (auto simp: ThreatFeedCandidates_def Let_def filter_id_conv)
qed

lemma candidates_head:
  assumes "canonical_domain d"
  shows "\<exists>ps. ThreatFeedCandidates d = d # ps"
proof -
  have "0 < length (split_on (CHR ''.'') d)" by (cases "split_on (CHR ''.'') d") auto
  then show ?thesis using candidates_canonical[OF assms] by (simp add: upt_conv_Cons)
qed

lemma first_live_zip:
  "first_live now (zip cs (map z cs)) =
     (case find (\<lambda>c. \<exists>s. z c = Some s \<and> s \<ge> now) cs of None \<Rightarrow> [] | Some c \<Rightarrow> c)"
  by (induction cs) (auto split: option.splits)

lemma matchAny_live:
  assumes "rd_enabled r" "\<not> rd_zfault r cs" "cs \<noteq> []"
  shows "matchAnyThreatFeedCandidate r now cs =
     Inr (case find (\<lambda>c. \<exists>s. rd_zset r c = Some s \<and> s \<ge> now) cs of None \<Rightarrow> [] | Some c \<Rightarrow> c)"
  using assms by (simp add: matchAnyThreatFeedCandidate_def ZScores_def first_live_zip)

end
