(* ===== verification/MLGate.thy ===== *)
theory MLGate
  imports WhitelistStore ThreatFeed
begin

text \<open>
  The machine-learning gate of the pipeline: \<^verbatim>\<open>classifyML\<close>, its telemetry and histograms of
  \<^verbatim>\<open>internal/risk/ml.go\<close> and the canary of \<^verbatim>\<open>internal/risk/ml_canary.go\<close>. The model itself is a
  function from a domain to a decision, \<^const>\<open>None\<close> when it fails or panics; SHA-256 is a function
  on byte strings.
\<close>

section \<open>Canary\<close>

record canary =
  cnPercent :: int
  cnSeed :: string

definition canary_validate :: "canary \<Rightarrow> bool" where
  "canary_validate c =
     (if cnPercent c < 0 \<or> cnPercent c > 100 then False
      else (let seed = trim_space (cnSeed c) in
            if cnPercent c > 0 \<and> seed = [] then False else length seed \<le> 128))"

definition canary_enabled :: "canary \<Rightarrow> bool" where
  "canary_enabled c \<longleftrightarrow> cnPercent c > 0 \<and> cnPercent c \<le> 100 \<and> trim_space (cnSeed c) \<noteq> []"

definition big_endian :: "string \<Rightarrow> nat" where
  "big_endian s = foldl (\<lambda>n c. 256 * n + byte c) 0 s"

definition canary_bucket :: "(string \<Rightarrow> string) \<Rightarrow> canary \<Rightarrow> string \<Rightarrow> nat" where
  "canary_bucket sha256 c normalized =
     big_endian (take 8 (sha256 (trim_space (cnSeed c) @ [char_of (0::nat)] @ normalized))) mod 10000"

definition Eligible :: "libs \<Rightarrow> (string \<Rightarrow> string) \<Rightarrow> canary \<Rightarrow> string \<Rightarrow> bool" where
  "Eligible L sha256 c domain =
     (if \<not> canary_enabled c then False
      else case NormalizeDomain L domain of
        Inl e \<Rightarrow> False
      | Inr normalized \<Rightarrow>
          if cnPercent c = 100 then True
          else canary_bucket sha256 c normalized < nat (cnPercent c) * 100)"

definition hex_encode :: "string \<Rightarrow> string" where
  "hex_encode s = concat (map (\<lambda>c. [hex_digit (byte c div 16), hex_digit (byte c mod 16)]) s)"

definition newline :: string where
  "newline = [char_of (10::nat)]"

definition mlCanarySelectorAlgorithm :: string where
  "mlCanarySelectorAlgorithm = ''sha256_normalized_domain_v1''"

definition canary_revision :: "(string \<Rightarrow> string) \<Rightarrow> canary \<Rightarrow> string" where
  "canary_revision sha256 c =
     (if \<not> canary_enabled c then []
      else hex_encode (sha256
        (''algorithm='' @ mlCanarySelectorAlgorithm @ newline @
         ''percent='' @ format_int (cnPercent c) @ newline @
         ''seed='' @ trim_space (cnSeed c) @ newline)))"

section \<open>Engine and telemetry\<close>

datatype ml_mode = MLModeDisabled | MLModeShadow | MLModeEnforce

datatype ml_action = MLActionAbstain | MLActionPromoteMalicious | MLActionOther

record ml_decision =
  mdProbability :: rat
  mdAction :: ml_action
  mdModelVersion :: string

record ml_telemetry =
  predictionAttempts :: nat
  shadowWouldBlock :: nat
  shadowWouldPass :: nat
  enforcePromotions :: nat
  abstains :: nat
  ml_errors :: nat
  skips :: nat
  fallbacks :: nat
  latencyCount :: nat
  latencyTotalMicros :: int
  latencyBuckets :: "nat list"
  probabilityBuckets :: "nat list"
  canarySelected :: nat
  canaryExcluded :: nat
  canaryWouldBlock :: nat
  canaryWouldPass :: nat
  canarySuppressed :: nat

text \<open>The classifier is absent (nil) or reports its own state and revision.\<close>

record ml_engine =
  mlEnabled :: bool
  mlRevision :: string
  mlMode :: ml_mode
  mlCanary :: canary
  mlTelemetry :: ml_telemetry

definition mode_string :: "ml_mode \<Rightarrow> string" where
  "mode_string m = (case m of MLModeDisabled \<Rightarrow> ''disabled'' | MLModeShadow \<Rightarrow> ''shadow'' | MLModeEnforce \<Rightarrow> ''enforce'')"

definition currentMLPolicyRevision :: "(string \<Rightarrow> string) \<Rightarrow> ml_engine \<Rightarrow> string" where
  "currentMLPolicyRevision sha256 e =
     (if \<not> mlEnabled e then []
      else hex_encode (sha256
        (''model='' @ mlRevision e @ newline @ ''mode='' @ mode_string (mlMode e) @ newline @
         ''canary='' @ canary_revision sha256 (mlCanary e) @ newline)))"

section \<open>Histograms\<close>

definition mlLatencyBuckets :: "int list" where
  "mlLatencyBuckets = [100, 250, 500, 1000, 2000, 5000, 10000, 50000]"

definition bump_at :: "nat \<Rightarrow> nat list \<Rightarrow> nat list" where
  "bump_at i bs = bs[i := bs ! i + 1]"

text \<open>The slot of a sample: the first boundary it does not exceed, or the overflow slot behind them.\<close>

fun latency_slot :: "int list \<Rightarrow> int \<Rightarrow> nat" where
  "latency_slot [] micros = 0"
| "latency_slot (upper # uppers) micros = (if micros \<le> upper then 0 else 1 + latency_slot uppers micros)"

definition observeLatencyMicros :: "nat list \<Rightarrow> int \<Rightarrow> nat list" where
  "observeLatencyMicros buckets micros = bump_at (latency_slot mlLatencyBuckets micros) buckets"

definition observeLatency :: "int \<Rightarrow> ml_telemetry \<Rightarrow> ml_telemetry" where
  "observeLatency micros t =
     t\<lparr>latencyCount := latencyCount t + 1, latencyTotalMicros := latencyTotalMicros t + micros,
       latencyBuckets := observeLatencyMicros (latencyBuckets t) micros\<rparr>"

fun p95_walk :: "int list \<Rightarrow> nat list \<Rightarrow> nat \<Rightarrow> nat \<Rightarrow> int option" where
  "p95_walk [] bs cumulative target = None"
| "p95_walk (upper # uppers) bs cumulative target =
     (let cumulative = cumulative + hd bs in
      if cumulative \<ge> target then Some upper else p95_walk uppers (tl bs) cumulative target)"

definition latencyP95Micros :: "nat list \<Rightarrow> nat \<Rightarrow> int" where
  "latencyP95Micros buckets n =
     (if n = 0 then 0
      else (let target = (n * 95 + 99) div 100 in
            case p95_walk mlLatencyBuckets buckets 0 target of
              Some upper \<Rightarrow> upper
            | None \<Rightarrow> last mlLatencyBuckets))"

definition probabilityBucketIndex :: "rat \<Rightarrow> int" where
  "probabilityBucketIndex p =
     (if p < 0 \<or> p > 1 then -1
      else (let index = \<lfloor>p * 10\<rfloor> in if index \<ge> 10 then 9 else index))"

definition observeProbability :: "rat \<Rightarrow> ml_telemetry \<Rightarrow> ml_telemetry" where
  "observeProbability p t =
     (let index = probabilityBucketIndex p in
      if index \<ge> 0 then t\<lparr>probabilityBuckets := bump_at (nat index) (probabilityBuckets t)\<rparr> else t)"

section \<open>Classification\<close>

definition mlClassifierReason :: string where
  "mlClassifierReason = ''ml_classifier_high_risk''"

text \<open>\<^verbatim>\<open>math.Round\<close>: half away from zero.\<close>

definition round_half :: "rat \<Rightarrow> int" where
  "round_half x = (if x \<ge> 0 then \<lfloor>x + 1 / 2\<rfloor> else - \<lfloor>1 / 2 - x\<rfloor>)"

definition promote :: "ml_decision \<Rightarrow> result \<Rightarrow> result" where
  "promote d current =
     (let score = round_half (mdProbability d * 100);
          score = (if score < 70 then 70 else score);
          score = (if score > 100 then 100 else score)
      in current\<lparr>aVerdict := VerdictMalicious, aConfidence := mdProbability d, aScore := score,
           aCategory := (if aCategory current \<noteq> ''phishing'' \<and> aCategory current \<noteq> ''malware''
                         then ''malware'' else aCategory current),
           aReasons := aReasons current @ [mlClassifierReason] @
             (if mdModelVersion d \<noteq> [] then [''ml_classifier_model_version:'' @ mdModelVersion d] else [])\<rparr>)"

definition note_canary :: "bool \<Rightarrow> bool \<Rightarrow> ml_telemetry \<Rightarrow> ml_telemetry" where
  "note_canary configured selected t =
     (if configured then
        (if selected then t\<lparr>canarySelected := canarySelected t + 1\<rparr>
         else t\<lparr>canaryExcluded := canaryExcluded t + 1\<rparr>)
      else t)"

definition apply_decision ::
  "ml_mode \<Rightarrow> bool \<Rightarrow> ml_decision \<Rightarrow> result \<Rightarrow> ml_telemetry \<Rightarrow> (result \<times> bool) \<times> ml_telemetry" where
  "apply_decision mode selected d current t =
     (case mdAction d of
        MLActionPromoteMalicious \<Rightarrow>
          (let t = (if selected then t\<lparr>canaryWouldBlock := canaryWouldBlock t + 1\<rparr> else t) in
           if mode = MLModeShadow then ((current, False), t\<lparr>shadowWouldBlock := shadowWouldBlock t + 1\<rparr>)
           else if \<not> selected then ((current, False), t\<lparr>canarySuppressed := canarySuppressed t + 1\<rparr>)
           else ((promote d current, True), t\<lparr>enforcePromotions := enforcePromotions t + 1\<rparr>))
      | MLActionAbstain \<Rightarrow>
          (let t = (if selected then t\<lparr>canaryWouldPass := canaryWouldPass t + 1\<rparr> else t);
               t = (if mode = MLModeShadow then t\<lparr>shadowWouldPass := shadowWouldPass t + 1\<rparr> else t)
           in ((current, False), t\<lparr>abstains := abstains t + 1\<rparr>))
      | MLActionOther \<Rightarrow> ((current, False), t\<lparr>ml_errors := ml_errors t + 1\<rparr>))"

definition classifyML ::
  "libs \<Rightarrow> (string \<Rightarrow> string) \<Rightarrow> (string \<Rightarrow> ml_decision option) \<Rightarrow> int \<Rightarrow> result \<Rightarrow> ml_engine \<Rightarrow>
   (result \<times> bool) \<times> ml_engine" where
  "classifyML L sha256 classify micros current e =
     (let t = mlTelemetry e in
      if mlMode e = MLModeDisabled \<or> \<not> mlEnabled e
      then ((current, False), e\<lparr>mlTelemetry := t\<lparr>skips := skips t + 1\<rparr>\<rparr>)
      else if aVerdict current \<noteq> VerdictSuspicious
      then ((current, False), e\<lparr>mlTelemetry := t\<lparr>skips := skips t + 1\<rparr>\<rparr>)
      else
        (let t = observeLatency micros (t\<lparr>predictionAttempts := predictionAttempts t + 1\<rparr>) in
         case classify (aDomain current) of
           None \<Rightarrow> ((current, False), e\<lparr>mlTelemetry := t\<lparr>ml_errors := ml_errors t + 1\<rparr>\<rparr>)
         | Some d \<Rightarrow>
             (let t = observeProbability (mdProbability d) t;
                  configured = canary_enabled (mlCanary e);
                  selected = (configured \<and> Eligible L sha256 (mlCanary e) (aDomain current));
                  (answer, t) = apply_decision (mlMode e) selected d current (note_canary configured selected t)
              in (answer, e\<lparr>mlTelemetry := t\<rparr>))))"

section \<open>Laws\<close>

lemma promote_simps [simp]:
  "aDomain (promote d current) = aDomain current"
  "aVerdict (promote d current) = VerdictMalicious"
  "aConfidence (promote d current) = mdProbability d"
  by (simp_all add: promote_def Let_def)

lemma promote_score: "70 \<le> aScore (promote d current)" "aScore (promote d current) \<le> 100"
  by (simp_all add: promote_def Let_def)

lemma apply_decision_answer:
  "fst (apply_decision mode selected d current t) =
     (if mdAction d = MLActionPromoteMalicious \<and> mode \<noteq> MLModeShadow \<and> selected
      then (promote d current, True) else (current, False))"
  by (simp add: apply_decision_def Let_def split: ml_action.splits)

text \<open>The model changes a result in one case only: enforcing, suspicious, promoted and in the canary.\<close>

lemma classifyML_answer:
  "fst (classifyML L sha256 classify micros current e) =
     (case classify (aDomain current) of
        Some d \<Rightarrow>
          if mlMode e = MLModeEnforce \<and> mlEnabled e \<and> aVerdict current = VerdictSuspicious \<and>
             mdAction d = MLActionPromoteMalicious \<and> Eligible L sha256 (mlCanary e) (aDomain current)
          then (promote d current, True) else (current, False)
      | None \<Rightarrow> (current, False))"
proof -
  have elig: "canary_enabled (mlCanary e) \<and> Eligible L sha256 (mlCanary e) (aDomain current) \<longleftrightarrow>
      Eligible L sha256 (mlCanary e) (aDomain current)"
    by (simp add: Eligible_def)
  show ?thesis
    by (cases "mlMode e")
      (auto simp: classifyML_def Let_def case_prod_unfold apply_decision_answer elig split: option.splits)
qed

lemma classifyML_domain [simp]:
  "aDomain (fst (fst (classifyML L sha256 classify micros current e))) = aDomain current"
  by (simp add: classifyML_answer split: option.splits)

lemma classifyML_engine [simp]:
  "mlMode (snd (classifyML L sha256 classify micros current e)) = mlMode e"
  "mlEnabled (snd (classifyML L sha256 classify micros current e)) = mlEnabled e"
  "mlRevision (snd (classifyML L sha256 classify micros current e)) = mlRevision e"
  "mlCanary (snd (classifyML L sha256 classify micros current e)) = mlCanary e"
  by (simp_all add: classifyML_def Let_def case_prod_unfold split: option.splits)

lemma revision_same_engine:
  "mlMode e' = mlMode e \<Longrightarrow> mlEnabled e' = mlEnabled e \<Longrightarrow> mlRevision e' = mlRevision e \<Longrightarrow>
   mlCanary e' = mlCanary e \<Longrightarrow> currentMLPolicyRevision sha256 e' = currentMLPolicyRevision sha256 e"
  by (simp add: currentMLPolicyRevision_def)

end
