(* ===== verification/AnalysisCache.thy ===== *)
theory AnalysisCache
  imports MLGate
begin

text \<open>
  The analysis cache in Redis: entries, epochs and recency of \<^verbatim>\<open>internal/risk/cache_types.go\<close>, the
  revision reads of \<^verbatim>\<open>internal/risk/redis_revisions.go\<close> and the JSON and compare-and-swap operations
  of \<^verbatim>\<open>internal/cache/redis.go\<close>. Times are nanoseconds since Go's zero time. A stored time stamp is
  absent (the empty string), unreadable, or a time. The server is its contents with predicates for
  the reads and writes that fail.
\<close>

section \<open>Entries\<close>

datatype stamp = NoStamp | Garbled | At int

record analysis_entry =
  ceResult :: result
  ceFeedRevision :: string
  ceBrandRevision :: string
  ceAnalysisRevision :: string
  ceConfigRevision :: string
  ceModelRevision :: string
  ceOSINTCheckedAt :: stamp
  ceEnrichedAt :: stamp
  ceAssessedAt :: stamp

record enrichment_job =
  ejDomain :: string
  ejResult :: result
  ejFeedRevision :: string
  ejBrandRevision :: string
  ejConfigRevision :: string
  ejModelRevision :: string
  ejQueuedAt :: stamp

record cache_epoch =
  epAnalysisRevision :: string
  epConfigRevision :: string
  epModelRevision :: string
  epFeedRevision :: string
  epFeedKnown :: bool
  epBrandRevision :: string
  epBrandKnown :: bool

definition entryMatchesRevision :: "analysis_entry \<Rightarrow> cache_epoch \<Rightarrow> bool" where
  "entryMatchesRevision entry current =
     (if aDomain (ceResult entry) = [] then False
      else if ceAnalysisRevision entry \<noteq> epAnalysisRevision current \<or>
        ceConfigRevision entry \<noteq> epConfigRevision current \<or>
        ceModelRevision entry \<noteq> epModelRevision current then False
      else if \<not> epFeedKnown current \<or> \<not> epBrandKnown current then False
      else ceFeedRevision entry = epFeedRevision current \<and> ceBrandRevision entry = epBrandRevision current)"

definition newer :: "int \<Rightarrow> stamp \<Rightarrow> int" where
  "newer newest raw = (case raw of At ts \<Rightarrow> if ts > newest then ts else newest | _ \<Rightarrow> newest)"

definition entryAssessedAt :: "analysis_entry \<Rightarrow> int" where
  "entryAssessedAt entry = foldl newer 0 [ceAssessedAt entry, ceEnrichedAt entry, ceOSINTCheckedAt entry]"

definition jobQueuedAt :: "stamp \<Rightarrow> int" where
  "jobQueuedAt raw = (case raw of At ts \<Rightarrow> ts | _ \<Rightarrow> 0)"

definition analysisAlgorithmRevision :: string where
  "analysisAlgorithmRevision = ''2026-10-tr39-skeleton-v1''"

definition analysisCacheKey :: "string \<Rightarrow> string \<Rightarrow> string" where
  "analysisCacheKey domain modelRevision =
     (let base = ''safe-zone:analysis:'' @ domain in
      if modelRevision = [] then base else base @ '':model:'' @ modelRevision)"

section \<open>The server\<close>

datatype cached_value = CachedEntry analysis_entry | Undecodable

record redis_server = redis +
  rd_strings :: "string \<rightharpoonup> string"
  rd_sfault :: "string \<Rightarrow> bool"
  rd_entries :: "string \<rightharpoonup> cached_value \<times> int"
  rd_rfault :: "string \<Rightarrow> bool"
  rd_wfault :: "string \<Rightarrow> bool"

text \<open>\<^verbatim>\<open>GetString\<close>: the inner \<^const>\<open>None\<close> is \<^verbatim>\<open>redis.Nil\<close>.\<close>

definition GetString :: "redis_server \<Rightarrow> string \<Rightarrow> redis_error + string option" where
  "GetString r key =
     (if \<not> rd_enabled r then Inl ErrDisabled
      else if rd_sfault r key then Inl RedisFailure
      else Inr (rd_strings r key))"

definition GetJSON :: "redis_server \<Rightarrow> string \<Rightarrow> redis_error + analysis_entry option" where
  "GetJSON r key =
     (if \<not> rd_enabled r then Inl ErrDisabled
      else if rd_rfault r key then Inl RedisFailure
      else case rd_entries r key of
        None \<Rightarrow> Inr None
      | Some (Undecodable, ttl) \<Rightarrow> Inl RedisFailure
      | Some (CachedEntry e, ttl) \<Rightarrow> Inr (Some e))"

definition SetJSON :: "string \<Rightarrow> analysis_entry \<Rightarrow> int \<Rightarrow> redis_server \<Rightarrow> redis_error option \<times> redis_server" where
  "SetJSON key e ttl r =
     (if \<not> rd_enabled r then (Some ErrDisabled, r)
      else if rd_wfault r key then (Some RedisFailure, r)
      else (None, r\<lparr>rd_entries := (rd_entries r)(key \<mapsto> (CachedEntry e, ttl))\<rparr>))"

section \<open>Revisions\<close>

definition brandRevisionKey :: string where
  "brandRevisionKey = ''safe-zone:analysis:trusted-brands:revision''"

definition revision_read :: "redis_server \<Rightarrow> string \<Rightarrow> string \<times> bool" where
  "revision_read r key =
     (case GetString r key of
        Inl e \<Rightarrow> ([], False)
      | Inr None \<Rightarrow> ([], True)
      | Inr (Some value) \<Rightarrow> (value, True))"

definition currentFeedRevision :: "redis_server \<Rightarrow> string \<Rightarrow> string \<times> bool" where
  "currentFeedRevision r feedRevisionKey =
     (if feedRevisionKey = [] then ([], True) else revision_read r feedRevisionKey)"

definition currentBrandRevision :: "redis_server \<Rightarrow> string \<times> bool" where
  "currentBrandRevision r = revision_read r brandRevisionKey"

section \<open>Compare and swap\<close>

datatype cas_error = CASConflict | CASRead | CASSwap | CASWrite | CASDisabled

definition casMaxAttempts :: nat where
  "casMaxAttempts = 5"

text \<open>
  One attempt watches the key, reads it and, when the guard approves, writes in a transaction. The
  third argument lists what other clients do between the read and the transaction of each attempt:
  \<^term>\<open>Some r'\<close> is a write that leaves the server in state \<open>r'\<close> and fails the transaction.
\<close>

fun cas_loop ::
  "(cached_value option \<Rightarrow> bool option) \<Rightarrow> nat \<Rightarrow> redis_server option list \<Rightarrow> string \<Rightarrow> analysis_entry \<Rightarrow> int \<Rightarrow>
   redis_server \<Rightarrow> (cas_error + bool) \<times> redis_server" where
  "cas_loop swap 0 others key e ttl r = (Inl CASConflict, r)"
| "cas_loop swap (Suc n) others key e ttl r =
     (if rd_rfault r key then (Inl CASRead, r)
      else case swap (map_option fst (rd_entries r key)) of
        None \<Rightarrow> (Inl CASSwap, r)
      | Some False \<Rightarrow> (Inr False, r)
      | Some True \<Rightarrow>
          (case others of
             Some r' # rest \<Rightarrow> cas_loop swap n rest key e ttl r'
           | _ \<Rightarrow>
               if rd_wfault r key then (Inl CASWrite, r)
               else (Inr True, r\<lparr>rd_entries := (rd_entries r)(key \<mapsto> (CachedEntry e, ttl))\<rparr>)))"

definition CompareAndSwapJSON ::
  "(cached_value option \<Rightarrow> bool option) \<Rightarrow> redis_server option list \<Rightarrow> string \<Rightarrow> analysis_entry \<Rightarrow> int \<Rightarrow>
   redis_server \<Rightarrow> (cas_error + bool) \<times> redis_server" where
  "CompareAndSwapJSON swap others key e ttl r =
     (if \<not> rd_enabled r then (Inl CASDisabled, r)
      else cas_loop swap casMaxAttempts others key e ttl r)"

section \<open>Laws\<close>

text \<open>The state a successful swap overwrites is one the guard saw: the last one left by the others.\<close>

lemma cas_loop_swapped:
  assumes "cas_loop swap n others key e ttl r = (Inr True, r2)"
  shows "\<exists>r1. (r1 = r \<or> Some r1 \<in> set others) \<and>
    swap (map_option fst (rd_entries r1 key)) = Some True \<and>
    r2 = r1\<lparr>rd_entries := (rd_entries r1)(key \<mapsto> (CachedEntry e, ttl))\<rparr>"
  using assms
proof (induction n arbitrary: others r)
  case (Suc n)
  show ?case
  proof (cases "\<exists>r' rest. others = Some r' # rest")
    case True
    then obtain r' rest where o: "others = Some r' # rest" by blast
    have "cas_loop swap n rest key e ttl r' = (Inr True, r2)"
      using Suc.prems by (auto simp: o split: if_splits option.splits bool.splits)
    from Suc.IH[OF this] show ?thesis unfolding o by auto
  next
    case False
    then have here: "(case others of Some r' # rest \<Rightarrow> x r' rest | _ \<Rightarrow> y) = y" for x and y :: "'b"
      by (cases others) (auto split: option.splits)
    show ?thesis using Suc.prems
      by (auto simp: here simp del: fun_upd_apply split: if_splits option.splits bool.splits)
  qed
qed simp

text \<open>Without success the entry under the key is the one some client left there.\<close>

lemma cas_loop_kept:
  assumes "cas_loop swap n others key e ttl r = (res, r2)" "res \<noteq> Inr True"
  shows "r2 = r \<or> Some r2 \<in> set others"
  using assms
proof (induction n arbitrary: others r)
  case (Suc n)
  show ?case
  proof (cases "\<exists>r' rest. others = Some r' # rest")
    case True
    then obtain r' rest where o: "others = Some r' # rest" by blast
    have "r2 = r \<or> cas_loop swap n rest key e ttl r' = (res, r2)"
      using Suc.prems(1) by (auto simp: o split: if_splits option.splits bool.splits)
    then show ?thesis using Suc.IH[OF _ Suc.prems(2)] unfolding o by auto
  next
    case False
    then have here: "(case others of Some r' # rest \<Rightarrow> x r' rest | _ \<Rightarrow> y) = y" for x and y :: "'b"
      by (cases others) (auto split: option.splits)
    show ?thesis using Suc.prems
      by (auto simp: here simp del: fun_upd_apply split: if_splits option.splits bool.splits)
  qed
qed simp

lemma entryAssessedAt_ge:
  "ceAssessedAt e = At t \<Longrightarrow> t \<le> entryAssessedAt e"
  "ceEnrichedAt e = At t \<Longrightarrow> t \<le> entryAssessedAt e"
  "ceOSINTCheckedAt e = At t \<Longrightarrow> t \<le> entryAssessedAt e"
  by (auto simp: entryAssessedAt_def newer_def split: stamp.splits)

lemma entryMatchesRevision_iff:
  "entryMatchesRevision entry current \<longleftrightarrow>
     aDomain (ceResult entry) \<noteq> [] \<and> ceAnalysisRevision entry = epAnalysisRevision current \<and>
     ceConfigRevision entry = epConfigRevision current \<and> ceModelRevision entry = epModelRevision current \<and>
     epFeedKnown current \<and> epBrandKnown current \<and>
     ceFeedRevision entry = epFeedRevision current \<and> ceBrandRevision entry = epBrandRevision current"
  by (auto simp: entryMatchesRevision_def)

end
