(* ===== verification/Enrichment.thy ===== *)
theory Enrichment
  imports AnalysisCache
begin

text \<open>
  Background enrichment (\<^verbatim>\<open>internal/risk/enrichment.go\<close>): which results are queued, the in-flight
  guard of the queue, how the DNS, TLS and WHOIS signals change a result, and the write back to the
  analysis cache. The lookups themselves are a function from a domain to its signals. Queue and
  worker steps interleave as an inductive relation.
\<close>

section \<open>Which results are queued\<close>

definition shouldEnqueueEnrichment :: "result \<Rightarrow> bool" where
  "shouldEnqueueEnrichment res =
     (if aDomain res = [] \<or> aScore res < 20 \<or> aScore res \<ge> 70 then False
      else \<not> list_ex (\<lambda>reason. reason = sharedFeedApexReason) (aReasons res))"

definition cachedEntryNeedsEnrichment :: "analysis_entry \<Rightarrow> bool" where
  "cachedEntryNeedsEnrichment entry \<longleftrightarrow> ceEnrichedAt entry = NoStamp"

text \<open>The channel is nil until the service starts its workers; else it has a capacity.\<close>

record enrich_state =
  enrichEnabled :: bool
  enrichCap :: "nat option"
  enrichQueue :: "enrichment_job list"
  enrichInFlight :: "string set"
  enrichTimeout :: int

definition clearEnrichmentInFlight :: "string \<Rightarrow> enrich_state \<Rightarrow> enrich_state" where
  "clearEnrichmentInFlight domain s = s\<lparr>enrichInFlight := enrichInFlight s - {domain}\<rparr>"

text \<open>
  The \<^verbatim>\<open>select\<close>: a cancelled request may win against a free slot, a full queue drops the job. The
  first argument says that the cancelled context was chosen.
\<close>

definition enqueueEnrichment :: "bool \<Rightarrow> enrichment_job \<Rightarrow> enrich_state \<Rightarrow> enrich_state" where
  "enqueueEnrichment cancelled job s =
     (if \<not> enrichEnabled s \<or> enrichCap s = None \<or> enrichTimeout s \<le> 0 then s
      else if ejDomain job \<in> enrichInFlight s then s
      else
        (let s = s\<lparr>enrichInFlight := insert (ejDomain job) (enrichInFlight s)\<rparr> in
         if cancelled then clearEnrichmentInFlight (ejDomain job) s
         else if length (enrichQueue s) < the (enrichCap s)
         then s\<lparr>enrichQueue := enrichQueue s @ [job]\<rparr>
         else clearEnrichmentInFlight (ejDomain job) s))"

section \<open>Signals\<close>

datatype dns_outcome =
  DNSOutcomeOK | DNSOutcomeNXDOMAIN | DNSOutcomeNoData | DNSOutcomeTimeout | DNSOutcomeServerFailure |
  DNSOutcomeCanceled | DNSOutcomeUnknownError

definition dns_outcome_String :: "dns_outcome \<Rightarrow> string" where
  "dns_outcome_String out =
     (case out of
        DNSOutcomeNXDOMAIN \<Rightarrow> ''dns: apex has no NS records (authoritative NXDOMAIN)''
      | DNSOutcomeNoData \<Rightarrow> ''dns: apex answered without usable NS records''
      | DNSOutcomeTimeout \<Rightarrow> ''dns: apex NS lookup timed out''
      | DNSOutcomeServerFailure \<Rightarrow> ''dns: apex NS lookup failed (server error)''
      | DNSOutcomeCanceled \<Rightarrow> ''dns: apex NS lookup canceled''
      | DNSOutcomeUnknownError \<Rightarrow> ''dns: apex NS lookup failed''
      | DNSOutcomeOK \<Rightarrow> ''dns: apex NS lookup unavailable'')"

text \<open>What \<^verbatim>\<open>LookupNS\<close> returns: the names, a cancelled context, a DNS error with its flags, or another error.\<close>

datatype ns_lookup =
  NSAnswer "string list" | NSCanceled | NSDNSError bool bool | NSTimeout | NSOtherError

definition classifyDNSLookupErr :: "ns_lookup \<Rightarrow> dns_outcome" where
  "classifyDNSLookupErr err =
     (case err of
        NSAnswer nss \<Rightarrow> DNSOutcomeOK
      | NSCanceled \<Rightarrow> DNSOutcomeCanceled
      | NSDNSError isNotFound isTimeout \<Rightarrow>
          if isNotFound then DNSOutcomeNXDOMAIN
          else if isTimeout then DNSOutcomeTimeout else DNSOutcomeServerFailure
      | NSTimeout \<Rightarrow> DNSOutcomeTimeout
      | NSOtherError \<Rightarrow> DNSOutcomeUnknownError)"

definition dns_signal :: "(string \<Rightarrow> ns_lookup) \<Rightarrow> string \<Rightarrow> dns_outcome" where
  "dns_signal LookupNS domain =
     (let apex = RegisteredDomain domain in
      if apex = [] then DNSOutcomeOK
      else
        (let answer = LookupNS apex; outcome = classifyDNSLookupErr answer in
         if outcome \<noteq> DNSOutcomeOK then outcome
         else case answer of NSAnswer [] \<Rightarrow> DNSOutcomeNoData | _ \<Rightarrow> DNSOutcomeOK))"

record signals =
  sgDNS :: dns_outcome
  sgTLSScore :: int
  sgTLSAdvisory :: int
  sgTLSReasons :: "string list"
  sgWHOISScore :: int
  sgWHOISReasons :: "string list"

definition maxTLSAdvisoryPromotion :: int where
  "maxTLSAdvisoryPromotion = 10"

definition minScoreForFullTLSWeight :: int where
  "minScoreForFullTLSWeight = 40"

definition tls_weight :: "result \<Rightarrow> signals \<Rightarrow> int" where
  "tls_weight res sg =
     (let tlsScore = sgTLSScore sg;
          registered = RegisteredDomain (aDomain res);
          cdn = (IsCDNRoot registered \<or> IsTrustedInfraSuffix (aDomain res))
      in if sgTLSAdvisory sg > 0 \<and> (aScore res < minScoreForFullTLSWeight \<or> cdn) then
           (let strong = tlsScore - sgTLSAdvisory sg;
                strong = (if strong < 0 then 0 else strong)
            in if tlsScore > strong + maxTLSAdvisoryPromotion
               then strong + maxTLSAdvisoryPromotion else tlsScore)
         else tlsScore)"

definition score_verdict :: "int \<Rightarrow> verdict" where
  "score_verdict score =
     (if score \<ge> 70 then VerdictMalicious else if score \<ge> 40 then VerdictSuspicious else VerdictSafe)"

definition applyEnrichmentSignals :: "signals \<Rightarrow> result \<Rightarrow> result" where
  "applyEnrichmentSignals sg res =
     (let reasons = aReasons res @ (if sgDNS sg \<noteq> DNSOutcomeOK then [dns_outcome_String (sgDNS sg)] else []);
          score = aScore res + (tls_weight res sg + sgWHOISScore sg);
          score = (if score > 100 then 100 else score)
      in res\<lparr>aReasons := reasons @ sgTLSReasons sg @ sgWHOISReasons sg, aScore := score,
             aVerdict := score_verdict score, aConfidence := min 1 (45 / 100 + of_int score / 120)\<rparr>)"

section \<open>The worker\<close>

text \<open>The guard of the compare-and-swap: \<^const>\<open>None\<close> when the stored bytes do not decode.\<close>

definition recency_guard :: "int \<Rightarrow> cached_value option \<Rightarrow> bool option" where
  "recency_guard queuedAt found =
     (case found of
        None \<Rightarrow> Some True
      | Some Undecodable \<Rightarrow> None
      | Some (CachedEntry current) \<Rightarrow>
          Some (\<not> (aDomain (ceResult current) \<noteq> [] \<and> entryAssessedAt current > queuedAt)))"

definition same_revision :: "string \<times> bool \<Rightarrow> string \<Rightarrow> bool" where
  "same_revision current job = (case current of (value, known) \<Rightarrow> \<not> (known \<and> value \<noteq> [] \<and> job \<noteq> [] \<and> value \<noteq> job))"

record worker_env =
  weSignals :: "string \<Rightarrow> signals"
  weNow :: int
  weOthers :: "redis_server option list"
  weFeedRevisionKey :: string
  weConfigRevision :: string
  weModelRevision :: string
  weTTL :: "verdict \<Rightarrow> int"

definition enriched_entry :: "worker_env \<Rightarrow> enrichment_job \<Rightarrow> analysis_entry" where
  "enriched_entry W job =
     \<lparr>ceResult = applyEnrichmentSignals (weSignals W (ejDomain job)) (ejResult job),
      ceFeedRevision = ejFeedRevision job, ceBrandRevision = ejBrandRevision job,
      ceAnalysisRevision = analysisAlgorithmRevision, ceConfigRevision = ejConfigRevision job,
      ceModelRevision = ejModelRevision job, ceOSINTCheckedAt = NoStamp,
      ceEnrichedAt = At (weNow W), ceAssessedAt = At (weNow W)\<rparr>"

text \<open>The first result says that the job was written; the other outcomes only differ in what is logged.\<close>

definition processEnrichmentJob :: "worker_env \<Rightarrow> enrichment_job \<Rightarrow> redis_server \<Rightarrow> bool \<times> redis_server" where
  "processEnrichmentJob W job r =
     (if \<not> rd_enabled r then (False, r)
      else if \<not> same_revision (currentFeedRevision r (weFeedRevisionKey W)) (ejFeedRevision job) then (False, r)
      else if \<not> same_revision (currentBrandRevision r) (ejBrandRevision job) then (False, r)
      else if weConfigRevision W \<noteq> ejConfigRevision job then (False, r)
      else if weModelRevision W \<noteq> ejModelRevision job then (False, r)
      else
        (let entry = enriched_entry W job;
             (answer, r') = CompareAndSwapJSON (recency_guard (jobQueuedAt (ejQueuedAt job))) (weOthers W)
               (analysisCacheKey (ejDomain job) (ejModelRevision job)) entry (weTTL W (aVerdict (ceResult entry))) r
         in (answer = Inr True, r')))"

text \<open>
  Requests, workers and their queue: a job is queued, one of the workers takes the oldest one, and
  clears its domain when it is done. The list holds the jobs being processed.
\<close>

inductive enrich_step ::
  "enrich_state \<times> enrichment_job list \<Rightarrow> enrich_state \<times> enrichment_job list \<Rightarrow> bool" where
  Enqueue: "enrich_step (s, busy) (enqueueEnrichment cancelled job s, busy)"
| Take: "enrichQueue s = job # rest \<Longrightarrow>
    enrich_step (s, busy) (s\<lparr>enrichQueue := rest\<rparr>, job # busy)"
| Finish: "job \<in> set busy \<Longrightarrow>
    enrich_step (s, busy) (clearEnrichmentInFlight (ejDomain job) s, remove1 job busy)"

inductive enrich_run ::
  "enrich_state \<times> enrichment_job list \<Rightarrow> enrich_state \<times> enrichment_job list \<Rightarrow> bool" where
  Refl: "enrich_run x x"
| Step: "enrich_run x y \<Longrightarrow> enrich_step y z \<Longrightarrow> enrich_run x z"

inductive_cases enrich_stepE [elim]: "enrich_step (s, busy) y"

text \<open>A domain is in flight exactly while one job of it is queued or being processed.\<close>

definition enrich_inv :: "enrich_state \<times> enrichment_job list \<Rightarrow> bool" where
  "enrich_inv x = (case x of (s, busy) \<Rightarrow>
     distinct (map ejDomain (enrichQueue s @ busy)) \<and>
     enrichInFlight s = ejDomain ` set (enrichQueue s @ busy) \<and>
     (case enrichCap s of None \<Rightarrow> enrichQueue s = [] | Some n \<Rightarrow> length (enrichQueue s) \<le> n))"

section \<open>Laws\<close>

lemma score_verdict_simps [simp]:
  "score_verdict s = VerdictMalicious \<longleftrightarrow> s \<ge> 70"
  "score_verdict s = VerdictSafe \<longleftrightarrow> s < 40"
  by (auto simp: score_verdict_def)

lemma enqueue_cases:
  assumes "enqueueEnrichment cancelled job s = s'"
  shows "s' = s \<or>
    (ejDomain job \<notin> enrichInFlight s \<and> (\<exists>n. enrichCap s = Some n \<and> length (enrichQueue s) < n) \<and>
     s' = s\<lparr>enrichInFlight := insert (ejDomain job) (enrichInFlight s), enrichQueue := enrichQueue s @ [job]\<rparr>)"
proof (cases "ejDomain job \<in> enrichInFlight s")
  case False
  have keep: "clearEnrichmentInFlight (ejDomain job)
      (s\<lparr>enrichInFlight := insert (ejDomain job) (enrichInFlight s)\<rparr>) = s"
    using False by (simp add: clearEnrichmentInFlight_def)
  show ?thesis using assms False
    by (auto simp: enqueueEnrichment_def Let_def keep split: if_splits)
qed (use assms in \<open>auto simp: enqueueEnrichment_def\<close>)

lemma enqueue_inv: "enrich_inv (s, busy) \<Longrightarrow> enrich_inv (enqueueEnrichment cancelled job s, busy)"
  using enqueue_cases[of cancelled job s, OF refl]
  by (elim disjE conjE exE) (auto simp: enrich_inv_def)

lemma take_inv:
  assumes "enrich_inv (s, busy)" "enrichQueue s = job # rest"
  shows "enrich_inv (s\<lparr>enrichQueue := rest\<rparr>, job # busy)"
  using assms by (auto simp: enrich_inv_def split: option.splits)

lemma finish_inv:
  assumes "enrich_inv (s, busy)" "job \<in> set busy"
  shows "enrich_inv (clearEnrichmentInFlight (ejDomain job) s, remove1 job busy)"
proof -
  let ?D = "\<lambda>js. ejDomain ` set (enrichQueue s @ js)"
  obtain us vs where b: "busy = us @ job # vs" "job \<notin> set us" using assms(2) by (metis split_list_first)
  have d: "distinct (map ejDomain (enrichQueue s @ us @ vs))" "ejDomain job \<notin> ?D (us @ vs)"
    using assms(1) by (auto simp: enrich_inv_def b(1))
  have "enrichInFlight s = ?D busy" using assms(1) by (simp add: enrich_inv_def)
  also have "\<dots> = insert (ejDomain job) (?D (us @ vs))" by (auto simp: b(1))
  finally have "enrichInFlight s - {ejDomain job} = ?D (us @ vs)" using d(2) by simp
  moreover have "remove1 job busy = us @ vs" using b by (simp add: remove1_append)
  ultimately show ?thesis using assms(1) d(1)
    by (simp add: enrich_inv_def clearEnrichmentInFlight_def image_Un Int_Un_distrib split: option.splits)
qed

lemma enrich_step_inv: "enrich_step x y \<Longrightarrow> enrich_inv x \<Longrightarrow> enrich_inv y"
  by (induction rule: enrich_step.induct) (simp_all add: enqueue_inv take_inv finish_inv)

lemma enrich_run_inv: "enrich_run x y \<Longrightarrow> enrich_inv x \<Longrightarrow> enrich_inv y"
  by (induction rule: enrich_run.induct) (auto intro: enrich_step_inv)

lemma processEnrichmentJob_written:
  assumes "processEnrichmentJob W job r = (True, r2)"
  shows "\<exists>r1. (r1 = r \<or> Some r1 \<in> set (weOthers W)) \<and>
    recency_guard (jobQueuedAt (ejQueuedAt job))
      (map_option fst (rd_entries r1 (analysisCacheKey (ejDomain job) (ejModelRevision job)))) = Some True \<and>
    r2 = r1\<lparr>rd_entries := (rd_entries r1)(analysisCacheKey (ejDomain job) (ejModelRevision job) \<mapsto>
      (CachedEntry (enriched_entry W job), weTTL W (aVerdict (ceResult (enriched_entry W job)))))\<rparr>"
  using assms cas_loop_swapped
  by (fastforce simp: processEnrichmentJob_def CompareAndSwapJSON_def Let_def case_prod_unfold prod_eq_iff
      split: if_splits)

end
