(* ===== verification/Pipeline.thy ===== *)
theory Pipeline
  imports Enrichment GroupStore Whitelist AdblockExceptions
begin

text \<open>
  The assessment pipeline: the service state of \<^verbatim>\<open>internal/risk/service.go\<close>, the trace helpers of
  \<^verbatim>\<open>trace.go\<close>, the AI and OSINT steps of \<^verbatim>\<open>osint_ai.go\<close> with the decision functions of
  \<^verbatim>\<open>internal/osint/osint.go\<close> they call, and \<^verbatim>\<open>analyze\<close> of \<^verbatim>\<open>analysis_pipeline.go\<close>. The parties a
  request asks are the fields of the record \<open>engines\<close>: the lexical analyzer, the domain model, the
  AI client, the OSINT service and the clocks. Of the lexical analyzer the heuristics that add up a
  score and its reasons are a function; what \<^verbatim>\<open>analyzeWithBrands\<close> makes of them is a definition.
  The answer of an AI provider is its parsed reply. Layer timings and log lines are left out.
\<close>

section \<open>Lexical verdicts\<close>

definition lexical_category :: "string \<Rightarrow> verdict \<Rightarrow> string list \<Rightarrow> string" where
  "lexical_category domain v reasons =
     (let category = ClassifyCategory domain in
      if category \<noteq> ''uncategorized'' then category
      else if v = VerdictMalicious then
        (if list_ex (\<lambda>r. contains (to_lower r) ''phishing'') reasons then ''phishing'' else ''malware'')
      else if v = VerdictSuspicious then ''suspicious'' else category)"

definition lexical_result :: "string \<Rightarrow> int \<times> string list \<Rightarrow> result" where
  "lexical_result domain scored =
     (let (score, reasons) = scored;
          score = (if score > 100 then 100 else score);
          v = (if score \<ge> 70 then VerdictMalicious
               else if score \<ge> 40 then VerdictSuspicious else VerdictSafe)
      in \<lparr>aDomain = domain, aVerdict = v, aConfidence = min 1 (45 / 100 + of_int score / 120),
          aScore = score, aReasons = reasons, aCategory = lexical_category domain v reasons\<rparr>)"

definition analyzeWithBrands :: "libs \<Rightarrow> (string \<Rightarrow> int \<times> string list) \<Rightarrow> string \<Rightarrow> result" where
  "analyzeWithBrands L heuristics input =
     (case NormalizeDomain L input of
        Inl e \<Rightarrow>
          \<lparr>aDomain = trim_space input, aVerdict = VerdictInvalid, aConfidence = 1, aScore = 100,
           aReasons = [e], aCategory = ''uncategorized''\<rparr>
      | Inr domain \<Rightarrow> lexical_result domain (heuristics domain))"

section \<open>AI answers\<close>

datatype ai_provider = Gemini | Ollama

record ai_answer =
  aiVerdict :: string
  aiConfidence :: rat
  aiReason :: string
  aiCategory :: string

definition to_upper :: "string \<Rightarrow> string" where
  "to_upper s = map (\<lambda>c. if 97 \<le> byte c \<and> byte c \<le> 122 then char_of (byte c - 32) else c) s"

definition ai_reason_prefix :: "ai_provider \<Rightarrow> string" where
  "ai_reason_prefix p =
     (case p of Gemini \<Rightarrow> ''local ai classification: '' | Ollama \<Rightarrow> ''local offline ai classification: '')"

definition Refine :: "ai_provider \<Rightarrow> string \<Rightarrow> result \<Rightarrow> ai_answer \<Rightarrow> result" where
  "Refine p domain current parsed =
     (let (v, score) =
        (if to_upper (trim_space (aiVerdict parsed)) = ''MALICIOUS'' then (VerdictMalicious, 85)
         else if to_upper (trim_space (aiVerdict parsed)) = ''SUSPICIOUS'' then (VerdictSuspicious, 55)
         else (VerdictSafe, 0));
          category = to_lower (trim_space (aiCategory parsed))
      in \<lparr>aDomain = aDomain current, aVerdict = v,
          aConfidence = (if aiConfidence parsed < 0 then 0 else if aiConfidence parsed > 1 then 1 else aiConfidence parsed),
          aScore = score,
          aReasons = (if aiReason parsed \<noteq> [] then [ai_reason_prefix p @ aiReason parsed] else []),
          aCategory = (if category \<noteq> [] \<and> category \<noteq> ''uncategorized'' then category else ClassifyCategory domain)\<rparr>)"

section \<open>State\<close>

record evidence =
  evDomain :: string
  evSourceURL :: string
  evSourceTitle :: string
  evSourceType :: string
  evConfidence :: rat
  evMatchedTerms :: "string list"
  evRetrievedAt :: string

record report =
  rpDomain :: string
  rpCacheHit :: bool
  rpCheckedAt :: stamp
  rpExpiresAt :: stamp
  rpShouldBlock :: bool
  rpEvidence :: "evidence list"

definition no_report :: report where
  "no_report = \<lparr>rpDomain = [], rpCacheHit = False, rpCheckedAt = NoStamp, rpExpiresAt = NoStamp,
     rpShouldBlock = False, rpEvidence = []\<rparr>"

record engines =
  en_libs :: libs
  en_sha256 :: "string \<Rightarrow> string"
  en_heuristics :: "string \<Rightarrow> int \<times> string list"
  en_heuristics_local :: "string \<Rightarrow> int \<times> string list"
  en_brands :: "brand list"
  en_classify :: "string \<Rightarrow> ml_decision option"
  en_ai :: "(ai_provider \<times> (result \<Rightarrow> ai_answer option)) option"
  en_osint_enabled :: bool
  en_osint_cached :: "string \<Rightarrow> report option"
  en_osint_lookup :: "string \<Rightarrow> bool \<Rightarrow> report"
  en_unix :: int
  en_micros :: int
  en_assessed :: int
  en_queued :: int
  en_expiry :: int
  en_cancelled :: bool
  en_wl_cancelled :: "nat \<Rightarrow> bool"
  en_fault :: g_fault
  en_decision_id :: string

text \<open>Evaluation layers of a trace, as the strings the API shows.\<close>

record assessment =
  asCoverage :: string
  asEvaluated :: "string list"
  asSkipped :: "string list"
  asFeed :: "feed_scope option"

record policy_decision =
  pdAction :: string
  pdKind :: string
  pdCategory :: string
  pdReason :: string
  pdSource :: string
  pdAssessmentMode :: string
  pdMatchedRule :: string
  pdMatchType :: string
  pdSourceID :: string
  pdExceptionID :: string

datatype policy_semantics = PolicySemanticsSeparated | PolicySemanticsLegacy

record adblock_engine =
  adblockEnabled :: bool
  adblockTrie :: "trie option"
  adblockMatchMode :: string
  adblockSemantics :: policy_semantics
  adblockExceptions :: "exc_snapshot option"
  adblockExcMatches :: nat
  adblockShadowExactEnabled :: bool
  adblockShadowStillBlock :: nat
  adblockShadowWouldAllow :: nat
  adblockShadowPreserved :: nat
  adblockShadowUnavailable :: nat
  adblockShadowExcOverlap :: nat

record client_info =
  ciIP :: string
  ciClientID :: string

record telemetry_entry =
  teResult :: result
  teCacheHit :: bool
  teSource :: string
  tePolicyAction :: string
  tePolicyCategory :: string
  teDecisionID :: string
  teTrace :: assessment
  teClient :: client_info

record lookup_counters =
  lcFailures :: nat
  lcConsecutive :: nat
  lcLastFailure :: int
  lcLastSuccess :: int

text \<open>The fields of the service that the request paths read or write.\<close>

record risk_service =
  sv_redis :: redis_server
  sv_feedRevisionKey :: string
  sv_configRevision :: string
  sv_ml :: ml_engine
  sv_feed :: feed_engine
  sv_enrich :: enrich_state
  sv_ttlAllowed :: int
  sv_ttlSuspicious :: int
  sv_ttlBlocked :: int
  sv_tables :: "group_tables option"
  sv_cidr :: cidr_index
  sv_evidence :: "(string \<times> stamp \<times> evidence list) list"
  sv_whitelist :: whitelist
  sv_semantics :: policy_semantics
  sv_adblock :: adblock_engine
  sv_groups :: lookup_counters
  sv_overrides :: lookup_counters
  sv_telemetry :: "telemetry_entry list"

section \<open>Traces\<close>

definition skippedLayer :: "string \<Rightarrow> string \<Rightarrow> string" where
  "skippedLayer layer reason = (if reason = [] then layer else layer @ '':'' @ reason)"

definition LayerIdentity :: string where "LayerIdentity = ''identity''"

definition LayerOverride :: string where "LayerOverride = ''override''"

definition LayerWhitelist :: string where "LayerWhitelist = ''whitelist''"

definition LayerAdblock :: string where "LayerAdblock = ''adblock''"

definition LayerContentPolicy :: string where "LayerContentPolicy = ''content_policy''"

definition LayerThreatFeed :: string where "LayerThreatFeed = ''threat_feed''"

definition LayerLexical :: string where "LayerLexical = ''lexical''"

definition LayerLexicalLocal :: string where "LayerLexicalLocal = ''lexical_local''"

definition LayerDomainML :: string where "LayerDomainML = ''domain_ml''"

definition LayerAIRefine :: string where "LayerAIRefine = ''ai_refine''"

definition LayerEnrichment :: string where "LayerEnrichment = ''enrichment''"

definition LayerOSINT :: string where "LayerOSINT = ''osint''"

definition LayerGroupPolicy :: string where "LayerGroupPolicy = ''group_policy''"

definition LayerResultCache :: string where "LayerResultCache = ''result_cache''"

definition LayerWebsite :: string where "LayerWebsite = ''website_content''"

lemmas layer_defs =
  LayerIdentity_def LayerOverride_def LayerWhitelist_def LayerAdblock_def LayerContentPolicy_def
  LayerThreatFeed_def LayerLexical_def LayerLexicalLocal_def LayerDomainML_def LayerAIRefine_def
  LayerEnrichment_def LayerOSINT_def LayerGroupPolicy_def LayerResultCache_def LayerWebsite_def

definition newDomainAssessment :: assessment where
  "newDomainAssessment =
     \<lparr>asCoverage = ''domain_only'', asEvaluated = [], asSkipped = [skippedLayer LayerWebsite ''not_observed''],
      asFeed = None\<rparr>"

definition engineSkippedLayers :: "string list" where
  "engineSkippedLayers =
     [LayerThreatFeed, LayerLexical, LayerDomainML, LayerAIRefine, LayerEnrichment, LayerOSINT]"

definition evaluated :: "string list \<Rightarrow> assessment \<Rightarrow> assessment" where
  "evaluated ls a = a\<lparr>asEvaluated := asEvaluated a @ ls\<rparr>"

definition skipped :: "string list \<Rightarrow> assessment \<Rightarrow> assessment" where
  "skipped ls a = a\<lparr>asSkipped := asSkipped a @ ls\<rparr>"

definition assessedLayer :: "string list \<Rightarrow> string \<Rightarrow> bool" where
  "assessedLayer layers layer = list_ex (\<lambda>l. l = layer) layers"

section \<open>AI refinement\<close>

definition analyzeLexical :: "engines \<Rightarrow> string \<Rightarrow> result" where
  "analyzeLexical E domain = analyzeWithBrands (en_libs E) (en_heuristics E) domain"

definition analyzeLexicalLocal :: "engines \<Rightarrow> string \<Rightarrow> result" where
  "analyzeLexicalLocal E domain = analyzeWithBrands (en_libs E) (en_heuristics_local E) domain"

definition refineWithAI :: "engines \<Rightarrow> result \<Rightarrow> result" where
  "refineWithAI E current =
     (if aVerdict current \<noteq> VerdictSuspicious then current
      else case en_ai E of
        None \<Rightarrow> current
      | Some (provider, ask) \<Rightarrow>
          (case map_option (Refine provider (aDomain current) current) (ask current) of
             None \<Rightarrow> current
           | Some ai \<Rightarrow>
               if aVerdict ai \<noteq> VerdictMalicious
               then current\<lparr>aReasons := aReasons current @ aReasons ai\<rparr>
               else current\<lparr>aVerdict := VerdictMalicious,
                      aScore := (if aScore ai > aScore current then aScore ai else aScore current),
                      aConfidence := (if aConfidence ai > aConfidence current then aConfidence ai else aConfidence current),
                      aReasons := aReasons current @ aReasons ai\<rparr>))"

section \<open>OSINT\<close>

datatype osint_mode = osintLookupNone | osintLookupCachedOnly | osintLookupOnDemand

definition sensitiveDomainTerms :: "string list" where
  "sensitiveDomainTerms =
     [''dichvucong'', ''congdichvu'', ''nganhang'', ''bank'', ''thuethunhap'', ''thue'',
      ''baohiem'', ''bhxh'', ''congan'', ''police'', ''dvc'', ''vneid'', ''govvn'']"

definition isGovVN :: "string \<Rightarrow> bool" where
  "isGovVN domain \<longleftrightarrow> domain = ''gov.vn'' \<or> has_suffix domain ''.gov.vn''"

definition ShouldLookup :: "libs \<Rightarrow> string \<Rightarrow> result \<Rightarrow> bool" where
  "ShouldLookup L domain res =
     (case NormalizeDomain L domain of
        Inl e \<Rightarrow> False
      | Inr normalized \<Rightarrow>
          if isGovVN normalized then False
          else if list_ex (\<lambda>term. contains normalized term) sensitiveDomainTerms then True
          else aVerdict res = VerdictSuspicious \<or> aScore res \<ge> 35)"

definition containsReason :: "string list \<Rightarrow> string \<Rightarrow> bool" where
  "containsReason reasons needle = list_ex (\<lambda>reason. contains reason needle) reasons"

definition Apply :: "result \<Rightarrow> report \<Rightarrow> result" where
  "Apply res rp =
     (if \<not> rpShouldBlock rp then res
      else res\<lparr>aScore := (if aScore res < 90 then 90 else aScore res), aVerdict := VerdictMalicious,
             aConfidence := (if aConfidence res < 92 / 100 then 92 / 100 else aConfidence res),
             aCategory := ''phishing'',
             aReasons := (if containsReason (aReasons res) ''public warning evidence'' then aReasons res
               else aReasons res @ [''public warning evidence: official/trusted source reports phishing''])\<rparr>)"

definition recordOSINTEvidence :: "engines \<Rightarrow> report \<Rightarrow> risk_service \<Rightarrow> risk_service" where
  "recordOSINTEvidence E rp s =
     (if (case sv_tables s of None \<Rightarrow> True | Some T \<Rightarrow> \<not> gt_enabled T) \<or> rpEvidence rp = [] then s
      else s\<lparr>sv_evidence := sv_evidence s @
        [(rpDomain rp, (if rpExpiresAt rp = NoStamp then At (en_expiry E) else rpExpiresAt rp), rpEvidence rp)]\<rparr>)"

definition lookupOSINT ::
  "engines \<Rightarrow> string \<Rightarrow> result \<Rightarrow> osint_mode \<Rightarrow> bool \<Rightarrow> risk_service \<Rightarrow> report \<times> risk_service" where
  "lookupOSINT E domain res mode force s =
     (if \<not> en_osint_enabled E \<or> mode = osintLookupNone then (no_report, s)
      else if \<not> force \<and> \<not> ShouldLookup (en_libs E) domain res then (no_report, s)
      else case mode of
        osintLookupCachedOnly \<Rightarrow>
          (case en_osint_cached E domain of
             None \<Rightarrow> (no_report, s)
           | Some rp \<Rightarrow> (rp\<lparr>rpCacheHit := True\<rparr>, s))
      | osintLookupOnDemand \<Rightarrow>
          (let rp = en_osint_lookup E domain force in (rp, recordOSINTEvidence E rp s))
      | osintLookupNone \<Rightarrow> (no_report, s))"

definition ttlFor :: "risk_service \<Rightarrow> verdict \<Rightarrow> int" where
  "ttlFor s v =
     (case v of VerdictMalicious \<Rightarrow> sv_ttlBlocked s | VerdictSuspicious \<Rightarrow> sv_ttlSuspicious s
      | _ \<Rightarrow> sv_ttlAllowed s)"

definition write_entry :: "string \<Rightarrow> analysis_entry \<Rightarrow> int \<Rightarrow> risk_service \<Rightarrow> risk_service" where
  "write_entry key entry ttl s = s\<lparr>sv_redis := snd (SetJSON key entry ttl (sv_redis s))\<rparr>"

definition applyOSINT :: "engines \<Rightarrow> string \<Rightarrow> result \<Rightarrow> report \<Rightarrow> string \<Rightarrow> risk_service \<Rightarrow> result \<times> risk_service" where
  "applyOSINT E domain res rp feedRevision s =
     (if \<not> rpShouldBlock rp then (res, s)
      else
        (let updated = Apply res rp in
         if aVerdict updated = aVerdict res \<and> aScore updated = aScore res then (updated, s)
         else
           (let modelRevision = currentMLPolicyRevision (en_sha256 E) (sv_ml s) in
            (updated,
             write_entry (analysisCacheKey domain modelRevision)
               \<lparr>ceResult = updated, ceFeedRevision = feedRevision,
                ceBrandRevision = fst (currentBrandRevision (sv_redis s)),
                ceAnalysisRevision = analysisAlgorithmRevision, ceConfigRevision = sv_configRevision s,
                ceModelRevision = modelRevision, ceOSINTCheckedAt = rpCheckedAt rp,
                ceEnrichedAt = NoStamp, ceAssessedAt = At (en_assessed E)\<rparr>
               (ttlFor s (aVerdict updated)) s))))"

section \<open>The pipeline\<close>

definition current_epoch :: "engines \<Rightarrow> risk_service \<Rightarrow> cache_epoch" where
  "current_epoch E s =
     (let (feedRevision, feedKnown) = currentFeedRevision (sv_redis s) (sv_feedRevisionKey s);
          (brandRevision, brandKnown) = currentBrandRevision (sv_redis s)
      in \<lparr>epAnalysisRevision = analysisAlgorithmRevision, epConfigRevision = sv_configRevision s,
          epModelRevision = currentMLPolicyRevision (en_sha256 E) (sv_ml s),
          epFeedRevision = feedRevision, epFeedKnown = feedKnown,
          epBrandRevision = brandRevision, epBrandKnown = brandKnown\<rparr>)"

text \<open>A read error and an entry of another epoch are both a miss.\<close>

definition cache_lookup :: "redis_server \<Rightarrow> string \<Rightarrow> cache_epoch \<Rightarrow> analysis_entry option" where
  "cache_lookup r key ep =
     (case GetJSON r key of
        Inr (Some entry) \<Rightarrow> if entryMatchesRevision entry ep then Some entry else None
      | _ \<Rightarrow> None)"

definition enqueue_job :: "engines \<Rightarrow> enrichment_job \<Rightarrow> risk_service \<Rightarrow> risk_service" where
  "enqueue_job E job s = s\<lparr>sv_enrich := enqueueEnrichment (en_cancelled E) job (sv_enrich s)\<rparr>"

definition analyze_cached ::
  "engines \<Rightarrow> string \<Rightarrow> osint_mode \<Rightarrow> bool \<Rightarrow> analysis_entry \<Rightarrow> string \<Rightarrow> risk_service \<Rightarrow>
   (result \<times> bool \<times> evidence list \<times> assessment) \<times> risk_service" where
  "analyze_cached E normalized mode force entry feedRevision s =
     (let cached = ceResult entry;
          assess = skipped [LayerThreatFeed, LayerLexical, LayerDomainML, LayerAIRefine]
            (evaluated [LayerResultCache] newDomainAssessment);
          assess = (if mode = osintLookupOnDemand then evaluated [LayerOSINT] assess
                    else skipped [skippedLayer LayerOSINT ''cache_only''] assess);
          (rp, s) = lookupOSINT E normalized cached mode force s;
          (updated, s) = applyOSINT E normalized cached rp feedRevision s;
          s = (if shouldEnqueueEnrichment updated \<and> cachedEntryNeedsEnrichment entry
               then enqueue_job E
                 \<lparr>ejDomain = normalized, ejResult = updated, ejFeedRevision = ceFeedRevision entry,
                  ejBrandRevision = ceBrandRevision entry, ejConfigRevision = ceConfigRevision entry,
                  ejModelRevision = ceModelRevision entry, ejQueuedAt = At (en_queued E)\<rparr> s
               else s)
      in ((updated, True, rpEvidence rp, assess), s))"

text \<open>Threat feed, then the lexical analyzer on a miss.\<close>

definition stage_evidence ::
  "engines \<Rightarrow> string \<Rightarrow> risk_service \<Rightarrow> (result \<times> assessment) \<times> risk_service" where
  "stage_evidence E normalized s =
     (let ((res, scope), fe) = feedResult (sv_redis s) (en_unix E) normalized (en_brands E) (sv_feed s);
          s = s\<lparr>sv_feed := fe\<rparr>;
          feedHit = (aDomain res \<noteq> []);
          assess = evaluated [LayerThreatFeed] newDomainAssessment;
          assess = (if feedHit \<or> fs_TrustBypassed scope then assess\<lparr>asFeed := Some scope\<rparr> else assess)
      in if \<not> feedHit then ((analyzeLexical E normalized, evaluated [LayerLexical] assess), s)
         else ((res, skipped [LayerLexical] assess), s))"

text \<open>ML promotion, then AI refinement unless the model promoted; the flag says that AI contributed.\<close>

definition stage_models ::
  "engines \<Rightarrow> result \<Rightarrow> assessment \<Rightarrow> risk_service \<Rightarrow> (result \<times> bool \<times> assessment) \<times> risk_service" where
  "stage_models E res assess s =
     (if aVerdict res \<noteq> VerdictSuspicious
      then ((res, False, skipped [LayerDomainML, LayerAIRefine] assess), s)
      else
        (let assess = evaluated [LayerDomainML] assess;
             ((res, mlPromoted), ml) =
               classifyML (en_libs E) (en_sha256 E) (en_classify E) (en_micros E) res (sv_ml s)
         in if mlPromoted then ((res, False, assess), s\<lparr>sv_ml := ml\<rparr>)
            else
              (let refined = refineWithAI E res;
                   contributed = (aVerdict refined \<noteq> aVerdict res \<or> length (aReasons refined) > length (aReasons res));
                   ml = (if mlMode ml \<noteq> MLModeDisabled \<and> mlEnabled ml
                         then ml\<lparr>mlTelemetry := (mlTelemetry ml)\<lparr>fallbacks := fallbacks (mlTelemetry ml) + 1\<rparr>\<rparr> else ml)
               in ((refined, contributed, evaluated [LayerAIRefine] assess), s\<lparr>sv_ml := ml\<rparr>))))"

definition negativeCacheTTL :: int where
  "negativeCacheTTL = 2 * 60 * 1000000000"

definition analyze_fresh ::
  "engines \<Rightarrow> string \<Rightarrow> osint_mode \<Rightarrow> bool \<Rightarrow> cache_epoch \<Rightarrow> risk_service \<Rightarrow>
   (result \<times> bool \<times> evidence list \<times> assessment) \<times> risk_service" where
  "analyze_fresh E normalized mode force ep s =
     (let ((res, assess), s) = stage_evidence E normalized s;
          ((res, aiContributed, assess), s) = stage_models E res assess s;
          assess = (if mode = osintLookupOnDemand then evaluated [LayerOSINT] assess
                    else skipped [skippedLayer LayerOSINT ''cache_only''] assess);
          (rp, s) = lookupOSINT E normalized res mode force s;
          (res, s) = applyOSINT E normalized res rp (epFeedRevision ep) s;
          ttl = (if \<not> aiContributed \<and> aVerdict res = VerdictSuspicious then negativeCacheTTL
                 else ttlFor s (aVerdict res));
          s = write_entry (analysisCacheKey normalized (epModelRevision ep))
            \<lparr>ceResult = res, ceFeedRevision = epFeedRevision ep, ceBrandRevision = epBrandRevision ep,
             ceAnalysisRevision = analysisAlgorithmRevision, ceConfigRevision = epConfigRevision ep,
             ceModelRevision = epModelRevision ep, ceOSINTCheckedAt = NoStamp, ceEnrichedAt = NoStamp,
             ceAssessedAt = NoStamp\<rparr> ttl s
      in if shouldEnqueueEnrichment res
         then ((res, False, rpEvidence rp, skipped [skippedLayer LayerEnrichment ''async_background''] assess),
               enqueue_job E
                 \<lparr>ejDomain = normalized, ejResult = res, ejFeedRevision = epFeedRevision ep,
                  ejBrandRevision = epBrandRevision ep, ejConfigRevision = epConfigRevision ep,
                  ejModelRevision = epModelRevision ep, ejQueuedAt = At (en_queued E)\<rparr> s)
         else ((res, False, rpEvidence rp, skipped [skippedLayer LayerEnrichment ''score_out_of_range''] assess), s))"

definition analyze ::
  "engines \<Rightarrow> string \<Rightarrow> osint_mode \<Rightarrow> bool \<Rightarrow> risk_service \<Rightarrow>
   (result \<times> bool \<times> evidence list \<times> assessment) \<times> risk_service" where
  "analyze E domain mode force s =
     (case NormalizeDomain (en_libs E) domain of
        Inl e \<Rightarrow> ((analyzeLexical E domain, False, [], newDomainAssessment), s)
      | Inr normalized \<Rightarrow>
          (let ep = current_epoch E s in
           case cache_lookup (sv_redis s) (analysisCacheKey normalized (epModelRevision ep)) ep of
             Some entry \<Rightarrow> analyze_cached E normalized mode force entry (epFeedRevision ep) s
           | None \<Rightarrow> analyze_fresh E normalized mode force ep s))"

end
