(* ===== verification/PolicyEngine.thy ===== *)
theory PolicyEngine
  imports Pipeline
begin

text \<open>
  The decision of a request: \<^verbatim>\<open>Policy\<close> of \<^verbatim>\<open>internal/risk/policy.go\<close>, the decisions of
  \<^verbatim>\<open>policy_decision.go\<close>, the administrative layers and \<^verbatim>\<open>AnalyzeWithOptions\<close> of
  \<^verbatim>\<open>analysis_pipeline.go\<close>, the override read of \<^verbatim>\<open>admin.go\<close>, the shadow observation of
  \<^verbatim>\<open>adblock_shadow.go\<close> and the telemetry row of \<^verbatim>\<open>telemetry.go\<close>. The store is absent (a nil
  pointer), or its tables.
\<close>

section \<open>Decisions\<close>

definition NormalizePolicySemantics :: "string \<Rightarrow> policy_semantics" where
  "NormalizePolicySemantics value =
     (if to_lower (trim_space value) = ''legacy'' then PolicySemanticsLegacy else PolicySemanticsSeparated)"

definition no_decision :: policy_decision where
  "no_decision = \<lparr>pdAction = [], pdKind = [], pdCategory = [], pdReason = [], pdSource = [],
     pdAssessmentMode = [], pdMatchedRule = [], pdMatchType = [], pdSourceID = [], pdExceptionID = []\<rparr>"

definition rule_category :: "rule \<Rightarrow> string" where
  "rule_category r = (if IsValidRuleCategory (rCategory r) then rCategory r else DefaultRuleCategory)"

definition adblockDecision :: "string \<Rightarrow> rule \<Rightarrow> policy_decision" where
  "adblockDecision assessmentMode r =
     no_decision\<lparr>pdAction := ''block'', pdKind := ''content'', pdCategory := rule_category r,
       pdReason := ''adblock_match'', pdSource := ''adblock'', pdAssessmentMode := assessmentMode,
       pdMatchedRule := rDomain r, pdMatchType := rScope r, pdSourceID := rSourceID r\<rparr>"

definition adblockExceptionDecision :: "rule \<Rightarrow> string \<Rightarrow> policy_decision" where
  "adblockExceptionDecision r exceptionID =
     no_decision\<lparr>pdAction := ''allow'', pdKind := ''content'', pdCategory := rule_category r,
       pdReason := ''adblock_exception'', pdSource := ''adblock'',
       pdAssessmentMode := ''full_security_pipeline'', pdMatchedRule := rDomain r,
       pdMatchType := rScope r, pdSourceID := rSourceID r, pdExceptionID := exceptionID\<rparr>"

definition adminPolicyDecision :: "string \<Rightarrow> policy_decision" where
  "adminPolicyDecision action =
     no_decision\<lparr>pdAction := action, pdKind := ''admin'', pdCategory := ''custom'',
       pdReason := ''admin_override'', pdSource := ''override''\<rparr>"

definition allowlistPolicyDecision :: policy_decision where
  "allowlistPolicyDecision =
     no_decision\<lparr>pdAction := ''allow'', pdKind := ''allowlist'', pdCategory := ''custom'',
       pdReason := ''whitelisted'', pdSource := ''whitelist''\<rparr>"

definition legacyPolicyDecision :: policy_decision where
  "legacyPolicyDecision =
     no_decision\<lparr>pdAction := ''block'', pdKind := ''content'', pdCategory := ''unknown'',
       pdReason := ''legacy_policy_fused'', pdSource := ''adblock'',
       pdAssessmentMode := ''legacy_fused_policy''\<rparr>"

section \<open>Shadow observation\<close>

datatype shadow_outcome = shadowExactStillBlock | shadowExactWouldAllow | shadowExactPreserved | shadowExactUnavailable

definition classifyShadowExactOutcome :: "rule \<Rightarrow> bool \<Rightarrow> shadow_outcome" where
  "classifyShadowExactOutcome r queryIsApex =
     (case rOrigin r of
        OriginGlobalDefault \<Rightarrow> if queryIsApex then shadowExactStillBlock else shadowExactWouldAllow
      | OriginSourcePolicyExact \<Rightarrow> shadowExactPreserved
      | OriginSourcePolicySuffix \<Rightarrow> shadowExactPreserved
      | OriginWildcard \<Rightarrow> shadowExactPreserved
      | _ \<Rightarrow> shadowExactUnavailable)"

definition shadowExactActive :: "adblock_engine \<Rightarrow> bool" where
  "shadowExactActive e =
     (if \<not> adblockShadowExactEnabled e then False
      else if adblockSemantics e \<noteq> PolicySemanticsSeparated then False
      else adblockMatchMode e = ''suffix'')"

definition observeShadowExact :: "match_detail \<Rightarrow> bool \<Rightarrow> adblock_engine \<Rightarrow> adblock_engine" where
  "observeShadowExact detail exceptionMatched e =
     (if \<not> shadowExactActive e \<or> \<not> mdMatched detail then e
      else
        (let queryIsApex = (mdQuery detail \<noteq> [] \<and> mdQuery detail = rDomain (mdRule detail));
             e = (case classifyShadowExactOutcome (mdRule detail) queryIsApex of
                    shadowExactStillBlock \<Rightarrow> e\<lparr>adblockShadowStillBlock := adblockShadowStillBlock e + 1\<rparr>
                  | shadowExactWouldAllow \<Rightarrow> e\<lparr>adblockShadowWouldAllow := adblockShadowWouldAllow e + 1\<rparr>
                  | shadowExactPreserved \<Rightarrow> e\<lparr>adblockShadowPreserved := adblockShadowPreserved e + 1\<rparr>
                  | shadowExactUnavailable \<Rightarrow> e\<lparr>adblockShadowUnavailable := adblockShadowUnavailable e + 1\<rparr>)
         in if exceptionMatched then e\<lparr>adblockShadowExcOverlap := adblockShadowExcOverlap e + 1\<rparr> else e))"

definition shadow_observations :: "adblock_engine \<Rightarrow> nat" where
  "shadow_observations e =
     adblockShadowStillBlock e + adblockShadowWouldAllow e + adblockShadowPreserved e + adblockShadowUnavailable e"

section \<open>Telemetry\<close>

definition inferSource :: "result \<Rightarrow> bool \<Rightarrow> string" where
  "inferSource res cacheHit =
     (if cacheHit then ''cache''
      else case find (\<lambda>r. has_prefix r ''admin override'' \<or> r = ''whitelisted'' \<or> r = threatFeedReason \<or> r = ''adblock'')
             (aReasons res) of
        None \<Rightarrow> ''lexical''
      | Some r \<Rightarrow>
          if has_prefix r ''admin override'' then ''override''
          else if r = ''whitelisted'' then ''whitelist''
          else if r = threatFeedReason then ''feed'' else ''adblock'')"

definition recordTelemetryWithSource ::
  "result \<Rightarrow> bool \<Rightarrow> policy_decision option \<Rightarrow> string \<Rightarrow> assessment \<Rightarrow> client_info \<Rightarrow> string \<Rightarrow> risk_service \<Rightarrow> risk_service" where
  "recordTelemetryWithSource res cacheHit decision decisionID assess client source s =
     (case sv_tables s of
        None \<Rightarrow> s
      | Some T \<Rightarrow>
          if \<not> gt_enabled T then s
          else s\<lparr>sv_telemetry := sv_telemetry s @
            [\<lparr>teResult = res, teCacheHit = cacheHit,
              teSource = (if source = [] then inferSource res cacheHit else source),
              tePolicyAction = (case decision of None \<Rightarrow> [] | Some d \<Rightarrow> pdAction d),
              tePolicyCategory = (case decision of None \<Rightarrow> [] | Some d \<Rightarrow> pdCategory d),
              teDecisionID = decisionID, teTrace = assess, teClient = client\<rparr>]\<rparr>)"

definition recordTelemetry ::
  "result \<Rightarrow> bool \<Rightarrow> policy_decision option \<Rightarrow> string \<Rightarrow> assessment \<Rightarrow> client_info \<Rightarrow> risk_service \<Rightarrow> risk_service" where
  "recordTelemetry res cacheHit decision decisionID assess client s =
     recordTelemetryWithSource res cacheHit decision decisionID assess client [] s"

section \<open>Administrative layers\<close>

definition record_failure :: "int \<Rightarrow> lookup_counters \<Rightarrow> lookup_counters" where
  "record_failure now c =
     c\<lparr>lcFailures := lcFailures c + 1, lcConsecutive := lcConsecutive c + 1, lcLastFailure := now\<rparr>"

definition record_success :: "int \<Rightarrow> lookup_counters \<Rightarrow> lookup_counters" where
  "record_success now c = (if lcConsecutive c > 0 then c\<lparr>lcConsecutive := 0, lcLastSuccess := now\<rparr> else c)"

definition default_group :: client_group where
  "default_group = \<lparr>cg_id = 1, cg_name = ''default'', cg_description = [], BlockCategories = [],
     StrictPhishing = False, StrictMalware = True\<rparr>"

definition resolveClientGroup :: "engines \<Rightarrow> client_info \<Rightarrow> risk_service \<Rightarrow> client_group \<times> risk_service" where
  "resolveClientGroup E client s =
     (case sv_tables s of
        None \<Rightarrow> (default_group, s)
      | Some T \<Rightarrow>
          if \<not> gt_enabled T then (default_group, s)
          else case GetGroupForClient (en_fault E) T (sv_cidr s) (ciIP client) (ciClientID client) False of
            Inl e \<Rightarrow> (default_group, s\<lparr>sv_groups := record_failure (en_unix E) (sv_groups s)\<rparr>)
          | Inr g \<Rightarrow> (g, s\<lparr>sv_groups := record_success (en_unix E) (sv_groups s)\<rparr>))"

definition lookupEffectiveOverride ::
  "engines \<Rightarrow> group_tables \<Rightarrow> int \<Rightarrow> string \<Rightarrow> risk_service \<Rightarrow> override option \<times> risk_service" where
  "lookupEffectiveOverride E T groupID domain s =
     (case GetEffectiveOverride (en_libs E) (en_fault E) T groupID domain of
        Inl e \<Rightarrow> (None, s\<lparr>sv_overrides := record_failure (en_unix E) (sv_overrides s)\<rparr>)
      | Inr found \<Rightarrow> (found, s\<lparr>sv_overrides := record_success (en_unix E) (sv_overrides s)\<rparr>))"

definition override_result :: "string \<Rightarrow> override \<Rightarrow> result" where
  "override_result normalized ov =
     \<lparr>aDomain = normalized,
      aVerdict = (if ov_action ov = ''block'' then VerdictMalicious else VerdictSafe),
      aConfidence = 1, aScore = (if ov_action ov = ''block'' then 100 else 0),
      aReasons = [''admin override: '' @ ov_action ov @
        (if ov_reason ov \<noteq> [] then '' ('' @ ov_reason ov @ '')'' else [])],
      aCategory = ClassifyCategory normalized\<rparr>"

definition resolveOverride ::
  "engines \<Rightarrow> client_group \<Rightarrow> string \<Rightarrow> risk_service \<Rightarrow> (result \<times> policy_decision) option \<times> risk_service" where
  "resolveOverride E grp normalized s =
     (case sv_tables s of
        None \<Rightarrow> (None, s)
      | Some T \<Rightarrow>
          if \<not> gt_enabled T then (None, s)
          else case lookupEffectiveOverride E T (cg_id grp) normalized s of
            (None, s) \<Rightarrow> (None, s)
          | (Some ov, s) \<Rightarrow> (Some (override_result normalized ov, adminPolicyDecision (ov_action ov)), s))"

definition whitelist_result :: "string \<Rightarrow> result" where
  "whitelist_result normalized =
     \<lparr>aDomain = normalized, aVerdict = VerdictSafe, aConfidence = 1, aScore = 0,
      aReasons = [''whitelisted''], aCategory = ''uncategorized''\<rparr>"

definition resolveWhitelist :: "engines \<Rightarrow> string \<Rightarrow> risk_service \<Rightarrow> (result \<times> policy_decision) option" where
  "resolveWhitelist E normalized s =
     (if \<not> IsAllowed (en_libs E) (sv_whitelist s) (en_wl_cancelled E) normalized then None
      else Some (whitelist_result normalized, allowlistPolicyDecision))"

section \<open>Group enforcement\<close>

definition is_phishing :: "result \<Rightarrow> bool" where
  "is_phishing res = list_ex (\<lambda>r. contains (to_lower r) ''phishing'') (aReasons res)"

definition blocked_category :: "client_group \<Rightarrow> result \<Rightarrow> bool" where
  "blocked_category grp res =
     (BlockCategories grp \<noteq> [] \<and> aCategory res \<noteq> [] \<and> aCategory res \<noteq> ''uncategorized'' \<and>
      list_ex (\<lambda>c. equal_fold (trim_space c) (aCategory res)) (BlockCategories grp))"

definition group_policy :: "client_group \<Rightarrow> result \<Rightarrow> string" where
  "group_policy grp res =
     (let policy = ''allow'';
          policy = (if aVerdict res = VerdictMalicious \<and> StrictMalware grp then ''block'' else policy);
          policy = (if StrictPhishing grp then
                      (if aScore res \<ge> 40 \<and> (is_phishing res \<or> aCategory res = ''phishing'') then ''block'' else policy)
                    else policy)
      in if blocked_category grp res then ''block'' else policy)"

section \<open>Policy\<close>

record policy =
  plDomain :: string
  plPolicy :: string
  plResult :: result
  plDecision :: "policy_decision option"
  plCacheHit :: bool
  plDecisionID :: string
  plAssessment :: assessment

definition adblock_match :: "engines \<Rightarrow> adblock_engine \<Rightarrow> string \<Rightarrow> match_detail" where
  "adblock_match E e normalized =
     (if adblockEnabled e then
        (case adblockTrie e of None \<Rightarrow> no_match | Some t \<Rightarrow> MatchRuleDetail (en_libs E) t normalized)
      else no_match)"

text \<open>The answer for a name that is not a domain, and the short cuts of the first two layers.\<close>

definition invalid_policy :: "engines \<Rightarrow> string \<Rightarrow> policy" where
  "invalid_policy E domain =
     \<lparr>plDomain = domain, plPolicy = ''block'', plResult = analyzeLexical E domain, plDecision = None,
      plCacheHit = False, plDecisionID = en_decision_id E,
      plAssessment = skipped ([LayerOverride, LayerWhitelist, LayerAdblock, LayerGroupPolicy] @ engineSkippedLayers)
        (evaluated [LayerIdentity] newDomainAssessment)\<rparr>"

definition layer_policy ::
  "engines \<Rightarrow> string \<Rightarrow> string \<Rightarrow> result \<Rightarrow> policy_decision option \<Rightarrow> string list \<Rightarrow> string list \<Rightarrow> policy" where
  "layer_policy E normalized action res decision done_layers left_layers =
     \<lparr>plDomain = normalized, plPolicy = action, plResult = res, plDecision = decision,
      plCacheHit = False, plDecisionID = en_decision_id E,
      plAssessment = skipped left_layers (evaluated done_layers newDomainAssessment)\<rparr>"

definition record_policy :: "policy \<Rightarrow> policy_decision option \<Rightarrow> string \<Rightarrow> client_info \<Rightarrow> risk_service \<Rightarrow> risk_service" where
  "record_policy p decision source client s =
     recordTelemetryWithSource (plResult p) (plCacheHit p) decision (plDecisionID p) (plAssessment p) client source s"

definition legacy_result :: "string \<Rightarrow> result" where
  "legacy_result normalized =
     \<lparr>aDomain = normalized, aVerdict = VerdictMalicious, aConfidence = 1, aScore = 100,
      aReasons = [''adblock''], aCategory = ''adware''\<rparr>"

text \<open>Threat assessment and group enforcement; an exception that suppressed a match is only reported.\<close>

definition assessed_policy ::
  "engines \<Rightarrow> client_info \<Rightarrow> client_group \<Rightarrow> string \<Rightarrow> policy_decision option \<Rightarrow> risk_service \<Rightarrow> policy \<times> risk_service" where
  "assessed_policy E client grp normalized decision s =
     (let ((res, cacheHit, evs, engineAssess), s) = analyze E normalized osintLookupCachedOnly False s;
          p = \<lparr>plDomain = aDomain res, plPolicy = group_policy grp res, plResult = res,
               plDecision = decision, plCacheHit = cacheHit, plDecisionID = en_decision_id E,
               plAssessment = engineAssess\<lparr>asEvaluated :=
                 [LayerIdentity, LayerOverride, LayerWhitelist, LayerAdblock, LayerGroupPolicy] @
                 asEvaluated engineAssess\<rparr>\<rparr>
      in (p, record_policy p decision [] client s))"

definition content_policy ::
  "engines \<Rightarrow> client_info \<Rightarrow> client_group \<Rightarrow> string \<Rightarrow> risk_service \<Rightarrow> policy \<times> risk_service" where
  "content_policy E client grp normalized s =
     (let detail = adblock_match E (sv_adblock s) normalized in
      if \<not> mdMatched detail then assessed_policy E client grp normalized None s
      else if sv_semantics s = PolicySemanticsLegacy then
        (let p = layer_policy E normalized ''block'' (legacy_result normalized) None
                   [LayerIdentity, LayerOverride, LayerWhitelist, LayerAdblock]
                   ([LayerGroupPolicy] @ engineSkippedLayers @ [skippedLayer ''security_assessment'' ''legacy_policy_fused''])
         in (p, record_policy p (Some legacyPolicyDecision) [] client s))
      else
        (let exc = matchAdblockException (en_libs E) (adblockExceptions (sv_adblock s)) normalized (mdRule detail);
             ad = (if exc \<noteq> None then (sv_adblock s)\<lparr>adblockExcMatches := adblockExcMatches (sv_adblock s) + 1\<rparr>
                   else sv_adblock s);
             s = s\<lparr>sv_adblock := observeShadowExact detail (exc \<noteq> None) ad\<rparr>
         in case exc of
              None \<Rightarrow>
                (let decision = adblockDecision ''lexical_local_default_brands'' (mdRule detail);
                     p = layer_policy E normalized ''block'' (analyzeLexicalLocal E normalized) (Some decision)
                       [LayerIdentity, LayerOverride, LayerWhitelist, LayerAdblock, LayerLexicalLocal, LayerContentPolicy]
                       ([LayerGroupPolicy] @ engineSkippedLayers)
                 in (p, record_policy p (Some decision) ''adblock'' client s))
            | Some excID \<Rightarrow>
                assessed_policy E client grp normalized
                  (Some (adblockExceptionDecision (mdRule detail) excID)) s))"

definition Policy :: "engines \<Rightarrow> string \<Rightarrow> client_info \<Rightarrow> risk_service \<Rightarrow> policy \<times> risk_service" where
  "Policy E domain client s =
     (case NormalizeDomain (en_libs E) domain of
        Inl e \<Rightarrow> (invalid_policy E domain, s)
      | Inr normalized \<Rightarrow>
          (let (grp, s) = resolveClientGroup E client s;
               (override, s) = resolveOverride E grp normalized s
           in case override of
                Some (res, decision) \<Rightarrow>
                  (let p = layer_policy E normalized (pdAction decision) res (Some decision)
                             [LayerIdentity, LayerOverride]
                             ([LayerWhitelist, LayerAdblock, LayerGroupPolicy] @ engineSkippedLayers)
                   in (p, record_policy p (Some decision) [] client s))
              | None \<Rightarrow>
                  (case resolveWhitelist E normalized s of
                     Some (res, decision) \<Rightarrow>
                       (let p = layer_policy E normalized ''allow'' res (Some decision)
                                  [LayerIdentity, LayerOverride, LayerWhitelist]
                                  ([LayerAdblock, LayerGroupPolicy] @ engineSkippedLayers)
                        in (p, record_policy p (Some decision) [] client s))
                   | None \<Rightarrow> content_policy E client grp normalized s)))"

section \<open>Analyze\<close>

text \<open>
  \<^verbatim>\<open>AnalyzeWithOptions\<close> for a request without a URL: the layers run one after the other and each asks
  whether the result so far has a domain. The counters of the URL model are left out.
\<close>

record analysis =
  anResult :: result
  anCacheHit :: bool
  anEvidence :: "evidence list"
  anDecision :: "policy_decision option"
  anDecisionID :: string
  anAssessment :: assessment

definition try_override ::
  "engines \<Rightarrow> client_group \<Rightarrow> string \<Rightarrow> risk_service \<Rightarrow> (result \<times> policy_decision option \<times> assessment) \<times> risk_service" where
  "try_override E grp normalized s =
     (let assess = evaluated [LayerIdentity, LayerOverride] newDomainAssessment in
      case resolveOverride E grp normalized s of
        (None, s) \<Rightarrow> ((no_result, None, assess), s)
      | (Some (res, decision), s) \<Rightarrow>
          ((res, Some decision, skipped ([LayerWhitelist, LayerAdblock] @ engineSkippedLayers) assess), s))"

definition try_whitelist ::
  "engines \<Rightarrow> string \<Rightarrow> risk_service \<Rightarrow> result \<times> policy_decision option \<times> assessment \<Rightarrow>
   result \<times> policy_decision option \<times> assessment" where
  "try_whitelist E normalized s x = (case x of (res, decision, assess) \<Rightarrow>
     if aDomain res \<noteq> [] then x
     else case resolveWhitelist E normalized s of
       None \<Rightarrow> x
     | Some (r, d) \<Rightarrow>
         (r, Some d, skipped ([LayerAdblock] @ engineSkippedLayers) (evaluated [LayerWhitelist] assess)))"

definition try_adblock ::
  "engines \<Rightarrow> string \<Rightarrow> risk_service \<Rightarrow> result \<times> policy_decision option \<times> assessment \<Rightarrow>
   result \<times> policy_decision option \<times> assessment" where
  "try_adblock E normalized s x = (case x of (res, decision, assess) \<Rightarrow>
     if aDomain res \<noteq> [] then x
     else
       (let assess = evaluated [LayerWhitelist, LayerAdblock] assess; e = sv_adblock s in
        if adblockEnabled e \<and> (case adblockTrie e of None \<Rightarrow> False | Some t \<Rightarrow> Match (en_libs E) t normalized) \<and>
           sv_semantics s = PolicySemanticsLegacy
        then (legacy_result normalized, Some legacyPolicyDecision,
              skipped (engineSkippedLayers @ [skippedLayer ''security_assessment'' ''legacy_policy_fused'']) assess)
        else (res, decision, assess)))"

definition try_engine ::
  "engines \<Rightarrow> string \<Rightarrow> bool \<Rightarrow> risk_service \<Rightarrow> result \<times> policy_decision option \<times> assessment \<Rightarrow>
   (result \<times> bool \<times> evidence list \<times> policy_decision option \<times> assessment) \<times> risk_service" where
  "try_engine E normalized force s x = (case x of (res, decision, assess) \<Rightarrow>
     if aDomain res \<noteq> [] then ((res, False, [], decision, assess), s)
     else
       (let ((res, cacheHit, evs, engineAssess), s) = analyze E normalized osintLookupOnDemand force s in
        ((res, cacheHit, evs, decision,
          assess\<lparr>asEvaluated := [LayerIdentity, LayerOverride, LayerWhitelist, LayerAdblock] @ asEvaluated engineAssess,
                 asSkipped := asSkipped engineAssess, asFeed := asFeed engineAssess\<rparr>), s)))"

definition AnalyzeWithOptions ::
  "engines \<Rightarrow> string \<Rightarrow> client_info \<Rightarrow> bool \<Rightarrow> bool \<Rightarrow> risk_service \<Rightarrow> analysis \<times> risk_service" where
  "AnalyzeWithOptions E domain client includeEvidence force s =
     (let ((res, cacheHit, evs, decision, assess), s) =
        (case NormalizeDomain (en_libs E) domain of
           Inl e \<Rightarrow> ((analyzeLexical E domain, False, [], None,
               skipped ([LayerOverride, LayerWhitelist, LayerAdblock, LayerGroupPolicy] @ engineSkippedLayers)
                 (evaluated [LayerIdentity] newDomainAssessment)), s)
         | Inr normalized \<Rightarrow>
             (let (grp, s) = resolveClientGroup E client s;
                  (x, s) = try_override E grp normalized s
              in try_engine E normalized force s (try_adblock E normalized s (try_whitelist E normalized s x))));
          assess = skipped [skippedLayer ''url_ml'' ''no_url_context''] assess
      in (\<lparr>anResult = res, anCacheHit = cacheHit, anEvidence = (if includeEvidence then evs else []),
           anDecision = decision, anDecisionID = en_decision_id E, anAssessment = assess\<rparr>,
          recordTelemetry res cacheHit decision (en_decision_id E) assess client s))"

definition Analyze :: "engines \<Rightarrow> string \<Rightarrow> client_info \<Rightarrow> risk_service \<Rightarrow> analysis \<times> risk_service" where
  "Analyze E domain client s = AnalyzeWithOptions E domain client False False s"

end
