(* ===== verification/PolicyLaws.thy ===== *)
theory PolicyLaws
  imports PolicyEngine
begin

text \<open>
  Laws of the pipeline and of the decision engine: the engine does not read the administrative
  counters nor the content-policy state, every stage keeps the domain and the consistency of verdict
  and score, and how \<^const>\<open>Policy\<close> composes its layers.
\<close>

section \<open>The engine ignores the administrative state\<close>

definition admin_upd :: "lookup_counters \<Rightarrow> lookup_counters \<Rightarrow> adblock_engine \<Rightarrow> risk_service \<Rightarrow> risk_service" where
  "admin_upd g ov ad s = s\<lparr>sv_groups := g, sv_overrides := ov, sv_adblock := ad\<rparr>"

lemma admin_upd_simps [simp]:
  "sv_redis (admin_upd g ov ad s) = sv_redis s"
  "sv_feedRevisionKey (admin_upd g ov ad s) = sv_feedRevisionKey s"
  "sv_configRevision (admin_upd g ov ad s) = sv_configRevision s"
  "sv_ml (admin_upd g ov ad s) = sv_ml s"
  "sv_feed (admin_upd g ov ad s) = sv_feed s"
  "sv_enrich (admin_upd g ov ad s) = sv_enrich s"
  "sv_tables (admin_upd g ov ad s) = sv_tables s"
  "sv_whitelist (admin_upd g ov ad s) = sv_whitelist s"
  "sv_semantics (admin_upd g ov ad s) = sv_semantics s"
  "sv_adblock (admin_upd g ov ad s) = ad"
  "sv_groups (admin_upd g ov ad s) = g"
  "sv_overrides (admin_upd g ov ad s) = ov"
  "sv_evidence (admin_upd g ov ad s) = sv_evidence s"
  "sv_cidr (admin_upd g ov ad s) = sv_cidr s"
  "ttlFor (admin_upd g ov ad s) = ttlFor s"
  by (simp_all add: admin_upd_def ttlFor_def fun_eq_iff split: verdict.splits)

lemma stage_evidence_frame:
  "stage_evidence E n (admin_upd g ov ad s) = apsnd (admin_upd g ov ad) (stage_evidence E n s)"
  by (simp add: stage_evidence_def Let_def case_prod_unfold admin_upd_def)

lemma stage_models_frame:
  "stage_models E res a (admin_upd g ov ad s) = apsnd (admin_upd g ov ad) (stage_models E res a s)"
  by (simp add: stage_models_def Let_def case_prod_unfold admin_upd_def)

lemma recordOSINTEvidence_frame:
  "recordOSINTEvidence E rp (admin_upd g ov ad s) = admin_upd g ov ad (recordOSINTEvidence E rp s)"
  by (simp add: recordOSINTEvidence_def admin_upd_def split: option.splits)

lemma lookupOSINT_frame:
  "lookupOSINT E n res mode force (admin_upd g ov ad s) = apsnd (admin_upd g ov ad) (lookupOSINT E n res mode force s)"
  by (simp add: lookupOSINT_def Let_def recordOSINTEvidence_frame split: osint_mode.splits option.splits)

lemma write_entry_frame:
  "write_entry key entry ttl (admin_upd g ov ad s) = admin_upd g ov ad (write_entry key entry ttl s)"
  by (simp add: write_entry_def admin_upd_def)

lemma applyOSINT_frame:
  "applyOSINT E n res rp fr (admin_upd g ov ad s) = apsnd (admin_upd g ov ad) (applyOSINT E n res rp fr s)"
  by (simp add: applyOSINT_def Let_def write_entry_frame)

lemma enqueue_job_frame: "enqueue_job E job (admin_upd g ov ad s) = admin_upd g ov ad (enqueue_job E job s)"
  by (simp add: enqueue_job_def admin_upd_def)

lemmas frame_rules =
  stage_evidence_frame stage_models_frame lookupOSINT_frame applyOSINT_frame write_entry_frame enqueue_job_frame

lemma analyze_cached_frame:
  "analyze_cached E n mode force entry fr (admin_upd g ov ad s) =
     apsnd (admin_upd g ov ad) (analyze_cached E n mode force entry fr s)"
  by (simp add: analyze_cached_def Let_def case_prod_unfold frame_rules)

lemma analyze_fresh_frame:
  "analyze_fresh E n mode force ep (admin_upd g ov ad s) =
     apsnd (admin_upd g ov ad) (analyze_fresh E n mode force ep s)"
  by (simp add: analyze_fresh_def Let_def case_prod_unfold frame_rules)

lemma analyze_frame:
  "analyze E d mode force (admin_upd g ov ad s) = apsnd (admin_upd g ov ad) (analyze E d mode force s)"
proof -
  have "current_epoch E (admin_upd g ov ad s) = current_epoch E s"
    by (simp add: current_epoch_def)
  then show ?thesis
    by (simp add: analyze_def Let_def analyze_cached_frame analyze_fresh_frame split: sum.splits option.splits)
qed

section \<open>Verdict and score agree\<close>

text \<open>No stage calls a domain malicious with a score below 70.\<close>

definition verdict_ok :: "result \<Rightarrow> bool" where
  "verdict_ok res \<longleftrightarrow> (aVerdict res = VerdictMalicious \<longrightarrow> aScore res \<ge> 70)"

lemma verdict_ok_lexical: "verdict_ok (analyzeLexical E d)"
  by (simp add: verdict_ok_def analyzeLexical_def analyzeWithBrands_def lexical_result_def Let_def case_prod_unfold
      split: sum.splits)

lemma verdict_ok_feed: "verdict_ok (fst (fst (feedResult r now d brands fe)))"
  by (simp add: feedResult_def Let_def verdict_ok_def no_result_def threatFeedHit_def sharedApexFeedHit_def
      split: sum.splits)

lemma verdict_ok_classify:
  "verdict_ok res \<Longrightarrow> verdict_ok (fst (fst (classifyML L sha256 classify micros res e)))"
  by (simp add: classifyML_answer verdict_ok_def promote_score split: option.splits)

lemma Refine_malicious: "aVerdict (Refine p d current parsed) = VerdictMalicious \<Longrightarrow> aScore (Refine p d current parsed) = 85"
  by (simp add: Refine_def Let_def split: if_splits)

lemma verdict_ok_refine: "verdict_ok res \<Longrightarrow> verdict_ok (refineWithAI E res)"
  by (auto simp: refineWithAI_def verdict_ok_def dest: Refine_malicious split: option.splits)

lemma verdict_ok_Apply: "verdict_ok res \<Longrightarrow> verdict_ok (Apply res rp)"
  by (simp add: Apply_def verdict_ok_def)

lemma verdict_ok_evidence: "verdict_ok (fst (fst (stage_evidence E n s)))"
  using verdict_ok_feed[of "sv_redis s" "en_unix E" n "en_brands E" "sv_feed s"] verdict_ok_lexical[of E n]
  by (simp add: stage_evidence_def Let_def case_prod_unfold)

lemma verdict_ok_models: "verdict_ok res \<Longrightarrow> verdict_ok (fst (fst (stage_models E res a s)))"
  by (simp add: stage_models_def Let_def case_prod_unfold verdict_ok_classify verdict_ok_refine)

lemma applyOSINT_fst: "fst (applyOSINT E n res rp fr s) = Apply res rp"
  by (simp add: applyOSINT_def Apply_def Let_def)

section \<open>What the engine returns\<close>

lemma analyze_cached_result:
  "fst (fst (analyze_cached E n mode force entry fr s)) =
     Apply (ceResult entry) (fst (lookupOSINT E n (ceResult entry) mode force s))"
  by (simp add: analyze_cached_def Let_def case_prod_unfold applyOSINT_fst)

text \<open>The evaluation of a fresh request after the models, and its final result.\<close>

definition modelled_result :: "engines \<Rightarrow> string \<Rightarrow> risk_service \<Rightarrow> result" where
  "modelled_result E n s =
     (let ((res, assess), s) = stage_evidence E n s in fst (fst (stage_models E res assess s)))"

lemma analyze_fresh_result:
  "fst (fst (analyze_fresh E n mode force ep s)) =
     (let ((res, assess), s1) = stage_evidence E n s; ((res, ai, assess), s2) = stage_models E res assess s1
      in Apply res (fst (lookupOSINT E n res mode force s2)))"
  by (simp add: analyze_fresh_def Let_def case_prod_unfold applyOSINT_fst)

lemma verdict_ok_fresh: "verdict_ok (fst (fst (analyze_fresh E n mode force ep s)))"
  unfolding analyze_fresh_result
  by (simp add: Let_def case_prod_unfold verdict_ok_Apply verdict_ok_models verdict_ok_evidence)

section \<open>Layers\<close>

definition effective_override :: "engines \<Rightarrow> risk_service \<Rightarrow> int \<Rightarrow> string \<Rightarrow> override option" where
  "effective_override E s gid n =
     (case sv_tables s of
        None \<Rightarrow> None
      | Some T \<Rightarrow>
          if gt_enabled T then
            (case GetEffectiveOverride (en_libs E) (en_fault E) T gid n of Inl e \<Rightarrow> None | Inr found \<Rightarrow> found)
          else None)"

lemma resolveClientGroup_state:
  "\<exists>g. snd (resolveClientGroup E client s) = admin_upd g (sv_overrides s) (sv_adblock s) s"
proof -
  have "s = admin_upd (sv_groups s) (sv_overrides s) (sv_adblock s) s"
    "s\<lparr>sv_groups := g\<rparr> = admin_upd g (sv_overrides s) (sv_adblock s) s" for g
    by (simp_all add: admin_upd_def)
  then show ?thesis
    by (auto simp: resolveClientGroup_def split: option.splits sum.splits)
qed

lemma resolveOverride_fst:
  "fst (resolveOverride E grp n s) =
     map_option (\<lambda>ov. (override_result n ov, adminPolicyDecision (ov_action ov)))
       (effective_override E s (cg_id grp) n)"
  by (simp add: resolveOverride_def effective_override_def lookupEffectiveOverride_def
      split: option.splits sum.splits)

lemma resolveOverride_state:
  "\<exists>ov. snd (resolveOverride E grp n s) = admin_upd (sv_groups s) ov (sv_adblock s) s"
proof -
  have "s = admin_upd (sv_groups s) (sv_overrides s) (sv_adblock s) s"
    "s\<lparr>sv_overrides := c\<rparr> = admin_upd (sv_groups s) c (sv_adblock s) s" for c
    by (simp_all add: admin_upd_def)
  then show ?thesis
    by (auto simp: resolveOverride_def lookupEffectiveOverride_def split: option.splits sum.splits)
qed

lemma admin_upd_twice [simp]: "admin_upd g' ov' ad' (admin_upd g ov ad s) = admin_upd g' ov' ad' s"
  by (simp add: admin_upd_def)

lemma effective_override_frame [simp]:
  "effective_override E (admin_upd g ov ad s) gid n = effective_override E s gid n"
  by (simp add: effective_override_def)

lemma resolveWhitelist_frame [simp]:
  "resolveWhitelist E n (admin_upd g ov ad s) = resolveWhitelist E n s"
  by (simp add: resolveWhitelist_def)

text \<open>The state the content layers run in differs from the caller's in the lookup counters only.\<close>

lemma Policy_valid:
  assumes "NormalizeDomain (en_libs E) domain = Inr n"
  obtains g ov where
    "Policy E domain client s =
       (let grp = fst (resolveClientGroup E client s); s' = admin_upd g ov (sv_adblock s) s in
        case effective_override E s (cg_id grp) n of
          Some o' \<Rightarrow>
            (let p = layer_policy E n (ov_action o') (override_result n o') (Some (adminPolicyDecision (ov_action o')))
                       [LayerIdentity, LayerOverride]
                       ([LayerWhitelist, LayerAdblock, LayerGroupPolicy] @ engineSkippedLayers)
             in (p, record_policy p (Some (adminPolicyDecision (ov_action o'))) [] client s'))
        | None \<Rightarrow>
            if IsAllowed (en_libs E) (sv_whitelist s) (en_wl_cancelled E) n then
              (let p = layer_policy E n ''allow'' (whitelist_result n) (Some allowlistPolicyDecision)
                         [LayerIdentity, LayerOverride, LayerWhitelist]
                         ([LayerAdblock, LayerGroupPolicy] @ engineSkippedLayers)
               in (p, record_policy p (Some allowlistPolicyDecision) [] client s'))
            else content_policy E client grp n s')"
proof -
  let ?grp = "fst (resolveClientGroup E client s)"
  obtain g where g: "snd (resolveClientGroup E client s) = admin_upd g (sv_overrides s) (sv_adblock s) s"
    using resolveClientGroup_state by blast
  let ?s1 = "admin_upd g (sv_overrides s) (sv_adblock s) s"
  obtain ov where ov: "snd (resolveOverride E ?grp n ?s1) = admin_upd g ov (sv_adblock s) s"
    using resolveOverride_state[of E ?grp n ?s1] by auto
  have act: "pdAction (adminPolicyDecision a) = a" for a by (simp add: adminPolicyDecision_def)
  show ?thesis
  proof (rule that[of g ov], goal_cases)
    case 1
    show ?case using assms
      by (simp add: Policy_def case_prod_unfold Let_def g ov resolveOverride_fst act resolveWhitelist_def
          split: option.splits)
  qed
qed

end
