(* ===== verification/PipelineProps.thy ===== *)
theory PipelineProps
  imports PolicyLaws
begin

text \<open>
  What the assessment engine promises: the decision of the threat-feed layer, the epoch of a cache
  hit, the consistency of verdicts and scores across requests and workers, and the write back of the
  background enrichment with its queue.
\<close>

section \<open>Threat feed\<close>

lemma split_under:
  assumes "is_or_under d c" "c \<noteq> d"
  shows "\<exists>t. split_on (CHR ''.'') d = split_on (CHR ''.'') t @ split_on (CHR ''.'') c"
proof -
  obtain t where "d = t @ CHR ''.'' # c" using assms by (auto simp: is_or_under_def has_suffix_iff)
  then have "split_on (CHR ''.'') d = split_on (CHR ''.'') t @ split_on (CHR ''.'') c"
    by (simp add: split_on_append_sep)
  then show ?thesis by blast
qed

lemma candidates_parents:
  assumes "canonical_domain d"
  shows "set (tl (ThreatFeedCandidates d)) = {c. is_or_under d c \<and> c \<noteq> d}"
proof -
  let ?ls = "split_on (CHR ''.'') d"
  have pos: "0 < length ?ls" by (cases ?ls) auto
  have tl: "tl (ThreatFeedCandidates d) = map (\<lambda>i. join_with ''.'' (drop i ?ls)) [1..<length ?ls]"
    using candidates_canonical[OF assms] pos by (simp add: upt_conv_Cons)
  have "is_or_under d c \<and> c \<noteq> d" if c: "c \<in> set (tl (ThreatFeedCandidates d))" for c
  proof -
    obtain i where i: "1 \<le> i" "i < length ?ls" "c = join_with ''.'' (drop i ?ls)"
      using c unfolding tl by auto
    have "is_or_under d c" using join_drop_is_or_under[OF i(2), of 0] i(3) by simp
    moreover have "?ls \<noteq> split_on (CHR ''.'') c"
    proof -
      have "\<forall>w \<in> set (drop i ?ls). CHR ''.'' \<notin> set w"
        using split_on_pieces in_set_dropD by metis
      moreover have "drop i ?ls \<noteq> []" using i(2) by simp
      ultimately have "split_on (CHR ''.'') c = drop i ?ls"
        unfolding i(3) by (metis split_join_with)
      then show ?thesis using i(1,2) by (metis diff_less length_drop less_le_trans nless_le zero_less_one)
    qed
    ultimately show ?thesis by blast
  qed
  moreover have "c \<in> set (tl (ThreatFeedCandidates d))" if under: "is_or_under d c" "c \<noteq> d" for c
  proof -
    obtain t where t: "?ls = split_on (CHR ''.'') t @ split_on (CHR ''.'') c"
      using split_under[OF under] by blast
    let ?i = "length (split_on (CHR ''.'') t)"
    have "drop ?i ?ls = split_on (CHR ''.'') c" by (simp add: t)
    then have "c = join_with ''.'' (drop ?i ?ls)" by simp
    moreover have "1 \<le> ?i" by (cases "split_on (CHR ''.'') t") auto
    moreover have "?i < length ?ls" by (cases "split_on (CHR ''.'') c") (auto simp: t)
    ultimately show ?thesis unfolding tl by auto
  qed
  ultimately show ?thesis by blast
qed

definition feed_live :: "'z redis_scheme \<Rightarrow> int \<Rightarrow> string \<Rightarrow> bool" where
  "feed_live r now c \<longleftrightarrow> (\<exists>expiry. rd_zset r c = Some expiry \<and> expiry \<ge> now)"

lemma find_live_nonempty:
  assumes "\<forall>c \<in> set cs. c \<noteq> []"
  shows "(case find P cs of None \<Rightarrow> [] | Some c \<Rightarrow> c) \<noteq> [] \<longleftrightarrow> (\<exists>c \<in> set cs. P c)"
  using assms by (induction cs) auto

lemma matchExact_live:
  assumes "canonical_domain d" "rd_enabled r" "\<not> rd_zfault r [d]"
  shows "matchExactThreatFeed r now d = Inr (feed_live r now d)"
proof -
  obtain ps where "ThreatFeedCandidates d = d # ps" using candidates_head[OF assms(1)] by blast
  moreover have "d \<noteq> []" using assms(1) by (simp add: canonical_domain_def)
  ultimately show ?thesis using assms(2,3)
    by (simp add: matchExactThreatFeed_def matchAny_live feed_live_def)
qed

lemma matchParent_live:
  assumes "canonical_domain d" "rd_enabled r" "\<And>cs. \<not> rd_zfault r cs"
  shows "\<exists>c. matchParentCandidate r now d = Inr c \<and>
    (c \<noteq> [] \<longleftrightarrow> (\<exists>p. is_or_under d p \<and> p \<noteq> d \<and> \<not> isSharedFeedApex p \<and> feed_live r now p))"
proof -
  obtain ps where ps: "ThreatFeedCandidates d = d # ps" using candidates_head[OF assms(1)] by blast
  let ?kept = "filter (\<lambda>c. \<not> isSharedFeedApex c) ps"
  have set_ps: "set ps = {c. is_or_under d c \<and> c \<noteq> d}" using candidates_parents[OF assms(1)] ps by simp
  have "set (ThreatFeedCandidates d) \<subseteq> {c. c \<noteq> []}" by (auto simp: ThreatFeedCandidates_def Let_def)
  then have ne: "\<forall>c \<in> set ?kept. c \<noteq> []" using ps by auto
  have iff: "(\<exists>c \<in> set ?kept. feed_live r now c) \<longleftrightarrow>
      (\<exists>p. is_or_under d p \<and> p \<noteq> d \<and> \<not> isSharedFeedApex p \<and> feed_live r now p)"
    using set_ps by auto
  show ?thesis
  proof (cases "?kept = []")
    case True
    then have "matchParentCandidate r now d = Inr []" by (simp add: matchParentCandidate_def ps)
    then show ?thesis using True iff by auto
  next
    case False
    then have "ps \<noteq> []" by auto
    then have "matchParentCandidate r now d =
        Inr (case find (feed_live r now) ?kept of None \<Rightarrow> [] | Some c \<Rightarrow> c)"
      using False matchAny_live[OF assms(2,3) False, of now]
      by (simp add: matchParentCandidate_def ps feed_live_def[abs_def])
    then show ?thesis using find_live_nonempty[OF ne] iff by blast
  qed
qed

lemma feed_layer_cases:
  assumes "canonical_domain d" and "rd_enabled r"
  shows "(\<forall>cs. \<not> rd_zfault r cs) \<Longrightarrow>
      fst (fst (feedResult r now d brands e)) =
        (if feed_live r now d then (if isSharedFeedApex d then sharedApexFeedHit d else threatFeedHit d)
         else if IsTrustedBrandSuffix d brands \<or> IsTrustedInfraSuffix d then no_result
         else if \<exists>p. is_or_under d p \<and> p \<noteq> d \<and> \<not> isSharedFeedApex p \<and> feed_live r now p
         then threatFeedHit d else no_result) \<and>
      feedConsecutiveFailures (snd (feedResult r now d brands e)) = 0"
    and "rd_zfault r [d] \<Longrightarrow>
      fst (fst (feedResult r now d brands e)) = no_result \<and>
      feedLookupFailures (snd (feedResult r now d brands e)) = feedLookupFailures e + 1"
proof -
  assume nf: "\<forall>cs. \<not> rd_zfault r cs"
  obtain c where c: "matchParentCandidate r now d = Inr c"
    "c \<noteq> [] \<longleftrightarrow> (\<exists>p. is_or_under d p \<and> p \<noteq> d \<and> \<not> isSharedFeedApex p \<and> feed_live r now p)"
    using matchParent_live[OF assms, of now] nf by blast
  have x: "matchExactThreatFeed r now d = Inr (feed_live r now d)"
    using matchExact_live[OF assms] nf by blast
  show "fst (fst (feedResult r now d brands e)) =
        (if feed_live r now d then (if isSharedFeedApex d then sharedApexFeedHit d else threatFeedHit d)
         else if IsTrustedBrandSuffix d brands \<or> IsTrustedInfraSuffix d then no_result
         else if \<exists>p. is_or_under d p \<and> p \<noteq> d \<and> \<not> isSharedFeedApex p \<and> feed_live r now p
         then threatFeedHit d else no_result) \<and>
      feedConsecutiveFailures (snd (feedResult r now d brands e)) = 0"
    unfolding feedResult_def x sum.case c(1) c(2)[symmetric]
    by (simp add: Let_def noteFeedLookupSuccess_def)
next
  assume "rd_zfault r [d]"
  moreover obtain ps where "ThreatFeedCandidates d = d # ps" using candidates_head[OF assms(1)] by blast
  ultimately have "matchExactThreatFeed r now d = Inl RedisFailure" using assms(2)
    by (simp add: matchExactThreatFeed_def matchAnyThreatFeedCandidate_def ZScores_def)
  then show "fst (fst (feedResult r now d brands e)) = no_result \<and>
      feedLookupFailures (snd (feedResult r now d brands e)) = feedLookupFailures e + 1"
    by (simp add: feedResult_def feed_failed_def noteFeedLookupErr_def)
qed

definition sample_feed_engine :: feed_engine where
  "sample_feed_engine = \<lparr>feedLookupFailures = 0, feedConsecutiveFailures = 0, feedLastFailureUnix = 0\<rparr>"

definition sample_feed :: redis where
  "sample_feed = \<lparr>rd_enabled = True, rd_zset = [''example.co.uk'' \<mapsto> 100], rd_zfault = (\<lambda>cs. False)\<rparr>"

text \<open>
  C9: while Redis answers, the threat-feed layer decides as follows on a canonical domain. A live
  entry for the host itself is a malicious verdict, contextual (suspicious) on a shared apex; without
  one, a host under a trusted brand or trusted infrastructure is never condemned by its parents, and
  any other host is malicious exactly when some proper parent that is not a shared apex has a live
  entry. When the read for the host fails, the layer finds nothing and the failure is counted.
\<close>

theorem feed_layer_decision:
  assumes "canonical_domain d" and "rd_enabled r"
  shows "((\<forall>cs. \<not> rd_zfault r cs) \<longrightarrow>
      fst (fst (feedResult r now d brands e)) =
        (if feed_live r now d then (if isSharedFeedApex d then sharedApexFeedHit d else threatFeedHit d)
         else if IsTrustedBrandSuffix d brands \<or> IsTrustedInfraSuffix d then no_result
         else if \<exists>p. is_or_under d p \<and> p \<noteq> d \<and> \<not> isSharedFeedApex p \<and> feed_live r now p
         then threatFeedHit d else no_result) \<and>
      feedConsecutiveFailures (snd (feedResult r now d brands e)) = 0) \<and>
    (rd_zfault r [d] \<longrightarrow>
      fst (fst (feedResult r now d brands e)) = no_result \<and>
      feedLookupFailures (snd (feedResult r now d brands e)) = feedLookupFailures e + 1)"
  using feed_layer_cases[OF assms] by blast

theorem feed_layer_decision_witness:
  "fst (fst (feedResult sample_feed 50 ''www.example.co.uk'' [] sample_feed_engine)) = threatFeedHit ''www.example.co.uk''"
proof -
  have c: "canonical_domain ''www.example.co.uk''" by code_simp
  have r: "rd_enabled sample_feed" "\<forall>cs. \<not> rd_zfault sample_feed cs" by (simp_all add: sample_feed_def)
  have "feed_live sample_feed 50 ''example.co.uk''" "\<not> feed_live sample_feed 50 ''www.example.co.uk''"
    by (simp_all add: feed_live_def sample_feed_def)
  moreover have "is_or_under ''www.example.co.uk'' ''example.co.uk''" "\<not> isSharedFeedApex ''example.co.uk''"
    "\<not> IsTrustedBrandSuffix ''www.example.co.uk'' []" "\<not> IsTrustedInfraSuffix ''www.example.co.uk''"
    by (atomize (full)) code_simp
  ultimately show ?thesis
    using feed_layer_decision[OF c r(1), of 50 "[]" sample_feed_engine] r(2) by auto
qed

section \<open>Consistency of the cache and the queue\<close>

definition entries_ok :: "redis_server \<Rightarrow> bool" where
  "entries_ok r \<longleftrightarrow> (\<forall>key e ttl. rd_entries r key = Some (CachedEntry e, ttl) \<longrightarrow> verdict_ok (ceResult e))"

definition job_ok :: "enrichment_job \<Rightarrow> bool" where
  "job_ok job \<longleftrightarrow> aVerdict (ejResult job) \<noteq> VerdictMalicious \<and> 20 \<le> aScore (ejResult job) \<and> aScore (ejResult job) < 70"

definition engine_ok :: "risk_service \<Rightarrow> bool" where
  "engine_ok s \<longleftrightarrow> entries_ok (sv_redis s) \<and> (\<forall>job \<in> set (enrichQueue (sv_enrich s)). job_ok job)"

text \<open>Requests, workers (among other processes that share the cache) and expiring keys.\<close>

inductive engine_step :: "risk_service \<Rightarrow> risk_service \<Rightarrow> bool" where
  Request: "engine_step s (snd (analyze E d mode force s))"
| Worker: "enrichQueue (sv_enrich s) = job # rest \<Longrightarrow> \<forall>r'. Some r' \<in> set (weOthers W) \<longrightarrow> entries_ok r' \<Longrightarrow>
    engine_step s (s\<lparr>sv_enrich := clearEnrichmentInFlight (ejDomain job) ((sv_enrich s)\<lparr>enrichQueue := rest\<rparr>),
                     sv_redis := snd (processEnrichmentJob W job (sv_redis s))\<rparr>)"
| Expire: "engine_step s (s\<lparr>sv_redis := (sv_redis s)\<lparr>rd_entries := (rd_entries (sv_redis s))(key := None)\<rparr>\<rparr>)"

inductive engine_run :: "risk_service \<Rightarrow> risk_service \<Rightarrow> bool" where
  Here: "engine_run s s"
| Later: "engine_run s t \<Longrightarrow> engine_step t u \<Longrightarrow> engine_run s u"

lemma entries_ok_put:
  "entries_ok r \<Longrightarrow> verdict_ok (ceResult e) \<Longrightarrow>
     entries_ok (r\<lparr>rd_entries := (rd_entries r)(key \<mapsto> (CachedEntry e, ttl))\<rparr>)"
  by (simp add: entries_ok_def)

lemma write_entry_ok:
  "engine_ok s \<Longrightarrow> verdict_ok (ceResult e) \<Longrightarrow> engine_ok (write_entry key e ttl s)"
  by (simp add: engine_ok_def write_entry_def SetJSON_def entries_ok_put)

lemma stages_keep [simp]:
  "sv_redis (snd (stage_evidence E n s)) = sv_redis s" "sv_enrich (snd (stage_evidence E n s)) = sv_enrich s"
  "sv_redis (snd (stage_models E res a s)) = sv_redis s" "sv_enrich (snd (stage_models E res a s)) = sv_enrich s"
  "sv_redis (snd (lookupOSINT E n res mode force s)) = sv_redis s"
  "sv_enrich (snd (lookupOSINT E n res mode force s)) = sv_enrich s"
  by (simp_all add: stage_evidence_def stage_models_def lookupOSINT_def recordOSINTEvidence_def Let_def
      case_prod_unfold split: osint_mode.splits option.splits)

lemma engine_ok_same: "sv_redis s' = sv_redis s \<Longrightarrow> sv_enrich s' = sv_enrich s \<Longrightarrow> engine_ok s' = engine_ok s"
  by (simp add: engine_ok_def)

lemma applyOSINT_ok:
  assumes "engine_ok s" "verdict_ok res"
  shows "engine_ok (snd (applyOSINT E n res rp fr s))"
  using assms verdict_ok_Apply[OF assms(2), of rp]
  by (simp add: applyOSINT_def Let_def write_entry_ok)

lemma enqueue_ok:
  assumes "engine_ok s" "shouldEnqueueEnrichment (ejResult job)" "verdict_ok (ejResult job)"
  shows "engine_ok (enqueue_job E job s)"
proof -
  have "job_ok job" using assms(2,3)
    by (auto simp: job_ok_def shouldEnqueueEnrichment_def verdict_ok_def split: if_splits)
  moreover have "set (enrichQueue (enqueueEnrichment c job (sv_enrich s))) \<subseteq> insert job (set (enrichQueue (sv_enrich s)))"
    for c using enqueue_cases[of c job "sv_enrich s", OF refl] by (elim disjE conjE) auto
  ultimately show ?thesis using assms(1) by (auto simp: engine_ok_def enqueue_job_def)
qed

lemma analyze_cached_ok:
  assumes "engine_ok s" "verdict_ok (ceResult entry)"
  shows "engine_ok (snd (analyze_cached E n mode force entry fr s))"
proof -
  let ?L = "lookupOSINT E n (ceResult entry) mode force s"
  have ok: "engine_ok (snd ?L)" using assms(1) engine_ok_same[of "snd ?L" s] by simp
  show ?thesis
    using applyOSINT_ok[OF ok assms(2)] verdict_ok_Apply[OF assms(2)]
    by (simp add: analyze_cached_def Let_def case_prod_unfold enqueue_ok applyOSINT_fst)
qed

lemma analyze_fresh_ok:
  assumes "engine_ok s"
  shows "engine_ok (snd (analyze_fresh E n mode force ep s))"
proof -
  let ?e = "stage_evidence E n s"
  let ?m = "stage_models E (fst (fst ?e)) (snd (fst ?e)) (snd ?e)"
  let ?L = "lookupOSINT E n (fst (fst ?m)) mode force (snd ?m)"
  have v: "verdict_ok (fst (fst ?m))" by (simp add: verdict_ok_models verdict_ok_evidence)
  have ok: "engine_ok (snd ?L)" using assms engine_ok_same[of "snd ?L" s] by simp
  show ?thesis
    using applyOSINT_ok[OF ok v] verdict_ok_Apply[OF v]
    by (simp add: analyze_fresh_def Let_def case_prod_unfold enqueue_ok write_entry_ok applyOSINT_fst)
qed

lemma analyze_ok:
  assumes "engine_ok s"
  shows "engine_ok (snd (analyze E d mode force s))"
proof -
  have "verdict_ok (ceResult entry)" if "cache_lookup (sv_redis s) key ep = Some entry" for key ep entry
    using that assms by (auto simp: cache_lookup_def GetJSON_def engine_ok_def entries_ok_def
        split: sum.splits option.splits prod.splits cached_value.splits if_splits)
  then show ?thesis using assms
    by (auto simp: analyze_def Let_def analyze_cached_ok analyze_fresh_ok split: sum.splits option.splits)
qed

lemma verdict_ok_enriched: "verdict_ok (applyEnrichmentSignals sg res)"
  by (simp add: verdict_ok_def applyEnrichmentSignals_def Let_def)

lemma processEnrichmentJob_kept:
  assumes "processEnrichmentJob W job r = (False, r2)"
  shows "r2 = r \<or> Some r2 \<in> set (weOthers W)"
proof -
  define c where "c = CompareAndSwapJSON (recency_guard (jobQueuedAt (ejQueuedAt job))) (weOthers W)
    (analysisCacheKey (ejDomain job) (ejModelRevision job)) (enriched_entry W job)
    (weTTL W (aVerdict (ceResult (enriched_entry W job)))) r"
  have "r2 = r \<or> (fst c \<noteq> Inr True \<and> r2 = snd c)"
    using assms unfolding processEnrichmentJob_def Let_def c_def[symmetric] case_prod_unfold
    by (simp split: if_splits)
  moreover have "snd c = r \<or> Some (snd c) \<in> set (weOthers W)" if "fst c \<noteq> Inr True"
  proof (cases "rd_enabled r")
    case True
    then have "cas_loop (recency_guard (jobQueuedAt (ejQueuedAt job))) casMaxAttempts (weOthers W)
      (analysisCacheKey (ejDomain job) (ejModelRevision job)) (enriched_entry W job)
      (weTTL W (aVerdict (ceResult (enriched_entry W job)))) r = (fst c, snd c)"
      by (simp add: c_def CompareAndSwapJSON_def)
    then show ?thesis using cas_loop_kept that by blast
  qed (simp add: c_def CompareAndSwapJSON_def)
  ultimately show ?thesis by blast
qed

lemma process_entries_ok:
  assumes "entries_ok r" "\<forall>r'. Some r' \<in> set (weOthers W) \<longrightarrow> entries_ok r'"
  shows "entries_ok (snd (processEnrichmentJob W job r))"
proof -
  obtain w r2 where p: "processEnrichmentJob W job r = (w, r2)" by fastforce
  show ?thesis
  proof (cases w)
    case True
    then have "processEnrichmentJob W job r = (True, r2)" using p by simp
    from processEnrichmentJob_written[OF this] obtain r1 where r1: "r1 = r \<or> Some r1 \<in> set (weOthers W)"
      "r2 = r1\<lparr>rd_entries := (rd_entries r1)(analysisCacheKey (ejDomain job) (ejModelRevision job) \<mapsto>
        (CachedEntry (enriched_entry W job), weTTL W (aVerdict (ceResult (enriched_entry W job)))))\<rparr>"
      by blast
    then have "entries_ok r1" using assms by blast
    then show ?thesis unfolding p r1(2) snd_conv
      by (rule entries_ok_put) (simp add: enriched_entry_def verdict_ok_enriched)
  next
    case False
    then have "r2 = r \<or> Some r2 \<in> set (weOthers W)" using p processEnrichmentJob_kept by simp
    then show ?thesis using p assms by auto
  qed
qed

lemma engine_step_ok: "engine_step s t \<Longrightarrow> engine_ok s \<Longrightarrow> engine_ok t"
proof (induction rule: engine_step.induct)
  case (Worker s job rest W)
  then show ?case using process_entries_ok[of "sv_redis s" W job]
    by (simp add: engine_ok_def clearEnrichmentInFlight_def)
next
  case (Expire s key)
  then show ?case by (auto simp: engine_ok_def entries_ok_def)
qed (rule analyze_ok)

lemma engine_run_ok: "engine_run s t \<Longrightarrow> engine_ok s \<Longrightarrow> engine_ok t"
  by (induction rule: engine_run.induct) (auto intro: engine_step_ok)

end
