(* ===== verification/PolicyProps.thy ===== *)
theory PolicyProps
  imports PolicyLaws GroupProps WhitelistProps ExceptionProps TrieProps
begin

text \<open>
  What the decision engine promises: when a request is blocked, how the layers shadow each other,
  that content exceptions and the shadow observation leave the security decision alone, how store
  failures fail open, and which cached evaluations are served.
\<close>

section \<open>The content layer\<close>

definition content_blocked :: "engines \<Rightarrow> risk_service \<Rightarrow> string \<Rightarrow> bool" where
  "content_blocked E s n \<longleftrightarrow>
     (let detail = adblock_match E (sv_adblock s) n in
      mdMatched detail \<and>
      (sv_semantics s = PolicySemanticsLegacy \<or>
       matchAdblockException (en_libs E) (adblockExceptions (sv_adblock s)) n (mdRule detail) = None))"

definition security_result :: "engines \<Rightarrow> risk_service \<Rightarrow> string \<Rightarrow> result" where
  "security_result E s n = fst (fst (analyze E n osintLookupCachedOnly False s))"

lemma security_result_frame [simp]: "security_result E (admin_upd g ov ad s) n = security_result E s n"
  by (simp add: security_result_def analyze_frame)

lemma assessed_policy_fields:
  "plPolicy (fst (assessed_policy E client grp n dec s)) = group_policy grp (security_result E s n)"
  "plResult (fst (assessed_policy E client grp n dec s)) = security_result E s n"
  "plDecision (fst (assessed_policy E client grp n dec s)) = dec"
  by (simp_all add: assessed_policy_def Let_def case_prod_unfold security_result_def)

lemma assessed_policy_frame [simp]:
  "fst (assessed_policy E client grp n dec (admin_upd g ov ad s)) = fst (assessed_policy E client grp n dec s)"
  by (simp add: assessed_policy_def Let_def case_prod_unfold analyze_frame)

text \<open>The adblock state after the content layer.\<close>

definition content_engine :: "engines \<Rightarrow> risk_service \<Rightarrow> string \<Rightarrow> adblock_engine" where
  "content_engine E s n =
     (let detail = adblock_match E (sv_adblock s) n;
          exc = matchAdblockException (en_libs E) (adblockExceptions (sv_adblock s)) n (mdRule detail);
          ad = (if exc \<noteq> None then (sv_adblock s)\<lparr>adblockExcMatches := adblockExcMatches (sv_adblock s) + 1\<rparr>
                else sv_adblock s)
      in observeShadowExact detail (exc \<noteq> None) ad)"

lemma adblock_upd: "s\<lparr>sv_adblock := ad\<rparr> = admin_upd (sv_groups s) (sv_overrides s) ad s"
  by (simp add: admin_upd_def)

lemma content_policy_blocked:
  assumes "content_blocked E s n"
  shows "plPolicy (fst (content_policy E client grp n s)) = ''block''"
  using assms by (auto simp: content_blocked_def content_policy_def Let_def layer_policy_def split: option.splits)

lemma content_policy_open:
  assumes "\<not> content_blocked E s n"
  obtains dec where
    "fst (content_policy E client grp n s) = fst (assessed_policy E client grp n dec s)"
    "mdMatched (adblock_match E (sv_adblock s) n) \<or> dec = None"
  using assms
  by (cases "mdMatched (adblock_match E (sv_adblock s) n)")
    (auto simp: content_blocked_def content_policy_def Let_def adblock_upd split: option.splits)

lemma content_blocked_frame [simp]:
  "content_blocked E (admin_upd g ov (sv_adblock s) s) n = content_blocked E s n"
  by (simp add: content_blocked_def)

lemma group_policy_block:
  "group_policy grp res = ''block'' \<longleftrightarrow>
     (aVerdict res = VerdictMalicious \<and> StrictMalware grp) \<or>
     (StrictPhishing grp \<and> aScore res \<ge> 40 \<and> (is_phishing res \<or> aCategory res = ''phishing'')) \<or>
     blocked_category grp res"
  by (auto simp: group_policy_def Let_def)

lemma content_policy_block_iff:
  "plPolicy (fst (content_policy E client grp n s)) = ''block'' \<longleftrightarrow>
     content_blocked E s n \<or> group_policy grp (security_result E s n) = ''block''"
proof (cases "content_blocked E s n")
  case False
  then obtain dec where "fst (content_policy E client grp n s) = fst (assessed_policy E client grp n dec s)"
    by (rule content_policy_open)
  then show ?thesis using False by (simp add: assessed_policy_fields)
qed (simp add: content_policy_blocked)

lemma Policy_block_iff:
  assumes "NormalizeDomain (en_libs E) domain = Inr n"
  shows "plPolicy (fst (Policy E domain client s)) = ''block'' \<longleftrightarrow>
    (let grp = fst (resolveClientGroup E client s) in
     case effective_override E s (cg_id grp) n of
       Some ov \<Rightarrow> ov_action ov = ''block''
     | None \<Rightarrow> \<not> IsAllowed (en_libs E) (sv_whitelist s) (en_wl_cancelled E) n \<and>
         (content_blocked E s n \<or> group_policy grp (security_result E s n) = ''block''))"
  by (rule Policy_valid[OF assms, of client s])
    (simp add: Let_def layer_policy_def content_policy_block_iff split: option.splits)

lemma resolveClientGroup_frame [simp]:
  "fst (resolveClientGroup E client (admin_upd g ov ad s)) = fst (resolveClientGroup E client s)"
  by (simp add: resolveClientGroup_def split: option.splits sum.splits)

text \<open>With the same allow list and overrides, two states that differ in the content layer only.\<close>

lemma Policy_layers:
  assumes "NormalizeDomain (en_libs E) domain = Inr n"
  shows "fst (Policy E domain client s) =
    (let grp = fst (resolveClientGroup E client s) in
     case effective_override E s (cg_id grp) n of
       Some o' \<Rightarrow>
         layer_policy E n (ov_action o') (override_result n o') (Some (adminPolicyDecision (ov_action o')))
           [LayerIdentity, LayerOverride] ([LayerWhitelist, LayerAdblock, LayerGroupPolicy] @ engineSkippedLayers)
     | None \<Rightarrow>
         if IsAllowed (en_libs E) (sv_whitelist s) (en_wl_cancelled E) n then
           layer_policy E n ''allow'' (whitelist_result n) (Some allowlistPolicyDecision)
             [LayerIdentity, LayerOverride, LayerWhitelist] ([LayerAdblock, LayerGroupPolicy] @ engineSkippedLayers)
         else fst (content_policy E client grp n s))"
proof -
  have c: "fst (content_policy E client grp n (admin_upd g ov (sv_adblock s) s)) = fst (content_policy E client grp n s)"
    for grp g ov
    by (simp add: content_policy_def Let_def adblock_upd split: option.splits)
  show ?thesis
    by (rule Policy_valid[OF assms, of client s]) (simp add: Let_def c split: option.splits)
qed

section \<open>A small deployment\<close>

definition demo_engines :: engines where
  "demo_engines =
     \<lparr>en_libs = sample_libs, en_sha256 = id,
      en_heuristics = (\<lambda>d. if d = ''login.example.co.uk'' then (80, [''phishing keyword pattern'']) else (0, [])),
      en_heuristics_local = (\<lambda>d. (0, [])), en_brands = [], en_classify = (\<lambda>d. None), en_ai = None,
      en_osint_enabled = False, en_osint_cached = (\<lambda>d. None), en_osint_lookup = (\<lambda>d f. no_report),
      en_unix = 0, en_micros = 0, en_assessed = 0, en_queued = 0, en_expiry = 0, en_cancelled = False,
      en_wl_cancelled = (\<lambda>i. False), en_fault = (\<lambda>st. False), en_decision_id = ''eval-1''\<rparr>"

definition demo_redis :: redis_server where
  "demo_redis =
     \<lparr>rd_enabled = True, rd_zset = [''evil.example.co.uk'' \<mapsto> 100], rd_zfault = (\<lambda>cs. False),
      rd_strings = Map.empty, rd_sfault = (\<lambda>k. False), rd_entries = Map.empty, rd_rfault = (\<lambda>k. False),
      rd_wfault = (\<lambda>k. False)\<rparr>"

definition demo_telemetry :: ml_telemetry where
  "demo_telemetry =
     \<lparr>predictionAttempts = 0, shadowWouldBlock = 0, shadowWouldPass = 0, enforcePromotions = 0, abstains = 0,
      ml_errors = 0, skips = 0, fallbacks = 0, latencyCount = 0, latencyTotalMicros = 0,
      latencyBuckets = [0, 0, 0, 0, 0, 0, 0, 0, 0], probabilityBuckets = [0, 0, 0, 0, 0, 0, 0, 0, 0, 0],
      canarySelected = 0, canaryExcluded = 0, canaryWouldBlock = 0, canaryWouldPass = 0, canarySuppressed = 0\<rparr>"

definition demo_adblock :: adblock_engine where
  "demo_adblock =
     \<lparr>adblockEnabled = True, adblockTrie = Some (snd (AddRule sample_libs NewTrie sample_rule)),
      adblockMatchMode = ''suffix'', adblockSemantics = PolicySemanticsSeparated,
      adblockExceptions = None, adblockExcMatches = 0, adblockShadowExactEnabled = True,
      adblockShadowStillBlock = 0, adblockShadowWouldAllow = 0, adblockShadowPreserved = 0,
      adblockShadowUnavailable = 0, adblockShadowExcOverlap = 0\<rparr>"

definition demo_counters :: lookup_counters where
  "demo_counters = \<lparr>lcFailures = 0, lcConsecutive = 0, lcLastFailure = 0, lcLastSuccess = 0\<rparr>"

definition demo_service :: risk_service where
  "demo_service =
     \<lparr>sv_redis = demo_redis, sv_feedRevisionKey = [], sv_configRevision = [],
      sv_ml = \<lparr>mlEnabled = False, mlRevision = [], mlMode = MLModeDisabled,
               mlCanary = \<lparr>cnPercent = 0, cnSeed = []\<rparr>, mlTelemetry = demo_telemetry\<rparr>,
      sv_feed = \<lparr>feedLookupFailures = 0, feedConsecutiveFailures = 0, feedLastFailureUnix = 0\<rparr>,
      sv_enrich = \<lparr>enrichEnabled = True, enrichCap = Some 4, enrichQueue = [], enrichInFlight = {},
                   enrichTimeout = 1\<rparr>,
      sv_ttlAllowed = 3, sv_ttlSuspicious = 2, sv_ttlBlocked = 1, sv_tables = None, sv_cidr = sample_index,
      sv_evidence = [], sv_whitelist = NewWhitelist, sv_semantics = PolicySemanticsSeparated,
      sv_adblock = demo_adblock, sv_groups = demo_counters, sv_overrides = demo_counters, sv_telemetry = []\<rparr>"

definition demo_client :: client_info where
  "demo_client = \<lparr>ciIP = ''10.1.2.3'', ciClientID = []\<rparr>"

section \<open>Properties\<close>

text \<open>
  C2: for a valid domain the answer is block in exactly these cases. An operator override decides
  alone, whatever the other layers say. Otherwise a domain on the allow list is never blocked, and
  any other one is blocked when the blocklist matches without a content exception (always, under the
  legacy semantics), or when the assessment is malicious for a group that is strict on malware, is a
  phishing signal of score 40 or more for a group that is strict on phishing, or has a category the
  group blocks.
\<close>

theorem policy_block_decision:
  assumes "NormalizeDomain (en_libs E) domain = Inr n"
    and "grp = fst (resolveClientGroup E client s)" and "res = security_result E s n"
  shows "plPolicy (fst (Policy E domain client s)) = ''block'' \<longleftrightarrow>
    (case effective_override E s (cg_id grp) n of
       Some ov \<Rightarrow> ov_action ov = ''block''
     | None \<Rightarrow> \<not> IsAllowed (en_libs E) (sv_whitelist s) (en_wl_cancelled E) n \<and>
         (content_blocked E s n \<or>
          (aVerdict res = VerdictMalicious \<and> StrictMalware grp) \<or>
          (StrictPhishing grp \<and> aScore res \<ge> 40 \<and> (is_phishing res \<or> aCategory res = ''phishing'')) \<or>
          blocked_category grp res))"
  unfolding Policy_block_iff[OF assms(1)] assms(2,3) group_policy_block[symmetric]
  by (simp add: Let_def)

theorem policy_block_decision_witness:
  "plPolicy (fst (Policy demo_engines ''evil.example.co.uk'' demo_client demo_service)) = ''block''"
proof -
  have n: "NormalizeDomain (en_libs demo_engines) ''evil.example.co.uk'' = Inr ''evil.example.co.uk''"
    and r: "aVerdict (security_result demo_engines demo_service ''evil.example.co.uk'') = VerdictMalicious"
    and g: "fst (resolveClientGroup demo_engines demo_client demo_service) = default_group"
    and o: "effective_override demo_engines demo_service (cg_id default_group) ''evil.example.co.uk'' = None"
    and w: "\<not> IsAllowed (en_libs demo_engines) (sv_whitelist demo_service) (en_wl_cancelled demo_engines) ''evil.example.co.uk''"
    and m: "StrictMalware default_group"
    by (atomize (full)) code_simp
  show ?thesis using r w m
    unfolding policy_block_decision[OF n g[symmetric] refl] o by simp
qed

text \<open>The content layer of a service that does not match, and of one whose match is excepted.\<close>

lemma content_policy_excepted:
  assumes "sv_semantics s = PolicySemanticsSeparated"
    and "mdMatched (adblock_match E (sv_adblock s) n)"
    and "matchAdblockException (en_libs E) (adblockExceptions (sv_adblock s)) n
           (mdRule (adblock_match E (sv_adblock s) n)) = Some i"
  shows "fst (content_policy E client grp n s) =
    fst (assessed_policy E client grp n
      (Some (adblockExceptionDecision (mdRule (adblock_match E (sv_adblock s) n)) i)) s)"
  using assms by (simp add: content_policy_def Let_def adblock_upd)

lemma content_policy_unmatched:
  assumes "\<not> mdMatched (adblock_match E (sv_adblock s) n)"
  shows "content_policy E client grp n s = assessed_policy E client grp n None s"
  using assms by (simp add: content_policy_def Let_def)

definition adblock_off :: "risk_service \<Rightarrow> risk_service" where
  "adblock_off s = s\<lparr>sv_adblock := (sv_adblock s)\<lparr>adblockEnabled := False\<rparr>\<rparr>"

lemma adblock_off_upd:
  "adblock_off s = admin_upd (sv_groups s) (sv_overrides s) ((sv_adblock s)\<lparr>adblockEnabled := False\<rparr>) s"
  by (simp add: adblock_off_def admin_upd_def)

lemma unmatched_when_off: "\<not> mdMatched (adblock_match E (sv_adblock (adblock_off s)) n)"
  by (simp add: adblock_off_def adblock_match_def no_match_def)

text \<open>
  C10: a content exception suppresses the blocklist match and nothing else. Under the separated
  semantics, a request whose matched rule is excepted gets the same action and the same security
  result as if the blocklist were switched off; only the attached decision tells them apart, and it
  names the exception.
\<close>

theorem exception_is_transparent:
  assumes "NormalizeDomain (en_libs E) domain = Inr n" and "sv_semantics s = PolicySemanticsSeparated"
    and "mdMatched (adblock_match E (sv_adblock s) n)"
    and "matchAdblockException (en_libs E) (adblockExceptions (sv_adblock s)) n
           (mdRule (adblock_match E (sv_adblock s) n)) = Some i"
  shows "let p = fst (Policy E domain client s); q = fst (Policy E domain client (adblock_off s)) in
    plPolicy p = plPolicy q \<and> plResult p = plResult q \<and>
    (plDecision q = None \<longrightarrow> (\<exists>d. plDecision p = Some d \<and> pdAction d = ''allow'' \<and> pdExceptionID d = i))"
proof -
  have off: "content_policy E client grp n (adblock_off s) = assessed_policy E client grp n None (adblock_off s)" for grp
    using content_policy_unmatched unmatched_when_off .
  show ?thesis
    using content_policy_excepted[OF assms(2-4)] off
    by (simp add: Policy_layers[OF assms(1)] Let_def adblock_off_upd assessed_policy_fields layer_policy_def
        adblockExceptionDecision_def no_decision_def split: option.splits)
qed

definition demo_excepted :: risk_service where
  "demo_excepted =
     demo_service\<lparr>sv_adblock := demo_adblock\<lparr>
       adblockTrie := Some (snd (AddRule sample_libs NewTrie
         \<lparr>rDomain = ''cdn.ads.test'', rScope = ''exact'', rSourceID = ''legacy'', rCategory = ''ads'',
          rAction = ''block'', rOrigin = OriginWildcard\<rparr>)),
       adblockExceptions := Some (index_entry
         \<lparr>revision = [], exc_count = 1, exc_exact = Map.empty, exc_suffix = Map.empty\<rparr> sample_entry)\<rparr>\<rparr>"

theorem exception_is_transparent_witness:
  "plPolicy (fst (Policy demo_engines ''cdn.ads.test'' demo_client demo_excepted)) =
   plPolicy (fst (Policy demo_engines ''cdn.ads.test'' demo_client (adblock_off demo_excepted)))"
proof -
  have n: "NormalizeDomain (en_libs demo_engines) ''cdn.ads.test'' = Inr ''cdn.ads.test''"
    and s: "sv_semantics demo_excepted = PolicySemanticsSeparated"
    and m: "mdMatched (adblock_match demo_engines (sv_adblock demo_excepted) ''cdn.ads.test'')"
    and x: "matchAdblockException (en_libs demo_engines) (adblockExceptions (sv_adblock demo_excepted)) ''cdn.ads.test''
       (mdRule (adblock_match demo_engines (sv_adblock demo_excepted) ''cdn.ads.test'')) = Some (ex_ID sample_entry)"
    by (atomize (full)) code_simp
  show ?thesis using exception_is_transparent[OF n s m x, of demo_client] by (simp add: Let_def)
qed



section \<open>Shadow observation\<close>

lemma record_policy_frame:
  "record_policy p dec src client (admin_upd g ov ad s) = admin_upd g ov ad (record_policy p dec src client s)"
  by (simp add: record_policy_def recordTelemetryWithSource_def admin_upd_def split: option.splits)

lemma assessed_policy_state:
  "assessed_policy E client grp n dec (admin_upd g ov ad s) =
     apsnd (admin_upd g ov ad) (assessed_policy E client grp n dec s)"
  by (simp add: assessed_policy_def Let_def case_prod_unfold analyze_frame record_policy_frame)

lemma telemetry_frame [simp]: "sv_telemetry (admin_upd g ov ad s) = sv_telemetry s"
  by (simp add: admin_upd_def)

definition set_shadow :: "bool \<Rightarrow> risk_service \<Rightarrow> risk_service" where
  "set_shadow b s = s\<lparr>sv_adblock := (sv_adblock s)\<lparr>adblockShadowExactEnabled := b\<rparr>\<rparr>"

lemma set_shadow_upd:
  "set_shadow b s = admin_upd (sv_groups s) (sv_overrides s) ((sv_adblock s)\<lparr>adblockShadowExactEnabled := b\<rparr>) s"
  by (simp add: set_shadow_def admin_upd_def)

text \<open>The content layer leaves the same answer and telemetry whatever the counters and the shadow flag are.\<close>

lemma content_policy_inert:
  assumes "ad = sv_adblock s \<or> ad = (sv_adblock s)\<lparr>adblockShadowExactEnabled := b\<rparr>"
  shows "fst (content_policy E client grp n (admin_upd g ov ad s)) = fst (content_policy E client grp n s)"
    and "sv_telemetry (snd (content_policy E client grp n (admin_upd g ov ad s))) =
         sv_telemetry (snd (content_policy E client grp n s))"
proof -
  have same: "adblock_match E ad n = adblock_match E (sv_adblock s) n"
    "adblockExceptions ad = adblockExceptions (sv_adblock s)"
    using assms by (auto simp: adblock_match_def)
  show "fst (content_policy E client grp n (admin_upd g ov ad s)) = fst (content_policy E client grp n s)"
    by (simp add: content_policy_def Let_def adblock_upd same split: option.splits)
  show "sv_telemetry (snd (content_policy E client grp n (admin_upd g ov ad s))) =
        sv_telemetry (snd (content_policy E client grp n s))"
    by (simp add: content_policy_def Let_def adblock_upd same assessed_policy_state record_policy_frame
        split: option.splits)
qed

lemma analyze_keeps_adblock: "sv_adblock (snd (analyze E d mode force s)) = sv_adblock s"
proof -
  have "analyze E d mode force (admin_upd (sv_groups s) (sv_overrides s) (sv_adblock s) s) = analyze E d mode force s"
    by (simp add: admin_upd_def)
  then have "snd (analyze E d mode force s) =
      admin_upd (sv_groups s) (sv_overrides s) (sv_adblock s) (snd (analyze E d mode force s))"
    by (metis analyze_frame snd_apsnd)
  then show ?thesis by (metis admin_upd_simps(10))
qed

lemma record_keeps_adblock: "sv_adblock (record_policy p dec src client s) = sv_adblock s"
  by (simp add: record_policy_def recordTelemetryWithSource_def split: option.splits)

lemma assessed_keeps_adblock: "sv_adblock (snd (assessed_policy E client grp n dec s)) = sv_adblock s"
  by (simp add: assessed_policy_def Let_def case_prod_unfold record_keeps_adblock analyze_keeps_adblock)

lemma observe_counts:
  "shadow_observations (observeShadowExact detail x e) =
     shadow_observations e + (if shadowExactActive e \<and> mdMatched detail then 1 else 0)"
  by (simp add: observeShadowExact_def shadow_observations_def Let_def split: shadow_outcome.splits)

lemma content_policy_observes:
  "shadow_observations (sv_adblock (snd (content_policy E client grp n s))) =
     shadow_observations (sv_adblock s) +
     (if mdMatched (adblock_match E (sv_adblock s) n) \<and> sv_semantics s = PolicySemanticsSeparated \<and>
         shadowExactActive (sv_adblock s) then 1 else 0)"
proof -
  have counters: "shadow_observations (e\<lparr>adblockExcMatches := k\<rparr>) = shadow_observations e"
    "shadowExactActive (e\<lparr>adblockExcMatches := k\<rparr>) = shadowExactActive e" for e k
    by (simp_all add: shadow_observations_def shadowExactActive_def)
  show ?thesis
    by (cases "sv_semantics s")
      (simp_all add: content_policy_def Let_def record_keeps_adblock assessed_keeps_adblock observe_counts
        counters split: option.splits)
qed

text \<open>
  the shadow observation only counts. Switching it on or off changes neither the answer nor the
  telemetry of any request, and a request adds at most one observation, exactly when the blocklist
  matched in the content layer, under the separated semantics and with the observation active.
\<close>

theorem shadow_observation_inert:
  "fst (Policy E domain client (set_shadow b s)) = fst (Policy E domain client s) \<and>
   sv_telemetry (snd (Policy E domain client (set_shadow b s))) = sv_telemetry (snd (Policy E domain client s)) \<and>
   shadow_observations (sv_adblock (snd (Policy E domain client s))) =
     shadow_observations (sv_adblock s) +
     (case NormalizeDomain (en_libs E) domain of
        Inl e \<Rightarrow> 0
      | Inr n \<Rightarrow>
          if effective_override E s (cg_id (fst (resolveClientGroup E client s))) n = None \<and>
             \<not> IsAllowed (en_libs E) (sv_whitelist s) (en_wl_cancelled E) n \<and>
             mdMatched (adblock_match E (sv_adblock s) n) \<and> sv_semantics s = PolicySemanticsSeparated \<and>
             shadowExactActive (sv_adblock s) then 1 else 0)"
proof (cases "NormalizeDomain (en_libs E) domain")
  case (Inl e)
  then show ?thesis by (simp add: Policy_def set_shadow_def)
next
  case (Inr n)
  let ?ad = "(sv_adblock s)\<lparr>adblockShadowExactEnabled := b\<rparr>"
  note inert = content_policy_inert[where ad = ?ad and b = b and s = s, OF disjI2, OF refl]
    content_policy_inert[where ad = "sv_adblock s" and b = b and s = s, OF disjI1, OF refl]
  have on: "sv_adblock (admin_upd (sv_groups s) (sv_overrides s) ?ad s) = ?ad" by simp
  have t: "sv_telemetry (record_policy p dec src client (admin_upd g ov ad s)) =
      sv_telemetry (record_policy p dec src client s)" for p dec src g ov ad
    by (simp add: record_policy_frame)
  show ?thesis unfolding set_shadow_upd
    apply (rule Policy_valid[OF Inr, of client "admin_upd (sv_groups s) (sv_overrides s) ?ad s"])
    apply (rule Policy_valid[OF Inr, of client s])
    apply (simp add: Inr Let_def inert t record_keeps_adblock content_policy_observes split: option.splits)
    done
qed

end
