(* ===== verification/EngineProps.thy ===== *)
theory EngineProps
  imports PipelineProps PolicyProps
begin

text \<open>
  Properties of the assessment engine over time: what one request leaves for the next, and what the
  background workers may change.
\<close>

section \<open>What a fresh evaluation leaves behind\<close>

definition fresh_entry :: "cache_epoch \<Rightarrow> result \<Rightarrow> analysis_entry" where
  "fresh_entry ep res =
     \<lparr>ceResult = res, ceFeedRevision = epFeedRevision ep, ceBrandRevision = epBrandRevision ep,
      ceAnalysisRevision = analysisAlgorithmRevision, ceConfigRevision = epConfigRevision ep,
      ceModelRevision = epModelRevision ep, ceOSINTCheckedAt = NoStamp, ceEnrichedAt = NoStamp,
      ceAssessedAt = NoStamp\<rparr>"

text \<open>Two states that agree on everything an epoch is computed from.\<close>

definition same_epoch_state :: "risk_service \<Rightarrow> risk_service \<Rightarrow> bool" where
  "same_epoch_state s s' \<longleftrightarrow>
     (\<exists>ents. sv_redis s' = (sv_redis s)\<lparr>rd_entries := ents\<rparr>) \<and>
     sv_feedRevisionKey s' = sv_feedRevisionKey s \<and> sv_configRevision s' = sv_configRevision s \<and>
     mlMode (sv_ml s') = mlMode (sv_ml s) \<and> mlEnabled (sv_ml s') = mlEnabled (sv_ml s) \<and>
     mlRevision (sv_ml s') = mlRevision (sv_ml s) \<and> mlCanary (sv_ml s') = mlCanary (sv_ml s)"

lemma same_epoch_trans: "same_epoch_state s t \<Longrightarrow> same_epoch_state t u \<Longrightarrow> same_epoch_state s u"
  by (auto simp: same_epoch_state_def)

lemma same_epoch_redis:
  "same_epoch_state s (s\<lparr>sv_redis := (sv_redis s)\<lparr>rd_entries := ents\<rparr>\<rparr>)" "same_epoch_state s s"
  by (auto simp: same_epoch_state_def intro: exI[of _ "rd_entries (sv_redis s)"])

lemma same_epoch_stages:
  "same_epoch_state s (snd (stage_evidence E n s))"
  "same_epoch_state s (snd (stage_models E res a s))"
  "same_epoch_state s (snd (lookupOSINT E n res mode force s))"
  "same_epoch_state s (write_entry key e ttl s)"
  "same_epoch_state s (enqueue_job E job s)"
proof -
  have i: "\<exists>ents. sv_redis s = (sv_redis s)\<lparr>rd_entries := ents\<rparr>"
    by (rule exI[of _ "rd_entries (sv_redis s)"]) simp
  show "same_epoch_state s (snd (stage_evidence E n s))" "same_epoch_state s (snd (stage_models E res a s))"
    "same_epoch_state s (snd (lookupOSINT E n res mode force s))" "same_epoch_state s (enqueue_job E job s)"
    using i by (simp_all add: same_epoch_state_def stage_evidence_def stage_models_def lookupOSINT_def
      enqueue_job_def recordOSINTEvidence_def Let_def case_prod_unfold split: osint_mode.splits option.splits)
  show "same_epoch_state s (write_entry key e ttl s)"
    using same_epoch_redis by (simp add: write_entry_def SetJSON_def)
qed

lemma same_epoch_apply: "same_epoch_state s (snd (applyOSINT E n res rp fr s))"
  using same_epoch_stages(4) same_epoch_redis(2) by (simp add: applyOSINT_def Let_def)

lemma same_epoch_revision:
  "same_epoch_state s s' \<Longrightarrow> en_sha256 E' = en_sha256 E \<Longrightarrow> current_epoch E' s' = current_epoch E s"
proof -
  assume a: "same_epoch_state s s'" "en_sha256 E' = en_sha256 E"
  have "currentMLPolicyRevision (en_sha256 E') (sv_ml s') = currentMLPolicyRevision (en_sha256 E) (sv_ml s)"
    using a unfolding same_epoch_state_def by (metis revision_same_engine)
  moreover obtain ents where r: "sv_redis s' = (sv_redis s)\<lparr>rd_entries := ents\<rparr>"
    using a by (auto simp: same_epoch_state_def)
  have "revision_read (sv_redis s') key = revision_read (sv_redis s) key" for key
    by (simp add: r revision_read_def GetString_def)
  moreover have "sv_feedRevisionKey s' = sv_feedRevisionKey s" "sv_configRevision s' = sv_configRevision s"
    using a by (simp_all add: same_epoch_state_def)
  ultimately show ?thesis
    by (simp add: current_epoch_def currentFeedRevision_def currentBrandRevision_def)
qed

lemma analyze_fresh_epoch: "same_epoch_state s (snd (analyze_fresh E n mode force ep s))"
proof -
  let ?e = "stage_evidence E n s"
  let ?m = "stage_models E (fst (fst ?e)) (snd (fst ?e)) (snd ?e)"
  let ?L = "lookupOSINT E n (fst (fst ?m)) mode force (snd ?m)"
  let ?A = "applyOSINT E n (fst (fst ?m)) (fst ?L) (epFeedRevision ep) (snd ?L)"
  have "same_epoch_state s (snd ?A)"
    using same_epoch_stages(1-3) same_epoch_apply same_epoch_trans by meson
  then show ?thesis
    unfolding analyze_fresh_def Let_def case_prod_unfold
    using same_epoch_stages(4,5) same_epoch_trans by (simp split: if_split) meson
qed

lemma fresh_written:
  assumes "rd_enabled (sv_redis s)" and "\<not> rd_wfault (sv_redis s) (analysisCacheKey n (epModelRevision ep))"
  shows "\<exists>ttl. rd_entries (sv_redis (snd (analyze_fresh E n mode force ep s))) (analysisCacheKey n (epModelRevision ep)) =
    Some (CachedEntry (fresh_entry ep (fst (fst (analyze_fresh E n mode force ep s)))), ttl)"
proof -
  let ?e = "stage_evidence E n s"
  let ?m = "stage_models E (fst (fst ?e)) (snd (fst ?e)) (snd ?e)"
  let ?L = "lookupOSINT E n (fst (fst ?m)) mode force (snd ?m)"
  let ?A = "applyOSINT E n (fst (fst ?m)) (fst ?L) (epFeedRevision ep) (snd ?L)"
  have "same_epoch_state (snd ?L) (snd ?A)" by (rule same_epoch_apply)
  then obtain ents where "sv_redis (snd ?A) = (sv_redis s)\<lparr>rd_entries := ents\<rparr>"
    by (auto simp: same_epoch_state_def)
  then have "rd_enabled (sv_redis (snd ?A))" "\<not> rd_wfault (sv_redis (snd ?A)) (analysisCacheKey n (epModelRevision ep))"
    using assms by simp_all
  then show ?thesis
    by (simp add: analyze_fresh_def Let_def case_prod_unfold write_entry_def SetJSON_def enqueue_job_def
        fresh_entry_def applyOSINT_fst)
qed

lemma analyze_fresh_domain:
  assumes "NormalizeDomain (en_libs E) n = Inr n"
  shows "aDomain (fst (fst (analyze_fresh E n mode force ep s))) = n"
proof -
  have f: "aDomain (fst (fst (feedResult r now n brands fe))) \<in> {n, []}" for r now brands fe
    by (auto simp: feedResult_def Let_def no_result_def threatFeedHit_def sharedApexFeedHit_def split: sum.splits)
  have l: "aDomain (analyzeLexical E n) = n"
    using assms by (simp add: analyzeLexical_def analyzeWithBrands_def lexical_result_def Let_def case_prod_unfold)
  have e: "aDomain (fst (fst (stage_evidence E n s))) = n"
    using f[of "sv_redis s" "en_unix E" "en_brands E" "sv_feed s"] l
    by (auto simp: stage_evidence_def Let_def case_prod_unfold)
  have r: "aDomain (refineWithAI E res) = aDomain res" for res
    by (simp add: refineWithAI_def split: option.splits prod.splits)
  have m: "aDomain (fst (fst (stage_models E res a t))) = aDomain res" for res a t
    by (simp add: stage_models_def Let_def case_prod_unfold r)
  have "aDomain (Apply res rp) = aDomain res" for res rp by (simp add: Apply_def)
  then show ?thesis using e m by (simp add: analyze_fresh_result Let_def case_prod_unfold)
qed

section \<open>Properties\<close>

lemma fresh_entry_hit:
  assumes "n \<noteq> []" "aDomain res = n" "epFeedKnown ep" "epBrandKnown ep" "epAnalysisRevision ep = analysisAlgorithmRevision"
  shows "entryMatchesRevision (fresh_entry ep res) ep"
  using assms by (simp add: entryMatchesRevision_iff fresh_entry_def)

text \<open>
  a fresh evaluation is found again. When Redis works, the evaluation of a domain that was not
  cached is stored, and the next request for it in the same epoch, with no OSINT service that could
  add evidence, is answered from the cache with the same result.
\<close>

theorem fresh_evaluation_is_cached:
  assumes "NormalizeDomain (en_libs E) n = Inr n" and "n \<noteq> []"
    and "rd_enabled (sv_redis s)" and "\<forall>k. \<not> rd_sfault (sv_redis s) k \<and> \<not> rd_rfault (sv_redis s) k \<and> \<not> rd_wfault (sv_redis s) k"
    and "\<not> fst (snd (fst (analyze E n mode force s)))"
    and "en_libs E' = en_libs E" and "en_sha256 E' = en_sha256 E" and "\<not> en_osint_enabled E'"
  shows "let again = fst (analyze E' n mode' force' (snd (analyze E n mode force s))) in
    fst again = fst (fst (analyze E n mode force s)) \<and> fst (snd again)"
proof -
  let ?ep = "current_epoch E s" and ?f = "analyze_fresh E n mode force (current_epoch E s) s"
  let ?key = "analysisCacheKey n (epModelRevision ?ep)"
  have hit: "fst (snd (fst (analyze_cached F n m f entry fr t)))" for F m f entry fr t
    by (simp add: analyze_cached_def Let_def case_prod_unfold)
  have miss: "cache_lookup (sv_redis s) ?key ?ep = None"
    using assms(5) hit by (auto simp: analyze_def assms(1) Let_def split: option.splits)
  then have fresh: "analyze E n mode force s = ?f" by (simp add: analyze_def assms(1) Let_def)
  have ep: "current_epoch E' (snd ?f) = ?ep" using same_epoch_revision[OF analyze_fresh_epoch assms(7)] .
  have known: "snd (revision_read (sv_redis s) k)" for k
    using assms(3,4) by (simp add: revision_read_def GetString_def split: option.splits)
  have "epFeedKnown ?ep" "epBrandKnown ?ep" "epAnalysisRevision ?ep = analysisAlgorithmRevision"
    by (simp_all add: current_epoch_def currentFeedRevision_def currentBrandRevision_def case_prod_unfold
        Let_def known)
  then have m: "entryMatchesRevision (fresh_entry ?ep (fst (fst ?f))) ?ep"
    using fresh_entry_hit assms(2) analyze_fresh_domain[OF assms(1)] by blast
  have w: "\<not> rd_wfault (sv_redis s) ?key" using assms(4) by blast
  obtain ttl where e: "rd_entries (sv_redis (snd ?f)) ?key = Some (CachedEntry (fresh_entry ?ep (fst (fst ?f))), ttl)"
    using fresh_written[OF assms(3) w, of E mode force] by blast
  obtain ents where r: "sv_redis (snd ?f) = (sv_redis s)\<lparr>rd_entries := ents\<rparr>"
    using analyze_fresh_epoch[of s E n mode force ?ep] unfolding same_epoch_state_def by blast
  then have on: "rd_enabled (sv_redis (snd ?f))" "\<not> rd_rfault (sv_redis (snd ?f)) ?key" using assms(3,4) by simp_all
  have "cache_lookup (sv_redis (snd ?f)) ?key ?ep = Some (fresh_entry ?ep (fst (fst ?f)))"
    unfolding cache_lookup_def GetJSON_def using e on m by simp
  then have "analyze E' n mode' force' (snd ?f) =
      analyze_cached E' n mode' force' (fresh_entry ?ep (fst (fst ?f))) (epFeedRevision ?ep) (snd ?f)"
    by (simp add: analyze_def assms(1,6) Let_def ep)
  moreover have "fst (lookupOSINT E' n x mode' force' t) = no_report" for x t
    using assms(8) by (simp add: lookupOSINT_def)
  ultimately show ?thesis
    by (simp add: fresh Let_def hit analyze_cached_result Apply_def no_report_def fresh_entry_def)
qed

theorem fresh_evaluation_is_cached_witness:
  "fst (snd (fst (analyze demo_engines ''login.example.co.uk'' osintLookupCachedOnly False
     (snd (analyze demo_engines ''login.example.co.uk'' osintLookupCachedOnly False demo_service)))))"
proof -
  have n: "NormalizeDomain (en_libs demo_engines) ''login.example.co.uk'' = Inr ''login.example.co.uk''"
    and m: "\<not> fst (snd (fst (analyze demo_engines ''login.example.co.uk'' osintLookupCachedOnly False demo_service)))"
    by (atomize (full)) code_simp
  have r: "rd_enabled (sv_redis demo_service)"
    "\<forall>k. \<not> rd_sfault (sv_redis demo_service) k \<and> \<not> rd_rfault (sv_redis demo_service) k \<and> \<not> rd_wfault (sv_redis demo_service) k"
    by (simp_all add: demo_service_def demo_redis_def)
  have "\<not> en_osint_enabled demo_engines" by (simp add: demo_engines_def)
  from fresh_evaluation_is_cached[OF n _ r m refl refl this, of osintLookupCachedOnly False]
  show ?thesis by (simp add: Let_def)
qed




definition demo_signals :: signals where
  "demo_signals = \<lparr>sgDNS = DNSOutcomeTimeout, sgTLSScore = 20, sgTLSAdvisory = 0, sgTLSReasons = [''self-signed''],
     sgWHOISScore = 25, sgWHOISReasons = []\<rparr>"

definition demo_worker :: worker_env where
  "demo_worker = \<lparr>weSignals = (\<lambda>d. demo_signals), weNow = 7, weOthers = [], weFeedRevisionKey = [],
     weConfigRevision = [], weModelRevision = [], weTTL = (\<lambda>v. 0)\<rparr>"

definition demo_job :: enrichment_job where
  "demo_job = \<lparr>ejDomain = ''login.example.co.uk'', ejResult = no_result\<lparr>aDomain := ''login.example.co.uk'', aScore := 30\<rparr>,
     ejFeedRevision = [], ejBrandRevision = [], ejConfigRevision = [], ejModelRevision = [], ejQueuedAt = At 5\<rparr>"


lemma process_unhindered:
  assumes "rd_enabled r" and "\<forall>k. \<not> rd_rfault r k \<and> \<not> rd_wfault r k" and "weOthers W = []"
    and "same_revision (currentFeedRevision r (weFeedRevisionKey W)) (ejFeedRevision job)"
    and "same_revision (currentBrandRevision r) (ejBrandRevision job)"
    and "weConfigRevision W = ejConfigRevision job" and "weModelRevision W = ejModelRevision job"
    and "recency_guard (jobQueuedAt (ejQueuedAt job))
           (map_option fst (rd_entries r (analysisCacheKey (ejDomain job) (ejModelRevision job)))) = Some True"
  shows "processEnrichmentJob W job r =
    (True, r\<lparr>rd_entries := (rd_entries r)(analysisCacheKey (ejDomain job) (ejModelRevision job) \<mapsto>
      (CachedEntry (enriched_entry W job), weTTL W (aVerdict (ceResult (enriched_entry W job)))))\<rparr>)"
  using assms by (simp add: processEnrichmentJob_def CompareAndSwapJSON_def casMaxAttempts_def eval_nat_numeral Let_def)

text \<open>
  the recency guard does not protect a fresh evaluation. Whatever the clocks say, the entry a
  fresh evaluation stores carries no time stamp, so a job of the same epoch that was queued earlier
  is written over it, and the cache then holds the enrichment of the older snapshot.
\<close>

theorem older_job_overwrites_fresh_evaluation:
  assumes "rd_enabled (sv_redis s)" and "\<forall>k. \<not> rd_rfault (sv_redis s) k \<and> \<not> rd_wfault (sv_redis s) k"
    and "ep = current_epoch E s" and "r = sv_redis (snd (analyze_fresh E n mode force ep s))"
    and "ejDomain job = n" and "ejModelRevision job = epModelRevision ep" and "ejConfigRevision job = epConfigRevision ep"
    and "ejFeedRevision job = epFeedRevision ep" and "ejBrandRevision job = epBrandRevision ep"
    and "0 \<le> jobQueuedAt (ejQueuedAt job)" and "weOthers W = []" and "weFeedRevisionKey W = sv_feedRevisionKey s"
    and "weConfigRevision W = epConfigRevision ep" and "weModelRevision W = epModelRevision ep"
  shows "fst (processEnrichmentJob W job r) \<and>
    (\<exists>ttl. rd_entries (snd (processEnrichmentJob W job r)) (analysisCacheKey n (epModelRevision ep)) =
       Some (CachedEntry (enriched_entry W job), ttl)) \<and>
    ceResult (enriched_entry W job) = applyEnrichmentSignals (weSignals W n) (ejResult job)"
proof -
  obtain ents where r: "r = (sv_redis s)\<lparr>rd_entries := ents\<rparr>"
    using analyze_fresh_epoch[of s E n mode force ep] unfolding same_epoch_state_def assms(4) by blast
  have w: "\<not> rd_wfault (sv_redis s) (analysisCacheKey n (epModelRevision ep))" using assms(2) by blast
  obtain ttl where e: "rd_entries r (analysisCacheKey n (epModelRevision ep)) =
      Some (CachedEntry (fresh_entry ep (fst (fst (analyze_fresh E n mode force ep s)))), ttl)"
    using fresh_written[OF assms(1) w, of E mode force] unfolding assms(4) by blast
  have read: "revision_read r k = revision_read (sv_redis s) k" for k
    by (simp add: r revision_read_def GetString_def)
  have "same_revision (currentFeedRevision r (weFeedRevisionKey W)) (ejFeedRevision job)"
    "same_revision (currentBrandRevision r) (ejBrandRevision job)"
    using assms(3,8,9,12)
    by (simp_all add: same_revision_def currentFeedRevision_def currentBrandRevision_def read current_epoch_def
        case_prod_unfold Let_def)
  moreover have "recency_guard (jobQueuedAt (ejQueuedAt job))
      (map_option fst (rd_entries r (analysisCacheKey (ejDomain job) (ejModelRevision job)))) = Some True"
    using e assms(5,6,10) by (simp add: recency_guard_def fresh_entry_def entryAssessedAt_def newer_def)
  moreover have "rd_enabled r" "\<forall>k. \<not> rd_rfault r k \<and> \<not> rd_wfault r k" using assms(1,2) by (simp_all add: r)
  ultimately show ?thesis
    using process_unhindered[of r W job] assms(5,6,7,11,13,14) by (simp add: enriched_entry_def)
qed

theorem older_job_overwrites_fresh_evaluation_witness:
  "fst (processEnrichmentJob demo_worker demo_job
     (sv_redis (snd (analyze_fresh demo_engines ''login.example.co.uk'' osintLookupCachedOnly False
        (current_epoch demo_engines demo_service) demo_service))))"
proof -
  have s: "rd_enabled (sv_redis demo_service)" "\<forall>k. \<not> rd_rfault (sv_redis demo_service) k \<and> \<not> rd_wfault (sv_redis demo_service) k"
    by (simp_all add: demo_service_def demo_redis_def)
  have j: "ejDomain demo_job = ''login.example.co.uk''"
    "ejModelRevision demo_job = epModelRevision (current_epoch demo_engines demo_service)"
    "ejConfigRevision demo_job = epConfigRevision (current_epoch demo_engines demo_service)"
    "ejFeedRevision demo_job = epFeedRevision (current_epoch demo_engines demo_service)"
    "ejBrandRevision demo_job = epBrandRevision (current_epoch demo_engines demo_service)"
    "0 \<le> jobQueuedAt (ejQueuedAt demo_job)"
    "weOthers demo_worker = []" "weFeedRevisionKey demo_worker = sv_feedRevisionKey demo_service"
    "weConfigRevision demo_worker = epConfigRevision (current_epoch demo_engines demo_service)"
    "weModelRevision demo_worker = epModelRevision (current_epoch demo_engines demo_service)"
    by (simp_all add: demo_job_def demo_worker_def demo_service_def demo_redis_def demo_engines_def current_epoch_def
        currentMLPolicyRevision_def currentFeedRevision_def currentBrandRevision_def revision_read_def GetString_def
        jobQueuedAt_def)
  from older_job_overwrites_fresh_evaluation[OF s refl refl j] show ?thesis by blast
qed

text \<open>
  what the background signals can do to a score. The result never exceeds 100 and its verdict is
  the one of its score; the outcome of the DNS lookup changes neither score nor verdict nor
  confidence; and weak TLS metadata alone adds at most ten points to a domain below 40, or on CDN and
  trusted infrastructure, so it never makes such a domain malicious by itself when it starts below 40.
\<close>

theorem enrichment_signal_bounds:
  assumes "out = applyEnrichmentSignals sg res"
  shows "aScore out \<le> 100 \<and> aVerdict out = score_verdict (aScore out) \<and> aConfidence out \<le> 1 \<and>
    (let out' = applyEnrichmentSignals (sg\<lparr>sgDNS := outcome\<rparr>) res in
     aScore out' = aScore out \<and> aVerdict out' = aVerdict out \<and> aConfidence out' = aConfidence out) \<and>
    (sgTLSScore sg = sgTLSAdvisory sg \<and> 0 \<le> sgTLSScore sg \<and> sgWHOISScore sg = 0 \<longrightarrow>
     (aScore res < 40 \<or> IsCDNRoot (RegisteredDomain (aDomain res)) \<or> IsTrustedInfraSuffix (aDomain res) \<longrightarrow>
        aScore out \<le> aScore res + 10) \<and>
     (aScore res < 40 \<longrightarrow> aVerdict out \<noteq> VerdictMalicious))"
proof -
  have tls: "tls_weight res (sg\<lparr>sgDNS := outcome\<rparr>) = tls_weight res sg"
    by (simp add: tls_weight_def Let_def)
  have weak: "tls_weight res sg \<le> 10"
    if "sgTLSScore sg = sgTLSAdvisory sg" "0 \<le> sgTLSScore sg"
      "aScore res < 40 \<or> IsCDNRoot (RegisteredDomain (aDomain res)) \<or> IsTrustedInfraSuffix (aDomain res)"
    using that by (auto simp: tls_weight_def Let_def maxTLSAdvisoryPromotion_def minScoreForFullTLSWeight_def)
  show ?thesis unfolding assms using weak
    by (auto simp: applyEnrichmentSignals_def Let_def tls)
qed

theorem enrichment_signal_bounds_witness:
  "aScore (applyEnrichmentSignals demo_signals (no_result\<lparr>aScore := 30\<rparr>)) \<le> 100"
  using enrichment_signal_bounds[OF refl, of demo_signals "no_result\<lparr>aScore := 30\<rparr>" DNSOutcomeOK] by blast

text \<open>
  C29: whatever requests and workers do, a domain is in flight exactly while one job of it is queued or
  being processed, no two such jobs share a domain, and the queue never exceeds its capacity.
\<close>

theorem one_job_per_domain:
  assumes "enrich_run (s, []) (t, busy)" and "enrichQueue s = []" and "enrichInFlight s = {}"
  shows "distinct (map ejDomain (enrichQueue t @ busy)) \<and>
     enrichInFlight t = ejDomain ` set (enrichQueue t @ busy) \<and>
     (\<forall>n. enrichCap t = Some n \<longrightarrow> length (enrichQueue t) \<le> n)"
proof -
  have "enrich_inv (s, [])" using assms(2,3) by (simp add: enrich_inv_def split: option.splits)
  from enrich_run_inv[OF assms(1) this] show ?thesis by (auto simp: enrich_inv_def)
qed

theorem one_job_per_domain_witness:
  "let t = enqueueEnrichment False demo_job (enqueueEnrichment False demo_job (sv_enrich demo_service)) in
   distinct (map ejDomain (enrichQueue t))"
proof -
  let ?s = "sv_enrich demo_service"
  have "enrich_run (?s, []) (enqueueEnrichment False demo_job (enqueueEnrichment False demo_job ?s), [])"
    by (rule enrich_run.Step[OF enrich_run.Step[OF enrich_run.Refl enrich_step.Enqueue] enrich_step.Enqueue])
  from one_job_per_domain[OF this] show ?thesis by (simp add: Let_def demo_service_def)
qed

end
