(* ===== verification/AnalyzeProps.thy ===== *)
theory AnalyzeProps
  imports EngineProps
begin

text \<open>
  The two request paths compared: \<^const>\<open>Policy\<close> for DNS and \<^const>\<open>AnalyzeWithOptions\<close> for the API
  share the administrative layers.
\<close>

text \<open>The layers of \<^const>\<open>AnalyzeWithOptions\<close> ask whether the result so far has a domain.\<close>

lemma layer_domains [simp]:
  "aDomain (override_result n ov) = n" "aDomain (whitelist_result n) = n" "aDomain (legacy_result n) = n"
  "aDomain no_result = []"
  by (simp_all add: override_result_def whitelist_result_def legacy_result_def no_result_def)

lemma try_override_fst:
  "fst (try_override E grp n s) =
     (case effective_override E s (cg_id grp) n of
        None \<Rightarrow> (no_result, None, evaluated [LayerIdentity, LayerOverride] newDomainAssessment)
      | Some ov \<Rightarrow> (override_result n ov, Some (adminPolicyDecision (ov_action ov)),
          skipped ([LayerWhitelist, LayerAdblock] @ engineSkippedLayers)
            (evaluated [LayerIdentity, LayerOverride] newDomainAssessment)))"
  using resolveOverride_fst[of E grp n s]
  by (cases "resolveOverride E grp n s") (auto simp: try_override_def Let_def split: option.splits)

lemma try_override_state: "snd (try_override E grp n s) = snd (resolveOverride E grp n s)"
  by (cases "resolveOverride E grp n s") (auto simp: try_override_def Let_def split: option.splits)

text \<open>What the layers before the engine leave, for a non-empty domain.\<close>

definition layers_before_engine ::
  "engines \<Rightarrow> client_group \<Rightarrow> string \<Rightarrow> risk_service \<Rightarrow> (result \<times> policy_decision) option" where
  "layers_before_engine E grp n s =
     (case effective_override E s (cg_id grp) n of
        Some ov \<Rightarrow> Some (override_result n ov, adminPolicyDecision (ov_action ov))
      | None \<Rightarrow>
          if IsAllowed (en_libs E) (sv_whitelist s) (en_wl_cancelled E) n
          then Some (whitelist_result n, allowlistPolicyDecision)
          else if mdMatched (adblock_match E (sv_adblock s) n) \<and> sv_semantics s = PolicySemanticsLegacy
          then Some (legacy_result n, legacyPolicyDecision) else None)"

lemma Match_adblock:
  "adblockEnabled e \<and> (case adblockTrie e of None \<Rightarrow> False | Some t \<Rightarrow> Match (en_libs E) t n) \<longleftrightarrow>
     mdMatched (adblock_match E e n)"
  by (simp add: adblock_match_def Match_def MatchRule_def no_match_def Let_def split: option.splits)

lemma before_engine:
  assumes "n \<noteq> []" and "layers_before_engine E grp n s = Some (res, decision)"
    and "s' = admin_upd g ov (sv_adblock s) s"
    and "x = try_adblock E n s' (try_whitelist E n s' (fst (try_override E grp n s)))"
  shows "fst x = res \<and> fst (snd x) = Some decision \<and> aDomain res \<noteq> []"
proof (cases "effective_override E s (cg_id grp) n")
  case None
  show ?thesis
  proof (cases "IsAllowed (en_libs E) (sv_whitelist s) (en_wl_cancelled E) n")
    case True
    then show ?thesis using None assms
      by (auto simp: layers_before_engine_def try_override_fst try_whitelist_def try_adblock_def resolveWhitelist_def)
  next
    case False
    then have "mdMatched (adblock_match E (sv_adblock s) n)" "sv_semantics s = PolicySemanticsLegacy"
      "res = legacy_result n" "decision = legacyPolicyDecision"
      using None assms(2) by (auto simp: layers_before_engine_def split: if_splits)
    then show ?thesis using None False assms(1,3,4) Match_adblock[of "sv_adblock s" E n]
      by (simp add: try_override_fst try_whitelist_def try_adblock_def resolveWhitelist_def Let_def)
  qed
next
  case (Some ov)
  then show ?thesis using assms
    by (auto simp: layers_before_engine_def try_override_fst try_whitelist_def try_adblock_def)
qed

lemma try_engine_done:
  "aDomain (fst x) \<noteq> [] \<Longrightarrow> try_engine E n force s x = ((fst x, False, [], fst (snd x), snd (snd x)), s)"
  by (simp add: try_engine_def case_prod_unfold)

lemma layers_frame: "layers_before_engine E grp n (admin_upd g ov (sv_adblock s) s) = layers_before_engine E grp n s"
  by (cases "effective_override E s (cg_id grp) n") (auto simp: layers_before_engine_def)

lemma AnalyzeWithOptions_layers:
  assumes "NormalizeDomain (en_libs E) domain = Inr n" and "n \<noteq> []"
    and "grp = fst (resolveClientGroup E client s)"
    and "layers_before_engine E grp n s = Some (res, decision)"
  shows "let a = fst (AnalyzeWithOptions E domain client includeEvidence force s) in
    anResult a = res \<and> anDecision a = Some decision \<and> \<not> anCacheHit a \<and> anEvidence a = []"
proof -
  let ?s1 = "snd (resolveClientGroup E client s)"
  obtain g where g: "?s1 = admin_upd g (sv_overrides s) (sv_adblock s) s"
    using resolveClientGroup_state by blast
  obtain ov where o: "snd (try_override E grp n ?s1) = admin_upd g ov (sv_adblock ?s1) ?s1"
    using resolveOverride_state[of E grp n ?s1] g by (auto simp: try_override_state)
  define x where "x = try_adblock E n (snd (try_override E grp n ?s1))
    (try_whitelist E n (snd (try_override E grp n ?s1)) (fst (try_override E grp n ?s1)))"
  have "layers_before_engine E grp n ?s1 = Some (res, decision)" using assms(4) by (simp add: g layers_frame)
  from before_engine[OF assms(2) this o x_def]
  have x: "fst x = res" "fst (snd x) = Some decision" "aDomain (fst x) \<noteq> []" by auto
  show ?thesis
    unfolding AnalyzeWithOptions_def assms(1) sum.case Let_def case_prod_unfold assms(3)[symmetric] x_def[symmetric]
      try_engine_done[OF x(3)]
    using x by simp
qed

text \<open>
  the DNS path and the API path agree on the administrative layers. When an operator override or
  the allow list decides a valid domain, \<open>AnalyzeWithOptions\<close> returns the result and the decision that
  \<open>Policy\<close> returns, without asking the engine.
\<close>

theorem analyze_agrees_with_policy:
  assumes "NormalizeDomain (en_libs E) domain = Inr n" and "n \<noteq> []"
    and "grp = fst (resolveClientGroup E client s)"
    and "effective_override E s (cg_id grp) n \<noteq> None \<or>
         IsAllowed (en_libs E) (sv_whitelist s) (en_wl_cancelled E) n"
  shows "let a = fst (AnalyzeWithOptions E domain client includeEvidence force s); p = fst (Policy E domain client s) in
    anResult a = plResult p \<and> anDecision a = plDecision p \<and> \<not> anCacheHit a \<and>
    (plPolicy p = ''block'' \<longleftrightarrow> aVerdict (anResult a) = VerdictMalicious)"
proof -
  obtain res decision where l: "layers_before_engine E grp n s = Some (res, decision)"
    using assms(4) by (cases "effective_override E s (cg_id grp) n") (auto simp: layers_before_engine_def)
  have "plResult (fst (Policy E domain client s)) = res \<and> plDecision (fst (Policy E domain client s)) = Some decision \<and>
      (plPolicy (fst (Policy E domain client s)) = ''block'' \<longleftrightarrow> aVerdict res = VerdictMalicious)"
    using l assms(4)
    by (auto simp: Policy_layers[OF assms(1)] Let_def assms(3)[symmetric] layers_before_engine_def layer_policy_def
        override_result_def whitelist_result_def split: option.splits if_splits)
  with AnalyzeWithOptions_layers[OF assms(1-3) l, of includeEvidence force] show ?thesis by (simp add: Let_def)
qed

definition demo_blocked :: risk_service where
  "demo_blocked = demo_service\<lparr>sv_tables := Some (sample_tables\<lparr>
     gt_global := [\<lparr>ov_domain = ''example.com'', ov_action = ''block'', ov_reason = ''malware''\<rparr>]\<rparr>)\<rparr>"

theorem analyze_agrees_with_policy_witness:
  "anDecision (fst (AnalyzeWithOptions demo_engines ''Example.COM'' demo_client False False demo_blocked)) =
   plDecision (fst (Policy demo_engines ''Example.COM'' demo_client demo_blocked))"
proof -
  have n: "NormalizeDomain (en_libs demo_engines) ''Example.COM'' = Inr ''example.com''"
    and o: "effective_override demo_engines demo_blocked
        (cg_id (fst (resolveClientGroup demo_engines demo_client demo_blocked))) ''example.com'' \<noteq> None"
    by (atomize (full)) code_simp
  show ?thesis
    using analyze_agrees_with_policy[OF n _ refl disjI1[OF o], of False False] by (simp add: Let_def)
qed

end
