(* ===== verification/ResolverPolicy.thy ===== *)
theory ResolverPolicy
  imports EngineProps DnsResolverProps
begin

text \<open>
  The resolver on top of the decision engine. The interface between them is the locale
  \<open>name_policy\<close>: the resolver asks whether a name is blocked, and the engine promises that a name an
  operator blocks is blocked and that an exempt name (an operator allow or an allow-list entry) is
  not. The resolver's consequences are proved once in the locale; the engine's
  \<^const>\<open>Policy\<close> interprets it.
\<close>

section \<open>The interface\<close>

locale name_policy =
  fixes blocks :: "string \<Rightarrow> bool" and forced :: "string \<Rightarrow> bool" and exempt :: "string \<Rightarrow> bool"
  assumes forced_blocked: "forced d \<Longrightarrow> blocks d"
    and exempt_open: "exempt d \<Longrightarrow> \<not> blocks d"
begin

lemma forced_answer:
  assumes "forced (dot_trimmed (question_name query))" and "m_question query \<noteq> []"
    and "inflight r < concurrency_limit (r_config r)"
  shows "ResolveQuery L blocks upstream now later query r = (Inr (BlockedDNSMessage L (r_config r) query), r)"
  using assms forced_blocked[OF assms(1)] by (simp add: ResolveQuery_def answer_query_def Let_def)

lemma relayed_not_forced:
  assumes "resolver_run L (New_resolver cfg) r"
    and "ResolveQuery L blocks upstream now later query r = (Inr m, r')"
    and "m \<noteq> BlockedDNSMessage L (r_config r) query"
    and "d = dot_trimmed (question_name query) \<or> d \<in> dot_trimmed ` set (cname_targets m)"
  shows "\<not> blocks d \<and> \<not> forced d"
proof -
  have ok: "DnsCacheProps.cache_ok (r_cache r)" using resolver_run_ok [OF assms(1) New_resolver_ok] by blast
  have "fst (answer_query L (r_config r) blocks upstream now later query (r_cache r)) = Inr m"
    using assms(2) by (auto simp: ResolveQuery_def Let_def split_beta split: if_splits)
  from answer_query_result [OF ok this] show ?thesis using assms(3,4) forced_blocked by auto
qed

end

section \<open>The engine's decision\<close>

text \<open>Each name is decided with the state and the parties of the moment it is asked at.\<close>

definition policy_blocks :: "(string \<Rightarrow> engines) \<Rightarrow> (string \<Rightarrow> risk_service) \<Rightarrow> client_info \<Rightarrow> string \<Rightarrow> bool" where
  "policy_blocks E s client d = (plPolicy (fst (Policy (E d) d client (s d))) = ''block'')"

definition operator_action ::
  "(string \<Rightarrow> engines) \<Rightarrow> (string \<Rightarrow> risk_service) \<Rightarrow> client_info \<Rightarrow> string \<Rightarrow> string option" where
  "operator_action E s client d =
     (case NormalizeDomain (en_libs (E d)) d of
        Inl e \<Rightarrow> None
      | Inr n \<Rightarrow> map_option ov_action
          (effective_override (E d) (s d) (cg_id (fst (resolveClientGroup (E d) client (s d)))) n))"

definition allow_listed :: "(string \<Rightarrow> engines) \<Rightarrow> (string \<Rightarrow> risk_service) \<Rightarrow> string \<Rightarrow> bool" where
  "allow_listed E s d =
     (case NormalizeDomain (en_libs (E d)) d of
        Inl e \<Rightarrow> False
      | Inr n \<Rightarrow> IsAllowed (en_libs (E d)) (sv_whitelist (s d)) (en_wl_cancelled (E d)) n)"

interpretation engine_policy: name_policy "policy_blocks E s client"
  "\<lambda>d. operator_action E s client d = Some ''block''"
  "\<lambda>d. operator_action E s client d = Some ''allow'' \<or> operator_action E s client d = None \<and> allow_listed E s d"
  for E s client
proof unfold_locales
  fix d
  assume "operator_action E s client d = Some ''block''"
  then obtain n where n: "NormalizeDomain (en_libs (E d)) d = Inr n"
    by (auto simp: operator_action_def split: sum.splits)
  then show "policy_blocks E s client d" using \<open>operator_action E s client d = Some ''block''\<close>
    unfolding policy_blocks_def Policy_block_iff[OF n]
    by (auto simp: operator_action_def Let_def)
next
  fix d
  assume a: "operator_action E s client d = Some ''allow'' \<or> operator_action E s client d = None \<and> allow_listed E s d"
  then obtain n where n: "NormalizeDomain (en_libs (E d)) d = Inr n"
    by (auto simp: operator_action_def allow_listed_def split: sum.splits)
  then show "\<not> policy_blocks E s client d" using a
    unfolding policy_blocks_def Policy_block_iff[OF n]
    by (auto simp: operator_action_def allow_listed_def Let_def)
qed

end
