(* ===== verification/FeedParse.thy ===== *)
theory FeedParse
  imports SharedInfra EnvConfig
begin

text \<open>
  Reading a threat feed: \<^verbatim>\<open>internal/feed/parse.go\<close>. A body is either a CSV file or a list of host
  names, URLs or hosts-file lines; every valid candidate is an indicator that is handed to a handler
  with a flag telling whether its domain was seen before. The handler may change the statistics,
  which the callers share with the parser, and its own state. The set of seen domains is bounded.

  The body is what the size-limited reader delivers, and whether a read error other than the end of
  the file follows. The results of successive calls of the CSV reader, the URL parser, SHA-256 and
  the public suffix list are fields of the record \<open>feed_libs\<close>. A loop over CSV records that never
  reaches the end of the file does not return, which is the value \<^const>\<open>None\<close>.
\<close>

section \<open>External packages and bodies\<close>

record feed_url =
  fu_hostname :: string
  fu_path :: string
  fu_query :: string
  fu_fragment :: string

datatype csv_read = CsvRow "string list" | CsvError | CsvEOF

record feed_body =
  fb_bytes :: string
  fb_fails :: bool

record feed_libs =
  fl_libs :: libs
  fl_url :: "string \<Rightarrow> feed_url option"
  fl_sha256 :: "string \<Rightarrow> string"
  fl_suffix :: "string \<Rightarrow> string"
  fl_csv :: "feed_body \<Rightarrow> nat \<Rightarrow> csv_read"

datatype feed_error =
    ErrLineTooLong
  | ErrReadFailed
  | ErrRedisOp
  | ErrAdmissionMode string
  | ErrSourceRequired
  | ErrPlainHTTP string
  | ErrFilterOnly
  | ErrOpen
  | ErrRedisRequired
  | ErrNoValidDomain string

section \<open>Statistics and indicators\<close>

record parse_stats =
  Valid :: nat
  Invalid :: nat
  Duplicates :: nat
  Skipped :: nat
  SkippedPublicSuffix :: nat
  SkippedSharedHost :: nat
  ChurnProneTenants :: nat
  TruncatedDomains :: nat

definition no_stats :: parse_stats where
  "no_stats = \<lparr>Valid = 0, Invalid = 0, Duplicates = 0, Skipped = 0, SkippedPublicSuffix = 0,
     SkippedSharedHost = 0, ChurnProneTenants = 0, TruncatedDomains = 0\<rparr>"

datatype indicator_kind = IndicatorDomain | IndicatorURL

record indicator =
  iDomain :: string
  iKind :: indicator_kind
  iPathScoped :: bool
  resourceFingerprint :: string

definition stripComment :: "string \<Rightarrow> string" where
  "stripComment value =
     (if has_prefix value ''#'' then []
      else if contains value ''://'' then value
      else (let index = index_byte value (CHR ''#'') in
            if index \<ge> 0 then trim_space (take (nat index) value) else value))"

definition finish_indicator :: "libs \<Rightarrow> string \<Rightarrow> indicator \<Rightarrow> string + indicator" where
  "finish_indicator L value ind =
     (case NormalizeDomain L value of
        Inl e \<Rightarrow> Inl e
      | Inr domain \<Rightarrow>
          if \<not> contains domain ''.'' then Inl ''feed candidate must be a domain, not a single label''
          else Inr (ind\<lparr>iDomain := domain\<rparr>))"

definition blank_indicator :: indicator where
  "blank_indicator = \<lparr>iDomain = [], iKind = IndicatorDomain, iPathScoped = False,
     resourceFingerprint = replicate 32 (CHR 0x00)\<rparr>"

definition normalizeIndicator :: "feed_libs \<Rightarrow> string \<Rightarrow> string + indicator" where
  "normalizeIndicator F raw =
     (let value = trim_space raw in
      if value = [] then Inl ''empty feed candidate''
      else if contains value ''://'' \<or> (contains value ''/'' \<and> \<not> has_prefix value ''/'') then
        (let parseValue = (if contains value ''://'' then value else ''http://'' @ value) in
         case fl_url F parseValue of
           None \<Rightarrow> Inl ''invalid feed url candidate''
         | Some parsed \<Rightarrow>
             if fu_hostname parsed = [] then Inl ''invalid feed url candidate''
             else
               (let scoped = ((fu_path parsed \<noteq> [] \<and> fu_path parsed \<noteq> ''/'') \<or>
                              fu_query parsed \<noteq> [] \<or> fu_fragment parsed \<noteq> []);
                    resourceKey = fu_path parsed @ ''?'' @ fu_query parsed @ ''#'' @ fu_fragment parsed
                in finish_indicator (fl_libs F) (fu_hostname parsed)
                     (blank_indicator\<lparr>iKind := IndicatorURL, iPathScoped := scoped,
                        resourceFingerprint := fl_sha256 F resourceKey\<rparr>)))
      else finish_indicator (fl_libs F) value blank_indicator)"

fun firstIndicator :: "feed_libs \<Rightarrow> string list \<Rightarrow> indicator option" where
  "firstIndicator F [] = None"
| "firstIndicator F (raw # rest) =
     (let field = stripComment (trim_space raw) in
      if field = [] then firstIndicator F rest
      else case normalizeIndicator F field of
        Inr ind \<Rightarrow> Some ind
      | Inl e \<Rightarrow> firstIndicator F rest)"

section \<open>The bounded set of seen domains\<close>

record seen_set =
  ss_entries :: "string list"
  ss_limit :: int
  ss_overflowed :: nat

definition unboundedFeedDomains :: int where
  "unboundedFeedDomains = - 1"

definition maxDistinctFeedDomains :: "env \<Rightarrow> int" where
  "maxDistinctFeedDomains getenv =
     (let value = env_Int getenv ''SAFE_ZONE_FEED_MAX_DISTINCT_DOMAINS'' 2000000 in
      if value < 0 then 0 else value)"

definition resolvedFeedDomainLimit :: "env \<Rightarrow> int" where
  "resolvedFeedDomainLimit getenv =
     (if maxDistinctFeedDomains getenv > 0 then maxDistinctFeedDomains getenv else unboundedFeedDomains)"

definition newBoundedSeenSet :: "int \<Rightarrow> seen_set" where
  "newBoundedSeenSet limit =
     \<lparr>ss_entries = [], ss_limit = (if limit \<le> 0 then unboundedFeedDomains else limit), ss_overflowed = 0\<rparr>"

text \<open>The map of the source, used as a set, is the list of its keys, newest first.\<close>

definition seen_mark :: "string \<Rightarrow> seen_set \<Rightarrow> bool \<times> seen_set" where
  "seen_mark domain s =
     (if domain \<in> set (ss_entries s) then (True, s)
      else if ss_limit s \<ge> 0 \<and> int (length (ss_entries s)) \<ge> ss_limit s
      then (True, s\<lparr>ss_overflowed := ss_overflowed s + 1\<rparr>)
      else (False, s\<lparr>ss_entries := domain # ss_entries s\<rparr>))"

section \<open>Handlers\<close>

type_synonym 'h parsing = "parse_stats \<times> seen_set \<times> 'h"
type_synonym 'h handler = "indicator \<Rightarrow> bool \<Rightarrow> parse_stats \<times> 'h \<Rightarrow> feed_error option \<times> parse_stats \<times> 'h"

definition addIndicator :: "'h handler \<Rightarrow> indicator \<Rightarrow> 'h parsing \<Rightarrow> feed_error option \<times> 'h parsing" where
  "addIndicator on ind = (\<lambda>(stats, seen, h).
     (let (duplicate, seen) = seen_mark (iDomain ind) seen;
          stats = (if duplicate then stats\<lparr>Duplicates := Duplicates stats + 1\<rparr>
                   else stats\<lparr>Valid := Valid stats + 1\<rparr>);
          (err, stats, h) = on ind duplicate (stats, h)
      in (err, stats, seen, h)))"

definition count_invalid :: "nat \<Rightarrow> 'h parsing \<Rightarrow> 'h parsing" where
  "count_invalid n = (\<lambda>(stats, seen, h). (stats\<lparr>Invalid := Invalid stats + n\<rparr>, seen, h))"

definition count_skipped :: "'h parsing \<Rightarrow> 'h parsing" where
  "count_skipped = (\<lambda>(stats, seen, h). (stats\<lparr>Skipped := Skipped stats + 1\<rparr>, seen, h))"

section \<open>Text feeds\<close>

definition is_bracket :: "char \<Rightarrow> bool" where
  "is_bracket c \<longleftrightarrow> c = CHR ''['' \<or> c = CHR '']''"

record line_state =
  parsedAny :: bool
  lineHadValid :: bool
  lineInvalid :: nat

fun text_fields ::
  "'h handler \<Rightarrow> feed_libs \<Rightarrow> string list \<Rightarrow> line_state \<Rightarrow> 'h parsing \<Rightarrow>
   feed_error option \<times> line_state \<times> 'h parsing" where
  "text_fields on F [] lst st = (None, lst, st)"
| "text_fields on F (raw # rest) lst st =
     (if has_prefix raw ''#'' then (None, lst, st)
      else
        (let field = stripComment (trim_space raw) in
         if field = [] then text_fields on F rest lst st
         else if ParseIP (trim_by is_bracket field) \<noteq> None then text_fields on F rest lst st
         else case normalizeIndicator F field of
           Inl e \<Rightarrow> text_fields on F rest (lst\<lparr>parsedAny := True, lineInvalid := lineInvalid lst + 1\<rparr>) st
         | Inr ind \<Rightarrow>
             (case addIndicator on ind st of
                (Some err, st) \<Rightarrow> (Some err, lst\<lparr>parsedAny := True, lineHadValid := True\<rparr>, st)
              | (None, st) \<Rightarrow> text_fields on F rest (lst\<lparr>parsedAny := True, lineHadValid := True\<rparr>) st)))"

definition text_line :: "'h handler \<Rightarrow> feed_libs \<Rightarrow> string \<Rightarrow> 'h parsing \<Rightarrow> feed_error option \<times> 'h parsing" where
  "text_line on F raw st =
     (let line = trim_space raw in
      if line = [] \<or> has_prefix line ''#'' then (None, count_skipped st)
      else
        (case text_fields on F (filter (\<lambda>f. f \<noteq> []) (split_by is_space line))
                \<lparr>parsedAny = False, lineHadValid = False, lineInvalid = 0\<rparr> st of
           (Some err, lst, st) \<Rightarrow> (Some err, st)
         | (None, lst, st) \<Rightarrow>
             if \<not> parsedAny lst then (None, count_skipped st)
             else if lineHadValid lst then (None, count_invalid (lineInvalid lst) st)
             else if lineInvalid lst > 0 then (None, count_invalid 1 st)
             else (None, st)))"

fun text_lines :: "'h handler \<Rightarrow> feed_libs \<Rightarrow> string list \<Rightarrow> 'h parsing \<Rightarrow> feed_error option \<times> 'h parsing" where
  "text_lines on F [] st = (None, st)"
| "text_lines on F (line # lines) st =
     (case text_line on F line st of
        (Some err, st) \<Rightarrow> (Some err, st)
      | (None, st) \<Rightarrow> text_lines on F lines st)"

text \<open>
  \<^verbatim>\<open>bufio.Scanner\<close> with a buffer of at most 1 MiB: a line that does not fit with its newline ends the
  scan, a trailing carriage return is dropped, and the rest before a read error counts as a line.
\<close>

definition drop_cr :: "string \<Rightarrow> string" where
  "drop_cr s = trim_suffix s [CHR 0x0D]"

definition line_too_long :: "string \<Rightarrow> bool" where
  "line_too_long s \<longleftrightarrow> int (length s) \<ge> 1048576"

fun scan_pieces :: "string list \<Rightarrow> string list \<times> bool" where
  "scan_pieces [] = ([], False)"
| "scan_pieces [p] =
     (if p = [] then ([], False) else if line_too_long p then ([], True) else ([drop_cr p], False))"
| "scan_pieces (p # ps) =
     (if line_too_long p then ([], True)
      else (let (lines, long) = scan_pieces ps in (drop_cr p # lines, long)))"

definition parseTextStream :: "'h handler \<Rightarrow> feed_libs \<Rightarrow> feed_body \<Rightarrow> 'h parsing \<Rightarrow> feed_error option \<times> 'h parsing" where
  "parseTextStream on F body st =
     (let (lines, long) = scan_pieces (split_on (CHR 0x0A) (fb_bytes body)) in
      case text_lines on F lines st of
        (Some err, st) \<Rightarrow> (Some err, st)
      | (None, st) \<Rightarrow>
          (if long then Some ErrLineTooLong else if fb_fails body then Some ErrReadFailed else None, st))"

section \<open>CSV feeds\<close>

partial_function (option) csv_loop ::
  "'h handler \<Rightarrow> feed_libs \<Rightarrow> (nat \<Rightarrow> csv_read) \<Rightarrow> nat \<Rightarrow> 'h parsing \<Rightarrow> (feed_error option \<times> 'h parsing) option" where
  "csv_loop on F reads n st =
     (case reads n of
        CsvEOF \<Rightarrow> Some (None, st)
      | CsvError \<Rightarrow> csv_loop on F reads (n + 1) (count_invalid 1 st)
      | CsvRow row \<Rightarrow>
          if row = [] then csv_loop on F reads (n + 1) (count_skipped st)
          else case firstIndicator F row of
            None \<Rightarrow> csv_loop on F reads (n + 1) (count_invalid 1 st)
          | Some ind \<Rightarrow>
              (case addIndicator on ind st of
                 (Some err, st) \<Rightarrow> Some (Some err, st)
               | (None, st) \<Rightarrow> csv_loop on F reads (n + 1) st))"

definition parseCSVStream ::
  "'h handler \<Rightarrow> feed_libs \<Rightarrow> feed_body \<Rightarrow> 'h parsing \<Rightarrow> (feed_error option \<times> 'h parsing) option" where
  "parseCSVStream on F body st = csv_loop on F (fl_csv F body) 0 st"

fun first_content_line :: "string list \<Rightarrow> string option" where
  "first_content_line [] = None"
| "first_content_line (raw # lines) =
     (let line = trim_space raw in
      if line = [] \<or> has_prefix line ''#'' then first_content_line lines else Some line)"

definition isProbablyCSV :: "string \<Rightarrow> bool" where
  "isProbablyCSV peek =
     (peek \<noteq> [] \<and>
      (case first_content_line (split_on (CHR 0x0A) peek) of
         None \<Rightarrow> False
       | Some line \<Rightarrow> contains line '',''))"

section \<open>Parsing a body\<close>

text \<open>The first bytes of a body, for a bound written as an integer.\<close>

definition first_bytes :: "int \<Rightarrow> string \<Rightarrow> string" where
  "first_bytes n s = (if int (length s) \<le> n then s else take (nat n) s)"

text \<open>\<^verbatim>\<open>io.LimitReader\<close>: the end of the file after the given number of bytes.\<close>

definition limit_body :: "int \<Rightarrow> feed_body \<Rightarrow> feed_body" where
  "limit_body n body =
     (if int (length (fb_bytes body)) < n then body
      else \<lparr>fb_bytes = first_bytes n (fb_bytes body), fb_fails = False\<rparr>)"

definition parseIndicatorsWithLimit ::
  "'h handler \<Rightarrow> feed_libs \<Rightarrow> feed_body \<Rightarrow> seen_set \<Rightarrow> parse_stats \<Rightarrow> 'h \<Rightarrow>
   (feed_error option \<times> parse_stats \<times> 'h) option" where
  "parseIndicatorsWithLimit on F body seen stats h =
     (let limited = limit_body 104857600 body in
      case (if isProbablyCSV (first_bytes 4096 (fb_bytes limited))
            then parseCSVStream on F limited (stats, seen, h)
            else Some (parseTextStream on F limited (stats, seen, h))) of
        None \<Rightarrow> None
      | Some (err, stats, seen, h) \<Rightarrow> Some (err, stats\<lparr>TruncatedDomains := ss_overflowed seen\<rparr>, h))"

definition ParseEachIndicator ::
  "env \<Rightarrow> 'h handler \<Rightarrow> feed_libs \<Rightarrow> feed_body \<Rightarrow> parse_stats \<Rightarrow> 'h \<Rightarrow>
   (feed_error option \<times> parse_stats \<times> 'h) option" where
  "ParseEachIndicator getenv on F body stats h =
     parseIndicatorsWithLimit on F body (newBoundedSeenSet (resolvedFeedDomainLimit getenv)) stats h"

definition domain_handler ::
  "(string \<Rightarrow> parse_stats \<times> 'h \<Rightarrow> feed_error option \<times> parse_stats \<times> 'h) \<Rightarrow> 'h handler" where
  "domain_handler onDomain ind duplicate st = (if duplicate then (None, st) else onDomain (iDomain ind) st)"

definition ParseEach ::
  "env \<Rightarrow> (string \<Rightarrow> parse_stats \<times> 'h \<Rightarrow> feed_error option \<times> parse_stats \<times> 'h) \<Rightarrow> feed_libs \<Rightarrow> feed_body \<Rightarrow>
   parse_stats \<Rightarrow> 'h \<Rightarrow> (feed_error option \<times> parse_stats \<times> 'h) option" where
  "ParseEach getenv onDomain F body stats h = ParseEachIndicator getenv (domain_handler onDomain) F body stats h"

end
