(* ===== verification/FeedAdmission.thy ===== *)
theory FeedAdmission
  imports FeedParse "HOL-Library.AList"
begin

text \<open>
  Which indicators of a threat feed are admitted and for how long: \<^verbatim>\<open>internal/feed/admission.go\<close>,
  \<^verbatim>\<open>internal/feed/ttl.go\<close> and the admission checks of \<^verbatim>\<open>internal/feed/sync.go\<close>. A duration is a signed
  64-bit number of nanoseconds, so products of days wrap.
\<close>

section \<open>Admissible domains\<close>

definition isPublicSuffixMember :: "feed_libs \<Rightarrow> string \<Rightarrow> bool" where
  "isPublicSuffixMember F domain =
     (let value = to_lower (trim_suffix (trim_space domain) ''.'') in
      if value = [] \<or> ParseIP value \<noteq> None then False
      else (let suffix = fl_suffix F value in suffix \<noteq> [] \<and> equal_fold suffix value))"

definition isSharedServingRefused :: "string \<Rightarrow> bool" where
  "isSharedServingRefused domain \<longleftrightarrow> IsSharedServingHost domain \<or> IsSharedHostingRoot domain"

definition IsAdmissibleDomain :: "feed_libs \<Rightarrow> string \<Rightarrow> bool" where
  "IsAdmissibleDomain F domain \<longleftrightarrow> \<not> isPublicSuffixMember F domain \<and> \<not> isSharedServingRefused domain"

definition admitFeedDomain :: "feed_libs \<Rightarrow> string \<Rightarrow> parse_stats \<Rightarrow> bool \<times> parse_stats" where
  "admitFeedDomain F domain stats =
     (let pslRefused = isPublicSuffixMember F domain; sharedHostRefused = isSharedServingRefused domain in
      if pslRefused \<or> sharedHostRefused then
        (let stats = (if pslRefused then stats\<lparr>SkippedPublicSuffix := SkippedPublicSuffix stats + 1\<rparr> else stats);
             stats = (if sharedHostRefused then stats\<lparr>SkippedSharedHost := SkippedSharedHost stats + 1\<rparr> else stats)
         in (False, stats))
      else (True, stats))"

fun filterPublicSuffixMembers :: "feed_libs \<Rightarrow> string list \<Rightarrow> parse_stats \<Rightarrow> string list \<times> parse_stats" where
  "filterPublicSuffixMembers F [] stats = ([], stats)"
| "filterPublicSuffixMembers F (domain # domains) stats =
     (let (admitted, stats) = admitFeedDomain F domain stats;
          (kept, stats) = filterPublicSuffixMembers F domains stats
      in (if admitted then domain # kept else kept, stats))"

section \<open>Expiry windows\<close>

definition day_ns :: int where
  "day_ns = 86400000000000"

definition DefaultSyncTTL :: int where
  "DefaultSyncTTL = 14 * day_ns"

definition MinChurnTTLDays :: int where
  "MinChurnTTLDays = 2"

datatype ttl_error = TTLNotPositive int | ChurnTTLTooShort int | IntervalNotPositive | ChurnWithinInterval int int

definition TTLFromDays :: "int \<Rightarrow> ttl_error + int" where
  "TTLFromDays days =
     (if days \<le> 0 then Inl (TTLNotPositive days) else Inr (wrap64 (wrap64 (days * 24) * 3600000000000)))"

definition ChurnTTLFromDays :: "int \<Rightarrow> ttl_error + int" where
  "ChurnTTLFromDays days =
     (if days \<le> 0 then Inr 0
      else if days < MinChurnTTLDays then Inl (ChurnTTLTooShort days)
      else Inr (wrap64 (wrap64 (days * 24) * 3600000000000)))"

definition CheckChurnTTLAgainstInterval :: "int \<Rightarrow> int \<Rightarrow> ttl_error option" where
  "CheckChurnTTLAgainstInterval churn interval =
     (if churn \<le> 0 then None
      else if interval \<le> 0 then Some IntervalNotPositive
      else if churn \<le> interval then Some (ChurnWithinInterval churn interval)
      else None)"

definition MemberTTL :: "string \<Rightarrow> int \<Rightarrow> int \<Rightarrow> int" where
  "MemberTTL domain base0 churn =
     (let base = (if base0 \<le> 0 then DefaultSyncTTL else base0) in
      if churn \<le> 0 \<or> \<not> IsChurnProneTenant domain then base
      else if churn \<ge> base then base
      else churn)"

section \<open>Admission plans\<close>

datatype admission_mode = AdmissionLegacy | AdmissionShadow | AdmissionFilter

definition NormalizeAdmissionMode :: "string \<Rightarrow> feed_error + admission_mode" where
  "NormalizeAdmissionMode value =
     (let mode = trim_space value in
      if mode = [] then Inr AdmissionLegacy
      else if mode = ''legacy'' then Inr AdmissionLegacy
      else if mode = ''corroborated-url-host-shadow'' then Inr AdmissionShadow
      else if mode = ''corroborated-url-host-filter'' then Inr AdmissionFilter
      else Inl (ErrAdmissionMode value))"

record admission_state =
  authoritative :: bool
  urlSeen :: bool
  pathScoped :: bool
  resourceSeen :: bool
  firstResource :: string
  corroborated :: bool

definition no_admission :: admission_state where
  "no_admission = \<lparr>authoritative = False, urlSeen = False, pathScoped = False, resourceSeen = False,
     firstResource = replicate 32 (CHR 0x00), corroborated = False\<rparr>"

text \<open>Whether the indicator speaks for its whole host.\<close>

definition whole_host :: "admission_mode \<Rightarrow> indicator \<Rightarrow> bool" where
  "whole_host mode ind \<longleftrightarrow>
     mode = AdmissionLegacy \<or> iKind ind = IndicatorDomain \<or> \<not> iPathScoped ind \<or> ParseIP (iDomain ind) \<noteq> None"

definition admit_indicator :: "admission_mode \<Rightarrow> indicator \<Rightarrow> admission_state \<Rightarrow> admission_state" where
  "admit_indicator mode ind state =
     (let state = (if iKind ind = IndicatorURL
                   then state\<lparr>urlSeen := True, pathScoped := pathScoped state \<or> iPathScoped ind\<rparr> else state) in
      if whole_host mode ind then state\<lparr>authoritative := True\<rparr>
      else if \<not> resourceSeen state
      then state\<lparr>firstResource := resourceFingerprint ind, resourceSeen := True\<rparr>
      else if resourceFingerprint ind \<noteq> firstResource state
      then state\<lparr>authoritative := True, corroborated := True\<rparr>
      else state)"

text \<open>The states by domain: an association list with distinct keys, in order of first appearance.\<close>

type_synonym admission_states = "(string \<times> admission_state) list"

definition plan_handler :: "admission_mode \<Rightarrow> int \<Rightarrow> (admission_states \<times> nat) handler" where
  "plan_handler mode limit ind duplicate = (\<lambda>(stats, states, overCapacity).
     (case map_of states (iDomain ind) of
        Some state \<Rightarrow> (None, stats, AList.update (iDomain ind) (admit_indicator mode ind state) states, overCapacity)
      | None \<Rightarrow>
          if limit \<ge> 0 \<and> int (length states) \<ge> limit then (None, stats, states, overCapacity + 1)
          else (None, stats, states @ [(iDomain ind, admit_indicator mode ind no_admission)], overCapacity)))"

record admission_stats =
  asMode :: admission_mode
  AuthoritativeHosts :: nat
  ContextualHosts :: nat
  URLHosts :: nat
  PathScopedURLHosts :: nat
  CorroboratedURLHosts :: nat
  AuthoritativeRetention :: rat

record admission_plan =
  apAuthoritative :: "string list"
  apContextual :: "string list"
  apParseStats :: parse_stats
  apStats :: admission_stats
  UnclassifiableDomains :: nat

definition build_plan :: "admission_mode \<Rightarrow> parse_stats \<Rightarrow> admission_states \<Rightarrow> nat \<Rightarrow> admission_plan" where
  "build_plan mode stats states overCapacity =
     (let auth = sort (map fst (filter (\<lambda>(d, st). authoritative st) states));
          ctx = sort (map fst (filter (\<lambda>(d, st). \<not> authoritative st) states))
      in \<lparr>apAuthoritative = auth, apContextual = ctx, apParseStats = stats,
          apStats = \<lparr>asMode = mode, AuthoritativeHosts = length auth, ContextualHosts = length ctx,
            URLHosts = length (filter (\<lambda>(d, st). urlSeen st) states),
            PathScopedURLHosts = length (filter (\<lambda>(d, st). pathScoped st) states),
            CorroboratedURLHosts = length (filter (\<lambda>(d, st). corroborated st) states),
            AuthoritativeRetention = (if Valid stats > 0 then of_nat (length auth) / of_nat (Valid stats) else 0)\<rparr>,
          UnclassifiableDomains = overCapacity\<rparr>)"

definition planAdmissionWithLimit ::
  "env \<Rightarrow> feed_libs \<Rightarrow> feed_body \<Rightarrow> admission_mode \<Rightarrow> int \<Rightarrow> (feed_error + admission_plan) option" where
  "planAdmissionWithLimit getenv F body mode limit0 =
     (let limit = (if limit0 \<le> 0 then unboundedFeedDomains else limit0) in
      case ParseEachIndicator getenv (plan_handler mode limit) F body no_stats ([], 0) of
        None \<Rightarrow> None
      | Some (Some err, stats, states, overCapacity) \<Rightarrow> Some (Inl err)
      | Some (None, stats, states, overCapacity) \<Rightarrow> Some (Inr (build_plan mode stats states overCapacity)))"

definition PlanAdmission :: "env \<Rightarrow> feed_libs \<Rightarrow> feed_body \<Rightarrow> admission_mode \<Rightarrow> (feed_error + admission_plan) option" where
  "PlanAdmission getenv F body mode =
     planAdmissionWithLimit getenv F body mode (resolvedFeedDomainLimit getenv)"

section \<open>The shadow gap\<close>

record shadow_diff =
  ContextualLoaded :: nat
  ContextualPSLRefused :: nat
  ContextualSharedHostRefused :: nat
  Sample :: "string list"

definition shadowSampleCap :: nat where
  "shadowSampleCap = 50"

fun shadow_loop :: "feed_libs \<Rightarrow> string list \<Rightarrow> shadow_diff \<Rightarrow> shadow_diff" where
  "shadow_loop F [] diff = diff"
| "shadow_loop F (domain # domains) diff =
     (let pslRefused = isPublicSuffixMember F domain;
          sharedHostRefused = (IsSharedServingHost domain \<or> IsSharedHostingRoot domain);
          diff = (if pslRefused then diff\<lparr>ContextualPSLRefused := ContextualPSLRefused diff + 1\<rparr> else diff);
          diff = (if sharedHostRefused
                  then diff\<lparr>ContextualSharedHostRefused := ContextualSharedHostRefused diff + 1\<rparr> else diff)
      in if pslRefused \<or> sharedHostRefused then shadow_loop F domains diff
         else (let diff = diff\<lparr>ContextualLoaded := ContextualLoaded diff + 1\<rparr>;
                   diff = (if length (Sample diff) < shadowSampleCap
                           then diff\<lparr>Sample := Sample diff @ [domain]\<rparr> else diff)
               in shadow_loop F domains diff))"

definition SummarizeShadowGap :: "feed_libs \<Rightarrow> string list \<Rightarrow> shadow_diff" where
  "SummarizeShadowGap F contextual =
     (let diff = shadow_loop F contextual
            \<lparr>ContextualLoaded = 0, ContextualPSLRefused = 0, ContextualSharedHostRefused = 0, Sample = []\<rparr>
      in diff\<lparr>Sample := sort (Sample diff)\<rparr>)"

end
