(* ===== verification/FeedLaws.thy ===== *)
theory FeedLaws
  imports FeedAdmission
begin

text \<open>
  Laws of the feed parser. What a handler has to keep for the parser to keep it is the locale
  \<open>parse_invariant\<close>; two handlers that stay related, one of which never fails, are the locale
  \<open>handler_sim\<close>. Both are used with \<open>collect\<close>, the handler that records every call: the trace it
  leaves is the reference for what the parser hands over.
\<close>

section \<open>The CSV loop as a list of reads\<close>

definition csv_step :: "'h handler \<Rightarrow> feed_libs \<Rightarrow> csv_read \<Rightarrow> 'h parsing \<Rightarrow> feed_error option \<times> 'h parsing" where
  "csv_step on F r st =
     (case r of
        CsvEOF \<Rightarrow> (None, st)
      | CsvError \<Rightarrow> (None, count_invalid 1 st)
      | CsvRow row \<Rightarrow>
          if row = [] then (None, count_skipped st)
          else (case firstIndicator F row of
                  None \<Rightarrow> (None, count_invalid 1 st)
                | Some ind \<Rightarrow> addIndicator on ind st))"

fun csv_list :: "'h handler \<Rightarrow> feed_libs \<Rightarrow> csv_read list \<Rightarrow> 'h parsing \<Rightarrow> feed_error option \<times> 'h parsing" where
  "csv_list on F [] st = (None, st)"
| "csv_list on F (r # rs) st =
     (case csv_step on F r st of (Some e, st) \<Rightarrow> (Some e, st) | (None, st) \<Rightarrow> csv_list on F rs st)"

lemma csv_loop_EOF: "reads n = CsvEOF \<Longrightarrow> csv_loop on F reads n st = Some (None, st)"
  by (simp add: csv_loop.simps)

lemma csv_loop_step:
  "reads n \<noteq> CsvEOF \<Longrightarrow> csv_loop on F reads n st =
     (case csv_step on F (reads n) st of (Some e, st) \<Rightarrow> Some (Some e, st) | (None, st) \<Rightarrow> csv_loop on F reads (Suc n) st)"
  by (subst csv_loop.simps) (auto simp: csv_step_def split: csv_read.splits option.splits prod.splits)

text \<open>A loop that returns has made finitely many reads; without an error the next one is the end.\<close>

lemma csv_loop_prefix:
  assumes "csv_loop on F reads n st = Some r"
  shows "\<exists>m \<ge> n. csv_list on F (map reads [n..<m]) st = r \<and> (\<forall>i. n \<le> i \<and> i < m \<longrightarrow> reads i \<noteq> CsvEOF) \<and>
    (fst r = None \<longrightarrow> reads m = CsvEOF)"
proof (rule csv_loop.raw_induct[where P = "\<lambda>on F reads n st r. \<exists>m \<ge> n. csv_list on F (map reads [n..<m]) st = r \<and>
    (\<forall>i. n \<le> i \<and> i < m \<longrightarrow> reads i \<noteq> CsvEOF) \<and> (fst r = None \<longrightarrow> reads m = CsvEOF)", OF _ assms], goal_cases)
  case (1 loop on F reads n st r)
  show ?case
  proof (cases "reads n = CsvEOF")
    case True
    then show ?thesis using 1(2) by (intro exI[of _ n]) auto
  next
    case False
    have step: "(case csv_step on F (reads n) st of (Some e, st) \<Rightarrow> Some (Some e, st) | (None, st) \<Rightarrow> loop on F reads (Suc n) st) = Some r"
      using 1(2) False by (auto simp: csv_step_def split: csv_read.splits option.splits if_splits prod.splits)
    obtain e st1 where s: "csv_step on F (reads n) st = (e, st1)" by (cases "csv_step on F (reads n) st")
    show ?thesis
    proof (cases e)
      case (Some x)
      then show ?thesis using step s False by (intro exI[of _ "Suc n"]) (auto simp: le_less_Suc_eq)
    next
      case None
      then have "loop on F reads (Suc n) st1 = Some r" using step s by simp
      from 1(1)[OF this] obtain m where m: "m \<ge> Suc n" "csv_list on F (map reads [Suc n..<m]) st1 = r"
        "\<forall>i. Suc n \<le> i \<and> i < m \<longrightarrow> reads i \<noteq> CsvEOF" "fst r = None \<longrightarrow> reads m = CsvEOF"
        by (elim exE conjE) (rule that)
      have "csv_list on F (map reads [n..<m]) st = r"
        using m(1,2) None s by (simp add: upt_conv_Cons)
      moreover have "reads i \<noteq> CsvEOF" if "n \<le> i" "i < m" for i
        using that m(3) False by (cases "i = n") auto
      ultimately show ?thesis using m(1,4) by (intro exI[of _ m] conjI allI impI) auto
    qed
  qed
qed

lemma csv_loop_returns:
  assumes "n \<le> m" and "reads m = CsvEOF" and "\<forall>i. n \<le> i \<and> i < m \<longrightarrow> reads i \<noteq> CsvEOF"
  shows "csv_loop on F reads n st = Some (csv_list on F (map reads [n..<m]) st)"
  using assms
proof (induction "m - n" arbitrary: n st)
  case 0
  then show ?case by (simp add: csv_loop_EOF)
next
  case (Suc k)
  then have lt: "n < m" by simp
  then have "csv_loop on F reads (Suc n) st' = Some (csv_list on F (map reads [Suc n..<m]) st')" for st'
    using Suc by simp
  then show ?case using lt Suc.prems(3)
    by (subst csv_loop_step) (auto simp: upt_conv_Cons split: option.splits prod.splits)
qed

section \<open>Invariants of a parse\<close>

lemma firstIndicator_source: "firstIndicator F row = Some ind \<Longrightarrow> \<exists>value. normalizeIndicator F value = Inr ind"
  by (induction row) (auto simp: Let_def split: if_splits sum.splits)

lemma normalizeIndicator_domain:
  "normalizeIndicator F value = Inr ind \<Longrightarrow> \<exists>v. NormalizeDomain (fl_libs F) v = Inr (iDomain ind)"
  by (auto simp: normalizeIndicator_def finish_indicator_def Let_def split: if_splits option.splits sum.splits)

locale parse_invariant =
  fixes on :: "'h handler" and F :: feed_libs and J :: "'h parsing \<Rightarrow> bool"
  assumes add: "normalizeIndicator F value = Inr ind \<Longrightarrow> J st \<Longrightarrow> J (snd (addIndicator on ind st))"
    and inval: "J st \<Longrightarrow> J (count_invalid n st)"
    and skip: "J st \<Longrightarrow> J (count_skipped st)"
begin

lemma text_fields_inv: "J st \<Longrightarrow> J (snd (snd (text_fields on F fs lst st)))"
proof (induction fs arbitrary: lst st)
  case (Cons raw rest)
  let ?f = "stripComment (trim_space raw)"
  show ?case
  proof (cases "normalizeIndicator F ?f")
    case (Inr ind)
    have "J (snd (addIndicator on ind st))" by (rule add[OF Inr Cons.prems])
    then show ?thesis using Inr Cons
      by (cases "addIndicator on ind st") (auto simp: Let_def split: option.splits)
  qed (use Cons in \<open>auto simp: Let_def\<close>)
qed simp

lemma text_line_inv: "J st \<Longrightarrow> J (snd (text_line on F raw st))"
  using text_fields_inv[of st "filter (\<lambda>f. f \<noteq> []) (split_by is_space (trim_space raw))"
      "\<lparr>parsedAny = False, lineHadValid = False, lineInvalid = 0\<rparr>"] inval skip
  by (auto simp: text_line_def Let_def split: prod.splits option.splits)

lemma text_lines_inv: "J st \<Longrightarrow> J (snd (text_lines on F ls st))"
proof (induction ls arbitrary: st)
  case (Cons l ls)
  then show ?case using text_line_inv[of st l]
    by (cases "text_line on F l st") (auto split: option.splits)
qed simp

lemma csv_list_inv: "J st \<Longrightarrow> J (snd (csv_list on F rs st))"
proof (induction rs arbitrary: st)
  case (Cons r rs)
  have "J (snd (addIndicator on ind st))" if "firstIndicator F row = Some ind" for row ind
    using firstIndicator_source[OF that] add Cons.prems by blast
  then have "J (snd (csv_step on F r st))"
    using Cons.prems inval skip by (auto simp: csv_step_def split: csv_read.splits option.splits)
  then show ?case using Cons.IH by (cases "csv_step on F r st") (auto split: option.splits)
qed simp

lemma parse_inv:
  assumes "parseIndicatorsWithLimit on F body seen stats h = Some (e, stats', h')" and "J (stats, seen, h)"
  shows "\<exists>st seen'. J (st, seen', h') \<and> stats' = st\<lparr>TruncatedDomains := ss_overflowed seen'\<rparr>"
proof -
  let ?b = "limit_body 104857600 body"
  have txt1: "J (snd (parseTextStream on F ?b (stats, seen, h)))"
    using text_lines_inv[OF assms(2), of "fst (scan_pieces (split_on (CHR 0x0A) (fb_bytes ?b)))"]
    by (auto simp: parseTextStream_def Let_def split: prod.splits option.splits)
  have csv: "J (snd r)" if r: "parseCSVStream on F ?b (stats, seen, h) = Some r" for r
    using csv_loop_prefix[OF r[unfolded parseCSVStream_def]] csv_list_inv[OF assms(2)] by metis
  show ?thesis using assms(1) txt1 csv
    by (auto simp: parseIndicatorsWithLimit_def Let_def split: if_splits option.splits prod.splits)
qed

end

section \<open>Related handlers\<close>

locale handler_sim =
  fixes on :: "'h handler" and on' :: "'k handler" and R :: "parse_stats \<times> 'h \<Rightarrow> parse_stats \<times> 'k \<Rightarrow> bool"
  assumes never_fails: "fst (on' ind d y) = None"
    and step: "R x y \<Longrightarrow> on ind d x = (None, x') \<Longrightarrow> R x' (snd (on' ind d y))"
    and valid: "R (s, h) (s', k) \<Longrightarrow> R (s\<lparr>Valid := Valid s + 1\<rparr>, h) (s'\<lparr>Valid := Valid s' + 1\<rparr>, k)"
    and dupl: "R (s, h) (s', k) \<Longrightarrow> R (s\<lparr>Duplicates := Duplicates s + 1\<rparr>, h) (s'\<lparr>Duplicates := Duplicates s' + 1\<rparr>, k)"
    and inval: "R (s, h) (s', k) \<Longrightarrow> R (s\<lparr>Invalid := Invalid s + n\<rparr>, h) (s'\<lparr>Invalid := Invalid s' + n\<rparr>, k)"
    and skip: "R (s, h) (s', k) \<Longrightarrow> R (s\<lparr>Skipped := Skipped s + 1\<rparr>, h) (s'\<lparr>Skipped := Skipped s' + 1\<rparr>, k)"
    and trunc: "R (s, h) (s', k) \<Longrightarrow> R (s\<lparr>TruncatedDomains := n\<rparr>, h) (s'\<lparr>TruncatedDomains := n\<rparr>, k)"
begin

definition Q :: "'h parsing \<Rightarrow> 'k parsing \<Rightarrow> bool" where
  "Q x y \<longleftrightarrow> fst (snd x) = fst (snd y) \<and> R (fst x, snd (snd x)) (fst y, snd (snd y))"

lemma Q_count: "Q x y \<Longrightarrow> Q (count_invalid n x) (count_invalid n y)" "Q x y \<Longrightarrow> Q (count_skipped x) (count_skipped y)"
  using inval skip by (auto simp: Q_def count_invalid_def count_skipped_def case_prod_unfold simp del: split_paired_Ex)

lemma Q_add:
  assumes "Q x y" and "addIndicator on ind x = (None, x')"
  shows "\<exists>y'. addIndicator on' ind y = (None, y') \<and> Q x' y'"
proof -
  obtain s seen h where x: "x = (s, seen, h)" by (cases x)
  obtain s' k where y: "y = (s', seen, k)" and R: "R (s, h) (s', k)"
    using assms(1) x by (cases y) (auto simp: Q_def simp del: split_paired_Ex)
  obtain d seen1 where m: "seen_mark (iDomain ind) seen = (d, seen1)" by (cases "seen_mark (iDomain ind) seen")
  define c where "c = (\<lambda>s :: parse_stats. if d then s\<lparr>Duplicates := Duplicates s + 1\<rparr> else s\<lparr>Valid := Valid s + 1\<rparr>)"
  have R1: "R (c s, h) (c s', k)" using valid[OF R] dupl[OF R] by (simp add: c_def)
  obtain s1 h1 where o: "on ind d (c s, h) = (None, s1, h1)" "x' = (s1, seen1, h1)"
    using assms(2) m by (auto simp: addIndicator_def x c_def Let_def simp del: split_paired_Ex split: prod.splits)
  obtain s2 k2 where o': "on' ind d (c s', k) = (None, s2, k2)"
    using never_fails[of ind d "(c s', k)"] by (metis prod.collapse)
  have "R (s1, h1) (s2, k2)" using step[OF R1 o(1)] o' by simp
  then show ?thesis using m o o' by (auto simp: addIndicator_def y c_def Q_def Let_def simp del: split_paired_Ex)
qed

lemma text_fields_sim:
  "Q x y \<Longrightarrow> text_fields on F fs lst x = (None, lst', x') \<Longrightarrow>
     \<exists>y'. text_fields on' F fs lst y = (None, lst', y') \<and> Q x' y'"
proof (induction fs arbitrary: lst x y)
  case (Cons raw rest)
  let ?f = "stripComment (trim_space raw)"
  show ?case
  proof (cases "normalizeIndicator F ?f")
    case (Inl e)
    then show ?thesis using Cons.IH[OF Cons.prems(1)] Cons.prems by (auto simp: Let_def simp del: split_paired_Ex split: if_splits)
  next
    case (Inr ind)
    obtain err x1 where x1: "addIndicator on ind x = (err, x1)" by (cases "addIndicator on ind x")
    show ?thesis
    proof (cases err)
      case None
      then obtain y1 where y1: "addIndicator on' ind y = (None, y1)" "Q x1 y1" using Q_add[OF Cons.prems(1)] x1 by blast
      show ?thesis using Cons.IH[OF y1(2)] Cons.IH[OF Cons.prems(1)] Cons.prems Inr x1 y1(1) None
        by (auto simp: Let_def simp del: split_paired_Ex split: if_splits)
    next
      case (Some e)
      then show ?thesis using Cons.IH[OF Cons.prems(1)] Cons.prems Inr x1 by (auto simp: Let_def simp del: split_paired_Ex split: if_splits)
    qed
  qed
qed (auto simp del: split_paired_Ex)

lemma text_line_sim:
  assumes "Q x y" and "text_line on F raw x = (None, x')"
  shows "\<exists>y'. text_line on' F raw y = (None, y') \<and> Q x' y'"
proof (cases "trim_space raw = [] \<or> has_prefix (trim_space raw) ''#''")
  case True
  then show ?thesis using assms by (auto intro: Q_count simp: text_line_def Let_def simp del: split_paired_Ex)
next
  case False
  let ?fs = "filter (\<lambda>f. f \<noteq> []) (split_by is_space (trim_space raw))"
  let ?l0 = "\<lparr>parsedAny = False, lineHadValid = False, lineInvalid = 0\<rparr>"
  obtain err lst x1 where t: "text_fields on F ?fs ?l0 x = (err, lst, x1)" by (cases "text_fields on F ?fs ?l0 x")
  then have err: "err = None" using assms(2) False by (cases err) (simp_all add: text_line_def Let_def)
  obtain y1 where y1: "text_fields on' F ?fs ?l0 y = (None, lst, y1)" "Q x1 y1"
    using text_fields_sim[OF assms(1) t[unfolded err]] by blast
  show ?thesis using assms(2) False t y1 err
    by (auto intro: Q_count simp: text_line_def Let_def simp del: split_paired_Ex split: if_splits)
qed

lemma text_lines_sim:
  "Q x y \<Longrightarrow> text_lines on F ls x = (None, x') \<Longrightarrow> \<exists>y'. text_lines on' F ls y = (None, y') \<and> Q x' y'"
proof (induction ls arbitrary: x y)
  case (Cons l ls)
  obtain err x1 where t: "text_line on F l x = (err, x1)" by (cases "text_line on F l x")
  then have err: "err = None" using Cons.prems(2) by (cases err) auto
  obtain y1 where y1: "text_line on' F l y = (None, y1)" "Q x1 y1"
    using text_line_sim[OF Cons.prems(1) t[unfolded err]] by blast
  show ?case using Cons.IH[OF y1(2)] Cons.prems(2) t y1 err by (auto simp del: split_paired_Ex)
qed (auto simp del: split_paired_Ex)

lemma csv_list_sim:
  "Q x y \<Longrightarrow> csv_list on F rs x = (None, x') \<Longrightarrow> \<exists>y'. csv_list on' F rs y = (None, y') \<and> Q x' y'"
proof (induction rs arbitrary: x y)
  case (Cons r rs)
  obtain err x1 where t: "csv_step on F r x = (err, x1)" by (cases "csv_step on F r x")
  then have err: "err = None" using Cons.prems(2) by (cases err) auto
  obtain y1 where y1: "csv_step on' F r y = (None, y1)" "Q x1 y1"
    using t[unfolded err] Cons.prems(1)
    by (auto intro: Q_count dest: Q_add simp: csv_step_def simp del: split_paired_Ex split: csv_read.splits if_splits option.splits)
  show ?case using Cons.IH[OF y1(2)] Cons.prems(2) t y1 err by (auto simp del: split_paired_Ex)
qed (auto simp del: split_paired_Ex)

lemma parse_sim:
  assumes "parseIndicatorsWithLimit on F body seen s h = Some (None, s1, h1)" and "R (s, h) (s', k)"
  shows "\<exists>s1' k1. parseIndicatorsWithLimit on' F body seen s' k = Some (None, s1', k1) \<and> R (s1, h1) (s1', k1)"
proof -
  let ?b = "limit_body 104857600 body"
  have q: "Q (s, seen, h) (s', seen, k)" using assms(2) by (simp add: Q_def)
  have "\<exists>y'. (if isProbablyCSV (first_bytes 4096 (fb_bytes ?b)) then parseCSVStream on' F ?b (s', seen, k)
         else Some (parseTextStream on' F ?b (s', seen, k))) = Some (None, y') \<and> Q x' y'"
    if x': "(if isProbablyCSV (first_bytes 4096 (fb_bytes ?b)) then parseCSVStream on F ?b (s, seen, h)
         else Some (parseTextStream on F ?b (s, seen, h))) = Some (None, x')" for x'
  proof (cases "isProbablyCSV (first_bytes 4096 (fb_bytes ?b))")
    case True
    then have "csv_loop on F (fl_csv F ?b) 0 (s, seen, h) = Some (None, x')"
      using x' by (simp add: parseCSVStream_def)
    from csv_loop_prefix[OF this] obtain m where m: "csv_list on F (map (fl_csv F ?b) [0..<m]) (s, seen, h) = (None, x')"
      "\<forall>i. 0 \<le> i \<and> i < m \<longrightarrow> fl_csv F ?b i \<noteq> CsvEOF" "fl_csv F ?b m = CsvEOF" by auto
    show ?thesis
      using csv_list_sim[OF q m(1)] csv_loop_returns[OF le0 m(3,2), of on'] True by (auto simp: parseCSVStream_def simp del: split_paired_Ex)
  next
    case False
    obtain ls long where ls: "scan_pieces (split_on (CHR 0x0A) (fb_bytes ?b)) = (ls, long)"
      by (cases "scan_pieces (split_on (CHR 0x0A) (fb_bytes ?b))")
    have "text_lines on F ls (s, seen, h) = (None, x')" "\<not> long" "\<not> fb_fails ?b"
      using x' False ls by (auto simp: parseTextStream_def simp del: split_paired_Ex split: prod.splits option.splits if_splits)
    moreover obtain y' where "text_lines on' F ls (s', seen, k) = (None, y')" "Q x' y'"
      using text_lines_sim[OF q calculation(1)] by blast
    ultimately show ?thesis using False ls by (auto simp: parseTextStream_def simp del: split_paired_Ex)
  qed
  then show ?thesis using assms(1) trunc
    by (auto simp: parseIndicatorsWithLimit_def Let_def Q_def simp del: split_paired_Ex split: option.splits)
qed

end

section \<open>Traces\<close>

definition collect :: "(indicator \<times> bool) list handler" where
  "collect ind d = (\<lambda>(stats, tr). (None, stats, tr @ [(ind, d)]))"

text \<open>What the parser hands over for a body under a limit, with its own statistics.\<close>

definition feed_trace ::
  "feed_libs \<Rightarrow> int \<Rightarrow> feed_body \<Rightarrow> (feed_error option \<times> parse_stats \<times> (indicator \<times> bool) list) option" where
  "feed_trace F limit body = parseIndicatorsWithLimit collect F body (newBoundedSeenSet limit) no_stats []"

definition trace_domains :: "(indicator \<times> bool) list \<Rightarrow> string list" where
  "trace_domains tr = map (iDomain \<circ> fst) tr"

text \<open>The distinct elements in order of first appearance, and the first of them up to a limit.\<close>

definition dedup :: "'a list \<Rightarrow> 'a list" where
  "dedup xs = rev (remdups (rev xs))"

definition up_to :: "int \<Rightarrow> 'a list \<Rightarrow> 'a list" where
  "up_to limit xs = (if limit \<le> 0 then xs else take (nat limit) xs)"

lemma dedup_snoc: "dedup (xs @ [x]) = (if x \<in> set xs then dedup xs else dedup xs @ [x])"
  by (simp add: dedup_def)

lemma dedup_facts [simp]: "set (dedup xs) = set xs" "distinct (dedup xs)" "dedup [] = []"
  by (simp_all add: dedup_def)

lemma up_to_snoc:
  "up_to limit (xs @ [x]) =
     (if 0 < limit \<and> limit \<le> int (length (up_to limit xs)) then up_to limit xs else up_to limit xs @ [x])"
  by (auto simp: up_to_def min_def)

lemma up_to_full: "\<not> (0 < limit \<and> limit \<le> int (length (up_to limit xs))) \<Longrightarrow> up_to limit xs = xs"
  by (auto simp: up_to_def min_def split: if_splits)

lemma set_up_to: "set (up_to limit xs) \<subseteq> set xs"
  by (auto simp: up_to_def dest: in_set_takeD)

text \<open>The state of the deduplication after a trace.\<close>

definition trace_inv :: "int \<Rightarrow> (indicator \<times> bool) list parsing \<Rightarrow> bool" where
  "trace_inv limit = (\<lambda>(stats, seen, tr).
     ss_limit seen = (if limit \<le> 0 then - 1 else limit) \<and>
     rev (ss_entries seen) = up_to limit (dedup (trace_domains tr)) \<and>
     map (iDomain \<circ> fst) (filter (\<lambda>x. \<not> snd x) tr) = rev (ss_entries seen) \<and>
     Valid stats = length (ss_entries seen) \<and> Valid stats + Duplicates stats = length tr \<and>
     ss_overflowed seen = length (filter (\<lambda>d. d \<notin> set (up_to limit (dedup (trace_domains tr)))) (trace_domains tr)))"

lemma trace_inv_add:
  assumes "trace_inv limit st"
  shows "trace_inv limit (snd (addIndicator collect ind st))"
proof -
  obtain stats seen tr where st: "st = (stats, seen, tr)" by (cases st)
  let ?ds = "trace_domains tr" and ?d = "iDomain ind"
  let ?u = "up_to limit (dedup ?ds)"
  have ent: "set (ss_entries seen) = set ?u" "length (ss_entries seen) = length ?u"
    using assms by (simp_all add: st trace_inv_def) (metis set_rev, metis length_rev)
  have ds: "trace_domains (tr @ [(ind, b)]) = ?ds @ [?d]" for b by (simp add: trace_domains_def)
  have full: "ss_limit seen \<ge> 0 \<and> int (length (ss_entries seen)) \<ge> ss_limit seen \<longleftrightarrow> 0 < limit \<and> limit \<le> int (length ?u)"
    using assms ent(2) by (auto simp: st trace_inv_def)
  consider "?d \<in> set ?u" | "?d \<notin> set ?u" "0 < limit \<and> limit \<le> int (length ?u)"
    | "?d \<notin> set ?u" "\<not> (0 < limit \<and> limit \<le> int (length ?u))" by blast
  then show ?thesis
  proof cases
    case 1
    then have "?d \<in> set ?ds" using set_up_to[of limit "dedup ?ds"] by auto
    then have "up_to limit (dedup (?ds @ [?d])) = ?u" by (simp add: dedup_snoc)
    then show ?thesis using assms 1 ent by (simp add: st addIndicator_def seen_mark_def collect_def trace_inv_def ds)
  next
    case 2
    then have "up_to limit (dedup (?ds @ [?d])) = ?u" by (simp add: dedup_snoc up_to_snoc)
    then show ?thesis using assms 2 ent full by (simp add: st addIndicator_def seen_mark_def collect_def trace_inv_def ds)
  next
    case 3
    have "?u = dedup ?ds" by (rule up_to_full[OF 3(2)])
    then have new: "?d \<notin> set ?ds" using 3(1) by simp
    then have u: "up_to limit (dedup (?ds @ [?d])) = ?u @ [?d]" using 3(2) by (simp add: dedup_snoc up_to_snoc)
    have "filter (\<lambda>d. d \<notin> set (?u @ [?d])) (?ds @ [?d]) = filter (\<lambda>d. d \<notin> set ?u) ?ds"
      using new by (auto intro!: filter_cong)
    then show ?thesis using assms 3 ent full u by (simp add: st addIndicator_def seen_mark_def collect_def trace_inv_def ds)
  qed
qed

interpretation trace: parse_invariant collect F "trace_inv limit"
proof unfold_locales
  show "trace_inv limit st \<Longrightarrow> trace_inv limit (snd (addIndicator collect ind st))" for st ind
    by (rule trace_inv_add)
qed (auto simp: trace_inv_def count_invalid_def count_skipped_def case_prod_unfold)

lemma feed_trace_inv:
  assumes "feed_trace F limit body = Some (e, stats, tr)"
  shows "map (iDomain \<circ> fst) (filter (\<lambda>x. \<not> snd x) tr) = up_to limit (dedup (trace_domains tr))"
    and "Valid stats = length (up_to limit (dedup (trace_domains tr)))"
    and "Valid stats + Duplicates stats = length tr"
    and "TruncatedDomains stats =
      length (filter (\<lambda>d. d \<notin> set (up_to limit (dedup (trace_domains tr)))) (trace_domains tr))"
proof -
  have "trace_inv limit (no_stats, newBoundedSeenSet limit, [])"
    by (simp add: trace_inv_def newBoundedSeenSet_def unboundedFeedDomains_def no_stats_def up_to_def trace_domains_def)
  from trace.parse_inv[OF assms[unfolded feed_trace_def] this]
  obtain st seen where "trace_inv limit (st, seen, tr)" "stats = st\<lparr>TruncatedDomains := ss_overflowed seen\<rparr>" by blast
  then show "map (iDomain \<circ> fst) (filter (\<lambda>x. \<not> snd x) tr) = up_to limit (dedup (trace_domains tr))"
    "Valid stats = length (up_to limit (dedup (trace_domains tr)))" "Valid stats + Duplicates stats = length tr"
    "TruncatedDomains stats = length (filter (\<lambda>d. d \<notin> set (up_to limit (dedup (trace_domains tr)))) (trace_domains tr))"
    by (auto simp: trace_inv_def) (metis length_rev)
qed

text \<open>Every domain of a trace is canonical and lower case.\<close>

interpretation canonical: parse_invariant collect F
  "\<lambda>(stats, seen, tr). url_keeps_lower (fl_libs F) \<longrightarrow>
     (\<forall>d \<in> set (trace_domains tr). canonical_domain d \<and> to_lower d = d)"
proof (unfold_locales, goal_cases)
  case (1 v ind st)
  obtain u where "NormalizeDomain (fl_libs F) u = Inr (iDomain ind)" using normalizeIndicator_domain[OF 1(1)] by blast
  then show ?case using 1(2) NormalizeDomain_canonical NormalizeDomain_lower
    by (auto simp: addIndicator_def collect_def trace_domains_def Let_def split: prod.splits)
qed (auto simp: count_invalid_def count_skipped_def)

lemma trace_canonical:
  assumes "feed_trace F limit body = Some (e, stats, tr)" and "url_keeps_lower (fl_libs F)" and "d \<in> set (trace_domains tr)"
  shows "canonical_domain d" "to_lower d = d"
  using canonical.parse_inv[OF assms(1)[unfolded feed_trace_def]] assms(2,3) by (auto simp: trace_domains_def)

end
