(* ===== verification/FeedProps.thy ===== *)
theory FeedProps
  imports FeedLaws
begin

text \<open>
  What reading a feed promises: which domains a caller sees and how often, when a CSV feed is read to
  its end, and how an admission plan classifies the hosts of a feed.
\<close>

section \<open>Deduplication\<close>

definition record_domain ::
  "string \<Rightarrow> parse_stats \<times> string list \<Rightarrow> feed_error option \<times> parse_stats \<times> string list" where
  "record_domain d = (\<lambda>(stats, ds). (None, stats, ds @ [d]))"

interpretation recorded: handler_sim "domain_handler record_domain" collect
  "\<lambda>(s, ds) (s', tr). s = s' \<and> ds = map (iDomain \<circ> fst) (filter (\<lambda>x. \<not> snd x) tr)"
  by unfold_locales (auto simp: domain_handler_def record_domain_def collect_def split: if_splits)


text \<open>Concrete packages and a small feed for the witnesses.\<close>

definition demo_url :: "string \<Rightarrow> feed_url option" where
  "demo_url u =
     (if u = ''http://host.test/a'' then Some \<lparr>fu_hostname = ''host.test'', fu_path = ''/a'', fu_query = [], fu_fragment = []\<rparr>
      else if u = ''http://host.test/b'' then Some \<lparr>fu_hostname = ''host.test'', fu_path = ''/b'', fu_query = [], fu_fragment = []\<rparr>
      else if u = ''http://lone.test/a'' then Some \<lparr>fu_hostname = ''lone.test'', fu_path = ''/a'', fu_query = [], fu_fragment = []\<rparr>
      else None)"

definition demo_feed_libs :: feed_libs where
  "demo_feed_libs = \<lparr>fl_libs = sample_libs, fl_url = demo_url, fl_sha256 = (\<lambda>s. s), fl_suffix = (\<lambda>d. ''test''),
     fl_csv = (\<lambda>b n. if n = 0 then CsvRow [''1'', ''evil.test''] else CsvError)\<rparr>"

definition demo_body :: feed_body where
  "demo_body = \<lparr>fb_bytes = ''evil.test'' @ [CHR 0x0A] @ ''http://host.test/a http://lone.test/a'' @ [CHR 0x0A] @
     ''0.0.0.0 evil.test'' @ [CHR 0x0A] @ ''http://host.test/b'', fb_fails = False\<rparr>"

definition demo_feed_env :: env where
  "demo_feed_env = (\<lambda>k. if k = ''SAFE_ZONE_FEED_MAX_DISTINCT_DOMAINS'' then ''2'' else [])"

lemma demo_parsed:
  "map_option (\<lambda>(e, s, ds). (e, ds)) (ParseEach demo_feed_env record_domain demo_feed_libs demo_body no_stats []) =
     Some (None, [''evil.test'', ''host.test''])"
  by code_simp


section \<open>CSV feeds\<close>

lemma csv_list_total:
  assumes "\<And>ind d st. fst (on ind d st) = None"
  shows "fst (csv_list on F rs st) = None"
proof (induction rs arbitrary: st)
  case (Cons r rs)
  have "fst (csv_step on F r st) = None"
    using assms by (auto simp: csv_step_def addIndicator_def case_prod_unfold Let_def split: csv_read.splits option.splits)
  then show ?case using Cons by (cases "csv_step on F r st") auto
qed simp



section \<open>Admission plans\<close>

text \<open>The state of a host after the indicators of a trace.\<close>

definition host_indicators :: "(indicator \<times> bool) list \<Rightarrow> string \<Rightarrow> indicator list" where
  "host_indicators tr d = filter (\<lambda>i. iDomain i = d) (map fst tr)"

definition host_state :: "admission_mode \<Rightarrow> (indicator \<times> bool) list \<Rightarrow> string \<Rightarrow> admission_state" where
  "host_state mode tr d = fold (admit_indicator mode) (host_indicators tr d) no_admission"

lemma host_state_snoc:
  "host_state mode (tr @ [(ind, b)]) d =
     (if iDomain ind = d then admit_indicator mode ind (host_state mode tr d) else host_state mode tr d)"
  by (simp add: host_state_def host_indicators_def)

lemma update_map_keys:
  assumes "d \<in> set xs" "distinct xs"
  shows "AList.update d v (map (\<lambda>x. (x, f x)) xs) = map (\<lambda>x. (x, if x = d then v else f x)) xs"
  using assms by (induction xs) auto

lemma map_of_map_keys: "map_of (map (\<lambda>x. (x, f x)) xs) d = (if d \<in> set xs then Some (f d) else None)"
  by (induction xs) auto

definition plan_states :: "admission_mode \<Rightarrow> int \<Rightarrow> (indicator \<times> bool) list \<Rightarrow> admission_states" where
  "plan_states mode limit tr = map (\<lambda>d. (d, host_state mode tr d)) (up_to limit (dedup (trace_domains tr)))"

lemma distinct_up_to [simp]: "distinct (up_to limit (dedup xs))"
  by (simp add: up_to_def)

lemma plan_handler_step:
  assumes "limit' = (if limit \<le> 0 then - 1 else limit)"
    and "plan_handler mode limit' ind b (s, plan_states mode limit tr, over) = (e, s1, states, over1)"
  shows "s1 = s \<and> states = plan_states mode limit (tr @ [(ind, b)])"
proof -
  let ?d = "iDomain ind" and ?ds = "trace_domains tr"
  let ?u = "up_to limit (dedup ?ds)"
  have ds: "trace_domains (tr @ [(ind, b)]) = ?ds @ [?d]" by (simp add: trace_domains_def)
  consider "?d \<in> set ?u" | "?d \<notin> set ?u" "0 < limit \<and> limit \<le> int (length ?u)"
    | "?d \<notin> set ?u" "\<not> (0 < limit \<and> limit \<le> int (length ?u))" by blast
  then show ?thesis
  proof cases
    case 1
    then have "?d \<in> set ?ds" using set_up_to[of limit "dedup ?ds"] by auto
    then have "up_to limit (dedup (?ds @ [?d])) = ?u" by (simp add: dedup_snoc)
    then show ?thesis using assms(2) 1
      by (auto simp: plan_handler_def plan_states_def map_of_map_keys update_map_keys ds host_state_snoc)
  next
    case 2
    then have "up_to limit (dedup (?ds @ [?d])) = ?u" by (simp add: dedup_snoc up_to_snoc)
    moreover have "x \<noteq> ?d" if "x \<in> set ?u" for x using that 2(1) by blast
    ultimately show ?thesis using assms 2
      by (auto simp: plan_handler_def plan_states_def map_of_map_keys ds host_state_snoc)
  next
    case 3
    have "?u = dedup ?ds" by (rule up_to_full[OF 3(2)])
    then have new: "?d \<notin> set ?ds" using 3(1) by simp
    then have u: "up_to limit (dedup (?ds @ [?d])) = ?u @ [?d]" using 3(2) by (simp add: dedup_snoc up_to_snoc)
    have "host_indicators tr ?d = []"
      using new by (force simp: host_indicators_def trace_domains_def filter_empty_conv)
    then have "host_state mode tr ?d = no_admission" by (simp add: host_state_def)
    moreover have "x \<noteq> ?d" if "x \<in> set ?u" for x using that 3(1) by blast
    moreover have "\<not> (limit' \<ge> 0 \<and> int (length ?u) \<ge> limit')" using 3(2) assms(1) by auto
    ultimately show ?thesis using assms(2) 3(1) u
      by (auto simp: plan_handler_def plan_states_def map_of_map_keys ds host_state_snoc)
  qed
qed

interpretation planned: handler_sim "plan_handler mode (if limit \<le> 0 then - 1 else limit)" collect
  "\<lambda>(s, states, over) (s', tr). s = s' \<and> states = plan_states mode limit tr"
proof (unfold_locales, goal_cases)
  case (2 x y ind d x')
  then show ?case using plan_handler_step[OF refl]
    by (auto simp: collect_def split: prod.splits)
qed (auto simp: collect_def)

lemma plan_of_trace:
  assumes "PlanAdmission getenv F body mode = Some (Inr plan)"
  shows "\<exists>stats tr over. feed_trace F (resolvedFeedDomainLimit getenv) body = Some (None, stats, tr) \<and>
    plan = build_plan mode stats (plan_states mode (resolvedFeedDomainLimit getenv) tr) over"
proof -
  let ?lim = "resolvedFeedDomainLimit getenv"
  have lim: "(if ?lim \<le> 0 then unboundedFeedDomains else ?lim) = (if ?lim \<le> 0 then - 1 else ?lim)"
    by (simp add: unboundedFeedDomains_def)
  obtain stats states over where p:
    "parseIndicatorsWithLimit (plan_handler mode (if ?lim \<le> 0 then - 1 else ?lim)) F body
       (newBoundedSeenSet ?lim) no_stats ([], 0) = Some (None, stats, states, over)"
    and plan: "plan = build_plan mode stats states over"
    using assms by (auto simp: PlanAdmission_def planAdmissionWithLimit_def ParseEachIndicator_def
        lim Let_def split: option.splits prod.splits)
  have "plan_states mode ?lim [] = []" by (simp add: plan_states_def trace_domains_def up_to_def)
  then show ?thesis using planned.parse_sim[OF p, of no_stats "[]"] plan by (auto simp: feed_trace_def)
qed

text \<open>What makes a host authoritative: one indicator for the whole host, or two different resources.\<close>

lemma admission_state_spec:
  fixes inds :: "indicator list" and mode
  defines "scoped \<equiv> filter (\<lambda>i. \<not> whole_host mode i) inds"
  shows "let st = fold (admit_indicator mode) inds no_admission in
    (resourceSeen st \<longleftrightarrow> scoped \<noteq> []) \<and> (scoped \<noteq> [] \<longrightarrow> firstResource st = resourceFingerprint (hd scoped)) \<and>
    (authoritative st \<longleftrightarrow> (\<exists>i \<in> set inds. whole_host mode i) \<or>
       (\<exists>i \<in> set scoped. resourceFingerprint i \<noteq> resourceFingerprint (hd scoped)))"
  unfolding scoped_def
proof (induction inds rule: rev_induct)
  case Nil
  then show ?case by (simp add: no_admission_def)
next
  case (snoc ind inds)
  let ?st = "fold (admit_indicator mode) inds no_admission"
  show ?case
  proof (cases "whole_host mode ind")
    case True
    then have "fold (admit_indicator mode) (inds @ [ind]) no_admission =
        admit_indicator mode ind ?st" "authoritative (admit_indicator mode ind ?st)"
      "resourceSeen (admit_indicator mode ind ?st) = resourceSeen ?st"
      "firstResource (admit_indicator mode ind ?st) = firstResource ?st"
      by (simp_all add: admit_indicator_def Let_def)
    then show ?thesis using snoc True by (simp add: Let_def)
  next
    case False
    then show ?thesis using snoc
      by (cases "filter (\<lambda>i. \<not> whole_host mode i) inds") (auto simp: admit_indicator_def Let_def)
  qed
qed

lemma differing_from_head:
  "(\<exists>i \<in> set xs. f i \<noteq> f (hd xs)) \<longleftrightarrow> (\<exists>i \<in> set xs. \<exists>j \<in> set xs. f i \<noteq> f j)"
  by (cases xs) (auto, metis+)

lemma authoritative_host:
  "authoritative (host_state mode tr d) \<longleftrightarrow>
     (\<exists>i \<in> set (host_indicators tr d). whole_host mode i) \<or>
     (\<exists>i \<in> set (host_indicators tr d). \<exists>j \<in> set (host_indicators tr d).
        resourceFingerprint i \<noteq> resourceFingerprint j)"
  using admission_state_spec[of mode "host_indicators tr d"]
  unfolding host_state_def Let_def differing_from_head by auto

text \<open>
  C15: an admission plan. In the corroborating modes the plan splits the distinct domains of the feed, up
  to the limit, into two sorted lists without repetition: a host is authoritative when some indicator
  speaks for the whole host (a plain domain, a URL without path, query or fragment, or an address) or
  when two of its indicators name different resources, in whatever order they appear; all other
  hosts are contextual.
\<close>

theorem admission_plan_partition:
  assumes "PlanAdmission getenv F body mode = Some (Inr plan)"
  shows "\<exists>stats tr. ParseEachIndicator getenv collect F body no_stats [] = Some (None, stats, tr) \<and>
    sorted_wrt (<) (apAuthoritative plan) \<and> sorted_wrt (<) (apContextual plan) \<and>
    set (apAuthoritative plan) \<union> set (apContextual plan) =
      set (up_to (resolvedFeedDomainLimit getenv) (dedup (trace_domains tr))) \<and>
    set (apAuthoritative plan) \<inter> set (apContextual plan) = {} \<and>
    (\<forall>d \<in> set (apAuthoritative plan) \<union> set (apContextual plan).
       d \<in> set (apAuthoritative plan) \<longleftrightarrow>
         (\<exists>i \<in> set (host_indicators tr d). whole_host mode i \<or>
            (\<exists>j \<in> set (host_indicators tr d). resourceFingerprint i \<noteq> resourceFingerprint j)))"
proof -
  let ?lim = "resolvedFeedDomainLimit getenv"
  obtain stats tr over where tr: "feed_trace F ?lim body = Some (None, stats, tr)"
    and plan: "plan = build_plan mode stats (plan_states mode ?lim tr) over"
    using plan_of_trace[OF assms] by blast
  let ?u = "up_to ?lim (dedup (trace_domains tr))"
  have auth: "apAuthoritative plan = sort (filter (\<lambda>d. authoritative (host_state mode tr d)) ?u)"
    and ctx: "apContextual plan = sort (filter (\<lambda>d. \<not> authoritative (host_state mode tr d)) ?u)"
    by (simp_all add: plan build_plan_def plan_states_def filter_map comp_def Let_def)
  have strict: "sorted_wrt (<) (sort (filter P ?u))" for P by (simp add: strict_sorted_iff)
  have split: "set (apAuthoritative plan) \<union> set (apContextual plan) = set ?u"
    "set (apAuthoritative plan) \<inter> set (apContextual plan) = {}"
    unfolding auth ctx by auto
  have iff: "d \<in> set (apAuthoritative plan) \<longleftrightarrow>
      (\<exists>i \<in> set (host_indicators tr d). whole_host mode i \<or>
         (\<exists>j \<in> set (host_indicators tr d). resourceFingerprint i \<noteq> resourceFingerprint j))"
    if "d \<in> set (apAuthoritative plan) \<union> set (apContextual plan)" for d
  proof -
    have "d \<in> set (apAuthoritative plan) \<longleftrightarrow> authoritative (host_state mode tr d)"
      using that unfolding split(1) unfolding auth by simp
    then show ?thesis unfolding authoritative_host by blast
  qed
  show ?thesis
  proof (intro exI conjI ballI)
    show "ParseEachIndicator getenv collect F body no_stats [] = Some (None, stats, tr)"
      using tr by (simp add: feed_trace_def ParseEachIndicator_def)
    show "sorted_wrt (<) (apAuthoritative plan)" "sorted_wrt (<) (apContextual plan)"
      unfolding auth ctx by (rule strict)+
  qed (use split iff in blast)+
qed

lemma demo_planned:
  "case PlanAdmission (\<lambda>k. []) demo_feed_libs demo_body AdmissionShadow of
     Some (Inr p) \<Rightarrow> apAuthoritative p = [''evil.test'', ''host.test''] \<and> apContextual p = [''lone.test'']
   | _ \<Rightarrow> False"
  by code_simp

theorem admission_plan_partition_witness:
  "\<exists>plan. PlanAdmission (\<lambda>k. []) demo_feed_libs demo_body AdmissionShadow = Some (Inr plan) \<and>
     sorted_wrt (<) (apAuthoritative plan) \<and> set (apAuthoritative plan) \<inter> set (apContextual plan) = {}"
proof -
  obtain plan where p: "PlanAdmission (\<lambda>k. []) demo_feed_libs demo_body AdmissionShadow = Some (Inr plan)"
    using demo_planned by (simp split: option.splits sum.splits)
  have "sorted_wrt (<) (apAuthoritative plan) \<and> set (apAuthoritative plan) \<inter> set (apContextual plan) = {}"
    using admission_plan_partition[OF p] by (elim exE conjE) (intro conjI)
  then show ?thesis using p by (intro exI[of _ plan] conjI) simp_all
qed

end
