(* ===== verification/FeedSync.thy ===== *)
theory FeedSync
  imports FeedAdmission AnalysisCache
begin

text \<open>
  Synchronising a threat feed into Redis: \<^verbatim>\<open>Sync\<close> and the opening of a source of
  \<^verbatim>\<open>internal/feed/sync.go\<close>, the status records and presets of \<^verbatim>\<open>internal/feed/status.go\<close> and the
  operations of \<^verbatim>\<open>internal/cache/redis.go\<close> they use. The server holds sorted sets, strings and
  status records by key; an absent key is an empty sorted set. Any operation on it may fail: the
  reply can be lost before the server acts or after it. The HTTP exchange, gzip, files and the
  clocks are fields of the record \<open>sync_world\<close>.
\<close>

section \<open>Status records\<close>

record source_status =
  stSource :: string
  stSourceID :: string
  stFeedKey :: string
  stStatus :: string
  stLastAttemptAt :: stamp
  stLastSuccessAt :: stamp
  stLastFailureAt :: stamp
  stLastError :: "feed_error option"
  stStats :: parse_stats
  stWritten :: int
  stReplace :: bool
  stFinishedAt :: stamp
  stParserDrift :: bool
  stParserDriftReason :: "(nat \<times> nat) option"
  stEmptyIngest :: bool
  stCacheInvalidated :: bool
  stFeedRevision :: int
  stAdmission :: "admission_stats option"
  stShadow :: "shadow_diff option"
  stStale :: bool

definition blank_status :: "string \<Rightarrow> string \<Rightarrow> string \<Rightarrow> source_status" where
  "blank_status source sid key =
     \<lparr>stSource = source, stSourceID = sid, stFeedKey = key, stStatus = [], stLastAttemptAt = NoStamp,
      stLastSuccessAt = NoStamp, stLastFailureAt = NoStamp, stLastError = None, stStats = no_stats,
      stWritten = 0, stReplace = False, stFinishedAt = NoStamp, stParserDrift = False,
      stParserDriftReason = None, stEmptyIngest = False, stCacheInvalidated = False, stFeedRevision = 0,
      stAdmission = None, stShadow = None, stStale = False\<rparr>"

section \<open>The Redis server\<close>

datatype op_outcome = OpDone | OpLost | OpUnseen

type_synonym zset = "(string \<times> int) list"

record feed_server =
  fv_zsets :: "string \<Rightarrow> zset"
  fv_strings :: "string \<rightharpoonup> string"
  fv_status :: "string \<rightharpoonup> source_status"
  fv_ops :: nat

text \<open>
  One round trip. An effect is \<^const>\<open>None\<close> when the server answers with an error. The outcome of the
  \<open>n\<close>-th operation says whether its reply arrives, and if not whether the server acted.
\<close>

definition redis_op ::
  "(nat \<Rightarrow> op_outcome) \<Rightarrow> (feed_server \<Rightarrow> ('a \<times> feed_server) option) \<Rightarrow> feed_server \<Rightarrow>
   (feed_error + 'a) \<times> feed_server" where
  "redis_op W eff s =
     (let s1 = s\<lparr>fv_ops := fv_ops s + 1\<rparr> in
      case W (fv_ops s) of
        OpDone \<Rightarrow> (case eff s1 of None \<Rightarrow> (Inl ErrRedisOp, s1) | Some (a, s2) \<Rightarrow> (Inr a, s2))
      | OpLost \<Rightarrow> (Inl ErrRedisOp, s1)
      | OpUnseen \<Rightarrow> (Inl ErrRedisOp, case eff s1 of None \<Rightarrow> s1 | Some (a, s2) \<Rightarrow> s2))"

definition set_zset :: "string \<Rightarrow> zset \<Rightarrow> feed_server \<Rightarrow> feed_server" where
  "set_zset key z s = s\<lparr>fv_zsets := (fv_zsets s)(key := z)\<rparr>"

definition add_members :: "zset \<Rightarrow> zset \<Rightarrow> zset" where
  "add_members members z = fold (\<lambda>(m, score). AList.update m score) members z"

definition ZAdd :: "(nat \<Rightarrow> op_outcome) \<Rightarrow> string \<Rightarrow> zset \<Rightarrow> feed_server \<Rightarrow> (feed_error + int) \<times> feed_server" where
  "ZAdd W key members s =
     (if members = [] then (Inr 0, s)
      else redis_op W (\<lambda>s.
        Some (int (length (add_members members (fv_zsets s key))) - int (length (fv_zsets s key)),
              set_zset key (add_members members (fv_zsets s key)) s)) s)"

definition redis_Delete :: "(nat \<Rightarrow> op_outcome) \<Rightarrow> string \<Rightarrow> feed_server \<Rightarrow> (feed_error + unit) \<times> feed_server" where
  "redis_Delete W key s = redis_op W (\<lambda>s. Some ((), set_zset key [] s)) s"

definition ZRemRangeByScore ::
  "(nat \<Rightarrow> op_outcome) \<Rightarrow> string \<Rightarrow> int \<Rightarrow> feed_server \<Rightarrow> (feed_error + unit) \<times> feed_server" where
  "ZRemRangeByScore W key maxScore s =
     redis_op W (\<lambda>s. Some ((), set_zset key (filter (\<lambda>(m, score). score > maxScore) (fv_zsets s key)) s)) s"

definition redis_Rename ::
  "(nat \<Rightarrow> op_outcome) \<Rightarrow> string \<Rightarrow> string \<Rightarrow> feed_server \<Rightarrow> (feed_error + unit) \<times> feed_server" where
  "redis_Rename W fromKey toKey s =
     redis_op W (\<lambda>s. if fv_zsets s fromKey = [] then None
        else Some ((), set_zset toKey (fv_zsets s fromKey) (set_zset fromKey [] s))) s"

definition Increment :: "(nat \<Rightarrow> op_outcome) \<Rightarrow> string \<Rightarrow> feed_server \<Rightarrow> (feed_error + int) \<times> feed_server" where
  "Increment W key s =
     redis_op W (\<lambda>s.
       (case (case fv_strings s key of None \<Rightarrow> Some 0 | Some v \<Rightarrow> Atoi v) of
          None \<Rightarrow> None
        | Some n \<Rightarrow>
            if n = 2 ^ 63 - 1 then None
            else Some (n + 1, s\<lparr>fv_strings := (fv_strings s)(key \<mapsto> format_int (n + 1))\<rparr>))) s"

definition GetInt64 :: "(nat \<Rightarrow> op_outcome) \<Rightarrow> string \<Rightarrow> feed_server \<Rightarrow> (feed_error + int) \<times> feed_server" where
  "GetInt64 W key s =
     redis_op W (\<lambda>s.
       (case fv_strings s key of
          None \<Rightarrow> Some (0, s)
        | Some v \<Rightarrow> if v = [] then Some (0, s) else map_option (\<lambda>n. (n, s)) (Atoi v))) s"

definition ZCount :: "(nat \<Rightarrow> op_outcome) \<Rightarrow> string \<Rightarrow> int \<Rightarrow> feed_server \<Rightarrow> (feed_error + int) \<times> feed_server" where
  "ZCount W key minScore s =
     redis_op W (\<lambda>s. Some (int (length (filter (\<lambda>(m, score). score \<ge> minScore) (fv_zsets s key))), s)) s"

definition GetStatus ::
  "(nat \<Rightarrow> op_outcome) \<Rightarrow> string \<Rightarrow> feed_server \<Rightarrow> (feed_error + source_status option) \<times> feed_server" where
  "GetStatus W key s = redis_op W (\<lambda>s. Some (fv_status s key, s)) s"

definition SetStatus ::
  "(nat \<Rightarrow> op_outcome) \<Rightarrow> string \<Rightarrow> source_status \<Rightarrow> feed_server \<Rightarrow> (feed_error + unit) \<times> feed_server" where
  "SetStatus W key st s = redis_op W (\<lambda>s. Some ((), s\<lparr>fv_status := (fv_status s)(key \<mapsto> st)\<rparr>)) s"

section \<open>Keys and defaults\<close>

definition DefaultThreatFeedKey :: string where
  "DefaultThreatFeedKey = ''safe-zone:threat:feed''"

definition normalizedFeedKey :: "string \<Rightarrow> string" where
  "normalizedFeedKey feedKey =
     (let feedKey = trim_space feedKey in if feedKey = [] then DefaultThreatFeedKey else feedKey)"

definition RevisionKey :: "string \<Rightarrow> string" where
  "RevisionKey feedKey = normalizedFeedKey feedKey @ '':revision''"

definition hex_bytes :: "string \<Rightarrow> string" where
  "hex_bytes bs = concat (map (\<lambda>c. [hex_digit (byte c div 16), hex_digit (byte c mod 16)]) bs)"

definition sourceID :: "feed_libs \<Rightarrow> string \<Rightarrow> string \<Rightarrow> string" where
  "sourceID F feedKey source =
     hex_bytes (take 8 (fl_sha256 F (normalizedFeedKey feedKey @ [CHR 0x0A] @ trim_space source)))"

definition StatusKey :: "feed_libs \<Rightarrow> string \<Rightarrow> string \<Rightarrow> string" where
  "StatusKey F feedKey source = normalizedFeedKey feedKey @ '':status:'' @ sourceID F feedKey source"

definition parserDriftDefaults :: "rat \<Rightarrow> int \<Rightarrow> rat \<times> int" where
  "parserDriftDefaults ratio minInvalid =
     (if ratio \<le> 0 then 20 / 100 else ratio, if minInvalid \<le> 0 then 25 else minInvalid)"

definition cacheInvalidationMinWrites :: "int \<Rightarrow> int" where
  "cacheInvalidationMinWrites value = (if value \<le> 0 then 1 else value)"

text \<open>The reason is the pair of counts its text is formatted from.\<close>

definition parserDriftStatus :: "parse_stats \<Rightarrow> rat \<Rightarrow> int \<Rightarrow> bool \<times> (nat \<times> nat) option" where
  "parserDriftStatus stats ratio0 minInvalid0 =
     (let (ratio, minInvalid) = parserDriftDefaults ratio0 minInvalid0;
          totalCandidates = Valid stats + Invalid stats
      in if int (Invalid stats) < minInvalid \<or> totalCandidates = 0 then (False, None)
         else if of_nat (Invalid stats) / of_nat totalCandidates < ratio then (False, None)
         else (True, Some (Invalid stats, totalCandidates)))"

section \<open>Options and reports\<close>

record sync_options =
  soSource :: string
  soFileRoot :: string
  soMaxBytes :: int
  soRedisAddr :: string
  soKey :: string
  soDryRun :: bool
  soReplace :: bool
  soAllowInsecureHTTP :: bool
  soDriftInvalidRatio :: rat
  soDriftMinInvalid :: int
  soMinWrites :: int
  soTTL :: int
  soChurnTTL :: int
  soAdmissionMode :: string

record sync_report =
  srSource :: string
  srKey :: string
  srDryRun :: bool
  srReplace :: bool
  srStats :: parse_stats
  srWritten :: int
  srRedisAddr :: string
  srFinishedAt :: stamp
  srParserDrift :: bool
  srParserDriftReason :: "(nat \<times> nat) option"
  srCacheInvalidated :: bool
  srFeedRevision :: int
  srAdmission :: "admission_stats option"
  srShadow :: "shadow_diff option"
  srChurnTTLDays :: int

section \<open>Opening a source\<close>

datatype redirect_rule = GuardedRedirects | GuardedHTTPSRedirects

record http_response =
  hrStatus :: int
  hrEncoding :: string
  hrBody :: feed_body

record sync_world =
  sw_env :: env
  sw_libs :: feed_libs
  sw_faults :: "nat \<Rightarrow> op_outcome"
  sw_parse :: "string \<Rightarrow> http_url option"
  sw_http :: "redirect_rule \<Rightarrow> string \<Rightarrow> http_response option"
  sw_gunzip :: "feed_body \<Rightarrow> feed_body option"
  sw_file :: "string \<Rightarrow> string \<Rightarrow> feed_body option"
  sw_started :: int
  sw_staging :: int
  sw_now :: int
  sw_cleanup :: int
  sw_failed :: int

definition DefaultMaxFeedBytes :: int where
  "DefaultMaxFeedBytes = 52428800"

definition isPlainHTTPSource :: "string \<Rightarrow> bool" where
  "isPlainHTTPSource source = has_prefix (to_lower (trim_space source)) ''http://''"

definition wrapMaybeCompressedReadCloser ::
  "(feed_body \<Rightarrow> feed_body option) \<Rightarrow> feed_body \<Rightarrow> string \<Rightarrow> string \<Rightarrow> feed_body option" where
  "wrapMaybeCompressedReadCloser gunzip body source contentEncoding =
     (if equal_fold (trim_space contentEncoding) ''gzip'' \<or> has_suffix (to_lower source) ''.gz''
      then gunzip body else Some body)"

text \<open>\<^verbatim>\<open>maxBytesReadCloser\<close>: a longer body ends in a read error after the limit.\<close>

definition limitReadCloser :: "int \<Rightarrow> feed_body \<Rightarrow> feed_body" where
  "limitReadCloser limit body =
     (if int (length (fb_bytes body)) \<le> limit then body
      else \<lparr>fb_bytes = first_bytes limit (fb_bytes body), fb_fails = True\<rparr>)"

text \<open>
  The answer to a request that was not conditional may still be 304; the response then has no body
  and the reader is nil, the inner \<^const>\<open>None\<close>.
\<close>

definition OpenSourceWithin ::
  "sync_world \<Rightarrow> string \<Rightarrow> string \<Rightarrow> int \<Rightarrow> bool \<Rightarrow> feed_error + feed_body option" where
  "OpenSourceWithin w source fileRoot maxBytes0 allowInsecureHTTP =
     (let maxBytes = (if maxBytes0 \<le> 0 then DefaultMaxFeedBytes else maxBytes0);
          opened = (\<lambda>b. case b of None \<Rightarrow> Inl ErrOpen | Some body \<Rightarrow> Inr (Some (limitReadCloser maxBytes body)))
      in
      if has_prefix source ''http://'' \<or> has_prefix source ''https://'' then
        (case ValidateURL (sw_parse w) source False of
           Inl e \<Rightarrow> Inl ErrOpen
         | Inr u \<Rightarrow>
             (let rule = (if has_prefix (to_lower (trim_space source)) ''https://'' \<and> \<not> allowInsecureHTTP
                          then GuardedHTTPSRedirects else GuardedRedirects)
              in case sw_http w rule source of
                   None \<Rightarrow> Inl ErrOpen
                 | Some resp \<Rightarrow>
                     if hrStatus resp = 304 then Inr None
                     else if hrStatus resp < 200 \<or> hrStatus resp \<ge> 300 then Inl ErrOpen
                     else opened (wrapMaybeCompressedReadCloser (sw_gunzip w) (hrBody resp) source (hrEncoding resp))))
      else
        (case sw_file w fileRoot source of
           None \<Rightarrow> Inl ErrOpen
         | Some file_body \<Rightarrow> opened (wrapMaybeCompressedReadCloser (sw_gunzip w) file_body source [])))"

section \<open>Recording the outcome\<close>

definition recordSyncFailure :: "sync_world \<Rightarrow> string \<Rightarrow> string \<Rightarrow> feed_error \<Rightarrow> feed_server \<Rightarrow> feed_server" where
  "recordSyncFailure w feedKey source syncErr s =
     (let F = sw_libs w;
          fresh = blank_status source (sourceID F feedKey source) (normalizedFeedKey feedKey);
          (found, s) = GetStatus (sw_faults w) (StatusKey F feedKey source) s;
          st = (case found of Inr (Some old) \<Rightarrow> old | _ \<Rightarrow> fresh);
          now = At (sw_failed w);
          st = st\<lparr>stStatus := ''error'', stLastAttemptAt := now, stLastFailureAt := now,
                  stLastError := Some syncErr, stFinishedAt := now, stStale := True\<rparr>
      in snd (SetStatus (sw_faults w) (StatusKey F feedKey source) st s))"

definition recordSyncSuccess :: "sync_world \<Rightarrow> sync_report \<Rightarrow> feed_server \<Rightarrow> (feed_error + unit) \<times> feed_server" where
  "recordSyncSuccess w report s =
     (let F = sw_libs w;
          st = (blank_status (srSource report) (sourceID F (srKey report) (srSource report))
                  (normalizedFeedKey (srKey report)))
               \<lparr>stStatus := ''ok'', stLastAttemptAt := srFinishedAt report, stLastSuccessAt := srFinishedAt report,
                stStats := srStats report, stWritten := srWritten report, stReplace := srReplace report,
                stFinishedAt := srFinishedAt report, stParserDrift := srParserDrift report,
                stParserDriftReason := srParserDriftReason report, stEmptyIngest := (Valid (srStats report) = 0),
                stCacheInvalidated := srCacheInvalidated report, stFeedRevision := srFeedRevision report,
                stAdmission := srAdmission report, stShadow := srShadow report\<rparr>
      in SetStatus (sw_faults w) (StatusKey F (srKey report) (srSource report)) st s)"

section \<open>Queueing members\<close>

record queue =
  q_batch :: zset
  q_written :: int
  q_server :: feed_server

definition sync_flush :: "sync_world \<Rightarrow> string \<Rightarrow> queue \<Rightarrow> feed_error option \<times> queue" where
  "sync_flush w targetKey q =
     (if q_batch q = [] then (None, q)
      else case ZAdd (sw_faults w) targetKey (q_batch q) (q_server q) of
        (Inl e, s) \<Rightarrow> (Some e, q\<lparr>q_server := s\<rparr>)
      | (Inr n, s) \<Rightarrow> (None, q\<lparr>q_written := q_written q + n, q_batch := [], q_server := s\<rparr>))"

definition member_score :: "sync_world \<Rightarrow> int \<Rightarrow> int" where
  "member_score w ttl = (sw_now w + ttl) div 1000000000"

definition queueDomain ::
  "sync_world \<Rightarrow> int \<Rightarrow> int \<Rightarrow> string \<Rightarrow> string \<Rightarrow> parse_stats \<times> queue \<Rightarrow> feed_error option \<times> parse_stats \<times> queue" where
  "queueDomain w baseTTL churnTTL targetKey domain = (\<lambda>(stats, q).
     (let (admitted, stats) = admitFeedDomain (sw_libs w) domain stats in
      if \<not> admitted then (None, stats, q)
      else
        (let memberTTL = MemberTTL domain baseTTL churnTTL;
             stats = (if memberTTL < baseTTL then stats\<lparr>ChurnProneTenants := ChurnProneTenants stats + 1\<rparr> else stats);
             q = q\<lparr>q_batch := q_batch q @ [(domain, member_score w memberTTL)]\<rparr>
         in if int (length (q_batch q)) \<ge> 1000
            then (let (err, q) = sync_flush w targetKey q in (err, stats, q))
            else (None, stats, q))))"

fun queue_all ::
  "(string \<Rightarrow> parse_stats \<times> queue \<Rightarrow> feed_error option \<times> parse_stats \<times> queue) \<Rightarrow> string list \<Rightarrow>
   parse_stats \<times> queue \<Rightarrow> feed_error option \<times> parse_stats \<times> queue" where
  "queue_all put [] st = (None, st)"
| "queue_all put (domain # domains) st =
     (case put domain st of
        (Some err, st) \<Rightarrow> (Some err, st)
      | (None, st) \<Rightarrow> queue_all put domains st)"

section \<open>Sync\<close>

definition with_drift :: "sync_options \<Rightarrow> sync_report \<Rightarrow> sync_report" where
  "with_drift opts report =
     (let (drift, reason) = parserDriftStatus (srStats report) (soDriftInvalidRatio opts) (soDriftMinInvalid opts)
      in report\<lparr>srParserDrift := drift, srParserDriftReason := reason\<rparr>)"

definition new_report :: "sync_world \<Rightarrow> sync_options \<Rightarrow> sync_report" where
  "new_report w opts =
     \<lparr>srSource = soSource opts, srKey = soKey opts, srDryRun = soDryRun opts, srReplace = soReplace opts,
      srStats = no_stats, srWritten = 0, srRedisAddr = [], srFinishedAt = At (sw_started w),
      srParserDrift = False, srParserDriftReason = None, srCacheInvalidated = False, srFeedRevision = 0,
      srAdmission = None, srShadow = None, srChurnTTLDays = 0\<rparr>"

text \<open>A failure is recorded when the run has a Redis client.\<close>

definition sync_fail ::
  "sync_world \<Rightarrow> sync_options \<Rightarrow> bool \<Rightarrow> feed_error \<Rightarrow> feed_server \<Rightarrow> (feed_error + sync_report) \<times> feed_server" where
  "sync_fail w opts redis err s =
     (Inl err, if redis then recordSyncFailure w (soKey opts) (soSource opts) err s else s)"

text \<open>A failure that leaves a staging key behind tries to delete it first.\<close>

definition sync_abort ::
  "sync_world \<Rightarrow> sync_options \<Rightarrow> string \<Rightarrow> feed_error \<Rightarrow> feed_server \<Rightarrow> (feed_error + sync_report) \<times> feed_server" where
  "sync_abort w opts stagingKey err s =
     (let s = (if stagingKey \<noteq> [] then snd (redis_Delete (sw_faults w) stagingKey s) else s)
      in sync_fail w opts True err s)"

text \<open>The revision bump and the status record that close a run.\<close>

definition sync_conclude ::
  "sync_world \<Rightarrow> sync_options \<Rightarrow> sync_report \<Rightarrow> feed_server \<Rightarrow> (feed_error + sync_report) \<times> feed_server" where
  "sync_conclude w opts report s =
     (case recordSyncSuccess w report s of
        (Inl e, s) \<Rightarrow> sync_fail w opts True e s
      | (Inr _, s) \<Rightarrow> (Inr report, s))"

definition sync_finish ::
  "sync_world \<Rightarrow> sync_options \<Rightarrow> sync_report \<Rightarrow> feed_server \<Rightarrow> (feed_error + sync_report) \<times> feed_server" where
  "sync_finish w opts report s =
     (if srWritten report \<ge> cacheInvalidationMinWrites (soMinWrites opts) \<or> srReplace report then
        (case Increment (sw_faults w) (RevisionKey (soKey opts)) s of
           (Inl e, s) \<Rightarrow> sync_fail w opts True e s
         | (Inr revision, s) \<Rightarrow>
             sync_conclude w opts (report\<lparr>srCacheInvalidated := True, srFeedRevision := revision\<rparr>) s)
      else
        (case GetInt64 (sw_faults w) (RevisionKey (soKey opts)) s of
           (Inl e, s) \<Rightarrow> sync_conclude w opts report s
         | (Inr revision, s) \<Rightarrow> sync_conclude w opts (report\<lparr>srFeedRevision := revision\<rparr>) s))"

text \<open>Cleaning up expired members and, in a replacing run, putting the staging key in place.\<close>

definition sync_publish ::
  "sync_world \<Rightarrow> sync_options \<Rightarrow> sync_report \<Rightarrow> string \<Rightarrow> string \<Rightarrow> parse_stats \<Rightarrow> queue \<Rightarrow>
   (feed_error + sync_report) \<times> feed_server" where
  "sync_publish w opts report targetKey stagingKey stats q0 =
     (case sync_flush w targetKey q0 of
        (Some err, q) \<Rightarrow> sync_abort w opts stagingKey err (q_server q)
      | (None, q) \<Rightarrow>
          (let s = snd (ZRemRangeByScore (sw_faults w) targetKey (sw_cleanup w) (q_server q));
               report = with_drift opts (report\<lparr>srWritten := q_written q, srStats := stats,
                                                 srRedisAddr := soRedisAddr opts\<rparr>)
           in if stagingKey = [] then sync_finish w opts report s
              else if Valid stats = 0 then sync_abort w opts stagingKey (ErrNoValidDomain (soSource opts)) s
              else case redis_Rename (sw_faults w) stagingKey (soKey opts) s of
                (Inl e, s) \<Rightarrow> sync_abort w opts stagingKey e s
              | (Inr _, s) \<Rightarrow> sync_finish w opts report s))"

definition sync_run ::
  "sync_world \<Rightarrow> sync_options \<Rightarrow> admission_mode \<Rightarrow> sync_report \<Rightarrow> string list \<Rightarrow> feed_body \<Rightarrow> feed_server \<Rightarrow>
   ((feed_error + sync_report) \<times> feed_server) option" where
  "sync_run w opts mode report0 planned body s =
     (let stagingKey = (if soReplace opts then soKey opts @ '':staging:'' @ format_int (sw_staging w) else []);
          targetKey = (if soReplace opts then stagingKey else soKey opts);
          baseTTL = (if soTTL opts \<le> 0 then DefaultSyncTTL else soTTL opts);
          report = (if soChurnTTL opts > 0
                    then report0\<lparr>srChurnTTLDays := soChurnTTL opts div day_ns\<rparr> else report0);
          put = queueDomain w baseTTL (soChurnTTL opts) targetKey;
          q = \<lparr>q_batch = [], q_written = 0, q_server = s\<rparr>
      in case (if mode = AdmissionLegacy then ParseEach (sw_env w) put (sw_libs w) body no_stats q
               else Some (queue_all put planned (srStats report, q))) of
           None \<Rightarrow> None
         | Some (Some err, stats, q) \<Rightarrow> Some (sync_abort w opts stagingKey err (q_server q))
         | Some (None, stats, q) \<Rightarrow> Some (sync_publish w opts report targetKey stagingKey stats q))"

text \<open>The dry run of the legacy mode counts what it would refuse and queues nothing.\<close>

definition dry_handler :: "feed_libs \<Rightarrow> string \<Rightarrow> parse_stats \<times> unit \<Rightarrow> feed_error option \<times> parse_stats \<times> unit" where
  "dry_handler F domain = (\<lambda>(stats, u). (None, snd (admitFeedDomain F domain stats), u))"

definition sync_dry_run ::
  "sync_world \<Rightarrow> sync_options \<Rightarrow> admission_mode \<Rightarrow> sync_report \<Rightarrow> feed_body \<Rightarrow> feed_server \<Rightarrow>
   ((feed_error + sync_report) \<times> feed_server) option" where
  "sync_dry_run w opts mode report body s =
     (if mode \<noteq> AdmissionLegacy then Some (Inr (with_drift opts report), s)
      else case ParseEach (sw_env w) (dry_handler (sw_libs w)) (sw_libs w) body no_stats () of
        None \<Rightarrow> None
      | Some (Some err, stats, u) \<Rightarrow> Some (sync_fail w opts False err s)
      | Some (None, stats, u) \<Rightarrow> Some (Inr (with_drift opts (report\<lparr>srStats := stats\<rparr>)), s))"

text \<open>
  The planned members of a run that is not in legacy mode. Contextual members are loaded in shadow
  mode only, and shared roots are refused before they are queued.
\<close>

definition sync_planned ::
  "feed_libs \<Rightarrow> admission_mode \<Rightarrow> admission_plan \<Rightarrow> sync_report \<Rightarrow> string list \<times> sync_report" where
  "sync_planned F mode plan report =
     (let report = report\<lparr>srStats := apParseStats plan, srAdmission := Some (apStats plan)\<rparr>;
          (planned, report) =
            (if mode = AdmissionShadow
             then (apAuthoritative plan @ apContextual plan,
                   report\<lparr>srShadow := Some (SummarizeShadowGap F (apContextual plan))\<rparr>)
             else (apAuthoritative plan, report));
          (kept, stats) = filterPublicSuffixMembers F planned (srStats report)
      in (kept, report\<lparr>srStats := stats\<rparr>))"

definition sync_body ::
  "sync_world \<Rightarrow> sync_options \<Rightarrow> admission_mode \<Rightarrow> feed_body \<Rightarrow> feed_server \<Rightarrow>
   ((feed_error + sync_report) \<times> feed_server) option" where
  "sync_body w opts mode body s =
     (let redis = (\<not> soDryRun opts \<and> trim_space (soRedisAddr opts) \<noteq> []);
          continue = (\<lambda>planned report.
            if soDryRun opts then sync_dry_run w opts mode report body s
            else sync_run w opts mode report planned body s)
      in if mode = AdmissionLegacy then continue [] (new_report w opts)
         else case PlanAdmission (sw_env w) (sw_libs w) body mode of
           None \<Rightarrow> None
         | Some (Inl err) \<Rightarrow> Some (sync_fail w opts redis err s)
         | Some (Inr plan) \<Rightarrow> (let (planned, report) = sync_planned (sw_libs w) mode plan (new_report w opts)
                              in continue planned report))"

definition Sync ::
  "sync_world \<Rightarrow> sync_options \<Rightarrow> feed_server \<Rightarrow> ((feed_error + sync_report) \<times> feed_server) option" where
  "Sync w opts0 s =
     (if trim_space (soSource opts0) = [] then Some (Inl ErrSourceRequired, s)
      else if isPlainHTTPSource (soSource opts0) \<and> \<not> soAllowInsecureHTTP opts0
      then Some (Inl (ErrPlainHTTP (trim_space (soSource opts0))), s)
      else
        (let opts = opts0\<lparr>soKey := (if trim_space (soKey opts0) = [] then DefaultThreatFeedKey else soKey opts0),
                          soFileRoot := (if trim_space (soFileRoot opts0) = [] then ''./data'' else soFileRoot opts0),
                          soMaxBytes := (if soMaxBytes opts0 \<le> 0 then DefaultMaxFeedBytes else soMaxBytes opts0)\<rparr>;
             redis = (\<not> soDryRun opts \<and> trim_space (soRedisAddr opts) \<noteq> [])
         in case NormalizeAdmissionMode (soAdmissionMode opts) of
              Inl err \<Rightarrow> Some (Inl err, s)
            | Inr mode \<Rightarrow>
                if mode = AdmissionFilter \<and> \<not> soDryRun opts then Some (Inl ErrFilterOnly, s)
                else case OpenSourceWithin w (soSource opts) (soFileRoot opts) (soMaxBytes opts) (soAllowInsecureHTTP opts) of
                  Inl err \<Rightarrow> Some (sync_fail w opts redis err s)
                | Inr reader \<Rightarrow>
                    if \<not> soDryRun opts \<and> \<not> redis then Some (sync_fail w opts redis ErrRedisRequired s)
                    else (case reader of
                            None \<Rightarrow> None
                          | Some body \<Rightarrow> sync_body w opts mode body s)))"

end
