(* ===== verification/FeedRuns.thy ===== *)
theory FeedRuns
  imports FeedSync
begin

text \<open>
  Running the feed: sources and status summaries of \<^verbatim>\<open>internal/feed/status.go\<close>, the validated settings of
  \<^verbatim>\<open>internal/feedsync/settings.go\<close> and the cycle over all sources of \<^verbatim>\<open>internal/feedsync/run.go\<close>. The
  parsed command line is a record; the environment gives the defaults the flags had.
\<close>

section \<open>Sources\<close>

definition ProductionFreeSources :: "string list" where
  "ProductionFreeSources =
    [''https://urlhaus.abuse.ch/downloads/csv_recent/'',
     ''https://raw.githubusercontent.com/openphish/public_feed/refs/heads/main/feed.txt'']"

definition ProductionVNSources :: "string list" where
  "ProductionVNSources =
    [''https://urlhaus.abuse.ch/downloads/csv_recent/'',
     ''https://raw.githubusercontent.com/openphish/public_feed/refs/heads/main/feed.txt'',
     ''https://raw.githubusercontent.com/phishdestroy/destroylist/main/rootlist/formats/primary_active/domains.txt'',
     ''https://raw.githubusercontent.com/Phishing-Database/Phishing.Database/master/phishing-domains-ACTIVE.txt'']"

fun collect_sources :: "string list \<Rightarrow> string list \<Rightarrow> string list" where
  "collect_sources seen [] = []"
| "collect_sources seen (raw # rest) =
     (let part = trim_space raw in
      if part = [] \<or> part \<in> set seen then collect_sources seen rest
      else part # collect_sources (part # seen) rest)"

definition ParseSources :: "string \<Rightarrow> string list" where
  "ParseSources raw =
     collect_sources []
       (filter (\<lambda>f. f \<noteq> []) (split_by (\<lambda>c. c = CHR '','' \<or> c = CHR 0x0A \<or> c = CHR 0x0D) raw))"

definition ResolveSources :: "string \<Rightarrow> string \<Rightarrow> string + string list" where
  "ResolveSources rawSources preset =
     (let sources = ParseSources rawSources; name = to_lower (trim_space preset) in
      if sources \<noteq> [] then Inr sources
      else if name = [] then Inr []
      else if name = ''production-free'' then Inr ProductionFreeSources
      else if name = ''production-vn'' then Inr ProductionVNSources
      else Inl preset)"

section \<open>Status summaries\<close>

definition defaultStaleAfter :: int where
  "defaultStaleAfter = 129600000000000"

definition applyStaleness :: "int \<Rightarrow> int \<Rightarrow> source_status \<Rightarrow> source_status" where
  "applyStaleness now staleAfter0 st =
     (let staleAfter = (if staleAfter0 \<le> 0 then defaultStaleAfter else staleAfter0) in
      st\<lparr>stStale := (case stLastSuccessAt st of At t \<Rightarrow> now - t > staleAfter | _ \<Rightarrow> True)\<rparr>)"

definition laterTimestamp :: "stamp \<Rightarrow> stamp \<Rightarrow> bool" where
  "laterTimestamp candidate current =
     (case candidate of
        NoStamp \<Rightarrow> False
      | Garbled \<Rightarrow> current = NoStamp
      | At t \<Rightarrow> (case current of At c \<Rightarrow> t > c | _ \<Rightarrow> True))"

definition never_synced :: "feed_libs \<Rightarrow> string \<Rightarrow> string \<Rightarrow> source_status" where
  "never_synced F feedKey source =
     (blank_status source (sourceID F feedKey source) (normalizedFeedKey feedKey))\<lparr>stStatus := ''never_synced''\<rparr>"

definition buildDefaultSourceStatuses :: "feed_libs \<Rightarrow> int \<Rightarrow> string \<Rightarrow> string list \<Rightarrow> int \<Rightarrow> source_status list" where
  "buildDefaultSourceStatuses F now feedKey sources staleAfter =
     map (\<lambda>source. applyStaleness now staleAfter (never_synced F feedKey source)) sources"

datatype summary_error = RedisDisabled | RedisError feed_error | NoActiveEntries

record status_summary =
  smConfigured :: bool
  smPreset :: string
  smFeedKey :: string
  smStatus :: string
  smError :: "summary_error option"
  smActiveEntries :: int
  smStale :: bool
  smParserDrift :: bool
  smEmptyIngest :: bool
  smRevision :: int
  smLastAttemptAt :: stamp
  smLastSuccessAt :: stamp
  smStaleAfter :: int
  smSources :: "source_status list"

text \<open>One source of the summary: its record, and what it contributes.\<close>

definition summarize_source ::
  "(nat \<Rightarrow> op_outcome) \<Rightarrow> feed_libs \<Rightarrow> int \<Rightarrow> string \<Rightarrow> int \<Rightarrow> string \<Rightarrow> status_summary \<times> bool \<times> feed_server \<Rightarrow>
   status_summary \<times> bool \<times> feed_server" where
  "summarize_source W F now feedKey staleAfter source = (\<lambda>(summary, hasWarning, s).
     (let (found, s) = GetStatus W (StatusKey F feedKey source) s;
          fresh = never_synced F feedKey source;
          state = (case found of
                     Inl e \<Rightarrow> fresh\<lparr>stStatus := ''error'', stLastError := Some e\<rparr>
                   | Inr None \<Rightarrow> fresh
                   | Inr (Some st) \<Rightarrow> st);
          state = applyStaleness now staleAfter state;
          hasWarning = (hasWarning \<or> stEmptyIngest state \<or> stStatus state = ''error'' \<or> stParserDrift state);
          summary = summary\<lparr>smStale := smStale summary \<or> stStale state,
             smParserDrift := smParserDrift summary \<or> stParserDrift state,
             smEmptyIngest := smEmptyIngest summary \<or> stEmptyIngest state,
             smLastAttemptAt := (if laterTimestamp (stLastAttemptAt state) (smLastAttemptAt summary)
                                 then stLastAttemptAt state else smLastAttemptAt summary),
             smLastSuccessAt := (if laterTimestamp (stLastSuccessAt state) (smLastSuccessAt summary)
                                 then stLastSuccessAt state else smLastSuccessAt summary),
             smSources := smSources summary @ [state]\<rparr>
      in (summary, hasWarning, s)))"

definition conclude_summary :: "bool \<Rightarrow> status_summary \<Rightarrow> status_summary" where
  "conclude_summary hasWarning summary =
     (if smActiveEntries summary = 0 \<and> (smRevision summary > 0 \<or> smLastSuccessAt summary \<noteq> NoStamp)
      then summary\<lparr>smStatus := ''missing'',
             smError := Some NoActiveEntries, smStale := True\<rparr>
      else if smStale summary then summary\<lparr>smStatus := ''stale''\<rparr>
      else if hasWarning then summary\<lparr>smStatus := ''warning''\<rparr>
      else summary\<lparr>smStatus := ''ok''\<rparr>)"

text \<open>The time is in nanoseconds; a nil or disabled client is \<open>enabled = False\<close>.\<close>

definition ReadStatusSummary ::
  "(nat \<Rightarrow> op_outcome) \<Rightarrow> feed_libs \<Rightarrow> bool \<Rightarrow> int \<Rightarrow> string \<Rightarrow> string \<Rightarrow> string list \<Rightarrow> int \<Rightarrow> feed_server \<Rightarrow>
   status_summary \<times> feed_server" where
  "ReadStatusSummary W F enabled now feedKey0 preset sources staleAfter0 s =
     (let feedKey = normalizedFeedKey feedKey0;
          staleAfter = (if staleAfter0 \<le> 0 then defaultStaleAfter else staleAfter0);
          summary = \<lparr>smConfigured = (sources \<noteq> []), smPreset = trim_space preset, smFeedKey = feedKey,
             smStatus = ''disabled'', smError = None, smActiveEntries = 0, smStale = False, smParserDrift = False,
             smEmptyIngest = False, smRevision = 0, smLastAttemptAt = NoStamp, smLastSuccessAt = NoStamp,
             smStaleAfter = staleAfter, smSources = []\<rparr>;
          unavailable = (\<lambda>e summary. summary\<lparr>smStatus := ''unavailable'', smError := Some e,
             smSources := buildDefaultSourceStatuses F now feedKey sources staleAfter, smStale := True\<rparr>)
      in if sources = [] then (summary, s)
         else if \<not> enabled then (unavailable RedisDisabled summary, s)
         else case GetInt64 W (RevisionKey feedKey) s of
           (Inl e, s) \<Rightarrow> (unavailable (RedisError e) summary, s)
         | (Inr revision, s) \<Rightarrow>
             (case ZCount W feedKey (now div 1000000000) s of
                (Inl e, s) \<Rightarrow> (unavailable (RedisError e) (summary\<lparr>smRevision := revision\<rparr>), s)
              | (Inr active, s) \<Rightarrow>
                  (let (summary, hasWarning, s) =
                         fold (summarize_source W F now feedKey staleAfter) sources
                           (summary\<lparr>smStatus := ''unknown'', smRevision := revision, smActiveEntries := active\<rparr>, False, s)
                   in (conclude_summary hasWarning summary, s))))"

section \<open>Settings\<close>

datatype sync_entry = ModeOneShot | ModeDaemon

record feed_flags =
  ffSource :: string
  ffRedisAddr :: string
  ffKey :: string
  ffReplace :: bool
  ffAllowInsecure :: bool
  ffAdmissionMode :: string
  ffTTLDays :: int
  ffChurnTTLDays :: int
  ffDryRun :: bool
  ffInterval :: int

record feed_settings =
  setSources :: "string list"
  setRedisAddr :: string
  setKey :: string
  setReplace :: bool
  setAllowInsecure :: bool
  setDryRun :: bool
  setInterval :: int
  setAdmissionMode :: admission_mode
  setTTL :: int
  setChurnTTL :: int

datatype settings_error =
    BadInterval int
  | BadTTL ttl_error
  | BadMode feed_error
  | FilterEvaluationOnly
  | SourceRequired
  | ReplaceManySources nat

definition ParseSettings :: "sync_entry \<Rightarrow> feed_flags \<Rightarrow> settings_error + feed_settings" where
  "ParseSettings mode flags =
     (if mode = ModeDaemon \<and> ffInterval flags \<le> 0 then Inl (BadInterval (ffInterval flags))
      else case TTLFromDays (ffTTLDays flags) of
        Inl e \<Rightarrow> Inl (BadTTL e)
      | Inr feedTTL \<Rightarrow>
        (case ChurnTTLFromDays (ffChurnTTLDays flags) of
           Inl e \<Rightarrow> Inl (BadTTL e)
         | Inr churnTTL \<Rightarrow>
           (case (if mode = ModeDaemon then CheckChurnTTLAgainstInterval churnTTL (ffInterval flags) else None) of
              Some e \<Rightarrow> Inl (BadTTL e)
            | None \<Rightarrow>
              (case NormalizeAdmissionMode (ffAdmissionMode flags) of
                 Inl e \<Rightarrow> Inl (BadMode e)
               | Inr admission \<Rightarrow>
                 (let sources = ParseSources (ffSource flags) in
                  if admission = AdmissionFilter then Inl FilterEvaluationOnly
                  else if sources = [] then Inl SourceRequired
                  else if ffReplace flags \<and> length sources > 1 then Inl (ReplaceManySources (length sources - 1))
                  else Inr \<lparr>setSources = sources, setRedisAddr = ffRedisAddr flags, setKey = ffKey flags,
                         setReplace = ffReplace flags, setAllowInsecure = ffAllowInsecure flags,
                         setDryRun = (mode = ModeOneShot \<and> ffDryRun flags),
                         setInterval = (if mode = ModeDaemon then ffInterval flags else 0),
                         setAdmissionMode = admission, setTTL = feedTTL, setChurnTTL = churnTTL\<rparr>)))))"

definition mode_name :: "admission_mode \<Rightarrow> string" where
  "mode_name m = (case m of AdmissionLegacy \<Rightarrow> ''legacy'' | AdmissionShadow \<Rightarrow> ''corroborated-url-host-shadow''
     | AdmissionFilter \<Rightarrow> ''corroborated-url-host-filter'')"

text \<open>The drift ratio is read as a float, which is the argument \<open>ratio\<close>.\<close>

definition BuildSyncOptionsForSource :: "env \<Rightarrow> rat \<Rightarrow> feed_settings \<Rightarrow> string \<Rightarrow> sync_options" where
  "BuildSyncOptionsForSource getenv ratio settings source =
     \<lparr>soSource = source, soFileRoot = env_String getenv ''SAFE_ZONE_FEED_FILE_ROOT'' ''./data'',
      soMaxBytes = env_Int getenv ''SAFE_ZONE_FEED_MAX_BYTES'' DefaultMaxFeedBytes,
      soRedisAddr = setRedisAddr settings, soKey = setKey settings, soDryRun = setDryRun settings,
      soReplace = setReplace settings, soAllowInsecureHTTP = setAllowInsecure settings,
      soDriftInvalidRatio = ratio, soDriftMinInvalid = env_Int getenv ''SAFE_ZONE_FEED_DRIFT_MIN_INVALID'' 25,
      soMinWrites = env_Int getenv ''SAFE_ZONE_FEED_CACHE_INVALIDATION_MIN_WRITES'' 1,
      soTTL = setTTL settings, soChurnTTL = setChurnTTL settings,
      soAdmissionMode = mode_name (setAdmissionMode settings)\<rparr>"

section \<open>A cycle over all sources\<close>

text \<open>
  Each source meets its own clocks and answers: the argument \<open>world\<close> gives them by position. A source
  that does not return keeps the cycle from returning.
\<close>

fun RunCycleAll ::
  "(nat \<Rightarrow> sync_world) \<Rightarrow> (string \<Rightarrow> sync_options) \<Rightarrow> nat \<Rightarrow> string list \<Rightarrow> feed_server \<Rightarrow>
   (sync_report list \<times> (string \<times> feed_error) list \<times> feed_server) option" where
  "RunCycleAll world build i [] s = Some ([], [], s)"
| "RunCycleAll world build i (source # sources) s =
     (case Sync (world i) (build source) s of
        None \<Rightarrow> None
      | Some (res, s) \<Rightarrow>
          (case RunCycleAll world build (i + 1) sources s of
             None \<Rightarrow> None
           | Some (reports, failures, s) \<Rightarrow>
               Some (case res of
                       Inl e \<Rightarrow> (reports, (source, e) # failures, s)
                     | Inr report \<Rightarrow> (report # reports, failures, s))))"

definition WarnIfFeedOversized :: "env \<Rightarrow> int option \<Rightarrow> bool" where
  "WarnIfFeedOversized getenv members =
     (let threshold = env_Int getenv ''SAFE_ZONE_FEED_MAX_MEMBERS_WARN'' 2000000 in
      case members of None \<Rightarrow> False | Some n \<Rightarrow> threshold > 0 \<and> n > threshold)"

end
