(* ===== verification/SyncProps.thy ===== *)
theory SyncProps
  imports FeedProps FeedRuns PipelineProps
begin

text \<open>
  What a feed synchronisation promises: a replacing run leaves the old live set or puts the whole new one
  in place, whatever operations on the server fail; a run that succeeds makes every accepted domain
  of the feed a threat-feed hit until it expires; and validated settings keep listed members
  alive between two cycles.
\<close>

section \<open>Frames of the server operations\<close>

text \<open>After an operation the sorted sets are as the effect leaves them, or as before, and then the reply is an error.\<close>

lemma redis_op_zsets:
  assumes "\<And>t a s2. eff t = Some (a, s2) \<Longrightarrow> fv_zsets s2 = g (fv_zsets t)"
  shows "fv_zsets (snd (redis_op W eff s)) = g (fv_zsets s) \<or>
    fv_zsets (snd (redis_op W eff s)) = fv_zsets s \<and> isl (fst (redis_op W eff s))"
proof (cases "eff (s\<lparr>fv_ops := fv_ops s + 1\<rparr>)")
  case (Some r)
  then have "fv_zsets (snd r) = g (fv_zsets s)" using assms[of "s\<lparr>fv_ops := fv_ops s + 1\<rparr>" "fst r" "snd r"] by simp
  then show ?thesis using Some by (cases r; cases "W (fv_ops s)") (simp_all add: redis_op_def)
qed (cases "W (fv_ops s)"; simp add: redis_op_def)

lemma zsets_kept [simp]:
  "fv_zsets (snd (Increment W key s)) = fv_zsets s" "fv_zsets (snd (GetInt64 W key s)) = fv_zsets s"
  "fv_zsets (snd (GetStatus W key s)) = fv_zsets s" "fv_zsets (snd (SetStatus W key st s)) = fv_zsets s"
  by (auto simp: Increment_def GetInt64_def GetStatus_def SetStatus_def redis_op_def Let_def
      split: op_outcome.splits option.splits if_splits)

lemma ZAdd_zsets:
  "fv_zsets (snd (ZAdd W key ms s)) = (fv_zsets s)(key := add_members ms (fv_zsets s key)) \<or>
   fv_zsets (snd (ZAdd W key ms s)) = fv_zsets s \<and> isl (fst (ZAdd W key ms s))"
proof (cases "ms = []")
  case False
  then show ?thesis unfolding ZAdd_def
    using redis_op_zsets[of "\<lambda>s. Some (int (length (add_members ms (fv_zsets s key))) - int (length (fv_zsets s key)),
        set_zset key (add_members ms (fv_zsets s key)) s)" "\<lambda>z. z(key := add_members ms (z key))" W s]
    by (auto simp: set_zset_def)
qed (simp add: ZAdd_def add_members_def)

lemma Delete_zsets:
  "fv_zsets (snd (redis_Delete W key s)) = (fv_zsets s)(key := []) \<or> fv_zsets (snd (redis_Delete W key s)) = fv_zsets s"
  unfolding redis_Delete_def using redis_op_zsets[of "\<lambda>s. Some ((), set_zset key [] s)" "\<lambda>z. z(key := [])" W s]
  by (auto simp: set_zset_def)

lemma ZRem_zsets:
  "fv_zsets (snd (ZRemRangeByScore W key m s)) = (fv_zsets s)(key := filter (\<lambda>(d, score). score > m) (fv_zsets s key)) \<or>
   fv_zsets (snd (ZRemRangeByScore W key m s)) = fv_zsets s"
  unfolding ZRemRangeByScore_def
  using redis_op_zsets[of "\<lambda>s. Some ((), set_zset key (filter (\<lambda>(d, score). score > m) (fv_zsets s key)) s)"
      "\<lambda>z. z(key := filter (\<lambda>(d, score). score > m) (z key))" W s]
  by (auto simp: set_zset_def)

lemma Rename_zsets:
  assumes "from \<noteq> to"
  shows "fv_zsets (snd (redis_Rename W from to s)) = (fv_zsets s)(from := [], to := fv_zsets s from) \<and> fv_zsets s from \<noteq> [] \<or>
    fv_zsets (snd (redis_Rename W from to s)) = fv_zsets s \<and> isl (fst (redis_Rename W from to s))"
  using assms
  by (auto simp: redis_Rename_def redis_op_def set_zset_def Let_def split: op_outcome.splits option.splits if_splits)

section \<open>Frames of a run\<close>

lemma recordSyncFailure_zsets [simp]: "fv_zsets (recordSyncFailure w key src e s) = fv_zsets s"
  by (simp add: recordSyncFailure_def Let_def case_prod_unfold)

lemma recordSyncSuccess_zsets [simp]: "fv_zsets (snd (recordSyncSuccess w r s)) = fv_zsets s"
  by (simp add: recordSyncSuccess_def Let_def)

lemma sync_fail_zsets [simp]: "fv_zsets (snd (sync_fail w opts rd e s)) = fv_zsets s" "isl (fst (sync_fail w opts rd e s))"
  by (simp_all add: sync_fail_def)

lemma sync_abort_zsets: "k \<noteq> staging \<Longrightarrow> fv_zsets (snd (sync_abort w opts staging e s)) k = fv_zsets s k"
  "isl (fst (sync_abort w opts staging e s))"
  using Delete_zsets[of "sw_faults w" staging s] by (auto simp: sync_abort_def Let_def)

lemma sync_conclude_zsets [simp]: "fv_zsets (snd (sync_conclude w opts r s)) = fv_zsets s"
  using recordSyncSuccess_zsets[of w r s]
  by (cases "recordSyncSuccess w r s"; cases "fst (recordSyncSuccess w r s)") (simp_all add: sync_conclude_def)

lemma sync_finish_zsets [simp]: "fv_zsets (snd (sync_finish w opts r s)) = fv_zsets s"
proof -
  let ?i = "Increment (sw_faults w) (RevisionKey (soKey opts)) s" and ?g = "GetInt64 (sw_faults w) (RevisionKey (soKey opts)) s"
  obtain i si g sg where op: "?i = (i, si)" "?g = (g, sg)" by (cases ?i; cases ?g) blast
  then have "fv_zsets si = fv_zsets s" "fv_zsets sg = fv_zsets s" by (metis zsets_kept(1) snd_conv, metis zsets_kept(2) snd_conv)
  then show ?thesis using op by (cases i; cases g) (simp_all add: sync_finish_def)
qed

section \<open>Queueing\<close>

lemma sync_flush_zsets:
  "k \<noteq> target \<Longrightarrow> fv_zsets (q_server (snd (sync_flush w target q))) k = fv_zsets (q_server q) k"
  using ZAdd_zsets[of "sw_faults w" target "q_batch q" "q_server q"]
  by (auto simp: sync_flush_def split: prod.splits sum.splits)

lemma sync_flush_done:
  assumes "sync_flush w target q = (None, q')"
  shows "q_batch q' = []" "fv_zsets (q_server q') target = add_members (q_batch q) (fv_zsets (q_server q) target)"
  using assms ZAdd_zsets[of "sw_faults w" target "q_batch q" "q_server q"]
  by (auto simp: sync_flush_def add_members_def split: prod.splits sum.splits if_splits)

lemma queueDomain_zsets:
  "k \<noteq> target \<Longrightarrow> fv_zsets (q_server (snd (snd (queueDomain w base churn target d (s, q))))) k = fv_zsets (q_server q) k"
  using sync_flush_zsets[of k target w "q\<lparr>q_batch := q_batch q @ [(d, member_score w (MemberTTL d base churn))]\<rparr>"]
  by (auto simp: queueDomain_def Let_def split: prod.splits)

lemma queue_all_zsets:
  "k \<noteq> target \<Longrightarrow>
     fv_zsets (q_server (snd (snd (queue_all (queueDomain w base churn target) ds (s, q))))) k = fv_zsets (q_server q) k"
proof (induction ds arbitrary: s q)
  case (Cons d ds)
  obtain e s1 q1 where p: "queueDomain w base churn target d (s, q) = (e, s1, q1)"
    by (cases "queueDomain w base churn target d (s, q)")
  then have "fv_zsets (q_server q1) k = fv_zsets (q_server q) k"
    using queueDomain_zsets[OF Cons.prems, of w base churn d s q] by simp
  then show ?case using Cons p by (cases e) auto
qed simp

text \<open>What is queued so far: the pending batch on top of what the server holds.\<close>

definition queued :: "string \<Rightarrow> queue \<Rightarrow> zset" where
  "queued target q = add_members (q_batch q) (fv_zsets (q_server q) target)"

definition members_of :: "sync_world \<Rightarrow> int \<Rightarrow> int \<Rightarrow> string list \<Rightarrow> zset" where
  "members_of w base churn ds =
     map (\<lambda>d. (d, member_score w (MemberTTL d base churn))) (filter (IsAdmissibleDomain (sw_libs w)) ds)"

lemma add_members_append [simp]: "add_members (xs @ ys) z = add_members ys (add_members xs z)"
  "add_members [] z = z"
  by (simp_all add: add_members_def)

lemma admit_fst [simp]: "fst (admitFeedDomain F d s) = IsAdmissibleDomain F d"
  by (auto simp: admitFeedDomain_def IsAdmissibleDomain_def Let_def)

lemma queueDomain_queued:
  assumes "queueDomain w base churn target d (s, q) = (None, s', q')"
  shows "queued target q' = add_members (members_of w base churn [d]) (queued target q)"
proof -
  let ?q1 = "q\<lparr>q_batch := q_batch q @ [(d, member_score w (MemberTTL d base churn))]\<rparr>"
  show ?thesis
  proof (cases "IsAdmissibleDomain (sw_libs w) d")
    case False
    then show ?thesis using assms admit_fst[of "sw_libs w" d s]
      by (auto simp: queueDomain_def members_of_def split: prod.splits simp del: admit_fst)
  next
    case True
    then have "q' = ?q1 \<or> sync_flush w target ?q1 = (None, q')"
      using assms admit_fst[of "sw_libs w" d s]
      by (auto simp: queueDomain_def Let_def split: prod.splits if_splits simp del: admit_fst)
    then show ?thesis using True sync_flush_done[of w target ?q1 q'] by (auto simp: queued_def members_of_def)
  qed
qed

lemma members_of_append: "members_of w base churn (xs @ ys) = members_of w base churn xs @ members_of w base churn ys"
  by (simp add: members_of_def)

lemma queue_all_queued:
  "queue_all (queueDomain w base churn target) ds (s, q) = (None, s', q') \<Longrightarrow>
     queued target q' = add_members (members_of w base churn ds) (queued target q)"
proof (induction ds arbitrary: s q)
  case Nil
  then show ?case by (simp add: members_of_def)
next
  case (Cons d ds)
  obtain e s1 q1 where p: "queueDomain w base churn target d (s, q) = (e, s1, q1)"
    by (cases "queueDomain w base churn target d (s, q)")
  then have e: "e = None" using Cons.prems by (cases e) auto
  have "queue_all (queueDomain w base churn target) ds (s1, q1) = (None, s', q')" using Cons.prems p e by simp
  from Cons.IH[OF this] queueDomain_queued[OF p[unfolded e]] show ?case
    using members_of_append[of w base churn "[d]" ds] by simp
qed

text \<open>The callback of the parser: other keys stay, and what is queued follows the trace.\<close>

interpretation queue_frame: parse_invariant "domain_handler (queueDomain w base churn target)" F
  "\<lambda>(stats, seen, q). \<forall>k. k \<noteq> target \<longrightarrow> fv_zsets (q_server q) k = z k"
proof (unfold_locales, goal_cases)
  case (1 v ind st)
  obtain stats seen q where st: "st = (stats, seen, q)" by (cases st)
  show ?case using 1(2) queueDomain_zsets[of _ target w base churn "iDomain ind" _ q]
    by (auto simp: st addIndicator_def domain_handler_def Let_def split: prod.splits) (metis snd_conv)+
qed (auto simp: count_invalid_def count_skipped_def)

interpretation queue_sim: handler_sim "domain_handler (queueDomain w base churn target)" collect
  "\<lambda>(s, q) (s', tr). queued target q =
     add_members (members_of w base churn (map (iDomain \<circ> fst) (filter (\<lambda>x. \<not> snd x) tr))) z"
proof (unfold_locales, goal_cases)
  case (2 x y ind d x')
  obtain s q s' tr where xy: "x = (s, q)" "y = (s', tr)" by (cases x; cases y)
  obtain s1 q1 where x': "x' = (s1, q1)" by (cases x')
  show ?case
  proof (cases d)
    case False
    then have "queueDomain w base churn target (iDomain ind) (s, q) = (None, s1, q1)"
      using 2(2) by (simp add: xy x' domain_handler_def)
    from queueDomain_queued[OF this] show ?thesis
      using 2(1) False by (simp add: xy x' collect_def members_of_append)
  qed (use 2 in \<open>auto simp: xy x' domain_handler_def collect_def\<close>)
qed (auto simp: collect_def)

section \<open>What a run loads\<close>

definition sync_key :: "sync_options \<Rightarrow> string" where
  "sync_key opts = (if trim_space (soKey opts) = [] then DefaultThreatFeedKey else soKey opts)"

definition staging_key :: "sync_world \<Rightarrow> sync_options \<Rightarrow> string" where
  "staging_key w opts = sync_key opts @ '':staging:'' @ format_int (sw_staging w)"

definition expiry :: "sync_world \<Rightarrow> sync_options \<Rightarrow> string \<Rightarrow> int" where
  "expiry w opts d = member_score w (MemberTTL d (if soTTL opts \<le> 0 then DefaultSyncTTL else soTTL opts) (soChurnTTL opts))"

text \<open>The domains of a trace a run accepts: the first distinct ones, up to the limit, that are admissible.\<close>

definition accepted :: "sync_world \<Rightarrow> (indicator \<times> bool) list \<Rightarrow> string set" where
  "accepted w tr = {d \<in> set (up_to (resolvedFeedDomainLimit (sw_env w)) (dedup (trace_domains tr))).
     IsAdmissibleDomain (sw_libs w) d}"

text \<open>A set loaded from a trace has only accepted members, scored with their expiry, and misses only expired ones.\<close>

definition loaded_from :: "sync_world \<Rightarrow> sync_options \<Rightarrow> (indicator \<times> bool) list \<Rightarrow> zset \<Rightarrow> bool" where
  "loaded_from w opts tr z \<longleftrightarrow>
     (\<forall>d score. map_of z d = Some score \<longrightarrow> d \<in> accepted w tr \<and> score = expiry w opts d) \<and>
     (\<forall>d \<in> accepted w tr. expiry w opts d > sw_cleanup w \<longrightarrow> map_of z d = Some (expiry w opts d))"

lemma map_of_add_members:
  "map_of (add_members (map (\<lambda>d. (d, f d)) xs) z) d = (if d \<in> set xs then Some (f d) else map_of z d)"
  by (induction xs arbitrary: z) (auto simp: add_members_def update_conv')

lemma distinct_add_members: "distinct (map fst z) \<Longrightarrow> distinct (map fst (add_members ms z))"
  by (induction ms arbitrary: z) (auto simp: add_members_def distinct_update)

lemma map_of_unexpired:
  "distinct (map fst z) \<Longrightarrow>
     map_of (filter (\<lambda>(d, score). score > m) z) d = (case map_of z d of Some v \<Rightarrow> if v > m then Some v else None | None \<Rightarrow> None)"
  by (induction z) (force split: option.splits)+

lemma loaded_members:
  assumes "{d \<in> set ds. IsAdmissibleDomain (sw_libs w) d} = accepted w tr"
    and "z0 = add_members (members_of w (if soTTL opts \<le> 0 then DefaultSyncTTL else soTTL opts) (soChurnTTL opts) ds) []"
    and "z = z0 \<or> z = filter (\<lambda>(d, score). score > sw_cleanup w) z0"
  shows "loaded_from w opts tr z"
proof -
  have m: "map_of z0 d = (if d \<in> accepted w tr then Some (expiry w opts d) else None)" for d
    unfolding assms(2) members_of_def map_of_add_members assms(1)[symmetric] by (auto simp: expiry_def)
  have "distinct (map fst z0)" unfolding assms(2) by (rule distinct_add_members) simp
  then show ?thesis using assms(3) m by (auto simp: loaded_from_def map_of_unexpired split: if_splits)
qed

section \<open>Replacing runs\<close>

text \<open>What a run did to the live key of a replacing run: nothing, or it put a whole new set in place.\<close>

definition replaced_with :: "(zset \<Rightarrow> bool) \<Rightarrow> string \<Rightarrow> feed_server \<Rightarrow> (feed_error + sync_report) \<times> feed_server \<Rightarrow> bool" where
  "replaced_with P key s out \<longleftrightarrow>
     fv_zsets (snd out) key = fv_zsets s key \<and> isl (fst out) \<or>
     fv_zsets (snd out) key \<noteq> [] \<and> P (fv_zsets (snd out) key)"

lemma abort_replaced:
  "key \<noteq> staging \<Longrightarrow> fv_zsets s1 key = fv_zsets s key \<Longrightarrow> replaced_with P key s (sync_abort w opts staging e s1)"
  by (simp add: replaced_with_def sync_abort_zsets)

lemma finish_replaced:
  "fv_zsets s1 key \<noteq> [] \<Longrightarrow> P (fv_zsets s1 key) \<Longrightarrow> replaced_with P key s (sync_finish w opts r s1)"
  by (simp add: replaced_with_def)

lemma publish_replaced:
  assumes ne: "soKey opts \<noteq> staging" "staging \<noteq> []"
    and keep: "fv_zsets (q_server q) (soKey opts) = fv_zsets s (soKey opts)"
    and P: "P (queued staging q)" "P (filter (\<lambda>(d, score). score > sw_cleanup w) (queued staging q))"
  shows "replaced_with P (soKey opts) s (sync_publish w opts report staging staging stats q)"
proof -
  obtain e q1 where f: "sync_flush w staging q = (e, q1)" by (cases "sync_flush w staging q")
  have keep1: "fv_zsets (q_server q1) (soKey opts) = fv_zsets s (soKey opts)"
    using sync_flush_zsets[OF ne(1), of w q] keep f by simp
  show ?thesis
  proof (cases e)
    case (Some x)
    then show ?thesis using f abort_replaced[OF ne(1) keep1] by (simp add: sync_publish_def)
  next
    case None
    let ?s1 = "snd (ZRemRangeByScore (sw_faults w) staging (sw_cleanup w) (q_server q1))"
    have z: "P (fv_zsets ?s1 staging)" and keep2: "fv_zsets ?s1 (soKey opts) = fv_zsets s (soKey opts)"
      using ZRem_zsets[of "sw_faults w" staging "sw_cleanup w" "q_server q1"] sync_flush_done(2)[OF f[unfolded None]]
        P keep1 ne(1) by (auto simp: queued_def)
    obtain r s2 where rn: "redis_Rename (sw_faults w) staging (soKey opts) ?s1 = (r, s2)"
      by (cases "redis_Rename (sw_faults w) staging (soKey opts) ?s1")
    have cases2: "fv_zsets s2 (soKey opts) = fv_zsets ?s1 staging \<and> fv_zsets ?s1 staging \<noteq> [] \<or>
        fv_zsets s2 (soKey opts) = fv_zsets s (soKey opts) \<and> isl r"
      using Rename_zsets[of staging "soKey opts" "sw_faults w" ?s1] ne(1) rn keep2 by auto
    have ab: "replaced_with P (soKey opts) s (sync_abort w opts staging x s2)" if "isl r" for x
      using cases2 z ne(1) by (auto simp: replaced_with_def sync_abort_zsets)
    have fin: "replaced_with P (soKey opts) s (sync_finish w opts x s2)" if "\<not> isl r" for x
      using cases2 z that by (auto intro!: finish_replaced)
    show ?thesis
      using f None rn ne(2) ab fin abort_replaced[OF ne(1) keep2]
      by (cases r) (auto simp: sync_publish_def Let_def)
  qed
qed

lemma filter_members_fst [simp]: "fst (filterPublicSuffixMembers F ds s) = filter (IsAdmissibleDomain F) ds"
proof (induction ds arbitrary: s)
  case (Cons d ds)
  obtain a s1 where ad: "admitFeedDomain F d s = (a, s1)" by (cases "admitFeedDomain F d s")
  then have "a = IsAdmissibleDomain F d" using admit_fst[of F d s] by simp
  then show ?case using Cons[of s1] ad by (auto split: prod.splits)
qed simp

text \<open>In shadow mode the planned members are the accepted domains of the trace.\<close>

lemma planned_accepted:
  assumes "PlanAdmission (sw_env w) (sw_libs w) body AdmissionShadow = Some (Inr plan)"
  shows "\<exists>stats tr. feed_trace (sw_libs w) (resolvedFeedDomainLimit (sw_env w)) body = Some (None, stats, tr) \<and>
    set (fst (sync_planned (sw_libs w) AdmissionShadow plan report)) = accepted w tr"
proof -
  let ?lim = "resolvedFeedDomainLimit (sw_env w)"
  obtain stats tr over where tr: "feed_trace (sw_libs w) ?lim body = Some (None, stats, tr)"
    and plan: "plan = build_plan AdmissionShadow stats (plan_states AdmissionShadow ?lim tr) over"
    using plan_of_trace[OF assms] by blast
  have "set (apAuthoritative plan @ apContextual plan) = set (up_to ?lim (dedup (trace_domains tr)))"
    by (auto simp: plan build_plan_def plan_states_def Let_def image_iff)
  then have "set (fst (sync_planned (sw_libs w) AdmissionShadow plan report)) = accepted w tr"
    by (auto simp: sync_planned_def Let_def case_prod_unfold accepted_def)
  then show ?thesis using tr by blast
qed

text \<open>The queue a run fills, in every mode.\<close>

definition fill_queue ::
  "sync_world \<Rightarrow> sync_options \<Rightarrow> string \<Rightarrow> admission_mode \<Rightarrow> parse_stats \<Rightarrow> string list \<Rightarrow> feed_body \<Rightarrow> feed_server \<Rightarrow>
   (feed_error option \<times> parse_stats \<times> queue) option" where
  "fill_queue w opts target mode stats planned body s =
     (let put = queueDomain w (if soTTL opts \<le> 0 then DefaultSyncTTL else soTTL opts) (soChurnTTL opts) target;
          q = \<lparr>q_batch = [], q_written = 0, q_server = s\<rparr>
      in if mode = AdmissionLegacy then ParseEach (sw_env w) put (sw_libs w) body no_stats q
         else Some (queue_all put planned (stats, q)))"

definition source_trace :: "sync_world \<Rightarrow> feed_body \<Rightarrow> (indicator \<times> bool) list \<Rightarrow> bool" where
  "source_trace w body tr \<longleftrightarrow>
     (\<exists>stats. ParseEachIndicator (sw_env w) collect (sw_libs w) body no_stats [] = Some (None, stats, tr))"

lemma fill_queue_frame:
  assumes "fill_queue w opts target mode stats0 planned body s = Some (e, stats, q)" and "k \<noteq> target"
  shows "fv_zsets (q_server q) k = fv_zsets s k"
proof (cases "mode = AdmissionLegacy")
  case True
  then show ?thesis
    using queue_frame.parse_inv[OF assms(1)[unfolded fill_queue_def Let_def True ParseEach_def ParseEachIndicator_def, simplified],
        of "fv_zsets s"] assms(2) by auto
next
  case False
  then show ?thesis using assms queue_all_zsets[OF assms(2)] by (auto simp: fill_queue_def Let_def) (metis queue.simps(3) snd_conv)
qed

lemma fill_queue_queued:
  assumes "fill_queue w opts target mode stats0 planned body s = Some (None, stats, q)"
    and "mode \<noteq> AdmissionLegacy \<longrightarrow> (\<exists>tr. source_trace w body tr \<and> set planned = accepted w tr)"
  shows "\<exists>tr ds. source_trace w body tr \<and> {d \<in> set ds. IsAdmissibleDomain (sw_libs w) d} = accepted w tr \<and>
    queued target q = add_members (members_of w (if soTTL opts \<le> 0 then DefaultSyncTTL else soTTL opts) (soChurnTTL opts) ds)
      (fv_zsets s target)"
proof (cases "mode = AdmissionLegacy")
  case True
  obtain st tr where tr: "feed_trace (sw_libs w) (resolvedFeedDomainLimit (sw_env w)) body = Some (None, st, tr)"
    and q: "queued target q = add_members (members_of w (if soTTL opts \<le> 0 then DefaultSyncTTL else soTTL opts) (soChurnTTL opts)
        (map (iDomain \<circ> fst) (filter (\<lambda>x. \<not> snd x) tr))) (fv_zsets s target)"
    using queue_sim.parse_sim[OF assms(1)[unfolded fill_queue_def Let_def True ParseEach_def ParseEachIndicator_def, simplified],
        of "fv_zsets s target" no_stats "[]"]
    by (auto simp: feed_trace_def queued_def members_of_def)
  have "source_trace w body tr" using tr by (simp add: source_trace_def feed_trace_def ParseEachIndicator_def)
  then show ?thesis using q feed_trace_inv(1)[OF tr] by (metis accepted_def)
next
  case False
  then obtain tr where tr: "source_trace w body tr" "set planned = accepted w tr" using assms(2) by blast
  then have "{d \<in> set planned. IsAdmissibleDomain (sw_libs w) d} = accepted w tr" by (auto simp: accepted_def)
  then show ?thesis using assms(1) False queue_all_queued[of w _ _ target planned stats0 _ stats q] tr(1)
    by (auto simp: fill_queue_def Let_def queued_def)
qed

lemma sync_run_fill:
  "sync_run w opts mode report planned body s =
     (let staging = (if soReplace opts then soKey opts @ '':staging:'' @ format_int (sw_staging w) else []);
          target = (if soReplace opts then staging else soKey opts);
          report' = (if soChurnTTL opts > 0 then report\<lparr>srChurnTTLDays := soChurnTTL opts div day_ns\<rparr> else report)
      in case fill_queue w opts target mode (srStats report) planned body s of
           None \<Rightarrow> None
         | Some (Some err, stats, q) \<Rightarrow> Some (sync_abort w opts staging err (q_server q))
         | Some (None, stats, q) \<Rightarrow> Some (sync_publish w opts report' target staging stats q))"
  by (simp add: sync_run_def fill_queue_def Let_def)

definition loaded_in :: "sync_world \<Rightarrow> sync_options \<Rightarrow> feed_body \<Rightarrow> zset \<Rightarrow> bool" where
  "loaded_in w opts body z \<longleftrightarrow> (\<exists>tr. source_trace w body tr \<and> loaded_from w opts tr z)"

lemma sync_run_replaced:
  assumes run: "sync_run w opts mode report planned body s = Some out" and "soReplace opts"
    and empty: "fv_zsets s (soKey opts @ '':staging:'' @ format_int (sw_staging w)) = []"
    and plan: "mode \<noteq> AdmissionLegacy \<longrightarrow> (\<exists>tr. source_trace w body tr \<and> set planned = accepted w tr)"
  shows "replaced_with (loaded_in w opts body) (soKey opts) s out"
proof -
  let ?st = "soKey opts @ '':staging:'' @ format_int (sw_staging w)"
  have ne: "soKey opts \<noteq> ?st" "?st \<noteq> []" by auto
  obtain e stats q where f: "fill_queue w opts ?st mode (srStats report) planned body s = Some (e, stats, q)"
    using run assms(2) by (auto simp: sync_run_fill Let_def split: option.splits prod.splits)
  have keep: "fv_zsets (q_server q) (soKey opts) = fv_zsets s (soKey opts)" by (rule fill_queue_frame[OF f ne(1)])
  show ?thesis
  proof (cases e)
    case (Some x)
    then show ?thesis using run f assms(2) abort_replaced[OF ne(1) keep] by (auto simp: sync_run_fill Let_def)
  next
    case None
    obtain tr ds where tr: "source_trace w body tr" "{d \<in> set ds. IsAdmissibleDomain (sw_libs w) d} = accepted w tr"
      "queued ?st q = add_members (members_of w (if soTTL opts \<le> 0 then DefaultSyncTTL else soTTL opts) (soChurnTTL opts) ds) []"
      using fill_queue_queued[OF f[unfolded None] plan] empty by auto
    have "loaded_in w opts body (queued ?st q)" "loaded_in w opts body (filter (\<lambda>(d, score). score > sw_cleanup w) (queued ?st q))"
      unfolding loaded_in_def using loaded_members[OF tr(2,3)] tr(1) by blast+
    from publish_replaced[where P = "loaded_in w opts body", OF ne keep this] show ?thesis
      using run f None assms(2) by (auto simp: sync_run_fill Let_def)
  qed
qed

text \<open>The settled options of a run, and the body it reads.\<close>

definition settled :: "sync_options \<Rightarrow> sync_options" where
  "settled opts = opts\<lparr>soKey := sync_key opts,
     soFileRoot := (if trim_space (soFileRoot opts) = [] then ''./data'' else soFileRoot opts),
     soMaxBytes := (if soMaxBytes opts \<le> 0 then DefaultMaxFeedBytes else soMaxBytes opts)\<rparr>"

definition source_body :: "sync_world \<Rightarrow> sync_options \<Rightarrow> feed_body \<Rightarrow> bool" where
  "source_body w opts body \<longleftrightarrow>
     OpenSourceWithin w (soSource opts) (soFileRoot (settled opts)) (soMaxBytes (settled opts)) (soAllowInsecureHTTP opts) =
       Inr (Some body)"

lemma settled_simps [simp]:
  "soKey (settled opts) = sync_key opts" "soReplace (settled opts) = soReplace opts" "soDryRun (settled opts) = soDryRun opts"
  "soTTL (settled opts) = soTTL opts" "soChurnTTL (settled opts) = soChurnTTL opts" "soSource (settled opts) = soSource opts"
  "soRedisAddr (settled opts) = soRedisAddr opts" "soAdmissionMode (settled opts) = soAdmissionMode opts"
  "soAllowInsecureHTTP (settled opts) = soAllowInsecureHTTP opts"
  by (simp_all add: settled_def)

lemma loaded_settled [simp]: "loaded_in w (settled opts) body = loaded_in w opts body"
  by (simp add: loaded_in_def loaded_from_def expiry_def fun_eq_iff)

lemma sync_body_replaced:
  assumes "sync_body w opts mode body s = Some out" and "soReplace opts" and "\<not> soDryRun opts" and "mode \<noteq> AdmissionFilter"
    and "fv_zsets s (soKey opts @ '':staging:'' @ format_int (sw_staging w)) = []"
  shows "replaced_with (loaded_in w opts body) (soKey opts) s out"
proof (cases "mode = AdmissionLegacy")
  case True
  then show ?thesis using assms sync_run_replaced[of w opts AdmissionLegacy] by (auto simp: sync_body_def Let_def)
next
  case False
  then have mode: "mode = AdmissionShadow" using assms(4) by (cases mode) auto
  consider err where "PlanAdmission (sw_env w) (sw_libs w) body AdmissionShadow = Some (Inl err)"
    | plan where "PlanAdmission (sw_env w) (sw_libs w) body AdmissionShadow = Some (Inr plan)"
    using assms(1) mode by (auto simp: sync_body_def Let_def split: option.splits sum.splits)
  then show ?thesis
  proof cases
    case 1
    then show ?thesis using assms(1,3) mode by (auto simp: sync_body_def Let_def replaced_with_def)
  next
    case 2
    obtain planned report where p: "sync_planned (sw_libs w) AdmissionShadow plan (new_report w opts) = (planned, report)"
      by (cases "sync_planned (sw_libs w) AdmissionShadow plan (new_report w opts)")
    have tr: "\<exists>tr. source_trace w body tr \<and> set planned = accepted w tr"
      using planned_accepted[OF 2, of "new_report w opts"] p
      by (auto simp: source_trace_def feed_trace_def ParseEachIndicator_def)
    have "sync_run w opts AdmissionShadow report planned body s = Some out"
      using assms(1,3) mode 2 p by (simp add: sync_body_def Let_def)
    then show ?thesis using sync_run_replaced[OF _ assms(2,5)] tr by blast
  qed
qed

lemma Sync_settled:
  "Sync w opts s =
     (if trim_space (soSource opts) = [] then Some (Inl ErrSourceRequired, s)
      else if isPlainHTTPSource (soSource opts) \<and> \<not> soAllowInsecureHTTP opts
      then Some (Inl (ErrPlainHTTP (trim_space (soSource opts))), s)
      else case NormalizeAdmissionMode (soAdmissionMode opts) of
        Inl err \<Rightarrow> Some (Inl err, s)
      | Inr mode \<Rightarrow>
          if mode = AdmissionFilter \<and> \<not> soDryRun opts then Some (Inl ErrFilterOnly, s)
          else case OpenSourceWithin w (soSource opts) (soFileRoot (settled opts)) (soMaxBytes (settled opts)) (soAllowInsecureHTTP opts) of
            Inl err \<Rightarrow> Some (sync_fail w (settled opts) (\<not> soDryRun opts \<and> trim_space (soRedisAddr opts) \<noteq> []) err s)
          | Inr reader \<Rightarrow>
              if \<not> soDryRun opts \<and> trim_space (soRedisAddr opts) = []
              then Some (sync_fail w (settled opts) False ErrRedisRequired s)
              else (case reader of None \<Rightarrow> None | Some body \<Rightarrow> sync_body w (settled opts) mode body s))"
proof -
  have st: "opts\<lparr>soKey := (if trim_space (soKey opts) = [] then DefaultThreatFeedKey else soKey opts),
      soFileRoot := (if trim_space (soFileRoot opts) = [] then ''./data'' else soFileRoot opts),
      soMaxBytes := (if soMaxBytes opts \<le> 0 then DefaultMaxFeedBytes else soMaxBytes opts)\<rparr> = settled opts"
    by (simp add: settled_def sync_key_def)
  show ?thesis unfolding Sync_def st Let_def settled_simps by (simp split: sum.splits)
qed

lemma Sync_cases:
  assumes "Sync w opts s = Some (res, s')" and "\<not> soDryRun opts"
  obtains "isl res" "fv_zsets s' = fv_zsets s"
  | mode body where "source_body w opts body" "mode \<noteq> AdmissionFilter" "NormalizeAdmissionMode (soAdmissionMode opts) = Inr mode"
    "sync_body w (settled opts) mode body s = Some (res, s')"
proof -
  have fail: "thesis" if "sync_fail w (settled opts) rd e s = (res, s')" for rd e
    using that sync_fail_zsets[of w "settled opts" rd e s] \<open>isl res \<Longrightarrow> fv_zsets s' = fv_zsets s \<Longrightarrow> thesis\<close> by (metis fst_conv snd_conv)
  show thesis using assms that fail
    by (auto simp: Sync_settled source_body_def split: if_splits sum.splits option.splits)
qed

text \<open>
  C13: a replacing synchronisation is all or nothing. Whatever operations on the server fail, and whether a
  lost reply belongs to an operation the server has executed or not, the live set is afterwards what it
  was, or it is a non-empty set loaded from the whole feed: exactly the accepted domains with their
  expiry, less those already expired. A run that reports success has put the new set in place;
  a feed without a valid domain never empties the live set.
\<close>

theorem replace_sync_all_or_nothing:
  assumes "Sync w opts s = Some (res, s')" and "soReplace opts" and "\<not> soDryRun opts"
    and "fv_zsets s (staging_key w opts) = []"
  shows "fv_zsets s' (sync_key opts) = fv_zsets s (sync_key opts) \<and> isl res \<or>
    fv_zsets s' (sync_key opts) \<noteq> [] \<and>
    (\<exists>body tr. source_body w opts body \<and> source_trace w body tr \<and> loaded_from w opts tr (fv_zsets s' (sync_key opts)))"
  using assms(1,3)
proof (cases rule: Sync_cases)
  case (2 mode body)
  from sync_body_replaced[OF 2(4) _ _ 2(2)] show ?thesis
    using assms(2-4) 2(1) by (auto simp: replaced_with_def loaded_in_def staging_key_def)
qed simp

section \<open>A concrete run\<close>

definition demo_world :: sync_world where
  "demo_world = \<lparr>sw_env = (\<lambda>k. []), sw_libs = demo_feed_libs, sw_faults = (\<lambda>n. OpDone), sw_parse = (\<lambda>u. None),
     sw_http = (\<lambda>r u. None), sw_gunzip = (\<lambda>b. None), sw_file = (\<lambda>root f. Some demo_body),
     sw_started = 0, sw_staging = 7, sw_now = 1000000000, sw_cleanup = 2, sw_failed = 0\<rparr>"

definition demo_options :: sync_options where
  "demo_options = \<lparr>soSource = ''feed.txt'', soFileRoot = [], soMaxBytes = 0, soRedisAddr = ''redis:6379'', soKey = ''k'',
     soDryRun = False, soReplace = True, soAllowInsecureHTTP = False, soDriftInvalidRatio = 0, soDriftMinInvalid = 0,
     soMinWrites = 0, soTTL = 0, soChurnTTL = 0, soAdmissionMode = []\<rparr>"

definition demo_server :: feed_server where
  "demo_server = \<lparr>fv_zsets = (\<lambda>k. if k = ''k'' then [(''old.test'', 5)] else []), fv_strings = Map.empty,
     fv_status = Map.empty, fv_ops = 0\<rparr>"

lemma demo_sync:
  "case Sync demo_world demo_options demo_server of
     Some (Inr report, s') \<Rightarrow>
       srWritten report = 3 \<and> srFeedRevision report = 1 \<and>
       fv_zsets s' ''k'' = [(''evil.test'', 1209601), (''host.test'', 1209601), (''lone.test'', 1209601)]
   | _ \<Rightarrow> False"
  by code_simp

theorem replace_sync_all_or_nothing_witness:
  "\<exists>report s'. Sync demo_world demo_options demo_server = Some (Inr report, s') \<and>
     (\<exists>body tr. source_body demo_world demo_options body \<and> source_trace demo_world body tr \<and>
        loaded_from demo_world demo_options tr (fv_zsets s' (sync_key demo_options)))"
proof -
  obtain report s' where r: "Sync demo_world demo_options demo_server = Some (Inr report, s')"
    using demo_sync by (simp split: option.splits prod.splits sum.splits)
  have "soReplace demo_options" "\<not> soDryRun demo_options" "fv_zsets demo_server (staging_key demo_world demo_options) = []"
    by (atomize (full)) code_simp
  from replace_sync_all_or_nothing[OF r this] r show ?thesis by (intro exI[of _ report] exI[of _ s']) auto
qed

section \<open>From the feed to the verdict\<close>

lemma sync_run_added:
  assumes run: "sync_run w opts mode report planned body s = Some (Inr r, s')" and "\<not> soReplace opts"
    and plan: "mode \<noteq> AdmissionLegacy \<longrightarrow> (\<exists>tr. source_trace w body tr \<and> set planned = accepted w tr)"
    and dist: "distinct (map fst (fv_zsets s (soKey opts)))"
  shows "\<exists>tr. source_trace w body tr \<and> (\<forall>d \<in> accepted w tr. expiry w opts d > sw_cleanup w \<longrightarrow>
    map_of (fv_zsets s' (soKey opts)) d = Some (expiry w opts d))"
proof -
  let ?k = "soKey opts"
  obtain e stats q where f: "fill_queue w opts ?k mode (srStats report) planned body s = Some (e, stats, q)"
    using run assms(2) by (auto simp: sync_run_fill Let_def split: option.splits prod.splits)
  have e: "e = None" using run f assms(2) sync_abort_zsets(2)[of w opts "[]"]
    by (cases e) (auto simp: sync_run_fill, metis fst_conv isl_def sum.distinct(1))
  obtain q1 where fl: "sync_flush w ?k q = (None, q1)"
    using run f e assms(2) sync_abort_zsets(2)[of w opts "[]"]
    by (auto simp: sync_run_fill Let_def sync_publish_def split: prod.splits option.splits)
      (metis fst_conv isl_def sum.distinct(1))+
  have live: "fv_zsets s' = fv_zsets (snd (ZRemRangeByScore (sw_faults w) ?k (sw_cleanup w) (q_server q1)))"
  proof -
    obtain rep where "sync_finish w opts rep (snd (ZRemRangeByScore (sw_faults w) ?k (sw_cleanup w) (q_server q1))) = (Inr r, s')"
      using run f e fl assms(2) by (simp add: sync_run_fill Let_def sync_publish_def)
    then show ?thesis using sync_finish_zsets[of w opts rep] by (metis snd_conv)
  qed
  obtain tr ds where tr: "source_trace w body tr" "{d \<in> set ds. IsAdmissibleDomain (sw_libs w) d} = accepted w tr"
    and q: "queued ?k q = add_members (members_of w (if soTTL opts \<le> 0 then DefaultSyncTTL else soTTL opts) (soChurnTTL opts) ds)
      (fv_zsets s ?k)"
    using fill_queue_queued[OF f[unfolded e] plan] by auto
  have z: "fv_zsets (q_server q1) ?k = queued ?k q" using sync_flush_done(2)[OF fl] by (simp add: queued_def)
  have dz: "distinct (map fst (queued ?k q))" unfolding q by (rule distinct_add_members[OF dist])
  have m: "map_of (queued ?k q) d = Some (expiry w opts d)" if "d \<in> accepted w tr" for d
    using that unfolding q members_of_def map_of_add_members tr(2)[symmetric] by (auto simp: expiry_def)
  have "map_of (fv_zsets s' ?k) d = Some (expiry w opts d)" if "d \<in> accepted w tr" "expiry w opts d > sw_cleanup w" for d
    using ZRem_zsets[of "sw_faults w" ?k "sw_cleanup w" "q_server q1"] m[OF that(1)] that(2) dz
    by (auto simp: live z map_of_unexpired)
  then show ?thesis using tr(1) by blast
qed

lemma sync_body_added:
  assumes "sync_body w opts mode body s = Some (Inr r, s')" and "\<not> soReplace opts" and "\<not> soDryRun opts"
    and "mode \<noteq> AdmissionFilter" and "distinct (map fst (fv_zsets s (soKey opts)))"
  shows "\<exists>tr. source_trace w body tr \<and> (\<forall>d \<in> accepted w tr. expiry w opts d > sw_cleanup w \<longrightarrow>
    map_of (fv_zsets s' (soKey opts)) d = Some (expiry w opts d))"
proof (cases "mode = AdmissionLegacy")
  case True
  then show ?thesis using assms sync_run_added[of w opts AdmissionLegacy] by (auto simp: sync_body_def Let_def)
next
  case False
  then have mode: "mode = AdmissionShadow" using assms(4) by (cases mode) auto
  obtain plan where p: "PlanAdmission (sw_env w) (sw_libs w) body AdmissionShadow = Some (Inr plan)"
    using assms(1) mode by (auto simp: sync_body_def sync_fail_def Let_def split: option.splits sum.splits)
  obtain planned report where pl: "sync_planned (sw_libs w) AdmissionShadow plan (new_report w opts) = (planned, report)"
    by (cases "sync_planned (sw_libs w) AdmissionShadow plan (new_report w opts)")
  have tr: "\<exists>tr. source_trace w body tr \<and> set planned = accepted w tr"
    using planned_accepted[OF p, of "new_report w opts"] pl
    by (auto simp: source_trace_def feed_trace_def ParseEachIndicator_def)
  have "sync_run w opts AdmissionShadow report planned body s = Some (Inr r, s')"
    using assms(1,3) mode p pl by (simp add: sync_body_def Let_def)
  then show ?thesis using sync_run_added[OF _ assms(2) _ assms(5)] tr by blast
qed

text \<open>After a successful run every accepted domain of the feed is a member until it expires.\<close>

lemma synced_members:
  assumes "Sync w opts s = Some (Inr r, s')" and "\<not> soDryRun opts"
    and "fv_zsets s (staging_key w opts) = []" and "distinct (map fst (fv_zsets s (sync_key opts)))"
    and "source_body w opts body" and "source_trace w body tr"
    and "d \<in> accepted w tr" and "expiry w opts d > sw_cleanup w"
  shows "map_of (fv_zsets s' (sync_key opts)) d = Some (expiry w opts d)"
  using assms(1,2)
proof (cases rule: Sync_cases)
  case (2 mode body')
  have body: "body' = body" using 2(1) assms(5) by (simp add: source_body_def)
  have uniq: "tr' = tr" if "source_trace w body tr'" for tr' using that assms(6) by (auto simp: source_trace_def)
  show ?thesis
  proof (cases "soReplace opts")
    case True
    have "loaded_in w opts body (fv_zsets s' (sync_key opts))"
      using sync_body_replaced[OF 2(4) _ _ 2(2)] assms(2,3) True body by (auto simp: replaced_with_def staging_key_def)
    then show ?thesis using uniq assms(7,8) by (auto simp: loaded_in_def loaded_from_def)
  next
    case False
    then show ?thesis using sync_body_added[OF 2(4) _ _ 2(2)] assms(2,4,7,8) uniq body
      by (auto simp: expiry_def) 
  qed
qed simp

text \<open>A lower-case canonical name that is admissible is no shared apex.\<close>

lemma admissible_not_apex:
  assumes "canonical_domain d" "to_lower d = d" "IsAdmissibleDomain F d"
  shows "\<not> isSharedFeedApex d"
proof -
  have "\<not> is_space c" if "c \<in> set d" for c
    using that assms(1) valid_domain_char_facts by (auto simp: canonical_domain_def)
  then have "trim_space d = d" by (intro trim_space_id) blast
  moreover have "trim_suffix d ''.'' = d" using canonical_domain_ends[OF assms(1)] by (intro trim_suffix_dot_id) blast
  ultimately show ?thesis using assms(2,3)
    by (auto simp: isSharedFeedApex_def IsAdmissibleDomain_def isSharedServingRefused_def Let_def)
qed

text \<open>
  C14: from the feed to the verdict. After a synchronisation that reports success, additive or replacing, in
  legacy or shadow mode, every accepted domain of the feed (within the limit, no public suffix,
  no shared host) is condemned by the threat-feed layer as malicious at every moment up to its
  expiry, whatever brands are trusted.
\<close>

theorem synced_domain_condemned:
  assumes "Sync w opts s = Some (Inr report, s')" and "\<not> soDryRun opts"
    and "fv_zsets s (staging_key w opts) = []" and "distinct (map fst (fv_zsets s (sync_key opts)))"
    and "source_body w opts body" and "source_trace w body tr" and "url_keeps_lower (fl_libs (sw_libs w))"
    and "d \<in> accepted w tr" and "sw_cleanup w < expiry w opts d"
    and "rd_enabled r" and "\<not> rd_zfault r [d]" and "rd_zset r = map_of (fv_zsets s' (sync_key opts))"
    and "now \<le> expiry w opts d"
  shows "fst (feedResult r now d brands e) = (threatFeedHit d, no_scope\<lparr>fs_ExactMatch := True, fs_Candidate := d\<rparr>)"
proof -
  have live: "feed_live r now d"
    using synced_members[OF assms(1-6,8,9)] assms(12,13) by (simp add: feed_live_def)
  have "d \<in> set (trace_domains tr)"
    using assms(8) set_up_to[of "resolvedFeedDomainLimit (sw_env w)" "dedup (trace_domains tr)"] by (auto simp: accepted_def)
  then have can: "canonical_domain d" "to_lower d = d"
    using trace_canonical[OF _ assms(7)] assms(6) by (auto simp: source_trace_def feed_trace_def ParseEachIndicator_def)
  have "\<not> isSharedFeedApex d" using admissible_not_apex[OF can] assms(8) by (auto simp: accepted_def)
  then show ?thesis using matchExact_live[OF can(1) assms(10,11)] live by (simp add: feedResult_def Let_def)
qed

lemma demo_trace:
  "case ParseEachIndicator (\<lambda>k. []) collect demo_feed_libs demo_body no_stats [] of
     Some (None, stats, tr) \<Rightarrow> trace_domains tr = [''evil.test'', ''host.test'', ''lone.test'', ''evil.test'', ''host.test'']
   | _ \<Rightarrow> False"
  by code_simp

theorem synced_domain_condemned_witness:
  "\<exists>report s'. Sync demo_world demo_options demo_server = Some (Inr report, s') \<and>
     fst (fst (feedResult \<lparr>rd_enabled = True, rd_zset = map_of (fv_zsets s' ''k''), rd_zfault = (\<lambda>c. False)\<rparr>
       1209601 ''host.test'' [] \<lparr>feedLookupFailures = 0, feedConsecutiveFailures = 0, feedLastFailureUnix = 0\<rparr>))
       = threatFeedHit ''host.test''"
proof -
  obtain report s' where r: "Sync demo_world demo_options demo_server = Some (Inr report, s')"
    using demo_sync by (simp split: option.splits prod.splits sum.splits)
  obtain stats tr where tr: "ParseEachIndicator (\<lambda>k. []) collect demo_feed_libs demo_body no_stats [] = Some (None, stats, tr)"
    and ds: "trace_domains tr = [''evil.test'', ''host.test'', ''lone.test'', ''evil.test'', ''host.test'']"
    using demo_trace by (auto split: option.splits prod.splits)
  have "source_trace demo_world demo_body tr" using tr by (simp add: source_trace_def demo_world_def)
  moreover have "''host.test'' \<in> accepted demo_world tr"
  proof -
    have "resolvedFeedDomainLimit (sw_env demo_world) = 2000000" "IsAdmissibleDomain (sw_libs demo_world) ''host.test''"
      by (atomize (full)) code_simp
    then show ?thesis by (simp add: accepted_def ds up_to_def dedup_def)
  qed
  moreover have "\<not> soDryRun demo_options" "fv_zsets demo_server (staging_key demo_world demo_options) = []"
    "distinct (map fst (fv_zsets demo_server (sync_key demo_options)))" "sw_cleanup demo_world < expiry demo_world demo_options ''host.test''"
    "1209601 \<le> expiry demo_world demo_options ''host.test''" "sync_key demo_options = ''k''"
    by (atomize (full)) code_simp
  moreover have "source_body demo_world demo_options demo_body"
  proof -
    have "limitReadCloser DefaultMaxFeedBytes demo_body = demo_body" "\<not> has_suffix (to_lower ''feed.txt'') ''.gz''"
      by (atomize (full)) code_simp
    then show ?thesis
      by (simp add: source_body_def settled_def OpenSourceWithin_def demo_world_def demo_options_def has_prefix_def
          wrapMaybeCompressedReadCloser_def equal_fold_def trim_space_Nil to_lower_Nil to_lower_def)
  qed
  moreover have "url_keeps_lower (fl_libs (sw_libs demo_world))"
    using url_keeps_lower_sample by (simp add: demo_world_def demo_feed_libs_def)
  ultimately show ?thesis using r
      synced_domain_condemned[where r = "\<lparr>rd_enabled = True, rd_zset = map_of (fv_zsets s' ''k''), rd_zfault = (\<lambda>c. False)\<rparr>",
        where now = 1209601 and brands = "[]" and e = "\<lparr>feedLookupFailures = 0, feedConsecutiveFailures = 0, feedLastFailureUnix = 0\<rparr>",
        OF r]
    by (intro exI[of _ report] exI[of _ s']) simp
qed

section \<open>Settings\<close>

lemma wrap64_small: "- (2 ^ 63) \<le> n \<Longrightarrow> n < 2 ^ 63 \<Longrightarrow> wrap64 n = n"
  by (simp add: wrap64_def)

text \<open>The windows are exact up to 106751 days; the product of the next number of days is negative.\<close>

lemma TTLFromDays_exact:
  assumes "0 < days" "days \<le> 106751"
  shows "TTLFromDays days = Inr (days * day_ns)"
  using assms wrap64_small[of "days * 24"] wrap64_small[of "days * 24 * 3600000000000"]
  by (simp add: TTLFromDays_def day_ns_def)

lemma TTLFromDays_wraps:
  "TTLFromDays 106752 = Inr (- 9223371273709551616)" "TTLFromDays 213504 = Inr 1526290448384"
  by (atomize (full)) code_simp


definition demo_flags :: feed_flags where
  "demo_flags = \<lparr>ffSource = ''https://feed.test/list.txt'', ffRedisAddr = ''redis:6379'', ffKey = ''k'', ffReplace = False,
     ffAllowInsecure = False, ffAdmissionMode = ''legacy'', ffTTLDays = 14, ffChurnTTLDays = 3, ffDryRun = False,
     ffInterval = 86400000000000\<rparr>"

lemma demo_settings:
  "case ParseSettings ModeDaemon demo_flags of Inr st \<Rightarrow> setTTL st = 14 * day_ns \<and> setChurnTTL st = 3 * day_ns | _ \<Rightarrow> False"
  by code_simp


text \<open>The base window itself is not checked against the interval: settings whose members lapse are accepted.\<close>

lemma base_window_unchecked:
  "case ParseSettings ModeDaemon (demo_flags\<lparr>ffTTLDays := 1, ffChurnTTLDays := 0, ffInterval := 2 * day_ns\<rparr>) of
     Inr st \<Rightarrow> MemberTTL ''evil.test'' (setTTL st) (setChurnTTL st) < setInterval st
   | _ \<Rightarrow> False"
  by code_simp

end
