(* ===== verification/BrandStore.thy ===== *)
theory BrandStore
  imports SharedInfra
begin

text \<open>
  The trusted brands of \<^verbatim>\<open>internal/analysis/brand.go\<close>: the built-in seed, the detection list made
  from a base list, and the in-memory store \<^verbatim>\<open>MemoryBrandStore\<close> that holds the brands an operator
  manages. The store is a record of its fields; an operation returns the store it leaves behind and
  its result. A copy of a slice by \<^verbatim>\<open>append([]string(nil), s...)\<close> is nil when \<open>s\<close> is empty. Slices are
  values here, so the aliasing that \<^verbatim>\<open>detachLocked\<close> and the clones guard against does not arise;
  identifiers stay below \<open>2\<^sup>6\<^sup>3\<close>.
\<close>

section \<open>The seed\<close>

definition clone_alts :: "string list option \<Rightarrow> string list option" where
  "clone_alts alts = (case alts of None \<Rightarrow> None | Some [] \<Rightarrow> None | Some (a # as) \<Rightarrow> Some (a # as))"

definition cloneBrand :: "brand \<Rightarrow> brand" where
  "cloneBrand b = b\<lparr>bAltDomains := clone_alts (bAltDomains b)\<rparr>"

text \<open>A brand of the seed with the alternatives it lists; one without the field has nil.\<close>

definition seed_brand :: "string \<Rightarrow> string \<Rightarrow> string list \<Rightarrow> brand" where
  "seed_brand name official alts =
     cloneBrand \<lparr>bName = name, bOfficialDomain = official, bAltDomains = Some alts\<rparr>"

definition DefaultTrustedBrands :: "brand list" where
  "DefaultTrustedBrands =
    [seed_brand ''google'' ''google.com'' [''google.com.vn'', ''google.co.uk'',
       ''google.com.sg'', ''googleusercontent.com'', ''googlesyndication.com'',
       ''googletagservices.com'', ''googletagmanager.com'', ''google-analytics.com'',
       ''googleapis.com'', ''gstatic.com'', ''googlevideo.com'', ''youtube.com'', ''youtu.be'',
       ''ytimg.com'', ''ggpht.com'', ''gvt1.com'', ''doubleclick.net''],
     seed_brand ''binance'' ''binance.com'' [''binance.us'', ''binance.info''],
     seed_brand ''paypal'' ''paypal.com'' [''paypal.me''],
     seed_brand ''facebook'' ''facebook.com'' [''fb.com'', ''messenger.com'', ''fbcdn.net'',
       ''fbsbx.com''],
     seed_brand ''apple'' ''apple.com'' [''icloud.com''],
     seed_brand ''microsoft'' ''microsoft.com'' [''live.com'', ''outlook.com'', ''office.com'',
       ''microsoftonline.com'', ''sharepoint.com'', ''office365.com'', ''windows.net'',
       ''windows.com'', ''azure.com'', ''visualstudio.com'', ''aspnetcdn.com'', ''msn.com'',
       ''bing.com''],
     seed_brand ''amazon'' ''amazon.com'' [],
     seed_brand ''netflix'' ''netflix.com'' [],
     seed_brand ''instagram'' ''instagram.com'' [''cdninstagram.com''],
     seed_brand ''twitter'' ''twitter.com'' [''x.com''],
     seed_brand ''metamask'' ''metamask.io'' [],
     seed_brand ''coinbase'' ''coinbase.com'' [],
     seed_brand ''trustwallet'' ''trustwallet.com'' [],
     seed_brand ''yahoo'' ''yahoo.com'' [''yimg.com''],
     seed_brand ''linkedin'' ''linkedin.com'' [],
     seed_brand ''chinhphu'' ''chinhphu.vn'' [''chinhphu.gov.vn''],
     seed_brand ''bocongan'' ''bocongan.gov.vn'' [''mps.gov.vn''],
     seed_brand ''baohiemxahoi'' ''baohiemxahoi.gov.vn'' [''bhxh.gov.vn''],
     seed_brand ''vneid'' ''vneid.gov.vn'' [],
     seed_brand ''vtv'' ''vtv.vn'' [],
     seed_brand ''vietcombank'' ''vietcombank.com.vn'' [''vietcombank.com''],
     seed_brand ''techcombank'' ''techcombank.com.vn'' [''techcombank.com''],
     seed_brand ''bidv'' ''bidv.com.vn'' [''bidv.com''],
     seed_brand ''vietinbank'' ''vietinbank.vn'' [''vietinbank.co.vn''],
     seed_brand ''mbbank'' ''mbbank.com.vn'' [''mbbank.com''],
     seed_brand ''agribank'' ''agribank.com.vn'' [''agribank.com''],
     seed_brand ''vpbank'' ''vpbank.com.vn'' [''vpbank.com''],
     seed_brand ''acb'' ''acb.com.vn'' [''acb.com''],
     seed_brand ''sacombank'' ''sacombank.com.vn'' [''sacombank.com''],
     seed_brand ''tpbank'' ''tpb.vn'' [''tpbank.com.vn''],
     seed_brand ''vib'' ''vib.com.vn'' [],
     seed_brand ''hdbank'' ''hdbank.com.vn'' [],
     seed_brand ''shb'' ''shb.com.vn'' [],
     seed_brand ''scb'' ''scb.com.vn'' [],
     seed_brand ''momo'' ''momo.vn'' [],
     seed_brand ''zalopay'' ''zalopay.vn'' [],
     seed_brand ''vnpay'' ''vnpay.vn'' [],
     seed_brand ''shopee'' ''shopee.vn'' [''shopee.com'', ''shopeemobile.com''],
     seed_brand ''tiki'' ''tiki.vn'' [],
     seed_brand ''lazada'' ''lazada.vn'' [''lazada.com'']]"

definition detectionBrandExtras :: "brand list" where
  "detectionBrandExtras =
    [seed_brand ''allegro'' ''allegro.pl'' [], seed_brand ''spotify'' ''spotify.com'' []]"

text \<open>One of the two loops of \<^verbatim>\<open>DetectionBrands\<close>: the names seen and the brands kept so far.\<close>

fun detection_loop :: "string list \<Rightarrow> brand list \<Rightarrow> brand list \<Rightarrow> string list \<times> brand list" where
  "detection_loop seen out [] = (seen, out)"
| "detection_loop seen out (b # bs) =
     (let b = normalizeBrandRecord b; key = to_lower (trim_space (bName b)) in
      if key \<in> set seen \<or> key = [] then detection_loop seen out bs
      else detection_loop (key # seen) (out @ [b]) bs)"

definition DetectionBrands :: "brand list \<Rightarrow> brand list" where
  "DetectionBrands base =
     (let (seen, out) = detection_loop [] [] base
      in snd (detection_loop seen out detectionBrandExtras))"

definition localBrandSeed :: "brand list" where
  "localBrandSeed = DetectionBrands (map normalizeBrandRecord DefaultTrustedBrands)"

section \<open>The store\<close>

record stored_brand =
  sbID :: int
  sbBrand :: brand
  sbCreatedAt :: string
  sbUpdatedAt :: string

record brand_store =
  bsNextID :: int
  bsItems :: "stored_brand list"
  bsSnapshot :: "stored_brand list"

datatype brand_error = BrandNotFound | BrandStoreDisabled

definition clone_stored :: "stored_brand \<Rightarrow> stored_brand" where
  "clone_stored e = e\<lparr>sbBrand := cloneBrand (sbBrand e)\<rparr>"

definition cloneBrands :: "stored_brand list \<Rightarrow> stored_brand list" where
  "cloneBrands es = map clone_stored es"

definition publishLocked :: "brand_store \<Rightarrow> brand_store" where
  "publishLocked st = st\<lparr>bsSnapshot := cloneBrands (bsItems st)\<rparr>"

text \<open>What a record becomes before it is stored: normalised, with its own array of alternatives.\<close>

definition owned_brand :: "brand \<Rightarrow> brand" where
  "owned_brand b = cloneBrand (normalizeBrandRecord b)"

fun new_items :: "brand_store \<Rightarrow> stored_brand list \<Rightarrow> brand_store" where
  "new_items st [] = st"
| "new_items st (e # es) =
     (let e = e\<lparr>sbBrand := owned_brand (sbBrand e)\<rparr>;
          (e, nextID) =
            (if sbID e = 0 then (e\<lparr>sbID := bsNextID st\<rparr>, bsNextID st + 1)
             else if sbID e \<ge> bsNextID st then (e, sbID e + 1) else (e, bsNextID st))
      in new_items (st\<lparr>bsNextID := nextID, bsItems := bsItems st @ [e]\<rparr>) es)"

definition NewMemoryBrandStore :: "stored_brand list \<Rightarrow> brand_store" where
  "NewMemoryBrandStore es =
     publishLocked (new_items \<lparr>bsNextID = 1, bsItems = [], bsSnapshot = []\<rparr> es)"

text \<open>A nil store lists the seed.\<close>

definition unsaved :: "brand \<Rightarrow> stored_brand" where
  "unsaved b = \<lparr>sbID = 0, sbBrand = b, sbCreatedAt = [], sbUpdatedAt = []\<rparr>"

definition ListBrands :: "brand_store option \<Rightarrow> stored_brand list" where
  "ListBrands s = (case s of None \<Rightarrow> map unsaved DefaultTrustedBrands | Some st \<Rightarrow> bsSnapshot st)"

definition GetBrand :: "brand_store \<Rightarrow> int \<Rightarrow> brand_error + stored_brand" where
  "GetBrand st bid =
     (case find (\<lambda>e. sbID e = bid) (bsItems st) of
        None \<Rightarrow> Inl BrandNotFound | Some e \<Rightarrow> Inr (clone_stored e))"

definition CreateBrand :: "string \<Rightarrow> brand_store option \<Rightarrow> brand \<Rightarrow> brand_store option \<times> (brand_error + stored_brand)" where
  "CreateBrand now s b =
     (case s of None \<Rightarrow> (None, Inl BrandStoreDisabled)
      | Some st \<Rightarrow>
          let e = \<lparr>sbID = bsNextID st, sbBrand = owned_brand b, sbCreatedAt = now, sbUpdatedAt = now\<rparr>
          in (Some (publishLocked (st\<lparr>bsNextID := bsNextID st + 1, bsItems := bsItems st @ [e]\<rparr>)),
              Inr (clone_stored e)))"

fun update_first :: "int \<Rightarrow> (stored_brand \<Rightarrow> stored_brand) \<Rightarrow> stored_brand list \<Rightarrow> (stored_brand \<times> stored_brand list) option" where
  "update_first bid f [] = None"
| "update_first bid f (e # es) =
     (if sbID e = bid then Some (f e, f e # es)
      else case update_first bid f es of None \<Rightarrow> None | Some (e', es') \<Rightarrow> Some (e', e # es'))"

definition UpdateBrand :: "string \<Rightarrow> brand_store option \<Rightarrow> int \<Rightarrow> brand \<Rightarrow> brand_store option \<times> (brand_error + stored_brand)" where
  "UpdateBrand now s bid b =
     (case s of None \<Rightarrow> (None, Inl BrandStoreDisabled)
      | Some st \<Rightarrow>
          (case update_first bid
               (\<lambda>e. \<lparr>sbID = bid, sbBrand = owned_brand b, sbCreatedAt = sbCreatedAt e, sbUpdatedAt = now\<rparr>)
               (bsItems st) of
             None \<Rightarrow> (Some st, Inl BrandNotFound)
           | Some (e, es) \<Rightarrow> (Some (publishLocked (st\<lparr>bsItems := es\<rparr>)), Inr (clone_stored e))))"

fun delete_first :: "int \<Rightarrow> stored_brand list \<Rightarrow> stored_brand list option" where
  "delete_first bid [] = None"
| "delete_first bid (e # es) =
     (if sbID e = bid then Some es
      else case delete_first bid es of None \<Rightarrow> None | Some es' \<Rightarrow> Some (e # es'))"

definition DeleteBrand :: "brand_store option \<Rightarrow> int \<Rightarrow> brand_store option \<times> brand_error option" where
  "DeleteBrand s bid =
     (case s of None \<Rightarrow> (None, Some BrandStoreDisabled)
      | Some st \<Rightarrow>
          (case delete_first bid (bsItems st) of
             None \<Rightarrow> (Some st, Some BrandNotFound)
           | Some es \<Rightarrow> (Some (publishLocked (st\<lparr>bsItems := es\<rparr>)), None)))"

text \<open>The brands the analyzer and the service detect with: the store's, or the seed when it has none.\<close>

definition trustedBrands :: "(stored_brand list) option \<Rightarrow> brand list" where
  "trustedBrands listed =
     (case listed of
        None \<Rightarrow> DetectionBrands DefaultTrustedBrands
      | Some es \<Rightarrow> if es = [] then DetectionBrands DefaultTrustedBrands else DetectionBrands (map sbBrand es))"

section \<open>Laws of normalisation\<close>

lemma lower_trim_idem [simp]:
  "to_lower (trim_space (to_lower (trim_space s))) = to_lower (trim_space s)"
  by (simp add: trim_space_to_lower)

lemma collect_alts_mem:
  "alt \<in> set (collect_alts seen alts) \<Longrightarrow> to_lower (trim_space alt) = alt \<and> alt \<noteq> [] \<and> alt \<notin> seen"
  by (induction seen alts rule: collect_alts.induct) (auto simp: Let_def split: if_splits)

lemma collect_alts_distinct: "distinct (collect_alts seen alts)"
  by (induction seen alts rule: collect_alts.induct) (auto simp: Let_def dest: collect_alts_mem)

lemma collect_alts_fixed:
  "distinct alts \<Longrightarrow> (\<And>a. a \<in> set alts \<Longrightarrow> to_lower (trim_space a) = a \<and> a \<noteq> [] \<and> a \<notin> seen) \<Longrightarrow>
     collect_alts seen alts = alts"
  by (induction seen alts rule: collect_alts.induct) (auto simp: Let_def)

lemma collect_alts_idem [simp]: "collect_alts {} (collect_alts {} alts) = collect_alts {} alts"
  using collect_alts_mem collect_alts_distinct by (intro collect_alts_fixed) blast+

lemma normalizeBrandRecord_fields:
  "bName (normalizeBrandRecord b) = to_lower (trim_space (bName b))"
  "bOfficialDomain (normalizeBrandRecord b) = to_lower (trim_space (bOfficialDomain b))"
  "bAltDomains (normalizeBrandRecord b) = Some (collect_alts {} (brand_alts b))"
  by (simp_all add: normalizeBrandRecord_slow normalizeBrandRecordSlow_def brand_alts_def)

lemma normalizeBrandRecord_eqI:
  "bName a = bName b \<Longrightarrow> bOfficialDomain a = bOfficialDomain b \<Longrightarrow> brand_alts a = brand_alts b \<Longrightarrow>
     normalizeBrandRecord a = normalizeBrandRecord b"
  by (rule brand.equality) (simp_all add: normalizeBrandRecord_fields)

lemma normalizeBrandRecord_idem [simp]:
  "normalizeBrandRecord (normalizeBrandRecord b) = normalizeBrandRecord b"
  by (rule brand.equality) (simp_all add: normalizeBrandRecord_fields brand_alts_def)

lemma normalizeBrandRecord_clone [simp]: "normalizeBrandRecord (cloneBrand b) = normalizeBrandRecord b"
  by (rule normalizeBrandRecord_eqI)
    (simp_all add: cloneBrand_def clone_alts_def brand_alts_def split: option.splits list.splits)

lemma cloneBrand_idem [simp]: "cloneBrand (cloneBrand b) = cloneBrand b"
  by (simp add: cloneBrand_def clone_alts_def split: option.splits list.splits)

lemma clone_stored_id [simp]: "sbID (clone_stored e) = sbID e"
  by (simp add: clone_stored_def)

section \<open>Laws of the detection list\<close>

text \<open>The lookup by name in the two loops: what was kept first wins.\<close>

definition brand_named :: "string \<Rightarrow> brand list \<Rightarrow> brand option" where
  "brand_named name bs = find (\<lambda>b. bName b = name) bs"

lemma brand_named_append:
  "brand_named n (as @ bs) = (case brand_named n as of None \<Rightarrow> brand_named n bs | Some b \<Rightarrow> Some b)"
  by (induction as) (simp_all add: brand_named_def)

lemma brand_named_None_iff: "brand_named n bs = None \<longleftrightarrow> n \<notin> set (map bName bs)"
  by (auto simp: brand_named_def find_None_iff)

definition detection_ok :: "string list \<Rightarrow> brand list \<Rightarrow> bool" where
  "detection_ok seen out \<longleftrightarrow>
     distinct (map bName out) \<and> set (map bName out) = set seen \<and> [] \<notin> set seen \<and>
     (\<forall>b\<in>set out. normalizeBrandRecord b = b)"

lemma detection_ok_add:
  "detection_ok seen out \<Longrightarrow> normalizeBrandRecord c = c \<Longrightarrow> bName c \<notin> set seen \<Longrightarrow> bName c \<noteq> [] \<Longrightarrow>
     detection_ok (bName c # seen) (out @ [c])"
  by (auto simp: detection_ok_def)

lemma detection_loop_step:
  "detection_loop seen out (b # bs) =
     (let c = normalizeBrandRecord b in
      if bName c \<in> set seen \<or> bName c = [] then detection_loop seen out bs
      else detection_loop (bName c # seen) (out @ [c]) bs)"
  by (simp add: Let_def normalizeBrandRecord_fields trim_space_to_lower)

lemma detection_loop_ok:
  assumes "detection_ok seen out" "detection_loop seen out bs = (seen', out')"
  shows "detection_ok seen' out'"
  using assms
proof (induction bs arbitrary: seen out)
  case (Cons b bs)
  define c where "c = normalizeBrandRecord b"
  have "detection_ok (bName c # seen) (out @ [c])" if "\<not> (bName c \<in> set seen \<or> bName c = [])"
    using Cons.prems(1) that by (intro detection_ok_add) (auto simp: c_def)
  then show ?case using Cons.IH Cons.prems unfolding detection_loop_step c_def[symmetric] Let_def
    by (metis (no_types))
qed simp

lemma detection_loop_named:
  assumes "detection_ok seen out" "detection_loop seen out bs = (seen', out')" "n \<noteq> []"
  shows "brand_named n out' =
    (case brand_named n out of None \<Rightarrow> brand_named n (map normalizeBrandRecord bs) | Some b \<Rightarrow> Some b)"
  using assms(1,2)
proof (induction bs arbitrary: seen out)
  case (Cons b bs)
  define c where "c = normalizeBrandRecord b"
  have named: "brand_named n (c # cs) = (if bName c = n then Some c else brand_named n cs)" for cs
    by (simp add: brand_named_def)
  show ?case
  proof (cases "bName c \<in> set seen \<or> bName c = []")
    case True
    have "brand_named n out \<noteq> None" if "bName c = n"
      using True that assms(3) Cons.prems(1) by (auto simp: brand_named_None_iff detection_ok_def)
    moreover have "detection_loop seen out bs = (seen', out')"
      using Cons.prems(2) True unfolding detection_loop_step c_def[symmetric] Let_def by simp
    ultimately show ?thesis
      using Cons.IH[OF Cons.prems(1)] by (auto simp: c_def[symmetric] named split: option.splits)
  next
    case False
    have "detection_ok (bName c # seen) (out @ [c])"
      using Cons.prems(1) False by (intro detection_ok_add) (auto simp: c_def)
    moreover have "detection_loop (bName c # seen) (out @ [c]) bs = (seen', out')"
      using Cons.prems(2) False unfolding detection_loop_step c_def[symmetric] Let_def by simp
    ultimately show ?thesis
      using Cons.IH[of "bName c # seen" "out @ [c]"] named[of "[]"]
      by (simp add: c_def[symmetric] named brand_named_append)
        (simp add: brand_named_def c_def split: option.splits if_splits)
  qed
qed (simp add: brand_named_def split: option.splits)

lemma DetectionBrands_ok: "\<exists>seen. detection_ok seen (DetectionBrands base)"
proof -
  obtain seen out where base: "detection_loop [] [] base = (seen, out)" by force
  obtain seen' out' where extras: "detection_loop seen out detectionBrandExtras = (seen', out')" by force
  have "detection_ok seen' out'"
    using detection_loop_ok[OF detection_loop_ok[OF _ base] extras] by (simp add: detection_ok_def)
  then show ?thesis using base extras by (auto simp: DetectionBrands_def)
qed

lemma DetectionBrands_named:
  assumes "n \<noteq> []"
  shows "brand_named n (DetectionBrands base) =
    (case brand_named n (map normalizeBrandRecord base) of
       None \<Rightarrow> brand_named n (map normalizeBrandRecord detectionBrandExtras) | Some b \<Rightarrow> Some b)"
proof -
  obtain seen out where base: "detection_loop [] [] base = (seen, out)" by force
  obtain seen' out' where extras: "detection_loop seen out detectionBrandExtras = (seen', out')" by force
  have ok: "detection_ok [] []" by (simp add: detection_ok_def)
  have "brand_named n out = brand_named n (map normalizeBrandRecord base)"
    using detection_loop_named[OF ok base assms] by (simp add: brand_named_def)
  then show ?thesis
    using detection_loop_named[OF detection_loop_ok[OF ok base] extras assms] base extras
    by (simp add: DetectionBrands_def)
qed

section \<open>Laws of the store\<close>

definition brand_store_ok :: "brand_store \<Rightarrow> bool" where
  "brand_store_ok st \<longleftrightarrow>
     distinct (map sbID (bsItems st)) \<and> (\<forall>e\<in>set (bsItems st). 0 < sbID e \<and> sbID e < bsNextID st) \<and>
     0 < bsNextID st \<and> bsSnapshot st = cloneBrands (bsItems st)"

definition listed :: "brand_store \<Rightarrow> stored_brand list" where
  "listed st = ListBrands (Some st)"

text \<open>The operations of a store, and the stores they reach from one filled with unsaved brands.\<close>

inductive brand_reach :: "brand_store \<Rightarrow> bool" where
  reach_new: "brand_reach (NewMemoryBrandStore (map unsaved bs))"
| reach_create: "brand_reach st \<Longrightarrow> CreateBrand now (Some st) b = (Some st', r) \<Longrightarrow> brand_reach st'"
| reach_update: "brand_reach st \<Longrightarrow> UpdateBrand now (Some st) i b = (Some st', r) \<Longrightarrow> brand_reach st'"
| reach_delete: "brand_reach st \<Longrightarrow> DeleteBrand (Some st) i = (Some st', err) \<Longrightarrow> brand_reach st'"

lemma new_items_ok:
  assumes "distinct (map sbID (bsItems st))" "\<forall>e\<in>set (bsItems st). 0 < sbID e \<and> sbID e < bsNextID st"
    and "0 < bsNextID st"
  shows "brand_store_ok (publishLocked (new_items st (map unsaved bs)))"
  using assms
proof (induction bs arbitrary: st)
  case (Cons b bs)
  let ?st = "st\<lparr>bsNextID := bsNextID st + 1,
      bsItems := bsItems st @ [(unsaved b)\<lparr>sbBrand := owned_brand (sbBrand (unsaved b)), sbID := bsNextID st\<rparr>]\<rparr>"
  have "brand_store_ok (publishLocked (new_items ?st (map unsaved bs)))"
    using Cons.prems by (intro Cons.IH) (auto simp: unsaved_def)
  then show ?case by (simp add: unsaved_def[of b] Let_def)
qed (simp add: brand_store_ok_def publishLocked_def)

lemma update_first_ids:
  "update_first i f es = Some (e', es') \<Longrightarrow> (\<And>e. sbID (f e) = i) \<Longrightarrow> map sbID es' = map sbID es"
  by (induction es arbitrary: es') (auto split: if_splits option.splits)

lemma update_first_mem:
  "update_first i f es = Some (e', es') \<Longrightarrow> x \<in> set es' \<Longrightarrow> x = e' \<or> x \<in> set es"
  by (induction es arbitrary: es') (auto split: if_splits option.splits)

lemma find_id_iff:
  "distinct (map sbID es) \<Longrightarrow> find (\<lambda>x. sbID x = i) es = Some e \<longleftrightarrow> e \<in> set es \<and> sbID e = i"
  by (induction es) (auto simp: image_iff)

lemma delete_first_mem:
  "delete_first i es = Some es' \<Longrightarrow> distinct (map sbID es) \<Longrightarrow>
     distinct (map sbID es') \<and> set es' = {e \<in> set es. sbID e \<noteq> i}"
proof (induction es arbitrary: es')
  case (Cons e es)
  show ?case
  proof (cases "sbID e = i")
    case True
    then have "es' = es" "i \<notin> sbID ` set es" using Cons.prems by auto
    then show ?thesis using True Cons.prems(2) by (auto intro: rev_image_eqI)
  next
    case False
    then obtain es1 where "delete_first i es = Some es1" "es' = e # es1"
      using Cons.prems(1) by (auto split: option.splits)
    then show ?thesis using Cons.IH[of es1] Cons.prems(2) False by auto
  qed
qed simp

lemma CreateBrand_ok:
  assumes "brand_store_ok st" "CreateBrand now (Some st) b = (Some st', r)"
  shows "brand_store_ok st'"
  using assms by (fastforce simp: CreateBrand_def brand_store_ok_def publishLocked_def Let_def)

lemma UpdateBrand_ok:
  assumes "brand_store_ok st" "UpdateBrand now (Some st) i b = (Some st', r)"
  shows "brand_store_ok st'"
proof (cases r)
  case (Inl e)
  then show ?thesis using assms by (auto simp: UpdateBrand_def split: option.splits)
next
  case (Inr e)
  define f :: "stored_brand \<Rightarrow> stored_brand" where "f = (\<lambda>e. \<lparr>sbID = i, sbBrand = owned_brand b, sbCreatedAt = sbCreatedAt e, sbUpdatedAt = now\<rparr>)"
  from assms(2) Inr obtain e' es' where upd: "update_first i f (bsItems st) = Some (e', es')"
    and st': "st' = publishLocked (st\<lparr>bsItems := es'\<rparr>)"
    by (auto simp: UpdateBrand_def f_def split: option.splits)
  have ids: "map sbID es' = map sbID (bsItems st)" using upd by (rule update_first_ids) (simp add: f_def)
  have "\<forall>n\<in>set (map sbID es'). 0 < n \<and> n < bsNextID st"
    using assms(1) unfolding ids by (simp add: brand_store_ok_def)
  then have "\<forall>e\<in>set es'. 0 < sbID e \<and> sbID e < bsNextID st" by auto
  then show ?thesis using assms(1) ids by (simp add: st' brand_store_ok_def publishLocked_def)
qed

lemma DeleteBrand_ok:
  assumes "brand_store_ok st" "DeleteBrand (Some st) i = (Some st', err)"
  shows "brand_store_ok st'"
proof (cases "delete_first i (bsItems st)")
  case (Some es)
  then have "distinct (map sbID es)" "set es \<subseteq> set (bsItems st)"
    using delete_first_mem[OF Some] assms(1) by (auto simp: brand_store_ok_def)
  then show ?thesis
    using assms Some by (auto simp: DeleteBrand_def brand_store_ok_def publishLocked_def)
qed (use assms in \<open>simp add: DeleteBrand_def\<close>)

lemma brand_reach_ok: "brand_reach st \<Longrightarrow> brand_store_ok st"
proof (induction rule: brand_reach.induct)
  case (reach_new bs)
  show ?case unfolding NewMemoryBrandStore_def by (rule new_items_ok) simp_all
qed (blast intro: CreateBrand_ok UpdateBrand_ok DeleteBrand_ok)+

section \<open>The store as the analyzer sees it\<close>

text \<open>
  The interface \<^verbatim>\<open>BrandStore\<close>: a listing and a lookup by identifier that agree. Its client is the
  detection list.
\<close>

locale brand_registry =
  fixes inv :: "'st \<Rightarrow> bool" and listing :: "'st \<Rightarrow> stored_brand list"
    and get :: "'st \<Rightarrow> int \<Rightarrow> brand_error + stored_brand"
  assumes listing_ids: "inv st \<Longrightarrow> distinct (map sbID (listing st))"
    and get_listing: "inv st \<Longrightarrow> get st i = Inr e \<longleftrightarrow> e \<in> set (listing st) \<and> sbID e = i"
begin

lemma get_unique: "inv st \<Longrightarrow> get st i = Inr e \<Longrightarrow> e' \<in> set (listing st) \<Longrightarrow> sbID e' = i \<Longrightarrow> e' = e"
  using listing_ids[of st] get_listing[of st i e] by (auto simp: distinct_map dest: inj_onD)

lemma managed_name_detected:
  assumes "inv st" "get st i = Inr e" "to_lower (trim_space (bName (sbBrand e))) = n" "n \<noteq> []"
  shows "\<exists>b. brand_named n (trustedBrands (Some (listing st))) = Some b \<and>
    b \<in> normalizeBrandRecord ` sbBrand ` set (listing st)"
proof -
  have e: "e \<in> set (listing st)" using assms(1,2) get_listing by blast
  let ?ns = "map normalizeBrandRecord (map sbBrand (listing st))"
  have "normalizeBrandRecord (sbBrand e) \<in> set ?ns" using e by auto
  then have "n \<in> set (map bName ?ns)" using assms(3) normalizeBrandRecord_fields(1)[of "sbBrand e"]
    by (metis image_eqI list.set_map)
  then obtain b where b: "brand_named n ?ns = Some b" using brand_named_None_iff[of n ?ns] by fastforce
  then have "b \<in> set ?ns" by (auto simp: brand_named_def find_Some_iff)
  moreover have "brand_named n (trustedBrands (Some (listing st))) = Some b"
    using e b DetectionBrands_named[OF assms(4), of "map sbBrand (listing st)"]
    by (auto simp: trustedBrands_def)
  ultimately show ?thesis by (simp add: image_image)
qed

end

interpretation memory: brand_registry brand_store_ok listed GetBrand
proof
  fix st :: brand_store and i e
  assume ok: "brand_store_ok st"
  then have ids: "distinct (map sbID (bsItems st))" and snap: "listed st = map clone_stored (bsItems st)"
    by (simp_all add: brand_store_ok_def listed_def ListBrands_def cloneBrands_def)
  show "distinct (map sbID (listed st))" using ids by (simp add: snap comp_def)
  have "GetBrand st i = Inr e \<longleftrightarrow> (\<exists>x. find (\<lambda>x. sbID x = i) (bsItems st) = Some x \<and> e = clone_stored x)"
    by (auto simp: GetBrand_def split: option.splits)
  then show "GetBrand st i = Inr e \<longleftrightarrow> e \<in> set (listed st) \<and> sbID e = i"
    by (auto simp: find_id_iff[OF ids] snap)
qed

end
