(* ===== verification/Runes.thy ===== *)
theory Runes
  imports GoStrings
begin

text \<open>
  Go's conversions between strings and runes: \<^verbatim>\<open>[]rune(s)\<close> (and \<^verbatim>\<open>range s\<close>) decodes UTF-8, an
  invalid byte giving \<^verbatim>\<open>utf8.RuneError\<close> and a width of one; \<^verbatim>\<open>string(runes)\<close> encodes it again. A
  rune is its code point.
\<close>

type_synonym rune = int

definition RuneError :: rune where
  "RuneError = 65533"

definition RuneSelf :: rune where
  "RuneSelf = 128"

section \<open>Decoding\<close>

definition continuation :: "char \<Rightarrow> bool" where
  "continuation c \<longleftrightarrow> 128 \<le> octet c \<and> octet c < 192"

text \<open>The range of the second byte that the first one accepts, as in \<^verbatim>\<open>unicode/utf8\<close>.\<close>

definition second_ok :: "int \<Rightarrow> char \<Rightarrow> bool" where
  "second_ok b0 c =
     (if b0 = 224 then 160 \<le> octet c \<and> octet c < 192
      else if b0 = 237 then 128 \<le> octet c \<and> octet c < 160
      else if b0 = 240 then 144 \<le> octet c \<and> octet c < 192
      else if b0 = 244 then 128 \<le> octet c \<and> octet c < 144
      else continuation c)"

definition decode_rune :: "char \<Rightarrow> string \<Rightarrow> rune \<times> nat" where
  "decode_rune c s =
     (let b0 = octet c in
      if b0 < 128 then (b0, 1)
      else if 194 \<le> b0 \<and> b0 < 224 then
        (case s of c1 # _ \<Rightarrow>
           if second_ok b0 c1 then ((b0 - 192) * 64 + (octet c1 - 128), 2) else (RuneError, 1)
         | _ \<Rightarrow> (RuneError, 1))
      else if 224 \<le> b0 \<and> b0 < 240 then
        (case s of c1 # c2 # _ \<Rightarrow>
           if second_ok b0 c1 \<and> continuation c2
           then ((b0 - 224) * 4096 + (octet c1 - 128) * 64 + (octet c2 - 128), 3) else (RuneError, 1)
         | _ \<Rightarrow> (RuneError, 1))
      else if 240 \<le> b0 \<and> b0 < 245 then
        (case s of c1 # c2 # c3 # _ \<Rightarrow>
           if second_ok b0 c1 \<and> continuation c2 \<and> continuation c3
           then ((b0 - 240) * 262144 + (octet c1 - 128) * 4096 + (octet c2 - 128) * 64 + (octet c3 - 128), 4)
           else (RuneError, 1)
         | _ \<Rightarrow> (RuneError, 1))
      else (RuneError, 1))"

fun runes_of :: "string \<Rightarrow> rune list" where
  "runes_of [] = []"
| "runes_of (c # s) = (let (r, w) = decode_rune c s in r # runes_of (drop (w - 1) s))"

section \<open>Encoding\<close>

definition encode_rune :: "rune \<Rightarrow> string" where
  "encode_rune r0 =
     (let r = (if r0 < 0 \<or> 55296 \<le> r0 \<and> r0 < 57344 \<or> 1114112 \<le> r0 then RuneError else r0) in
      if r < 128 then [char_of r]
      else if r < 2048 then [char_of (192 + r div 64), char_of (128 + r mod 64)]
      else if r < 65536 then
        [char_of (224 + r div 4096), char_of (128 + r div 64 mod 64), char_of (128 + r mod 64)]
      else [char_of (240 + r div 262144), char_of (128 + r div 4096 mod 64),
            char_of (128 + r div 64 mod 64), char_of (128 + r mod 64)])"

definition string_of :: "rune list \<Rightarrow> string" where
  "string_of rs = concat (map encode_rune rs)"

section \<open>Laws\<close>

definition valid_rune :: "rune \<Rightarrow> bool" where
  "valid_rune r \<longleftrightarrow> 0 \<le> r \<and> r < 55296 \<or> 57344 \<le> r \<and> r < 1114112"

lemma octet_char_of [simp]: "0 \<le> n \<Longrightarrow> n < 256 \<Longrightarrow> octet (char_of n) = n"
  by (simp add: octet_def)

lemma octet_range [simp]: "0 \<le> octet c" "octet c < 256"
  using byte_less_256[of c] by (simp_all add: octet_byte)

lemma decode_rune_ascii [simp]: "octet c < 128 \<Longrightarrow> decode_rune c s = (octet c, 1)"
  by (simp add: decode_rune_def)

lemma runes_of_ascii: "\<forall>c\<in>set s. octet c < 128 \<Longrightarrow> runes_of s = map octet s"
  by (induction s) simp_all

lemma char_of_octet [simp]: "char_of (octet c) = c"
  by (simp add: octet_def)

lemma string_of_ascii: "\<forall>c\<in>set s. octet c < 128 \<Longrightarrow> string_of (map octet s) = s"
  by (induction s) (auto simp: string_of_def encode_rune_def leD)

lemma runes_of_Nil_iff [simp]: "runes_of s = [] \<longleftrightarrow> s = []"
  by (cases s) (auto simp: case_prod_unfold Let_def)

lemma div_64_twice: "r div 64 div 64 = r div 4096" for r :: int
  using zdiv_zmult2_eq[of 64 r 64] by simp

lemma div_64_thrice: "r div 4096 div 64 = r div 262144" for r :: int
  using zdiv_zmult2_eq[of 64 r 4096] by simp

text \<open>The six-bit groups of a code point, as linear facts.\<close>

lemma rune_digits:
  fixes r :: int
  shows "r = r div 64 * 64 + r mod 64" "r mod 64 < 64"
    and "r div 64 = r div 4096 * 64 + r div 64 mod 64" "r div 64 mod 64 < 64"
    and "r div 4096 = r div 262144 * 64 + r div 4096 mod 64" "r div 4096 mod 64 < 64"
  using div_mult_mod_eq[of r 64] div_mult_mod_eq[of "r div 64" 64] div_mult_mod_eq[of "r div 4096" 64]
  by (simp_all add: div_64_twice div_64_thrice)

lemma decode_groups2:
  "2 \<le> a \<Longrightarrow> a < 32 \<Longrightarrow> 0 \<le> b \<Longrightarrow> b < 64 \<Longrightarrow>
     decode_rune (char_of (192 + a)) (char_of (128 + b) # s) = (a * 64 + b, 2)"
  by (simp add: decode_rune_def second_ok_def continuation_def)

lemma decode_groups3:
  "0 \<le> a \<Longrightarrow> a < 16 \<Longrightarrow> 0 \<le> b \<Longrightarrow> b < 64 \<Longrightarrow> 0 \<le> c \<Longrightarrow> c < 64 \<Longrightarrow> (a = 0 \<longrightarrow> 32 \<le> b) \<Longrightarrow> (a = 13 \<longrightarrow> b < 32) \<Longrightarrow>
     decode_rune (char_of (224 + a)) (char_of (128 + b) # char_of (128 + c) # s) =
       (a * 4096 + b * 64 + c, 3)"
  by (simp add: decode_rune_def second_ok_def continuation_def Let_def)

lemma decode_groups4:
  "0 \<le> a \<Longrightarrow> a < 5 \<Longrightarrow> 0 \<le> b \<Longrightarrow> b < 64 \<Longrightarrow> 0 \<le> c \<Longrightarrow> c < 64 \<Longrightarrow> 0 \<le> d \<Longrightarrow> d < 64 \<Longrightarrow> (a = 0 \<longrightarrow> 16 \<le> b) \<Longrightarrow> (a = 4 \<longrightarrow> b < 16) \<Longrightarrow>
     decode_rune (char_of (240 + a)) (char_of (128 + b) # char_of (128 + c) # char_of (128 + d) # s) =
       (a * 262144 + b * 4096 + c * 64 + d, 4)"
  by (simp add: decode_rune_def second_ok_def continuation_def Let_def)

lemma decode_encode_rune:
  assumes "valid_rune r"
  obtains c cs where "encode_rune r = c # cs" "decode_rune c (cs @ s) = (r, Suc (length cs))"
proof -
  define a where "a = r div 64"
  define b where "b = r div 4096"
  define c where "c = r div 262144"
  define x where "x = r mod 64"
  define y where "y = a mod 64"
  define z where "z = b mod 64"
  note defs = a_def[symmetric] b_def[symmetric] c_def[symmetric] x_def[symmetric] y_def[symmetric]
    z_def[symmetric]
  have d: "r = a * 64 + x" "x < 64" "a = b * 64 + y" "y < 64" "b = c * 64 + z" "z < 64"
    using rune_digits[of r] unfolding defs by simp_all
  have pos: "0 \<le> x" "0 \<le> y" "0 \<le> z" by (simp_all add: x_def y_def z_def)
  have valid: "0 \<le> r" "r < 55296 \<or> 57344 \<le> r" "r < 1114112" using assms by (auto simp: valid_rune_def)
  consider "r < 128" | "128 \<le> r" "r < 2048" | "2048 \<le> r" "r < 65536" | "65536 \<le> r" by linarith
  then show ?thesis
  proof cases
    case 1
    then show ?thesis using that valid by (simp add: encode_rune_def)
  next
    case 2
    then have "2 \<le> a" "a < 32" using d pos by linarith+
    from decode_groups2[OF this pos(1) d(2), of s] have dec: "decode_rune (char_of (192 + a)) (char_of (128 + x) # s) = (r, 2)"
      using d(1) by simp
    have "encode_rune r = [char_of (192 + a), char_of (128 + x)]"
      using 2 by (simp add: encode_rune_def a_def x_def)
    from that[OF this] dec show ?thesis by (simp add: eval_nat_numeral)
  next
    case 3
    then have a: "0 \<le> b" "b < 16" using d pos by linarith+
    have "b = 0 \<longrightarrow> 32 \<le> y" "b = 13 \<longrightarrow> y < 32" using d pos valid 3 by auto
    from decode_groups3[OF a pos(2) d(4) pos(1) d(2) this, of s]
    have dec: "decode_rune (char_of (224 + b)) (char_of (128 + y) # char_of (128 + x) # s) = (r, 3)"
      using d(1,3) by simp
    have "encode_rune r = [char_of (224 + b), char_of (128 + y), char_of (128 + x)]"
      using 3 valid(2) by (auto simp: encode_rune_def a_def b_def x_def y_def)
    from that[OF this] dec show ?thesis by (simp add: eval_nat_numeral)
  next
    case 4
    then have a: "0 \<le> c" "c < 5" using d pos valid by linarith+
    have "c = 0 \<longrightarrow> 16 \<le> z" "c = 4 \<longrightarrow> z < 16" using d pos valid 4 by auto
    from decode_groups4[OF a pos(3) d(6) pos(2) d(4) pos(1) d(2) this, of s]
    have dec: "decode_rune (char_of (240 + c)) (char_of (128 + z) # char_of (128 + y) # char_of (128 + x) # s) = (r, 4)"
      using d(1,3,5) by simp
    have "encode_rune r =
        [char_of (240 + c), char_of (128 + z), char_of (128 + y), char_of (128 + x)]"
      using 4 valid(3) by (simp add: encode_rune_def a_def b_def c_def x_def y_def z_def)
    from that[OF this] dec show ?thesis by (simp add: eval_nat_numeral)
  qed
qed

lemma runes_of_string_of:
  "list_all valid_rune rs \<Longrightarrow> runes_of (string_of rs) = rs"
proof (induction rs)
  case (Cons r rs)
  then obtain c cs where enc: "encode_rune r = c # cs"
    and dec: "decode_rune c (cs @ string_of rs) = (r, Suc (length cs))"
    using decode_encode_rune[of r "string_of rs"] by auto
  have "string_of (r # rs) = c # cs @ string_of rs"
    using enc by (simp add: string_of_def)
  then show ?case using Cons dec by simp
qed (simp add: string_of_def)

end
