(* ===== verification/EditDistance.thy ===== *)
theory EditDistance
  imports Runes
begin

text \<open>
  The four edit distances of \<^verbatim>\<open>internal/analysis/brand.go\<close>. Each fills one column of the dynamic
  programming grid per rune of the second word, in place; the column is a list whose k-th element is
  \<^verbatim>\<open>column[k+1]\<close>, \<^verbatim>\<open>column[0]\<close> is an argument, and the cost of replacing one rune by another is a
  function. \<^verbatim>\<open>float64\<close> distances are rationals: every value is a multiple of one half, which the
  machine format holds exactly. The specification is \<open>edits\<close>: the cost of a script of deletions,
  insertions and replacements. The locale \<open>replacement_cost\<close> states what the algorithms need of a
  cost, and is interpreted for both of the program's.
\<close>

section \<open>The distances\<close>

definition minInt :: "'a::linorder \<Rightarrow> 'a \<Rightarrow> 'a \<Rightarrow> 'a" where
  "minInt a b c = (if a < b then (if a < c then a else c) else if b < c then b else c)"

text \<open>One pass of the inner loop: \<open>prev\<close> is \<^verbatim>\<open>column[y-1]\<close>, \<open>lastkey\<close> its value before the pass.\<close>

fun column_pass :: "(rune \<Rightarrow> rune \<Rightarrow> 'a::linordered_idom) \<Rightarrow> rune \<Rightarrow> 'a \<Rightarrow> 'a \<Rightarrow> rune list \<Rightarrow> 'a list \<Rightarrow> 'a list" where
  "column_pass incr c2 prev lastkey (c1 # r1) (oldkey # column) =
     (let v = minInt (oldkey + 1) (prev + 1) (lastkey + incr c1 c2)
      in v # column_pass incr c2 v oldkey r1 column)"
| "column_pass incr c2 prev lastkey _ _ = []"

fun column_loop :: "(rune \<Rightarrow> rune \<Rightarrow> 'a::linordered_idom) \<Rightarrow> rune list \<Rightarrow> 'a \<Rightarrow> 'a list \<Rightarrow> rune list \<Rightarrow> 'a list" where
  "column_loop incr r1 x column [] = column"
| "column_loop incr r1 x column (c2 # r2) =
     column_loop incr r1 (x + 1) (column_pass incr c2 x (x - 1) r1 column) r2"

fun row_min :: "'a::linorder \<Rightarrow> 'a list \<Rightarrow> 'a" where
  "row_min m [] = m"
| "row_min m (v # vs) = row_min (if v < m then v else m) vs"

text \<open>The capped loop: \<^const>\<open>None\<close> when it returned early because the whole column exceeds the limit.\<close>

fun capped_loop :: "(rune \<Rightarrow> rune \<Rightarrow> 'a::linordered_idom) \<Rightarrow> 'a \<Rightarrow> rune list \<Rightarrow> 'a \<Rightarrow> 'a list \<Rightarrow> rune list \<Rightarrow> 'a list option" where
  "capped_loop incr limit r1 x column [] = Some column"
| "capped_loop incr limit r1 x column (c2 # r2) =
     (let column = column_pass incr c2 x (x - 1) r1 column in
      if row_min x column > limit then None else capped_loop incr limit r1 (x + 1) column r2)"

definition first_column :: "rune list \<Rightarrow> 'a::linordered_idom list" where
  "first_column r1 = map (\<lambda>y. of_nat y) [1..<Suc (length r1)]"

definition distance :: "(rune \<Rightarrow> rune \<Rightarrow> 'a::linordered_idom) \<Rightarrow> rune list \<Rightarrow> rune list \<Rightarrow> 'a" where
  "distance incr r1 r2 =
     (if r1 = [] then of_nat (length r2) else if r2 = [] then of_nat (length r1)
      else last (column_loop incr r1 1 (first_column r1) r2))"

definition distance_capped :: "(rune \<Rightarrow> rune \<Rightarrow> 'a::linordered_idom) \<Rightarrow> 'a \<Rightarrow> rune list \<Rightarrow> rune list \<Rightarrow> 'a" where
  "distance_capped incr limit r1 r2 =
     (if r1 = [] then of_nat (length r2) else if r2 = [] then of_nat (length r1)
      else case capped_loop incr limit r1 1 (first_column r1) r2 of
             None \<Rightarrow> limit + 1
           | Some column \<Rightarrow> if last column > limit then limit + 1 else last column)"

definition plain_incr :: "rune \<Rightarrow> rune \<Rightarrow> int" where
  "plain_incr c1 c2 = (if c1 \<noteq> c2 then 1 else 0)"

definition LevenshteinDistance :: "string \<Rightarrow> string \<Rightarrow> int" where
  "LevenshteinDistance s1 s2 = distance plain_incr (runes_of s1) (runes_of s2)"

definition LevenshteinDistanceCapped :: "string \<Rightarrow> string \<Rightarrow> int \<Rightarrow> int" where
  "LevenshteinDistanceCapped s1 s2 limit =
     distance_capped plain_incr limit (runes_of s1) (runes_of s2)"

definition keyboardAdjacency :: "(char \<times> string) list" where
  "keyboardAdjacency =
    [(CHR ''a'', ''qwsz''), (CHR ''b'', ''vghn''), (CHR ''c'', ''xdfv''), (CHR ''d'', ''ersfxc''),
     (CHR ''e'', ''wsdr34''), (CHR ''f'', ''rtgvcd''), (CHR ''g'', ''tyhbvf''), (CHR ''h'', ''yujnbg''),
     (CHR ''i'', ''ujko89''), (CHR ''j'', ''uikmnh''), (CHR ''k'', ''ijlm09''), (CHR ''l'', ''okp''),
     (CHR ''m'', ''njk''), (CHR ''n'', ''bhjm''), (CHR ''o'', ''iklp90''), (CHR ''p'', ''ol0''),
     (CHR ''q'', ''w12a''), (CHR ''r'', ''edft45''), (CHR ''s'', ''wedxza''), (CHR ''t'', ''rfgy56''),
     (CHR ''u'', ''yhji78''), (CHR ''v'', ''cfgb''), (CHR ''w'', ''qase23''), (CHR ''x'', ''zsdc''),
     (CHR ''y'', ''tghu67''), (CHR ''z'', ''asx'')]"

text \<open>\<^verbatim>\<open>adj, ok := keyboardAdjacency[a]; ok && strings.ContainsRune(adj, b)\<close>, on ASCII runes.\<close>

definition keyboard_adjacent :: "rune \<Rightarrow> rune \<Rightarrow> bool" where
  "keyboard_adjacent a b =
     (a < 128 \<and> b < 128 \<and>
      (case map_of keyboardAdjacency (char_of a) of
         None \<Rightarrow> False | Some adj \<Rightarrow> char_of b \<in> set adj))"

text \<open>\<^verbatim>\<open>unicode.ToLower\<close>: the case table above ASCII is the argument \<open>ul\<close>.\<close>

definition lower_rune :: "(rune \<Rightarrow> rune) \<Rightarrow> rune \<Rightarrow> rune" where
  "lower_rune ul r = (if r < 128 then octet (lower_char (char_of r)) else ul r)"

definition keyboard_incr :: "(rune \<Rightarrow> rune) \<Rightarrow> rune \<Rightarrow> rune \<Rightarrow> rat" where
  "keyboard_incr ul c1 c2 =
     (if c1 = c2 then 0
      else if keyboard_adjacent (lower_rune ul c1) (lower_rune ul c2) then 1 / 2
      else if keyboard_adjacent (lower_rune ul c2) (lower_rune ul c1) then 1 / 2
      else 1)"

definition WeightedLevenshteinDistance :: "(rune \<Rightarrow> rune) \<Rightarrow> string \<Rightarrow> string \<Rightarrow> rat" where
  "WeightedLevenshteinDistance ul s1 s2 = distance (keyboard_incr ul) (runes_of s1) (runes_of s2)"

definition WeightedLevenshteinDistanceCapped :: "(rune \<Rightarrow> rune) \<Rightarrow> string \<Rightarrow> string \<Rightarrow> rat \<Rightarrow> rat" where
  "WeightedLevenshteinDistanceCapped ul s1 s2 limit =
     distance_capped (keyboard_incr ul) limit (runes_of s1) (runes_of s2)"

section \<open>Edit scripts\<close>

inductive edits :: "(rune \<Rightarrow> rune \<Rightarrow> 'a::linordered_idom) \<Rightarrow> rune list \<Rightarrow> rune list \<Rightarrow> 'a \<Rightarrow> bool"
  for incr where
  edits_none: "edits incr [] [] 0"
| edits_delete: "edits incr xs ys n \<Longrightarrow> edits incr (xs @ [x]) ys (n + 1)"
| edits_insert: "edits incr xs ys n \<Longrightarrow> edits incr xs (ys @ [y]) (n + 1)"
| edits_replace: "edits incr xs ys n \<Longrightarrow> edits incr (xs @ [x]) (ys @ [y]) (n + incr x y)"

definition least_edits :: "(rune \<Rightarrow> rune \<Rightarrow> 'a::linordered_idom) \<Rightarrow> rune list \<Rightarrow> rune list \<Rightarrow> 'a \<Rightarrow> bool" where
  "least_edits incr xs ys d \<longleftrightarrow> edits incr xs ys d \<and> (\<forall>n. edits incr xs ys n \<longrightarrow> d \<le> n)"

lemma minInt_min: "minInt a b c = min a (min b c)"
  by (auto simp: minInt_def min_def)

lemma edits_insert_all: "edits incr [] ys (of_nat (length ys))"
proof (induction ys rule: rev_induct)
  case (snoc y ys)
  from edits_insert[OF this, of y] show ?case by (simp add: add.commute)
qed (simp add: edits_none)

lemma edits_delete_all: "edits incr xs [] (of_nat (length xs))"
proof (induction xs rule: rev_induct)
  case (snoc x xs)
  from edits_delete[OF this, of x] show ?case by (simp add: add.commute)
qed (simp add: edits_none)

lemma edits_empty_left: "edits incr xs ys n \<Longrightarrow> xs = [] \<Longrightarrow> n = of_nat (length ys)"
  by (induction rule: edits.induct) simp_all

lemma edits_empty_right: "edits incr xs ys n \<Longrightarrow> ys = [] \<Longrightarrow> n = of_nat (length xs)"
  by (induction rule: edits.induct) simp_all

lemma least_edits_empty_left: "least_edits incr [] ys (of_nat (length ys))"
  by (simp add: least_edits_def edits_insert_all) (use edits_empty_left in blast)

lemma least_edits_empty_right: "least_edits incr xs [] (of_nat (length xs))"
  by (simp add: least_edits_def edits_delete_all) (use edits_empty_right in blast)

lemma edits_snocE:
  assumes "edits incr (xs @ [x]) (ys @ [y]) n"
  obtains m where "edits incr xs (ys @ [y]) m" "n = m + 1"
  | m where "edits incr (xs @ [x]) ys m" "n = m + 1"
  | m where "edits incr xs ys m" "n = m + incr x y"
  using assms by (cases rule: edits.cases) auto

lemma least_edits_step:
  assumes "least_edits incr xs (ys @ [y]) p" "least_edits incr (xs @ [x]) ys q"
    and "least_edits incr xs ys r"
  shows "least_edits incr (xs @ [x]) (ys @ [y]) (minInt (q + 1) (p + 1) (r + incr x y))"
proof -
  have "edits incr (xs @ [x]) (ys @ [y]) (minInt (q + 1) (p + 1) (r + incr x y))"
    using assms by (auto simp: least_edits_def minInt_def intro: edits.intros)
  moreover have "minInt (q + 1) (p + 1) (r + incr x y) \<le> n"
    if "edits incr (xs @ [x]) (ys @ [y]) n" for n
    using that assms by (cases rule: edits_snocE) (auto simp: least_edits_def minInt_min min_le_iff_disj)
  ultimately show ?thesis by (simp add: least_edits_def)
qed

section \<open>The column holds least costs\<close>

text \<open>\<open>column_ok q r1 p column\<close>: the column for the runes \<open>r1\<close> after the prefix \<open>q\<close>, at the prefix \<open>p\<close>
  of the second word.\<close>

fun column_ok :: "(rune \<Rightarrow> rune \<Rightarrow> 'a::linordered_idom) \<Rightarrow> rune list \<Rightarrow> rune list \<Rightarrow> rune list \<Rightarrow> 'a list \<Rightarrow> bool" where
  "column_ok incr q [] p [] = True"
| "column_ok incr q (c1 # r1) p (v # column) =
     (least_edits incr (q @ [c1]) p v \<and> column_ok incr (q @ [c1]) r1 p column)"
| "column_ok incr q _ p _ = False"

lemma column_pass_ok:
  assumes "column_ok incr q r1 p column" "least_edits incr q p lastkey" "least_edits incr q (p @ [c2]) prev"
  shows "column_ok incr q r1 (p @ [c2]) (column_pass incr c2 prev lastkey r1 column)"
  using assms
proof (induction incr q r1 p column arbitrary: lastkey prev rule: column_ok.induct)
  case (2 incr q c1 r1 p v column)
  then show ?case by (auto simp: Let_def intro: least_edits_step)
qed auto

lemma first_column_ok: "column_ok incr q r1 [] (map of_nat [Suc (length q)..<Suc (length q + length r1)])"
proof (induction r1 arbitrary: q)
  case (Cons c1 r1)
  have "[Suc (length q)..<Suc (length q + length (c1 # r1))] =
      Suc (length q) # [Suc (Suc (length q))..<Suc (Suc (length q) + length r1)]"
    by (subst upt_conv_Cons) simp_all
  then show ?case
    using Cons[of "q @ [c1]"] least_edits_empty_right[of incr "q @ [c1]"] by simp
qed simp

lemma column_loop_ok:
  assumes "column_ok incr [] r1 p column" "x = of_nat (length p) + 1"
  shows "column_ok incr [] r1 (p @ r2) (column_loop incr r1 x column r2)"
  using assms
proof (induction r2 arbitrary: p x column)
  case (Cons c2 r2)
  have "column_ok incr [] r1 (p @ [c2]) (column_pass incr c2 x (x - 1) r1 column)"
    using Cons.prems least_edits_empty_left[of incr p] least_edits_empty_left[of incr "p @ [c2]"]
    by (intro column_pass_ok) (simp_all add: add.commute)
  from Cons.IH[OF this] show ?case using Cons.prems(2) by (simp add: add.commute)
qed simp

lemma column_ok_last:
  "column_ok incr q r1 p column \<Longrightarrow> r1 \<noteq> [] \<Longrightarrow> column \<noteq> [] \<and> least_edits incr (q @ r1) p (last column)"
proof (induction incr q r1 p column rule: column_ok.induct)
  case (2 incr q c1 r1 p v column)
  then show ?case by (cases r1; cases column) auto
qed auto

lemma distance_least: "least_edits incr r1 r2 (distance incr r1 r2)"
proof (cases "r1 = [] \<or> r2 = []")
  case True
  then show ?thesis
    using least_edits_empty_left[of incr r2] least_edits_empty_right[of incr r1] by (auto simp: distance_def)
next
  case False
  have "column_ok incr [] r1 [] (first_column r1)"
    using first_column_ok[of incr "[]" r1] by (simp add: first_column_def)
  from column_loop_ok[OF this, of 1 r2] column_ok_last[of incr "[]" r1 r2] False show ?thesis
    by (simp add: distance_def)
qed

section \<open>Stopping early\<close>

lemma row_min_le: "row_min m vs \<le> m"
proof (induction vs arbitrary: m)
  case (Cons w vs)
  show ?case using Cons.IH[of "if w < m then w else m"] by (auto split: if_splits)
qed simp

lemma row_min_le_mem: "v \<in> set vs \<Longrightarrow> row_min m vs \<le> v"
proof (induction vs arbitrary: m)
  case (Cons w vs)
  then show ?case using row_min_le[of "if w < m then w else m" vs] by (auto split: if_splits)
qed simp

locale replacement_cost =
  fixes incr :: "rune \<Rightarrow> rune \<Rightarrow> 'a::linordered_idom"
  assumes incr_nonneg: "0 \<le> incr a b"
    and incr_zero_iff: "incr a b = 0 \<longleftrightarrow> a = b"
begin

lemma column_pass_above:
  assumes "\<forall>v\<in>set column. limit < v" "limit < prev" "limit < lastkey"
  shows "\<forall>v\<in>set (column_pass incr c2 prev lastkey r1 column). limit < v"
  using assms
proof (induction r1 arbitrary: column prev lastkey)
  case (Cons c1 r1)
  show ?case
  proof (cases column)
    case column: (Cons oldkey rest)
    let ?v = "minInt (oldkey + 1) (prev + 1) (lastkey + incr c1 c2)"
    have above: "\<forall>v\<in>set rest. limit < v" "limit < oldkey" using column Cons.prems by simp_all
    then have "limit < oldkey + 1" "limit < prev + 1" "limit < lastkey + incr c1 c2"
      using Cons.prems incr_nonneg[of c1 c2] by linarith+
    then have "limit < ?v" by (simp add: minInt_min)
    from Cons.IH[OF above(1) this above(2)] this show ?thesis by (simp add: column Let_def)
  qed simp
qed simp

lemma column_loop_above:
  assumes "\<forall>v\<in>set column. limit < v" "limit < x - 1"
  shows "\<forall>v\<in>set (column_loop incr r1 x column r2). limit < v"
  using assms
proof (induction r2 arbitrary: x column)
  case (Cons c2 r2)
  have "limit < x" using Cons.prems(2) by simp
  then have "\<forall>v\<in>set (column_pass incr c2 x (x - 1) r1 column). limit < v"
    using Cons.prems by (intro column_pass_above)
  from Cons.IH[OF this, of "x + 1"] show ?case using \<open>limit < x\<close> by simp
qed simp

lemma capped_loop_spec:
  "case capped_loop incr limit r1 x column r2 of
     None \<Rightarrow> \<forall>v\<in>set (column_loop incr r1 x column r2). limit < v
   | Some column' \<Rightarrow> column' = column_loop incr r1 x column r2"
proof (induction r2 arbitrary: x column)
  case (Cons c2 r2)
  let ?next = "column_pass incr c2 x (x - 1) r1 column"
  show ?case
  proof (cases "row_min x ?next > limit")
    case True
    then have "\<forall>v\<in>set ?next. limit < v" "limit < x"
      using row_min_le_mem[of _ ?next x] row_min_le[of x ?next] by (fastforce intro: less_le_trans)+
    then show ?thesis using True column_loop_above[of ?next limit "x + 1" r1 r2] by (simp add: Let_def)
  next
    case False
    then show ?thesis using Cons.IH[of "x + 1" ?next] by (simp add: Let_def split: option.splits)
  qed
qed simp

lemma distance_capped_eq:
  assumes "r1 \<noteq> []" "r2 \<noteq> []"
  shows "distance_capped incr limit r1 r2 =
      (if distance incr r1 r2 \<le> limit then distance incr r1 r2 else limit + 1)"
proof -
  let ?column = "column_loop incr r1 1 (first_column r1) r2"
  have "column_ok incr [] r1 r2 ?column"
    using first_column_ok[of incr "[]" r1] column_loop_ok[of incr r1 "[]" "first_column r1" 1 r2]
    by (simp add: first_column_def)
  then have "last ?column \<in> set ?column" using column_ok_last assms(1) by fastforce
  moreover have "distance incr r1 r2 = last ?column" using assms by (simp add: distance_def)
  ultimately show ?thesis
    using assms capped_loop_spec[where limit = limit and ?r1.0 = r1 and x = 1 and column = "first_column r1" and ?r2.0 = r2]
    by (auto simp: distance_capped_def not_le split: option.splits)
qed

lemma edits_nonneg: "edits incr xs ys n \<Longrightarrow> 0 \<le> n \<and> (n = 0 \<longrightarrow> xs = ys)"
proof (induction rule: edits.induct)
  case (edits_replace xs ys n x y)
  then show ?case using incr_nonneg[of x y] incr_zero_iff[of x y] by (simp add: add_nonneg_eq_0_iff)
qed (simp_all add: add_nonneg_eq_0_iff)

lemma edits_same: "edits incr xs xs 0"
proof (induction xs rule: rev_induct)
  case (snoc x xs)
  then show ?case using edits_replace[of incr xs xs 0 x x] incr_zero_iff[of x x] by simp
qed (rule edits_none)

lemma distance_zero_iff: "distance incr xs ys = 0 \<longleftrightarrow> xs = ys"
  using distance_least[of incr xs ys] edits_nonneg[of xs ys] edits_same[of xs]
  by (auto simp: least_edits_def intro: order.antisym)

lemma distance_nonneg: "0 \<le> distance incr xs ys"
  using distance_least[of incr xs ys] edits_nonneg by (auto simp: least_edits_def)

text \<open>What a caller that compares with a threshold of at most the limit sees.\<close>

lemma within_threshold_iff:
  assumes "r1 \<noteq> []" "r2 \<noteq> []"
  shows "0 < distance_capped incr limit r1 r2 \<and> distance_capped incr limit r1 r2 \<le> limit \<longleftrightarrow>
    r1 \<noteq> r2 \<and> (\<exists>n\<le>limit. edits incr r1 r2 n)"
proof -
  let ?d = "distance incr r1 r2"
  have "(\<exists>n\<le>limit. edits incr r1 r2 n) \<longleftrightarrow> ?d \<le> limit"
    using distance_least[of incr r1 r2] unfolding least_edits_def by (blast intro: order.trans)
  moreover have "0 < ?d \<longleftrightarrow> r1 \<noteq> r2"
    using distance_zero_iff[of r1 r2] distance_nonneg[of r1 r2] by (auto simp: order.strict_iff_order)
  ultimately show ?thesis using distance_capped_eq[OF assms, of limit] by auto
qed

end

interpretation plain: replacement_cost plain_incr
  by unfold_locales (simp_all add: plain_incr_def)

interpretation keyboard: replacement_cost "keyboard_incr ul"
  by unfold_locales (simp_all add: keyboard_incr_def)

end
