(* ===== verification/BrandSpoof.thy ===== *)
theory BrandSpoof
  imports BrandStore EditDistance
begin

text \<open>
  Brand-spoofing detection of \<^verbatim>\<open>internal/analysis/brand.go\<close>: root domains and main labels, confusable
  skeletons, the label classes and \<^verbatim>\<open>CheckBrandSpoofingWithBrands\<close>. The record \<open>lexlibs\<close> holds what
  lies outside the repository: \<^verbatim>\<open>idna.ToUnicode\<close> (\<^const>\<open>None\<close> on error), the Unicode tables above ASCII
  behind \<^verbatim>\<open>unicode.ToLower\<close> and \<^verbatim>\<open>unicode.IsDigit\<close>, \<^verbatim>\<open>math.Log2\<close>, and the runes of the generated
  constant \<^verbatim>\<open>tr39ConfusablePairs\<close>. A function that returns a flag, a reason and a penalty returns an
  option of the pair.
\<close>

record lexlibs =
  idna_to_unicode :: "string \<Rightarrow> string option"
  unicode_lower :: "rune \<Rightarrow> rune"
  unicode_digit :: "rune \<Rightarrow> bool"
  math_log2 :: "rat \<Rightarrow> rat"
  tr39_pairs :: "rune list"

section \<open>Root domains\<close>

definition doubleTLDs :: "string list" where
  "doubleTLDs = [''com'', ''co'', ''net'', ''org'', ''gov'', ''edu'', ''ac'']"

definition getRootDomain :: "string \<Rightarrow> string" where
  "getRootDomain domain0 =
     (let domain = to_lower (trim_space domain0);
          parts = split_on (CHR ''.'') domain; n = length parts in
      if n \<le> 2 then domain
      else if parts ! (n - 2) \<in> set doubleTLDs \<and> length (parts ! (n - 1)) = 2
      then parts ! (n - 3) @ ''.'' @ parts ! (n - 2) @ ''.'' @ parts ! (n - 1)
      else parts ! (n - 2) @ ''.'' @ parts ! (n - 1))"

definition getMainLabel :: "string \<Rightarrow> string" where
  "getMainLabel domain = hd (split_on (CHR ''.'') (getRootDomain domain))"

section \<open>Skeletons\<close>

definition homoglyphMap :: "(rune \<times> char) list" where
  "homoglyphMap =
    [(1072, CHR ''a''), (1073, CHR ''b''), (1089, CHR ''c''), (1281, CHR ''d''), (1077, CHR ''e''), (102, CHR ''f''),
     (103, CHR ''g''), (1211, CHR ''h''), (1110, CHR ''i''), (1112, CHR ''j''), (107, CHR ''k''), (108, CHR ''l''),
     (109, CHR ''m''), (1087, CHR ''n''), (1086, CHR ''o''), (1088, CHR ''p''), (113, CHR ''q''), (1075, CHR ''r''),
     (1109, CHR ''s''), (1090, CHR ''t''), (965, CHR ''u''), (1141, CHR ''v''), (1309, CHR ''w''), (1093, CHR ''x''),
     (1091, CHR ''y''), (122, CHR ''z''), (1040, CHR ''a''), (1042, CHR ''b''), (1057, CHR ''c''), (1045, CHR ''e''),
     (1053, CHR ''h''), (1030, CHR ''i''), (1032, CHR ''j''), (1050, CHR ''k''), (1052, CHR ''m''), (1054, CHR ''o''),
     (1056, CHR ''p''), (1029, CHR ''s''), (1058, CHR ''t''), (1061, CHR ''x''), (1198, CHR ''y''), (945, CHR ''a''),
     (946, CHR ''b''), (949, CHR ''e''), (953, CHR ''i''), (954, CHR ''k''), (959, CHR ''o''), (961, CHR ''p''),
     (964, CHR ''t''), (967, CHR ''x'')]"

fun build_confusables :: "(rune \<rightharpoonup> rune) \<Rightarrow> rune list \<Rightarrow> (rune \<rightharpoonup> rune)" where
  "build_confusables m (a # b # pairs) = build_confusables (m(a \<mapsto> b)) pairs"
| "build_confusables m _ = m"

definition buildTR39Confusables :: "rune list \<Rightarrow> (rune \<rightharpoonup> rune)" where
  "buildTR39Confusables pairs = build_confusables Map.empty pairs"

definition homoglyph_rune :: "rune \<Rightarrow> rune" where
  "homoglyph_rune r = (case map_of homoglyphMap r of Some c \<Rightarrow> octet c | None \<Rightarrow> r)"

definition extended_rune :: "lexlibs \<Rightarrow> rune \<Rightarrow> rune" where
  "extended_rune L r =
     (case buildTR39Confusables (tr39_pairs L) r of Some c \<Rightarrow> c | None \<Rightarrow> homoglyph_rune r)"

definition ToSkeleton :: "string \<Rightarrow> string" where
  "ToSkeleton s = string_of (map homoglyph_rune (runes_of s))"

definition ToSkeletonExtended :: "lexlibs \<Rightarrow> string \<Rightarrow> string" where
  "ToSkeletonExtended L s = string_of (map (extended_rune L) (runes_of s))"

text \<open>\<^verbatim>\<open>strings.ToLower\<close> on a string that may hold runes above ASCII.\<close>

definition lower_utf8 :: "lexlibs \<Rightarrow> string \<Rightarrow> string" where
  "lower_utf8 L s = string_of (map (lower_rune (unicode_lower L)) (runes_of s))"

section \<open>Labels\<close>

datatype brandLabelMatchKind = brandLabelNoMatch | brandLabelExact | brandLabelContains | brandLabelHyphenPart

text \<open>The kinds are integer constants, in this order.\<close>

primrec kind_rank :: "brandLabelMatchKind \<Rightarrow> nat" where
  "kind_rank brandLabelNoMatch = 0"
| "kind_rank brandLabelExact = 1"
| "kind_rank brandLabelContains = 2"
| "kind_rank brandLabelHyphenPart = 3"

instantiation brandLabelMatchKind :: linorder
begin

definition less_eq_brandLabelMatchKind :: "brandLabelMatchKind \<Rightarrow> brandLabelMatchKind \<Rightarrow> bool" where
  "less_eq_brandLabelMatchKind a b \<longleftrightarrow> kind_rank a \<le> kind_rank b"

definition less_brandLabelMatchKind :: "brandLabelMatchKind \<Rightarrow> brandLabelMatchKind \<Rightarrow> bool" where
  "less_brandLabelMatchKind a b \<longleftrightarrow> kind_rank a < kind_rank b"

instance
proof
  have "kind_rank a = kind_rank b \<Longrightarrow> a = b" for a b by (cases a; cases b) simp_all
  then show "a \<le> b \<Longrightarrow> b \<le> a \<Longrightarrow> a = b" for a b :: brandLabelMatchKind
    by (simp add: less_eq_brandLabelMatchKind_def)
qed (auto simp: less_eq_brandLabelMatchKind_def less_brandLabelMatchKind_def)

end

definition classifyBrandLabel :: "string \<Rightarrow> string \<Rightarrow> brandLabelMatchKind" where
  "classifyBrandLabel label0 brandName0 =
     (let label = to_lower label0; brandName = to_lower brandName0 in
      if label = [] \<or> brandName = [] then brandLabelNoMatch
      else if label = brandName then brandLabelExact
      else if brandName \<in> set (split_on (CHR ''-'') label) then brandLabelHyphenPart
      else if length brandName \<ge> 6 \<and> contains label brandName then brandLabelContains
      else brandLabelNoMatch)"

definition isSuspiciousLabel :: "string \<Rightarrow> string \<Rightarrow> bool" where
  "isSuspiciousLabel label0 brandName0 =
     (let label = to_lower label0; brandName = to_lower brandName0 in
      label = brandName \<or> brandName \<in> set (split_on (CHR ''-'') label) \<or>
      length brandName \<ge> 6 \<and> contains label brandName)"

section \<open>Tables\<close>

definition cdnInfraAdvisoryPenalty :: int where
  "cdnInfraAdvisoryPenalty = 10"

definition shortBrandTyposquatMaxLen :: nat where
  "shortBrandTyposquatMaxLen = 4"

definition officialDomainAliases :: "(string \<times> string list) list" where
  "officialDomainAliases = [(''lazada'', [''lazada.sg'', ''lazcdn.com''])]"

definition isOfficialAlias :: "string \<Rightarrow> string \<Rightarrow> bool" where
  "isOfficialAlias brandName rootDomain =
     (case map_of officialDomainAliases (to_lower (trim_space brandName)) of
        None \<Rightarrow> False
      | Some aliases \<Rightarrow>
          list_ex (\<lambda>alias. to_lower (trim_space rootDomain) = to_lower (trim_space alias)) aliases)"

definition brandKeywordExemptRoots :: "string list" where
  "brandKeywordExemptRoots =
    [''amazonaws.com'', ''googleadservices.com'', ''googleapis.com'', ''googleusercontent.com'']"

definition isBrandKeywordExemptRoot :: "string \<Rightarrow> bool" where
  "isBrandKeywordExemptRoot rootDomain0 =
     (let rootDomain = to_lower (trim_space rootDomain0) in
      rootDomain \<noteq> [] \<and> rootDomain \<in> set brandKeywordExemptRoots)"

definition suspiciousTLDs :: "string list" where
  "suspiciousTLDs =
    [''xyz'', ''top'', ''cc'', ''info'', ''work'', ''club'', ''fit'', ''vip'', ''cf'', ''gq'', ''ga'', ''ml'', ''tk'', ''icu'', ''asia'', ''buzz'', ''bid'']"

definition isVietnamGovernmentRoot :: "string \<Rightarrow> bool" where
  "isVietnamGovernmentRoot rootDomain0 =
     (let rootDomain = to_lower (trim_space rootDomain0) in
      rootDomain = ''gov.vn'' \<or> has_suffix rootDomain ''.gov.vn'')"

section \<open>CheckBrandSpoofingWithBrands\<close>

text \<open>The local variables of the function before its loop over the brands.\<close>

record spoof_site =
  spRoot :: string
  spLabels :: "string list"
  spTld :: string
  spSkeletonRoot :: string
  spSkeletonLabels :: "string list"
  spHomoglyph :: bool
  spCdn :: bool

definition spoof_site_of :: "lexlibs \<Rightarrow> string \<Rightarrow> spoof_site" where
  "spoof_site_of L domain =
     (let unicodeDomain = (case idna_to_unicode L domain of Some u \<Rightarrow> u | None \<Rightarrow> domain);
          rootDomain = getRootDomain domain;
          rootParts = split_on (CHR ''.'') rootDomain;
          skeletonDomain = ToSkeletonExtended L unicodeDomain
      in \<lparr>spRoot = rootDomain, spLabels = split_on (CHR ''.'') domain,
          spTld = (if length rootParts > 1 then last rootParts else []),
          spSkeletonRoot = ToSkeletonExtended L (getRootDomain (lower_utf8 L unicodeDomain)),
          spSkeletonLabels = split_on (CHR ''.'') skeletonDomain,
          spHomoglyph = (skeletonDomain \<noteq> unicodeDomain), spCdn = IsCDNRoot rootDomain\<rparr>)"

definition tld_penalty :: "spoof_site \<Rightarrow> int \<Rightarrow> int" where
  "tld_penalty site penalty = (if spTld site \<in> set suspiciousTLDs then penalty + 20 else penalty)"

definition skeleton_label :: "spoof_site \<Rightarrow> nat \<Rightarrow> string \<Rightarrow> string" where
  "skeleton_label site i label =
     (if i < length (spSkeletonLabels site) then spSkeletonLabels site ! i else label)"

definition suffix_label :: "string list \<Rightarrow> string \<Rightarrow> bool" where
  "suffix_label labels label \<longleftrightarrow>
     length labels > 1 \<and> label = labels ! (length labels - 1) \<or>
     length labels > 2 \<and> label = labels ! (length labels - 2) \<and> label \<in> set doubleTLDs"

text \<open>The body of the typosquatting loop for one label.\<close>

definition typosquat_label :: "lexlibs \<Rightarrow> int \<Rightarrow> spoof_site \<Rightarrow> string \<Rightarrow> nat \<Rightarrow> string \<Rightarrow> (string \<times> int) option" where
  "typosquat_label L score site name i label =
     (let skLabel = skeleton_label site i label;
          minLen = (if length skLabel < length name then length skLabel else length name);
          maxWDist = (if minLen \<le> shortBrandTyposquatMaxLen then 1 else 3 / 2);
          maxDist = (if minLen \<le> shortBrandTyposquatMaxLen then 1 else 2);
          wDist = WeightedLevenshteinDistanceCapped (unicode_lower L) skLabel name maxWDist;
          dist = LevenshteinDistanceCapped skLabel name maxDist;
          fuzzy = tld_penalty site (if spCdn site then cdnInfraAdvisoryPenalty else score)
      in if suffix_label (spLabels site) label then None
         else if minLen < 4 then None
         else if skLabel = name \<and> label \<noteq> name \<and> spHomoglyph site then
           Some (''homoglyph visual spoofing of '' @ name @ '' brand ('' @ label @ '')'', tld_penalty site score)
         else if wDist > 0 \<and> wDist \<le> maxWDist then
           Some ((if skLabel \<noteq> label then ''homoglyph keyboard typosquatting of '' else ''keyboard typosquatting of '')
                   @ name @ '' brand ('' @ label @ '')'', fuzzy)
         else if dist > 0 \<and> dist \<le> maxDist then
           Some (''typosquatting of '' @ name @ '' brand ('' @ label @ '')'', fuzzy)
         else None)"

definition brand_keyword :: "int \<Rightarrow> spoof_site \<Rightarrow> string \<Rightarrow> (string \<times> int) option" where
  "brand_keyword score site name =
     (if \<not> isBrandKeywordExemptRoot (spRoot site) \<and>
         (isSuspiciousLabel (getMainLabel (spRoot site)) name \<or>
          isSuspiciousLabel (getMainLabel (spSkeletonRoot site)) name)
      then Some (''suspicious usage of trusted brand keyword ('' @ name @ '')'', tld_penalty site score)
      else None)"

definition subdomain_label :: "int \<Rightarrow> spoof_site \<Rightarrow> string \<Rightarrow> nat \<Rightarrow> string \<Rightarrow> (string \<times> int) option" where
  "subdomain_label score site name i label =
     (let kind = max (classifyBrandLabel label name) (classifyBrandLabel (skeleton_label site i label) name)
      in if i + length (split_on (CHR ''.'') (spRoot site)) < length (spLabels site) \<and> kind \<noteq> brandLabelNoMatch
         then Some (''suspicious brand subdomain usage ('' @ name @ '')'',
                    tld_penalty site (if spCdn site \<and> kind \<noteq> brandLabelHyphenPart
                                      then cdnInfraAdvisoryPenalty else score - 10))
         else None)"

fun first_label :: "(nat \<Rightarrow> string \<Rightarrow> 'a option) \<Rightarrow> nat \<Rightarrow> string list \<Rightarrow> 'a option" where
  "first_label f i [] = None"
| "first_label f i (label # labels) =
     (case f i label of Some r \<Rightarrow> Some r | None \<Rightarrow> first_label f (Suc i) labels)"

definition official_root :: "brand \<Rightarrow> string \<Rightarrow> bool" where
  "official_root b rootDomain \<longleftrightarrow>
     rootDomain = bOfficialDomain b \<or> rootDomain \<in> set (brand_alts b) \<or>
     isOfficialAlias (bName b) rootDomain"

definition check_brand :: "lexlibs \<Rightarrow> int \<Rightarrow> spoof_site \<Rightarrow> brand \<Rightarrow> (string \<times> int) option" where
  "check_brand L score site b0 =
     (let b = normalizeBrandRecord b0 in
      if bName b = [] \<or> bOfficialDomain b = [] then None
      else if official_root b (spRoot site) then None
      else case first_label (typosquat_label L score site (bName b)) 0 (spLabels site) of
             Some r \<Rightarrow> Some r
           | None \<Rightarrow>
               (case brand_keyword score site (bName b) of
                  Some r \<Rightarrow> Some r
                | None \<Rightarrow> first_label (subdomain_label score site (bName b)) 0 (spLabels site)))"

fun check_brands :: "lexlibs \<Rightarrow> int \<Rightarrow> spoof_site \<Rightarrow> brand list \<Rightarrow> (string \<times> int) option" where
  "check_brands L score site [] = None"
| "check_brands L score site (b # bs) =
     (case check_brand L score site b of Some r \<Rightarrow> Some r | None \<Rightarrow> check_brands L score site bs)"

definition CheckBrandSpoofingWithBrands :: "lexlibs \<Rightarrow> string \<Rightarrow> int \<Rightarrow> brand list \<Rightarrow> (string \<times> int) option" where
  "CheckBrandSpoofingWithBrands L domain0 score brands0 =
     (let domain = to_lower (trim_space domain0);
          brands = (if brands0 = [] then DetectionBrands DefaultTrustedBrands else brands0)
      in if domain = [] then None
         else if isVietnamGovernmentRoot (getRootDomain domain) then None
         else if IsTrustedBrandSuffix domain brands \<or> IsTrustedInfraSuffix domain then None
         else check_brands L score (spoof_site_of L domain) brands)"

definition CheckBrandSpoofing :: "lexlibs \<Rightarrow> string \<Rightarrow> int \<Rightarrow> (string \<times> int) option" where
  "CheckBrandSpoofing L domain score =
     CheckBrandSpoofingWithBrands L domain score (DetectionBrands DefaultTrustedBrands)"

end
