(* ===== verification/LexicalScore.thy ===== *)
theory LexicalScore
  imports BrandSpoof
begin

text \<open>
  The lexical score: the thresholds of \<^verbatim>\<open>internal/config/analysis.go\<close> with their validation, the
  algorithmic-name test of \<^verbatim>\<open>internal/analysis/dga.go\<close>, and the checks that \<^verbatim>\<open>analyzeWithBrands\<close> of
  \<^verbatim>\<open>internal/analysis/analysis.go\<close> runs on a normalised domain before it turns the sum into a verdict.
  A \<^verbatim>\<open>float64\<close> is a rational.
\<close>

section \<open>Thresholds\<close>

record analysis_config =
  PunycodeScore :: int
  LongDomainLength :: int
  LongDomainScore :: int
  HyphenCountThreshold :: int
  HyphenScore :: int
  DigitRatioThreshold :: rat
  DigitRatioScore :: int
  MixedScriptScore :: int
  Keywords :: "string list"
  KeywordBaseScore :: int
  KeywordMatchScore :: int
  KeywordMultipleBonus :: int
  BrandSpoofingScore :: int
  EntropyThreshold :: rat
  EntropyScore :: int

definition DefaultAnalysisConfig :: analysis_config where
  "DefaultAnalysisConfig =
     \<lparr>PunycodeScore = 35, LongDomainLength = 24, LongDomainScore = 15, HyphenCountThreshold = 3,
      HyphenScore = 10, DigitRatioThreshold = 1 / 4, DigitRatioScore = 10, MixedScriptScore = 25,
      Keywords = [''login'', ''secure'', ''verify'', ''account'', ''update'', ''support'', ''wallet'',
        ''dichvucong'', ''congan'', ''vneid'', ''phatnguoi'', ''xulyphat'', ''nganhang'', ''xacthuc'',
        ''cungcap''],
      KeywordBaseScore = 15, KeywordMatchScore = 10, KeywordMultipleBonus = 10,
      BrandSpoofingScore = 50, EntropyThreshold = 3, EntropyScore = 35\<rparr>"

definition GetKeywords :: "analysis_config \<Rightarrow> string list" where
  "GetKeywords cfg = map to_lower (Keywords cfg)"

text \<open>The rows of the table that \<^verbatim>\<open>Validate\<close> walks: name, value, least and greatest value.\<close>

definition config_ranges :: "analysis_config \<Rightarrow> (string \<times> int \<times> int \<times> int) list" where
  "config_ranges c =
    [(''punycode_score'', PunycodeScore c, 0, 100),
     (''long_domain_length'', LongDomainLength c, 10, 253),
     (''long_domain_score'', LongDomainScore c, 0, 100),
     (''hyphen_count_threshold'', HyphenCountThreshold c, 1, 20),
     (''hyphen_score'', HyphenScore c, 0, 100),
     (''digit_ratio_score'', DigitRatioScore c, 0, 100),
     (''mixed_script_score'', MixedScriptScore c, 0, 100),
     (''keyword_base_score'', KeywordBaseScore c, 0, 100),
     (''keyword_match_score'', KeywordMatchScore c, 0, 100),
     (''keyword_multiple_bonus'', KeywordMultipleBonus c, 0, 100),
     (''brand_spoofing_score'', BrandSpoofingScore c, 0, 100),
     (''entropy_score'', EntropyScore c, 0, 100)]"

datatype config_error =
  OutOfRange string int int
| BadDigitRatioThreshold
| BadEntropyThreshold
| TooManyKeywords
| KeywordSpace
| KeywordLength
| KeywordDuplicate

fun check_keywords :: "string list \<Rightarrow> string list \<Rightarrow> config_error option" where
  "check_keywords seen [] = None"
| "check_keywords seen (k # ks) =
     (let trimmed = trim_space k; keyword = to_lower trimmed in
      if k \<noteq> trimmed then Some KeywordSpace
      else if keyword = [] \<or> length keyword > 64 then Some KeywordLength
      else if keyword \<in> set seen then Some KeywordDuplicate
      else check_keywords (keyword # seen) ks)"

definition Validate :: "analysis_config \<Rightarrow> config_error option" where
  "Validate c =
     (case find (\<lambda>(name, v, lo, hi). v < lo \<or> v > hi) (config_ranges c) of
        Some (name, v, lo, hi) \<Rightarrow> Some (OutOfRange name lo hi)
      | None \<Rightarrow>
          if DigitRatioThreshold c < 0 \<or> DigitRatioThreshold c > 1 then Some BadDigitRatioThreshold
          else if EntropyThreshold c < 0 \<or> EntropyThreshold c > 8 then Some BadEntropyThreshold
          else if length (Keywords c) > 200 then Some TooManyKeywords
          else check_keywords [] (Keywords c))"

section \<open>Character statistics\<close>

definition rune_digit :: "lexlibs \<Rightarrow> rune \<Rightarrow> bool" where
  "rune_digit L r = (if r < 128 then 48 \<le> r \<and> r \<le> 57 else unicode_digit L r)"

definition digitRatio :: "lexlibs \<Rightarrow> string \<Rightarrow> rat" where
  "digitRatio L s =
     (if s = [] then 0
      else of_nat (length (filter (rune_digit L) (runes_of s))) / of_nat (length s))"

text \<open>The runes that \<^verbatim>\<open>mixedScripts\<close> does not skip.\<close>

definition script_runes :: "lexlibs \<Rightarrow> string \<Rightarrow> rune list" where
  "script_runes L s = filter (\<lambda>r. \<not> (r = 46 \<or> r = 45 \<or> rune_digit L r)) (runes_of s)"

definition mixedScripts :: "lexlibs \<Rightarrow> string \<Rightarrow> bool" where
  "mixedScripts L s =
     (list_ex (\<lambda>r. r \<le> RuneSelf) (script_runes L s) \<and> list_ex (\<lambda>r. \<not> r \<le> RuneSelf) (script_runes L s))"

definition suspiciousKeywordStats :: "analysis_config \<Rightarrow> string \<Rightarrow> int \<times> int" where
  "suspiciousKeywordStats c s =
     (let keywordCount = int (length (filter (categoryKeywordMatch s) (GetKeywords c))) in
      if keywordCount = 0 then (0, 0)
      else let keywordScore = KeywordBaseScore c + keywordCount * KeywordMatchScore c in
        (keywordCount, if keywordCount \<ge> 2 then keywordScore + KeywordMultipleBonus c else keywordScore))"

definition isProtectedVietnamPublicServiceAbuse :: "string \<Rightarrow> bool" where
  "isProtectedVietnamPublicServiceAbuse domain0 =
     (let domain = to_lower (trim_space domain0); rootDomain = getRootDomain domain in
      if domain = [] \<or> \<not> contains domain ''dichvucong'' then False
      else if rootDomain = ''dichvucong.gov.vn'' \<or> has_suffix rootDomain ''.gov.vn'' \<or>
              has_suffix domain ''.gov.vn'' then False
      else contains rootDomain ''dichvucong'')"

section \<open>Algorithmic names\<close>

text \<open>The sum over the map of frequencies: its order does not matter on rationals.\<close>

definition ShannonEntropy :: "lexlibs \<Rightarrow> string \<Rightarrow> rat" where
  "ShannonEntropy L s =
     (if s = [] then 0
      else - sum_list (map (\<lambda>r. let p = of_nat (count_list (runes_of s) r) / of_nat (length s)
                               in p * math_log2 L p) (remdups (runes_of s))))"

definition englishBigrams :: "string list" where
  "englishBigrams =
    [''ab'', ''ac'', ''ad'', ''ag'', ''al'', ''am'', ''an'', ''ap'', ''ar'', ''as'', ''at'', ''av'', ''ay'', ''ba'',
     ''be'', ''bi'', ''bl'', ''bo'', ''br'', ''bu'', ''ca'', ''ce'', ''ch'', ''ci'', ''cl'', ''co'', ''cr'', ''cu'',
     ''da'', ''de'', ''di'', ''do'', ''dr'', ''ea'', ''ec'', ''ed'', ''ee'', ''ef'', ''el'', ''em'', ''en'', ''eo'',
     ''er'', ''es'', ''et'', ''ev'', ''ex'', ''fe'', ''fi'', ''fl'', ''fo'', ''fr'', ''ga'', ''ge'', ''gh'', ''gi'',
     ''gl'', ''go'', ''gr'', ''gu'', ''ha'', ''he'', ''hi'', ''ho'', ''ia'', ''ic'', ''id'', ''ie'', ''if'', ''ig'',
     ''il'', ''im'', ''in'', ''io'', ''is'', ''it'', ''iv'', ''jo'', ''ki'', ''la'', ''le'', ''li'', ''lo'', ''ma'',
     ''me'', ''mi'', ''mo'', ''mu'', ''na'', ''nd'', ''ne'', ''ng'', ''ni'', ''no'', ''ns'', ''nt'', ''nu'', ''oa'',
     ''ob'', ''oc'', ''od'', ''oe'', ''of'', ''og'', ''oi'', ''ol'', ''om'', ''on'', ''oo'', ''op'', ''or'', ''os'',
     ''ot'', ''ou'', ''ov'', ''ow'', ''pa'', ''pe'', ''ph'', ''pi'', ''pl'', ''po'', ''pr'', ''qu'', ''ra'', ''re'',
     ''ri'', ''ro'', ''rs'', ''rt'', ''ru'', ''ry'', ''sa'', ''se'', ''sh'', ''si'', ''so'', ''sp'', ''ss'', ''st'',
     ''su'', ''ta'', ''te'', ''th'', ''ti'', ''to'', ''tr'', ''tu'', ''ua'', ''ub'', ''uc'', ''ul'', ''um'', ''un'',
     ''up'', ''ur'', ''us'', ''ut'', ''va'', ''ve'', ''vi'', ''vo'', ''wa'', ''we'', ''wh'', ''wi'', ''wo'', ''ya'',
     ''yo'', ''za'', ''ck'', ''eb'', ''ft'', ''fy'', ''ke'', ''ky'', ''ny'', ''ok'', ''rk'', ''zy'']"

definition bigram_sequence :: "string \<Rightarrow> string" where
  "bigram_sequence label =
     filter (\<lambda>c. CHR ''a'' \<le> c \<and> c \<le> CHR ''z'' \<or> CHR ''0'' \<le> c \<and> c \<le> CHR ''9'') (to_lower label)"

fun common_pairs :: "string \<Rightarrow> nat" where
  "common_pairs (a # b # s) = (if [a, b] \<in> set englishBigrams then 1 else 0) + common_pairs (b # s)"
| "common_pairs s = 0"

definition englishBigramRatio :: "string \<Rightarrow> rat" where
  "englishBigramRatio label =
     (let sq = bigram_sequence label in
      if length sq < 2 then 1 else of_nat (common_pairs sq) / of_nat (length sq - 1))"

definition dgaIrregularBigramRatio :: rat where
  "dgaIrregularBigramRatio = 35 / 100"

definition dgaSoftEntropyFactor :: rat where
  "dgaSoftEntropyFactor = 85 / 100"

definition isDGASuspected :: "lexlibs \<Rightarrow> string \<Rightarrow> rat \<Rightarrow> bool" where
  "isDGASuspected L mainLabel entropyThreshold =
     (let entropy = ShannonEntropy L mainLabel; ratio = englishBigramRatio mainLabel in
      if length mainLabel < 10 then False
      else if entropy > entropyThreshold then ratio < dgaIrregularBigramRatio
      else if entropy > entropyThreshold * dgaSoftEntropyFactor then ratio < dgaIrregularBigramRatio / 2
      else False)"

section \<open>The score of a normalised domain\<close>

definition protectedPublicServiceReason :: string where
  "protectedPublicServiceReason = ''protected Vietnamese public-service keyword abuse (dichvucong)''"

definition highEntropyDGAReason :: string where
  "highEntropyDGAReason = ''high_entropy_dga_suspected''"

type_synonym scored = "int \<times> string list"

definition add_when :: "bool \<Rightarrow> int \<Rightarrow> string \<Rightarrow> scored \<Rightarrow> scored" where
  "add_when b n reason acc = (if b then (fst acc + n, snd acc @ [reason]) else acc)"

definition score_shape :: "lexlibs \<Rightarrow> analysis_config \<Rightarrow> string \<Rightarrow> scored \<Rightarrow> scored" where
  "score_shape L c domain acc =
     (let acc = add_when (has_prefix domain ''xn--'' \<or> contains domain ''.xn--'') (PunycodeScore c) ''punycode detected'' acc;
          acc = add_when (int (length domain) > LongDomainLength c) (LongDomainScore c) ''domain is long'' acc;
          acc = add_when (int (count_byte domain (CHR ''-'')) \<ge> HyphenCountThreshold c) (HyphenScore c) ''many hyphens'' acc;
          acc = add_when (digitRatio L domain > DigitRatioThreshold c) (DigitRatioScore c) ''high digit ratio'' acc
      in add_when (mixedScripts L domain) (MixedScriptScore c) ''mixed script characters'' acc)"

definition has_keyword :: "analysis_config \<Rightarrow> string \<Rightarrow> bool" where
  "has_keyword c domain \<longleftrightarrow> snd (suspiciousKeywordStats c domain) > 0"

definition score_keywords :: "analysis_config \<Rightarrow> string \<Rightarrow> scored \<Rightarrow> scored" where
  "score_keywords c domain acc =
     (let (keywordCount, keywordScore) = suspiciousKeywordStats c domain in
      if keywordScore > 0
      then (fst acc + keywordScore,
            snd acc @ ''phishing keyword pattern'' # (if keywordCount \<ge> 2 then [''multiple phishing keywords''] else []))
      else acc)"

definition score_public_service :: "string \<Rightarrow> scored \<Rightarrow> scored" where
  "score_public_service domain acc =
     (if isProtectedVietnamPublicServiceAbuse domain
      then (if fst acc < 75 then 75 else fst acc, snd acc @ [protectedPublicServiceReason]) else acc)"

definition score_brand :: "lexlibs \<Rightarrow> analysis_config \<Rightarrow> brand list \<Rightarrow> string \<Rightarrow> scored \<Rightarrow> scored" where
  "score_brand L c brands domain acc =
     (case CheckBrandSpoofingWithBrands L domain (BrandSpoofingScore c) brands of
        None \<Rightarrow> acc | Some (reason, penalty) \<Rightarrow> (fst acc + penalty, snd acc @ [reason]))"

definition dga_candidate :: "analysis_config \<Rightarrow> brand list \<Rightarrow> string \<Rightarrow> bool" where
  "dga_candidate c brands domain \<longleftrightarrow>
     length (getMainLabel domain) \<ge> 10 \<and> \<not> contains (getMainLabel domain) ''-'' \<and>
     \<not> has_keyword c domain \<and> \<not> IsSharedHostingRoot (getRootDomain domain) \<and>
     \<not> IsTrustedBrandSuffix domain brands"

definition score_dga :: "lexlibs \<Rightarrow> analysis_config \<Rightarrow> brand list \<Rightarrow> string \<Rightarrow> scored \<Rightarrow> scored" where
  "score_dga L c brands domain acc =
     add_when (dga_candidate c brands domain \<and> isDGASuspected L (getMainLabel domain) (EntropyThreshold c))
       (EntropyScore c) highEntropyDGAReason acc"

definition lexical_heuristics :: "lexlibs \<Rightarrow> analysis_config \<Rightarrow> brand list \<Rightarrow> string \<Rightarrow> scored" where
  "lexical_heuristics L c brands domain =
     score_dga L c brands domain (score_brand L c brands domain (score_public_service domain
       (score_keywords c domain (score_shape L c domain (0, [])))))"

end
