(* ===== verification/LexicalProps.thy ===== *)
theory LexicalProps
  imports Pipeline LexicalScore
begin

text \<open>
  The lexical analyzer as a whole, and its properties: the capped distances decide the thresholds the
  full ones would, the brand store keeps its identifiers and its listing, a score stays within its
  bounds under a validated configuration, and fuzzy matches under shared infrastructure stay advisory.
\<close>

section \<open>The analyzer\<close>

text \<open>\<open>Analyzer_Analyze\<close> with the outcome of \<^verbatim>\<open>ListBrands\<close>, \<^const>\<open>None\<close> when it failed, and \<open>Analyzer_AnalyzeLocal\<close>.\<close>

definition Analyzer_Analyze :: "libs \<Rightarrow> lexlibs \<Rightarrow> analysis_config \<Rightarrow> stored_brand list option \<Rightarrow> string \<Rightarrow> result" where
  "Analyzer_Analyze libs L c brands input =
     analyzeWithBrands libs (lexical_heuristics L c (trustedBrands brands)) input"

definition Analyzer_AnalyzeLocal :: "libs \<Rightarrow> lexlibs \<Rightarrow> analysis_config \<Rightarrow> string \<Rightarrow> result" where
  "Analyzer_AnalyzeLocal libs L c input = analyzeWithBrands libs (lexical_heuristics L c localBrandSeed) input"

text \<open>The lexical step of the pipeline, with the analyzer as its heuristics.\<close>

lemma analyzeLexical_analyzer:
  "en_heuristics E = lexical_heuristics L c (trustedBrands brands) \<Longrightarrow>
     analyzeLexical E domain = Analyzer_Analyze (en_libs E) L c brands domain"
  by (simp add: analyzeLexical_def Analyzer_Analyze_def)

section \<open>Example inputs\<close>

definition ascii_lexlibs :: lexlibs where
  "ascii_lexlibs =
     \<lparr>idna_to_unicode = (\<lambda>s. Some s), unicode_lower = (\<lambda>r. r), unicode_digit = (\<lambda>_. False),
      math_log2 = (\<lambda>_. 0), tr39_pairs = [1072, 97]\<rparr>"

definition paypal_only :: "brand list" where
  "paypal_only = [seed_brand ''paypal'' ''paypal.com'' [''paypal.me'']]"

definition plain_libs :: libs where
  "plain_libs = \<lparr>url_hostname = (\<lambda>_. None), idna_to_ascii = (\<lambda>s. Some s), etld_plus_one = (\<lambda>_. None)\<rparr>"

section \<open>Penalties\<close>

lemma first_label_Some:
  "first_label f i ls = Some r \<Longrightarrow> \<exists>j label. label \<in> set ls \<and> f j label = Some r"
  by (induction f i ls rule: first_label.induct) (auto split: option.splits)

lemma check_brands_Some:
  "check_brands L score site bs = Some r \<Longrightarrow> \<exists>b\<in>set bs. check_brand L score site b = Some r"
  by (induction L score site bs rule: check_brands.induct) (auto split: option.splits)

text \<open>The three rules of \<^verbatim>\<open>CheckBrandSpoofingWithBrands\<close>, for one of the brands and one of the labels.\<close>

lemma check_brandE:
  assumes "check_brand L score site b = Some r"
  obtains (typosquat) i label where "label \<in> set (spLabels site)"
      "typosquat_label L score site (bName (normalizeBrandRecord b)) i label = Some r"
  | (keyword) "brand_keyword score site (bName (normalizeBrandRecord b)) = Some r"
  | (subdomain) i label where "label \<in> set (spLabels site)"
      "subdomain_label score site (bName (normalizeBrandRecord b)) i label = Some r"
  using assms first_label_Some[of _ 0 "spLabels site" r]
  by (simp add: check_brand_def Let_def split: if_splits option.splits) blast+

lemma spoof_penalty:
  assumes "check_brand L score site b = Some (reason, penalty)"
  shows "\<exists>p \<in> {score, score - 10, cdnInfraAdvisoryPenalty}. penalty = tld_penalty site p"
  using assms
proof (cases rule: check_brandE)
  case (typosquat i label)
  then show ?thesis by (auto simp: typosquat_label_def Let_def split: if_splits)
next
  case keyword
  then show ?thesis by (simp add: brand_keyword_def split: if_splits)
next
  case (subdomain i label)
  then show ?thesis by (auto simp: subdomain_label_def Let_def split: if_splits)
qed

lemma CheckBrandSpoofingE:
  assumes "CheckBrandSpoofingWithBrands L domain score brands = Some r"
  obtains b where "check_brand L score (spoof_site_of L (to_lower (trim_space domain))) b = Some r"
  using assms check_brands_Some
  unfolding CheckBrandSpoofingWithBrands_def Let_def by (metis option.distinct(1))

lemma penalty_lower_bound:
  assumes "CheckBrandSpoofingWithBrands L domain score brands = Some (reason, penalty)"
  shows "min (score - 10) cdnInfraAdvisoryPenalty \<le> penalty"
proof -
  from assms obtain b where "check_brand L score (spoof_site_of L (to_lower (trim_space domain))) b = Some (reason, penalty)"
    by (rule CheckBrandSpoofingE)
  from spoof_penalty[OF this] show ?thesis by (auto simp: tld_penalty_def)
qed

section \<open>Scores\<close>

lemma Validate_ranges:
  assumes "Validate c = None"
  shows "0 \<le> PunycodeScore c" "0 \<le> LongDomainScore c" "0 \<le> HyphenScore c" "0 \<le> DigitRatioScore c"
    "0 \<le> MixedScriptScore c" "0 \<le> KeywordBaseScore c" "0 \<le> KeywordMatchScore c"
    "0 \<le> KeywordMultipleBonus c" "0 \<le> BrandSpoofingScore c" "0 \<le> EntropyScore c"
proof -
  have "find (\<lambda>(name, v, lo, hi). v < lo \<or> v > hi) (config_ranges c) = None"
    using assms by (simp add: Validate_def split: option.splits prod.splits)
  then have "\<forall>(name, v, lo, hi)\<in>set (config_ranges c). lo \<le> v"
    by (force simp: find_None_iff)
  then show "0 \<le> PunycodeScore c" "0 \<le> LongDomainScore c" "0 \<le> HyphenScore c" "0 \<le> DigitRatioScore c"
    "0 \<le> MixedScriptScore c" "0 \<le> KeywordBaseScore c" "0 \<le> KeywordMatchScore c"
    "0 \<le> KeywordMultipleBonus c" "0 \<le> BrandSpoofingScore c" "0 \<le> EntropyScore c"
    by (simp_all add: config_ranges_def)
qed

lemma add_when_mono: "0 \<le> n \<Longrightarrow> fst acc \<le> fst (add_when b n reason acc)"
  by (simp add: add_when_def)

lemma score_shape_mono: "Validate c = None \<Longrightarrow> fst acc \<le> fst (score_shape L c domain acc)"
  unfolding score_shape_def Let_def
  by (intro order.trans[OF _ add_when_mono] order.refl) (simp_all add: Validate_ranges)

lemma score_keywords_mono: "fst acc \<le> fst (score_keywords c domain acc)"
  by (simp add: score_keywords_def case_prod_unfold Let_def)

lemma score_public_service_mono: "fst acc \<le> fst (score_public_service domain acc)"
  by (simp add: score_public_service_def)

lemma score_brand_bound:
  "fst acc + min 0 (BrandSpoofingScore c - 10) \<le> fst (score_brand L c brands domain acc)"
  using penalty_lower_bound[of L domain "BrandSpoofingScore c" brands]
  by (auto simp: score_brand_def cdnInfraAdvisoryPenalty_def split: option.splits)

lemma lexical_heuristics_bound:
  assumes "Validate c = None"
  shows "min 0 (BrandSpoofingScore c - 10) \<le> fst (lexical_heuristics L c brands domain)"
proof -
  let ?acc = "score_public_service domain (score_keywords c domain (score_shape L c domain (0, [])))"
  have "0 \<le> fst ?acc"
    using score_shape_mono[OF assms, of "(0, [])" L domain] score_keywords_mono score_public_service_mono
    by (metis fst_conv order.trans)
  moreover have "fst (score_brand L c brands domain ?acc) \<le> fst (lexical_heuristics L c brands domain)"
    unfolding lexical_heuristics_def score_dga_def by (rule add_when_mono) (rule Validate_ranges[OF assms])
  ultimately show ?thesis using score_brand_bound[of ?acc c L brands domain] by linarith
qed

lemma lexical_result_fields:
  "aScore (lexical_result d sr) = min 100 (fst sr)"
  "aConfidence (lexical_result d sr) = min 1 (45 / 100 + of_int (min 100 (fst sr)) / 120)"
  "aVerdict (lexical_result d sr) =
     (if 70 \<le> fst sr then VerdictMalicious else if 40 \<le> fst sr then VerdictSuspicious else VerdictSafe)"
  by (simp_all add: lexical_result_def case_prod_unfold Let_def min_def)



text \<open>
  The lower bound is met: validation accepts a brand penalty of zero, and then a brand name used as a
  subdomain label subtracts ten from the score.
\<close>

lemma brand_match_lowers_score:
  "Validate (DefaultAnalysisConfig\<lparr>BrandSpoofingScore := 0\<rparr>) = None \<and>
   lexical_heuristics ascii_lexlibs (DefaultAnalysisConfig\<lparr>BrandSpoofingScore := 0\<rparr>) paypal_only ''paypal.example.org'' =
     (-10, [''suspicious brand subdomain usage (paypal)''])"
  by code_simp

section \<open>Thresholds on distances\<close>

text \<open>
  C30: The capped distances decide the thresholds. On non-empty words each returns the exact edit
  distance up to the limit and the limit plus one above; so a distance is reported as within the
  limit exactly when the words differ and some script of deletions, insertions and replacements
  whose cost is at most the limit turns the runes of one into those of the other, where replacing a
  key by its neighbour costs one half in the weighted distance.
\<close>

theorem capped_distances_decide:
  assumes "s1 \<noteq> []" "s2 \<noteq> []"
  shows "LevenshteinDistanceCapped s1 s2 limit =
      (if LevenshteinDistance s1 s2 \<le> limit then LevenshteinDistance s1 s2 else limit + 1) \<and>
    WeightedLevenshteinDistanceCapped ul s1 s2 wlimit =
      (if WeightedLevenshteinDistance ul s1 s2 \<le> wlimit then WeightedLevenshteinDistance ul s1 s2 else wlimit + 1) \<and>
    (0 < LevenshteinDistanceCapped s1 s2 limit \<and> LevenshteinDistanceCapped s1 s2 limit \<le> limit \<longleftrightarrow>
       runes_of s1 \<noteq> runes_of s2 \<and> (\<exists>n\<le>limit. edits plain_incr (runes_of s1) (runes_of s2) n)) \<and>
    (0 < WeightedLevenshteinDistanceCapped ul s1 s2 wlimit \<and> WeightedLevenshteinDistanceCapped ul s1 s2 wlimit \<le> wlimit \<longleftrightarrow>
       runes_of s1 \<noteq> runes_of s2 \<and> (\<exists>n\<le>wlimit. edits (keyboard_incr ul) (runes_of s1) (runes_of s2) n))"
proof -
  have "runes_of s1 \<noteq> []" "runes_of s2 \<noteq> []" using assms by simp_all
  note r = plain.distance_capped_eq[OF this] plain.within_threshold_iff[OF this]
    keyboard.distance_capped_eq[OF this] keyboard.within_threshold_iff[OF this]
  show ?thesis
    unfolding LevenshteinDistance_def LevenshteinDistanceCapped_def WeightedLevenshteinDistance_def
      WeightedLevenshteinDistanceCapped_def by (intro conjI r)
qed

lemma capped_distances_decide_witness:
  "LevenshteinDistanceCapped ''paypa1'' ''paypal'' 2 = 1 \<and>
   LevenshteinDistanceCapped ''netflix'' ''paypal'' 2 = 3 \<and>
   (\<exists>n\<le>2. edits plain_incr (runes_of ''paypa1'') (runes_of ''paypal'') n)"
proof -
  have d: "LevenshteinDistance ''paypa1'' ''paypal'' = 1" "\<not> LevenshteinDistance ''netflix'' ''paypal'' \<le> 2"
    by (atomize (full)) code_simp
  note close = capped_distances_decide[of "''paypa1''" "''paypal''" 2 id 1, OF list.distinct(2) list.distinct(2)]
    and far = capped_distances_decide[of "''netflix''" "''paypal''" 2 id 1, OF list.distinct(2) list.distinct(2)]
  have near: "LevenshteinDistanceCapped ''paypa1'' ''paypal'' 2 = 1" using conjunct1[OF close] d(1) by simp
  moreover have "LevenshteinDistanceCapped ''netflix'' ''paypal'' 2 = 3" using conjunct1[OF far] d(2) by simp
  moreover have "\<exists>n\<le>2. edits plain_incr (runes_of ''paypa1'') (runes_of ''paypal'') n"
    using conjunct1[OF conjunct2[OF conjunct2[OF close]]] unfolding near by (simp del: runes_of.simps)
  ultimately show ?thesis by blast
qed

section \<open>The brand store\<close>

lemma GetBrand_eq_iff:
  "brand_store_ok st \<Longrightarrow> GetBrand st i = Inr e \<longleftrightarrow> e \<in> set (listed st) \<and> sbID e = i"
  by (rule memory.get_listing)

lemma GetBrand_error: "GetBrand st i = Inl err \<Longrightarrow> err = BrandNotFound"
  by (simp add: GetBrand_def split: option.splits)

lemma GetBrand_cong:
  assumes "brand_store_ok st" "brand_store_ok st'"
    and "\<And>e. e \<in> set (listed st) \<and> sbID e = i \<longleftrightarrow> e \<in> set (listed st') \<and> sbID e = i"
  shows "GetBrand st i = GetBrand st' i"
proof (cases "GetBrand st i"; cases "GetBrand st' i")
  fix e e' assume "GetBrand st i = Inl e" "GetBrand st' i = Inl e'"
  then show ?thesis using GetBrand_error by metis
qed (use assms GetBrand_eq_iff in \<open>metis sum.distinct(1)\<close>)+

lemma GetBrand_NotFound_iff:
  assumes "brand_store_ok st"
  shows "GetBrand st i = Inl BrandNotFound \<longleftrightarrow> (\<forall>e\<in>set (listed st). sbID e \<noteq> i)"
proof (cases "GetBrand st i")
  case (Inl err)
  then have "\<not> (e \<in> set (listed st) \<and> sbID e = i)" for e using GetBrand_eq_iff[OF assms, of i e] by simp
  then show ?thesis using Inl GetBrand_error[OF Inl] by blast
next
  case (Inr e)
  then show ?thesis using GetBrand_eq_iff[OF assms, of i e] by auto
qed

lemma listed_publish [simp]: "listed (publishLocked st) = map clone_stored (bsItems st)"
  by (simp add: listed_def ListBrands_def publishLocked_def cloneBrands_def)

lemma listed_ok: "brand_store_ok st \<Longrightarrow> listed st = map clone_stored (bsItems st)"
  by (simp add: listed_def ListBrands_def brand_store_ok_def cloneBrands_def)

lemma GetBrand_after_create:
  assumes "brand_store_ok st" "CreateBrand now (Some st) b = (Some st', Inr e)"
  shows "GetBrand st (sbID e) = Inl BrandNotFound \<and> GetBrand st' (sbID e) = Inr e \<and>
    (\<forall>i. i \<noteq> sbID e \<longrightarrow> GetBrand st' i = GetBrand st i)"
proof -
  define new where "new = \<lparr>sbID = bsNextID st, sbBrand = owned_brand b, sbCreatedAt = now, sbUpdatedAt = now\<rparr>"
  have st': "st' = publishLocked (st\<lparr>bsNextID := bsNextID st + 1, bsItems := bsItems st @ [new]\<rparr>)"
    and e: "e = clone_stored new"
    using assms(2) by (auto simp: CreateBrand_def Let_def new_def)
  have ok': "brand_store_ok st'" using assms by (rule CreateBrand_ok)
  have eid: "sbID e = bsNextID st" by (simp add: e new_def)
  have mem: "x \<in> set (listed st') \<longleftrightarrow> x = e \<or> x \<in> set (listed st)" for x
    by (auto simp: st' e listed_ok[OF assms(1)])
  have fresh: "sbID x \<noteq> sbID e" if "x \<in> set (listed st)" for x
    using that assms(1) by (auto simp: eid listed_ok[OF assms(1)] brand_store_ok_def)
  have "GetBrand st (sbID e) = Inl BrandNotFound"
    by (simp add: GetBrand_NotFound_iff[OF assms(1)] fresh)
  moreover have "GetBrand st' (sbID e) = Inr e" by (simp add: GetBrand_eq_iff[OF ok'] mem)
  moreover have "GetBrand st' i = GetBrand st i" if "i \<noteq> sbID e" for i
    using that by (intro GetBrand_cong[OF ok' assms(1)]) (auto simp: mem)
  ultimately show ?thesis by blast
qed

lemma GetBrand_after_delete:
  assumes "brand_store_ok st" "DeleteBrand (Some st) i = (Some st', None)"
  shows "GetBrand st' i = Inl BrandNotFound \<and> (\<forall>j. j \<noteq> i \<longrightarrow> GetBrand st' j = GetBrand st j)"
proof -
  obtain es where es: "delete_first i (bsItems st) = Some es" and st': "st' = publishLocked (st\<lparr>bsItems := es\<rparr>)"
    using assms(2) by (auto simp: DeleteBrand_def split: option.splits)
  have ok': "brand_store_ok st'" using assms by (rule DeleteBrand_ok)
  have kept: "set es = {e \<in> set (bsItems st). sbID e \<noteq> i}"
    using delete_first_mem[OF es] assms(1) by (simp add: brand_store_ok_def)
  have "set (listed st') = clone_stored ` set es" "set (listed st) = clone_stored ` set (bsItems st)"
    using listed_ok[OF assms(1)] by (simp_all add: st')
  then have mem: "x \<in> set (listed st') \<longleftrightarrow> x \<in> set (listed st) \<and> sbID x \<noteq> i" for x
    unfolding kept by auto
  have "GetBrand st' i = Inl BrandNotFound"
    by (simp add: GetBrand_NotFound_iff[OF ok'] mem)
  moreover have "GetBrand st' j = GetBrand st j" if "j \<noteq> i" for j
    using that by (intro GetBrand_cong[OF ok' assms(1)]) (auto simp: mem)
  ultimately show ?thesis by blast
qed

text \<open>
  C36: The brand store. After any sequence of creations, updates and deletions on a store filled with
  unsaved brands, identifiers are distinct and the published listing holds exactly the brands that a
  lookup by identifier returns. A creation gets an identifier not in use, is found under it, and
  leaves every other identifier as it was; a deletion removes its identifier only. Every brand with a
  name is on the list the analyzer detects with, or another managed brand of the same name is.
\<close>

theorem brand_store_contract:
  assumes "brand_reach st"
  shows "distinct (map sbID (ListBrands (Some st))) \<and>
    (\<forall>i e. GetBrand st i = Inr e \<longleftrightarrow> e \<in> set (ListBrands (Some st)) \<and> sbID e = i) \<and>
    (\<forall>now b st' e. CreateBrand now (Some st) b = (Some st', Inr e) \<longrightarrow>
       GetBrand st (sbID e) = Inl BrandNotFound \<and> GetBrand st' (sbID e) = Inr e \<and>
       (\<forall>i. i \<noteq> sbID e \<longrightarrow> GetBrand st' i = GetBrand st i)) \<and>
    (\<forall>i st'. DeleteBrand (Some st) i = (Some st', None) \<longrightarrow>
       GetBrand st' i = Inl BrandNotFound \<and> (\<forall>j. j \<noteq> i \<longrightarrow> GetBrand st' j = GetBrand st j)) \<and>
    (\<forall>i e. GetBrand st i = Inr e \<and> to_lower (trim_space (bName (sbBrand e))) \<noteq> [] \<longrightarrow>
       (\<exists>b. brand_named (to_lower (trim_space (bName (sbBrand e)))) (trustedBrands (Some (ListBrands (Some st)))) = Some b \<and>
            b \<in> normalizeBrandRecord ` sbBrand ` set (ListBrands (Some st))))"
proof -
  have ok: "brand_store_ok st" using assms by (rule brand_reach_ok)
  note l = listed_def[of st, symmetric]
  show ?thesis unfolding l
    by (rule conjI, rule memory.listing_ids[OF ok], rule conjI, intro allI, rule memory.get_listing[OF ok],
        rule conjI, intro allI impI, erule GetBrand_after_create[OF ok],
        rule conjI, intro allI impI, erule GetBrand_after_delete[OF ok],
        intro allI impI, elim conjE, erule memory.managed_name_detected[OF ok _ refl], assumption)
qed

lemma brand_store_contract_witness:
  "\<exists>st e. brand_reach st \<and> GetBrand st 1 = Inr e \<and> e \<in> set (ListBrands (Some st)) \<and> sbID e = 1"
proof -
  let ?st = "NewMemoryBrandStore (map unsaved paypal_only)"
  have reach: "brand_reach ?st" by (rule reach_new)
  have "isl (GetBrand ?st 1) = False" by code_simp
  then obtain e where "GetBrand ?st 1 = Inr e" by (cases "GetBrand ?st 1") auto
  then show ?thesis using reach brand_store_contract[OF reach] by blast
qed

section \<open>Shared infrastructure\<close>

lemma cdn_typosquat_label:
  assumes "spCdn site" "typosquat_label L score site name i label = Some (reason, penalty)"
  shows "penalty \<le> 30 \<or> reason = ''homoglyph visual spoofing of '' @ name @ '' brand ('' @ label @ '')''"
  using assms
  by (auto simp: typosquat_label_def Let_def tld_penalty_def cdnInfraAdvisoryPenalty_def split: if_splits)

lemma skeleton_label_mem:
  "label \<in> set (spLabels site) \<Longrightarrow> skeleton_label site i label \<in> set (spLabels site) \<union> set (spSkeletonLabels site)"
  by (simp add: skeleton_label_def)

lemma cdn_subdomain_label:
  assumes "spCdn site" "subdomain_label score site name i label = Some (reason, penalty)"
    and "label \<in> set (spLabels site)"
  shows "penalty \<le> 30 \<or>
    (\<exists>l \<in> set (spLabels site) \<union> set (spSkeletonLabels site). classifyBrandLabel l name = brandLabelHyphenPart)"
proof -
  let ?sk = "skeleton_label site i label"
  have "penalty \<le> 30 \<or> max (classifyBrandLabel label name) (classifyBrandLabel ?sk name) = brandLabelHyphenPart"
    using assms(1,2)
    by (auto simp: subdomain_label_def Let_def tld_penalty_def cdnInfraAdvisoryPenalty_def split: if_splits)
  then show ?thesis using skeleton_label_mem[OF assms(3), of i] assms(3) unfolding max_def by (metis UnI1)
qed

text \<open>
  C20: Fuzzy brand similarity under shared infrastructure is advisory. Whatever brands are configured,
  a match on a host under a delegated CDN root adds at most 30 to the score, short of the threshold
  for a suspicious verdict, unless it is a label that looks exactly like a brand, a brand name in the
  main label of the root itself, or a label with the brand as one of its hyphenated parts.
\<close>

theorem cdn_similarity_advisory:
  assumes "CheckBrandSpoofingWithBrands L domain score brands = Some (reason, penalty)"
    and "IsCDNRoot (getRootDomain (to_lower (trim_space domain)))"
  shows "penalty \<le> 30 \<or>
    (\<exists>name label. reason = ''homoglyph visual spoofing of '' @ name @ '' brand ('' @ label @ '')'') \<or>
    (\<exists>name. reason = ''suspicious usage of trusted brand keyword ('' @ name @ '')'') \<or>
    (\<exists>name. reason = ''suspicious brand subdomain usage ('' @ name @ '')'' \<and>
       (\<exists>l \<in> set (spLabels (spoof_site_of L (to_lower (trim_space domain)))) \<union>
             set (spSkeletonLabels (spoof_site_of L (to_lower (trim_space domain)))).
          classifyBrandLabel l name = brandLabelHyphenPart))"
proof -
  let ?site = "spoof_site_of L (to_lower (trim_space domain))"
  have cdn: "spCdn ?site" using assms(2) by (simp add: spoof_site_of_def Let_def)
  from assms(1) obtain b where "check_brand L score ?site b = Some (reason, penalty)"
    by (rule CheckBrandSpoofingE)
  then show ?thesis
  proof (cases rule: check_brandE)
    case (typosquat i label)
    from cdn_typosquat_label[OF cdn this(2)] show ?thesis by blast
  next
    case keyword
    then show ?thesis by (auto simp: brand_keyword_def split: if_splits)
  next
    case (subdomain i label)
    then have "reason = ''suspicious brand subdomain usage ('' @ bName (normalizeBrandRecord b) @ '')''"
      by (simp add: subdomain_label_def Let_def split: if_splits)
    then show ?thesis using cdn_subdomain_label[OF cdn subdomain(2,1)] by blast
  qed
qed

lemma cdn_similarity_advisory_witness:
  "\<exists>reason penalty. CheckBrandSpoofingWithBrands ascii_lexlibs ''paypal.map.fastly.net'' 50 paypal_only = Some (reason, penalty) \<and>
     penalty \<le> 30"
proof -
  let ?r = "CheckBrandSpoofingWithBrands ascii_lexlibs ''paypal.map.fastly.net'' 50 paypal_only"
  have r: "?r = Some (''suspicious brand subdomain usage (paypal)'', 10)" by code_simp
  have "IsCDNRoot (getRootDomain (to_lower (trim_space ''paypal.map.fastly.net'')))" by code_simp
  from cdn_similarity_advisory[OF r this] show ?thesis
    by - (rule exI, rule exI, rule conjI, rule r, simp)
qed

end
