(* ===== verification/ConfigReload.thy ===== *)
theory ConfigReload
  imports LexicalScore Whitelist GroupStore EnvConfig
begin

text \<open>
  Configuration reload, \<^verbatim>\<open>internal/risk/config_reload.go\<close> with \<^verbatim>\<open>GetAnalysisConfig\<close> and
  \<^verbatim>\<open>SetAnalysisConfig\<close> of \<^verbatim>\<open>internal/store/sqlite.go\<close>. Two processes share one store: each holds a
  copy of the analysis configuration, of the allow list and of the CIDR index (\<open>reload_node\<close>), and
  brings it up to date when an event arrives on the reload channel or its reconciler ticks. The
  record \<open>config_codec\<close> holds the JSON encoding of a configuration and of an event, and SHA-256. A
  statement of the store fails where its argument says so; the nodes run with a store and an allow
  list configured. Log lines are left out.
\<close>

section \<open>The durable configuration\<close>

record config_codec =
  cc_encode :: "analysis_config \<Rightarrow> string"
  cc_decode :: "string \<Rightarrow> analysis_config option"
  cc_sha256 :: "string \<Rightarrow> string"

record config_store =
  cs_enabled :: bool
  cs_row :: "string option"

datatype cs_stage = ReadSystemConfig | WriteSystemConfig

datatype cs_error = ConfigStoreDisabled | ConfigSql cs_stage | ConfigDecode | ConfigInvalid config_error

definition GetSystemConfig :: "(cs_stage \<Rightarrow> bool) \<Rightarrow> config_store \<Rightarrow> cs_error + string" where
  "GetSystemConfig fault d =
     (if \<not> cs_enabled d then Inl ConfigStoreDisabled
      else if fault ReadSystemConfig then Inl (ConfigSql ReadSystemConfig)
      else case cs_row d of None \<Rightarrow> Inr [] | Some v \<Rightarrow> Inr v)"

definition SetSystemConfig :: "(cs_stage \<Rightarrow> bool) \<Rightarrow> config_store \<Rightarrow> string \<Rightarrow> cs_error option \<times> config_store" where
  "SetSystemConfig fault d v =
     (if \<not> cs_enabled d then (Some ConfigStoreDisabled, d)
      else if fault WriteSystemConfig then (Some (ConfigSql WriteSystemConfig), d)
      else (None, d\<lparr>cs_row := Some v\<rparr>))"

definition GetAnalysisConfig_db ::
  "config_codec \<Rightarrow> (cs_stage \<Rightarrow> bool) \<Rightarrow> config_store \<Rightarrow> cs_error + analysis_config option" where
  "GetAnalysisConfig_db J fault d =
     (case GetSystemConfig fault d of
        Inl e \<Rightarrow> Inl e
      | Inr v \<Rightarrow>
          if v = [] then Inr None
          else case cc_decode J v of
                 None \<Rightarrow> Inl ConfigDecode
               | Some cfg \<Rightarrow> (case Validate cfg of Some e \<Rightarrow> Inl (ConfigInvalid e) | None \<Rightarrow> Inr (Some cfg)))"

definition SetAnalysisConfig_db ::
  "config_codec \<Rightarrow> (cs_stage \<Rightarrow> bool) \<Rightarrow> config_store \<Rightarrow> analysis_config \<Rightarrow> cs_error option \<times> config_store" where
  "SetAnalysisConfig_db J fault d cfg =
     (case Validate cfg of
        Some e \<Rightarrow> (Some (ConfigInvalid e), d)
      | None \<Rightarrow> SetSystemConfig fault d (cc_encode J cfg))"

section \<open>One process\<close>

record reload_node =
  rn_on :: bool
  rn_chan :: string
  rn_poll :: int
  rn_role :: string
  rn_redis :: bool
  rn_subscribe :: bool
  rn_config :: analysis_config
  rn_revision :: string
  rn_source :: string
  rn_time :: int
  rn_whitelist :: whitelist
  rn_cidr :: cidr_index

definition configReloadSourceStartup :: string where
  "configReloadSourceStartup = ''startup''"

definition configReloadSourceLocalWrite :: string where
  "configReloadSourceLocalWrite = ''local_write''"

definition configReloadSourcePubSub :: string where
  "configReloadSourcePubSub = ''pubsub''"

definition configReloadSourceReconcile :: string where
  "configReloadSourceReconcile = ''reconcile''"

definition defaultAnalysisConfigReloadChannel :: string where
  "defaultAnalysisConfigReloadChannel = ''safe-zone:config:analysis:updated''"

definition defaultAnalysisConfigReloadPollInterval :: int where
  "defaultAnalysisConfigReloadPollInterval = 30000000000"

definition configDuration :: "int \<Rightarrow> int \<Rightarrow> int" where
  "configDuration v fallback = (if v \<le> 0 then fallback else v)"

definition shouldRunConfigReloadSubscriber :: "config_store \<Rightarrow> reload_node \<Rightarrow> bool" where
  "shouldRunConfigReloadSubscriber d n =
     (if \<not> rn_on n \<or> rn_chan n = [] \<or> \<not> rn_subscribe n then False
      else if \<not> rn_redis n then False
      else if \<not> cs_enabled d then False else True)"

definition shouldRunConfigReloadReconciler :: "config_store \<Rightarrow> reload_node \<Rightarrow> bool" where
  "shouldRunConfigReloadReconciler d n =
     (if \<not> rn_on n then False
      else if \<not> cs_enabled d then False
      else configDuration (rn_poll n) defaultAnalysisConfigReloadPollInterval > 0)"

text \<open>The first eight bytes of the digest of the encoded configuration, in hexadecimal.\<close>

definition analysisConfigRevision :: "config_codec \<Rightarrow> analysis_config \<Rightarrow> string" where
  "analysisConfigRevision J cfg =
     concat (map (\<lambda>c. [hex_digit (byte c div 16), hex_digit (byte c mod 16)])
       (take 8 (cc_sha256 J (cc_encode J cfg))))"

definition applyAnalysisConfigLocked :: "config_codec \<Rightarrow> analysis_config \<Rightarrow> reload_node \<Rightarrow> reload_node" where
  "applyAnalysisConfigLocked J cfg n = n\<lparr>rn_config := cfg, rn_revision := analysisConfigRevision J cfg\<rparr>"

definition applyAnalysisConfig :: "config_codec \<Rightarrow> int \<Rightarrow> analysis_config \<Rightarrow> string \<Rightarrow> reload_node \<Rightarrow> reload_node" where
  "applyAnalysisConfig J now cfg source n =
     (applyAnalysisConfigLocked J cfg n)\<lparr>rn_source := source, rn_time := now\<rparr>"

text \<open>The second half of \<^verbatim>\<open>reloadAnalysisConfigFromStore\<close>, after the read.\<close>

definition reload_apply :: "config_codec \<Rightarrow> int \<Rightarrow> string \<Rightarrow> analysis_config \<Rightarrow> reload_node \<Rightarrow> (string \<times> string \<times> bool) \<times> reload_node" where
  "reload_apply J now source cfg n =
     (let nextRevision = analysisConfigRevision J cfg; currentRevision = rn_revision n in
      if nextRevision = currentRevision then ((currentRevision, nextRevision, False), n)
      else let n' = applyAnalysisConfig J now cfg source n in ((currentRevision, rn_revision n', True), n'))"

definition reloadAnalysisConfigFromStore ::
  "config_codec \<Rightarrow> (cs_stage \<Rightarrow> bool) \<Rightarrow> int \<Rightarrow> config_store \<Rightarrow> string \<Rightarrow> reload_node \<Rightarrow>
   (cs_error + string \<times> string \<times> bool) \<times> reload_node" where
  "reloadAnalysisConfigFromStore J fault now d source n =
     (if \<not> cs_enabled d then (Inl ConfigStoreDisabled, n)
      else case GetAnalysisConfig_db J fault d of
        Inl e \<Rightarrow> (Inl e, n)
      | Inr None \<Rightarrow> (Inr (rn_revision n, rn_revision n, False), n)
      | Inr (Some cfg) \<Rightarrow> (let (r, n') = reload_apply J now source cfg n in (Inr r, n')))"

definition reloadClientMappingsFromStore ::
  "g_fault \<Rightarrow> group_tables \<Rightarrow> cidr_index \<Rightarrow> (g_error + int \<times> int \<times> bool) \<times> cidr_index" where
  "reloadClientMappingsFromStore fault T I =
     (if \<not> gt_enabled T then (Inl GDisabled, I)
      else case GetClientMappingsRevision fault T of
        Inl e \<Rightarrow> (Inl e, I)
      | Inr revision \<Rightarrow>
          if revision = cidrRevision I then (Inr (cidrRevision I, revision, False), I)
          else case ReconcileCIDRMappings fault T I of
            (Inl e, I') \<Rightarrow> (Inl e, I')
          | (Inr _, I') \<Rightarrow> (Inr (cidrRevision I, cidrRevision I', True), I'))"

section \<open>Events and ticks\<close>

record reload_event =
  reType :: string
  reRevision :: string
  reUpdatedAt :: string
  reSource :: string

definition analysisConfigReloadEventType :: string where
  "analysisConfigReloadEventType = ''analysis_config_updated''"

definition whitelistConfigReloadEventType :: string where
  "whitelistConfigReloadEventType = ''whitelist_updated''"

definition clientMappingsReloadEventType :: string where
  "clientMappingsReloadEventType = ''client_mappings_updated''"

text \<open>What the store shows to one event or tick: its three parts and where their statements fail.\<close>

record store_view =
  vw_config :: config_store
  vw_config_fault :: "cs_stage \<Rightarrow> bool"
  vw_whitelist :: wl_db
  vw_load :: load_env
  vw_tables :: group_tables
  vw_group_fault :: g_fault

definition handleAnalysisConfigReloadEvent ::
  "config_codec \<Rightarrow> int \<Rightarrow> store_view \<Rightarrow> reload_event \<Rightarrow> reload_node \<Rightarrow> reload_node" where
  "handleAnalysisConfigReloadEvent J now V ev n =
     (if reRevision ev = [] then n
      else if reRevision ev = rn_revision n then n
      else snd (reloadAnalysisConfigFromStore J (vw_config_fault V) now (vw_config V) configReloadSourcePubSub n))"

definition reload_whitelist :: "bloom_sizing \<Rightarrow> store_view \<Rightarrow> reload_node \<Rightarrow> reload_node" where
  "reload_whitelist F V n =
     n\<lparr>rn_whitelist := snd (reloadWhitelistFromStore F (vw_whitelist V) (vw_load V) (rn_whitelist n))\<rparr>"

definition handleWhitelistConfigReloadEvent ::
  "bloom_sizing \<Rightarrow> store_view \<Rightarrow> reload_event \<Rightarrow> reload_node \<Rightarrow> reload_node" where
  "handleWhitelistConfigReloadEvent F V ev n =
     (case Atoi (trim_space (reRevision ev)) of
        None \<Rightarrow> n
      | Some revision \<Rightarrow>
          if revision \<le> 0 then n
          else if revision = w_revision (rn_whitelist n) then n
          else reload_whitelist F V n)"

definition reload_mappings :: "store_view \<Rightarrow> reload_node \<Rightarrow> reload_node" where
  "reload_mappings V n =
     n\<lparr>rn_cidr := snd (reloadClientMappingsFromStore (vw_group_fault V) (vw_tables V) (rn_cidr n))\<rparr>"

definition handleClientMappingsReloadEvent :: "store_view \<Rightarrow> reload_event \<Rightarrow> reload_node \<Rightarrow> reload_node" where
  "handleClientMappingsReloadEvent V ev n =
     (case Atoi (trim_space (reRevision ev)) of
        None \<Rightarrow> n
      | Some revision \<Rightarrow>
          if revision \<le> 0 then n
          else if \<not> gt_enabled (vw_tables V) then n
          else if revision = cidrRevision (rn_cidr n) then n
          else reload_mappings V n)"

definition handleConfigReloadMessage ::
  "config_codec \<Rightarrow> (string \<Rightarrow> reload_event option) \<Rightarrow> bloom_sizing \<Rightarrow> int \<Rightarrow> store_view \<Rightarrow> string \<Rightarrow> reload_node \<Rightarrow> reload_node" where
  "handleConfigReloadMessage J decode F now V raw n =
     (case decode raw of
        None \<Rightarrow> n
      | Some ev \<Rightarrow>
          if reType ev = analysisConfigReloadEventType then handleAnalysisConfigReloadEvent J now V ev n
          else if reType ev = whitelistConfigReloadEventType then handleWhitelistConfigReloadEvent F V ev n
          else if reType ev = clientMappingsReloadEventType then handleClientMappingsReloadEvent V ev n
          else n)"

definition reconcileAnalysisConfig :: "config_codec \<Rightarrow> int \<Rightarrow> store_view \<Rightarrow> reload_node \<Rightarrow> reload_node" where
  "reconcileAnalysisConfig J now V n =
     snd (reloadAnalysisConfigFromStore J (vw_config_fault V) now (vw_config V) configReloadSourceReconcile n)"

definition reconciler_tick :: "config_codec \<Rightarrow> bloom_sizing \<Rightarrow> int \<Rightarrow> store_view \<Rightarrow> reload_node \<Rightarrow> reload_node" where
  "reconciler_tick J F now V n =
     reload_mappings V (reload_whitelist F V (reconcileAnalysisConfig J now V n))"

section \<open>Writes and publications\<close>

definition reload_channel :: "reload_node \<Rightarrow> string" where
  "reload_channel n = (if rn_chan n = [] then defaultAnalysisConfigReloadChannel else rn_chan n)"

definition event_source :: "reload_node \<Rightarrow> string" where
  "event_source n = (if rn_role n \<noteq> [] then rn_role n else configReloadSourceLocalWrite)"

definition reload_event_of :: "string \<Rightarrow> string \<Rightarrow> string \<Rightarrow> reload_node \<Rightarrow> reload_event" where
  "reload_event_of typ revision now n =
     \<lparr>reType = typ, reRevision = revision, reUpdatedAt = now, reSource = event_source n\<rparr>"

text \<open>A publication: the channel and the event, when the server accepted it. The server fails where \<open>redis_fails\<close> says so.\<close>

definition publishAnalysisConfigReloadEvent ::
  "bool \<Rightarrow> string \<Rightarrow> string \<Rightarrow> reload_node \<Rightarrow> (string \<times> reload_event) option" where
  "publishAnalysisConfigReloadEvent redis_fails now revision n =
     (if revision = [] \<or> \<not> rn_redis n \<or> redis_fails then None
      else Some (reload_channel n, reload_event_of analysisConfigReloadEventType revision now n))"

datatype publish_result = NotPublished | PublishFailed | Published string reload_event

definition publish_revision :: "string \<Rightarrow> bool \<Rightarrow> string \<Rightarrow> int \<Rightarrow> reload_node \<Rightarrow> publish_result" where
  "publish_revision typ redis_fails now revision n =
     (if revision \<le> 0 \<or> \<not> rn_redis n then NotPublished
      else if redis_fails then PublishFailed
      else Published (reload_channel n) (reload_event_of typ (dec_string (nat revision)) now n))"

definition PublishWhitelistReload :: "bool \<Rightarrow> string \<Rightarrow> int \<Rightarrow> reload_node \<Rightarrow> publish_result" where
  "PublishWhitelistReload = publish_revision whitelistConfigReloadEventType"

definition PublishClientMappingsReload :: "bool \<Rightarrow> string \<Rightarrow> int \<Rightarrow> reload_node \<Rightarrow> publish_result" where
  "PublishClientMappingsReload = publish_revision clientMappingsReloadEventType"

text \<open>The validation and the write of \<^verbatim>\<open>UpdateAnalysisConfig\<close>, before it applies the configuration.\<close>

definition write_config ::
  "config_codec \<Rightarrow> (cs_stage \<Rightarrow> bool) \<Rightarrow> config_store \<Rightarrow> analysis_config \<Rightarrow> cs_error option \<times> config_store" where
  "write_config J fault d cfg =
     (case Validate cfg of
        Some e \<Rightarrow> (Some (ConfigInvalid e), d)
      | None \<Rightarrow> if \<not> cs_enabled d then (Some ConfigStoreDisabled, d) else SetAnalysisConfig_db J fault d cfg)"

definition UpdateAnalysisConfig ::
  "config_codec \<Rightarrow> (cs_stage \<Rightarrow> bool) \<Rightarrow> bool \<Rightarrow> int \<Rightarrow> string \<Rightarrow> config_store \<Rightarrow> analysis_config \<Rightarrow> reload_node \<Rightarrow>
   cs_error option \<times> config_store \<times> reload_node \<times> (string \<times> reload_event) option" where
  "UpdateAnalysisConfig J fault redis_fails now stamp d cfg n =
     (case write_config J fault d cfg of
        (Some e, d') \<Rightarrow> (Some e, d', n, None)
      | (None, d') \<Rightarrow>
          let n' = applyAnalysisConfig J now cfg configReloadSourceLocalWrite n
          in (None, d', n', publishAnalysisConfigReloadEvent redis_fails stamp (rn_revision n') n'))"

definition ResetAnalysisConfig ::
  "config_codec \<Rightarrow> (cs_stage \<Rightarrow> bool) \<Rightarrow> bool \<Rightarrow> int \<Rightarrow> string \<Rightarrow> config_store \<Rightarrow> reload_node \<Rightarrow>
   (cs_error + analysis_config) \<times> config_store \<times> reload_node \<times> (string \<times> reload_event) option" where
  "ResetAnalysisConfig J fault redis_fails now stamp d n =
     (case UpdateAnalysisConfig J fault redis_fails now stamp d DefaultAnalysisConfig n of
        (Some e, rest) \<Rightarrow> (Inl e, rest) | (None, rest) \<Rightarrow> (Inr DefaultAnalysisConfig, rest))"

section \<open>The subscriber's backoff\<close>

definition analysisConfigReloadBackoffFloor :: int where
  "analysisConfigReloadBackoffFloor = 250000000"

definition analysisConfigReloadBackoffCap :: int where
  "analysisConfigReloadBackoffCap = 5000000000"

definition nextConfigReloadBackoff :: "int \<Rightarrow> int \<Rightarrow> int" where
  "nextConfigReloadBackoff current maxBackoff =
     (if current \<le> 0 then maxBackoff
      else let nxt = wrap64 (current * 2) in
        if nxt < current \<or> nxt > maxBackoff then maxBackoff else nxt)"

text \<open>How an attempt of \<^verbatim>\<open>runConfigReloadSubscriber\<close> ends: the subscription is refused, or it is accepted and later closed.\<close>

datatype subscription = SubscribeFailed | Disconnected

text \<open>The delays the loop waits, one per attempt, from the current backoff.\<close>

fun subscriber_delays :: "int \<Rightarrow> int \<Rightarrow> int \<Rightarrow> subscription list \<Rightarrow> int list" where
  "subscriber_delays lo maxBackoff backoff [] = []"
| "subscriber_delays lo maxBackoff backoff (SubscribeFailed # as) =
     backoff # subscriber_delays lo maxBackoff (nextConfigReloadBackoff backoff maxBackoff) as"
| "subscriber_delays lo maxBackoff backoff (Disconnected # as) =
     lo # subscriber_delays lo maxBackoff (nextConfigReloadBackoff lo maxBackoff) as"

definition runConfigReloadSubscriber :: "int \<Rightarrow> int \<Rightarrow> subscription list \<Rightarrow> int list" where
  "runConfigReloadSubscriber backoffMin backoffMax attempts =
     (let backoff = configDuration backoffMin analysisConfigReloadBackoffFloor;
          maxBackoff = configDuration backoffMax analysisConfigReloadBackoffCap;
          maxBackoff = (if maxBackoff < backoff then backoff else maxBackoff)
      in subscriber_delays backoff maxBackoff backoff attempts)"

end
