(* ===== verification/ConfigProps.thy ===== *)
theory ConfigProps
  imports ConfigReload
begin

text \<open>
  Properties of configuration reload: what an update leaves behind, and that processes settle on the
  stored configuration although reloads and writes interleave. A write and a reload are two steps
  each in the transition system below, one that touches the store and one that touches the process,
  because no lock spans them; a reload may start at any moment, which covers every order, loss and
  repetition of events and ticks.
\<close>

section \<open>The store\<close>

lemma write_config_readable:
  assumes "write_config J fault d cfg = (None, d')" "cc_decode J (cc_encode J cfg) = Some cfg" "cc_encode J cfg \<noteq> []"
  shows "Validate cfg = None \<and> GetAnalysisConfig_db J (\<lambda>_. False) d' = Inr (Some cfg)"
  using assms
  by (auto simp: write_config_def SetAnalysisConfig_db_def SetSystemConfig_def GetAnalysisConfig_db_def
      GetSystemConfig_def split: option.splits if_splits)

lemma write_config_error: "write_config J fault d cfg = (Some e, d') \<Longrightarrow> d' = d"
  by (auto simp: write_config_def SetAnalysisConfig_db_def SetSystemConfig_def split: option.splits if_splits)

lemma read_config_valid: "GetAnalysisConfig_db J fault d = Inr (Some cfg) \<Longrightarrow> Validate cfg = None"
  by (auto simp: GetAnalysisConfig_db_def split: sum.splits if_splits option.splits)

lemma read_config_fault:
  "GetAnalysisConfig_db J fault d = Inr r \<Longrightarrow> GetAnalysisConfig_db J (\<lambda>_. False) d = Inr r"
  by (auto simp: GetAnalysisConfig_db_def GetSystemConfig_def split: sum.splits if_splits option.splits)

lemma read_config_enabled: "GetAnalysisConfig_db J fault d = Inr r \<Longrightarrow> cs_enabled d"
  by (auto simp: GetAnalysisConfig_db_def GetSystemConfig_def split: sum.splits if_splits)

lemma applyAnalysisConfig_fields [simp]:
  "rn_config (applyAnalysisConfig J now cfg src n) = cfg"
  "rn_revision (applyAnalysisConfig J now cfg src n) = analysisConfigRevision J cfg"
  "rn_redis (applyAnalysisConfig J now cfg src n) = rn_redis n"
  by (simp_all add: applyAnalysisConfig_def applyAnalysisConfigLocked_def)

section \<open>The transition system\<close>

record cluster =
  cl_store :: config_store
  cl_node :: "nat \<Rightarrow> reload_node"
  cl_reads :: "(nat \<times> string \<times> analysis_config) list"
  cl_writes :: "(nat \<times> analysis_config) list"

text \<open>The steps that do not write the store: a read, and the second halves of a reload and of a write.\<close>

inductive quiet_step :: "config_codec \<Rightarrow> cluster \<Rightarrow> cluster \<Rightarrow> bool" for J where
  quiet_read: "GetAnalysisConfig_db J fault (cl_store s) = Inr (Some cfg) \<Longrightarrow>
    quiet_step J s (s\<lparr>cl_reads := (i, src, cfg) # cl_reads s\<rparr>)"
| quiet_reload: "(i, src, cfg) \<in> set (cl_reads s) \<Longrightarrow>
    quiet_step J s (s\<lparr>cl_node := (cl_node s)(i := snd (reload_apply J now src cfg (cl_node s i))),
                     cl_reads := remove1 (i, src, cfg) (cl_reads s)\<rparr>)"
| quiet_apply: "(i, cfg) \<in> set (cl_writes s) \<Longrightarrow>
    quiet_step J s (s\<lparr>cl_node := (cl_node s)(i :=
                       applyAnalysisConfig J now cfg configReloadSourceLocalWrite (cl_node s i)),
                     cl_writes := remove1 (i, cfg) (cl_writes s)\<rparr>)"

inductive cluster_reach :: "config_codec \<Rightarrow> cluster \<Rightarrow> bool" for J where
  reach_start: "(\<And>i. Validate (cfgs i) = None) \<Longrightarrow>
    cluster_reach J \<lparr>cl_store = d,
      cl_node = (\<lambda>i. applyAnalysisConfig J now (cfgs i) configReloadSourceStartup (nodes i)),
      cl_reads = [], cl_writes = []\<rparr>"
| reach_write: "cluster_reach J s \<Longrightarrow> write_config J fault (cl_store s) cfg = (None, d') \<Longrightarrow>
    cluster_reach J (s\<lparr>cl_store := d', cl_writes := (i, cfg) # cl_writes s\<rparr>)"
| reach_quiet: "cluster_reach J s \<Longrightarrow> quiet_step J s s' \<Longrightarrow> cluster_reach J s'"

definition cluster_ok :: "config_codec \<Rightarrow> cluster \<Rightarrow> bool" where
  "cluster_ok J s \<longleftrightarrow>
     (\<forall>i. Validate (rn_config (cl_node s i)) = None \<and>
          rn_revision (cl_node s i) = analysisConfigRevision J (rn_config (cl_node s i))) \<and>
     (\<forall>(i, src, cfg)\<in>set (cl_reads s). Validate cfg = None) \<and>
     (\<forall>(i, cfg)\<in>set (cl_writes s). Validate cfg = None)"

lemma reload_apply_node:
  "snd (reload_apply J now src cfg n) =
     (if analysisConfigRevision J cfg = rn_revision n then n else applyAnalysisConfig J now cfg src n)"
  by (simp add: reload_apply_def Let_def)

lemma quiet_step_ok: "quiet_step J s s' \<Longrightarrow> cluster_ok J s \<Longrightarrow> cluster_ok J s'"
proof (induction rule: quiet_step.induct)
  case (quiet_read fault s cfg i src)
  then show ?case using read_config_valid[OF quiet_read(1)] by (auto simp: cluster_ok_def)
next
  case (quiet_reload i src cfg s now)
  then have "Validate cfg = None" by (auto simp: cluster_ok_def)
  then show ?case using quiet_reload by (force simp: cluster_ok_def reload_apply_node dest: subsetD[OF set_remove1_subset])
next
  case (quiet_apply i cfg s now)
  then have "Validate cfg = None" by (auto simp: cluster_ok_def)
  then show ?case using quiet_apply by (force simp: cluster_ok_def dest: subsetD[OF set_remove1_subset])
qed

lemma write_config_valid: "write_config J fault d cfg = (None, d') \<Longrightarrow> Validate cfg = None"
  by (auto simp: write_config_def split: option.splits)

lemma cluster_reach_ok: "cluster_reach J s \<Longrightarrow> cluster_ok J s"
proof (induction rule: cluster_reach.induct)
  case (reach_start cfgs d now nodes)
  then show ?case by (simp add: cluster_ok_def)
next
  case (reach_write s fault cfg d' i)
  then show ?case using write_config_valid[OF reach_write(2)] by (auto simp: cluster_ok_def)
next
  case (reach_quiet s s')
  then show ?case by (blast intro: quiet_step_ok)
qed

section \<open>Settling\<close>

definition settled :: "config_codec \<Rightarrow> analysis_config \<Rightarrow> nat \<Rightarrow> cluster \<Rightarrow> bool" where
  "settled J c i s \<longleftrightarrow>
     GetAnalysisConfig_db J (\<lambda>_. False) (cl_store s) = Inr (Some c) \<and>
     rn_revision (cl_node s i) = analysisConfigRevision J c \<and>
     (\<forall>src cfg. (i, src, cfg) \<in> set (cl_reads s) \<longrightarrow> cfg = c) \<and>
     (\<forall>cfg. (i, cfg) \<in> set (cl_writes s) \<longrightarrow> cfg = c)"

lemma settled_mono:
  "settled J c i s \<Longrightarrow> cl_store s' = cl_store s \<Longrightarrow> rn_revision (cl_node s' i) = analysisConfigRevision J c \<Longrightarrow>
     set (cl_reads s') \<subseteq> set (cl_reads s) \<Longrightarrow> set (cl_writes s') \<subseteq> set (cl_writes s) \<Longrightarrow> settled J c i s'"
  unfolding settled_def by (elim conjE, intro conjI) (simp, simp, blast, blast)

lemma settled_quiet: "quiet_step J s s' \<Longrightarrow> settled J c i s \<Longrightarrow> settled J c i s'"
proof (induction rule: quiet_step.induct)
  case (quiet_read fault s cfg j src)
  then show ?case using read_config_fault[OF quiet_read(1)] by (auto simp: settled_def)
next
  case (quiet_reload j src cfg s now)
  have "i = j \<Longrightarrow> cfg = c" using quiet_reload unfolding settled_def by blast
  then show ?case using quiet_reload(2) set_remove1_subset
    by (intro settled_mono[OF quiet_reload(2)]) (auto simp: reload_apply_node settled_def dest: subsetD[OF set_remove1_subset])
next
  case (quiet_apply j cfg s now)
  have "i = j \<Longrightarrow> cfg = c" using quiet_apply unfolding settled_def by blast
  then show ?case using quiet_apply(2) set_remove1_subset
    by (intro settled_mono[OF quiet_apply(2)]) (auto simp: settled_def dest: subsetD[OF set_remove1_subset])
qed

definition idle :: "nat \<Rightarrow> cluster \<Rightarrow> bool" where
  "idle i s \<longleftrightarrow> i \<notin> fst ` set (cl_reads s) \<and> i \<notin> fst ` set (cl_writes s)"

text \<open>A tick of the reconciler of process \<open>i\<close> that nothing interrupts.\<close>

definition poll :: "config_codec \<Rightarrow> (cs_stage \<Rightarrow> bool) \<Rightarrow> int \<Rightarrow> nat \<Rightarrow> cluster \<Rightarrow> cluster" where
  "poll J fault now i s =
     s\<lparr>cl_node := (cl_node s)(i := snd (reloadAnalysisConfigFromStore J fault now (cl_store s)
          configReloadSourceReconcile (cl_node s i)))\<rparr>"

lemma poll_settles:
  assumes "idle i s" "GetAnalysisConfig_db J fault (cl_store s) = Inr (Some c)"
  shows "settled J c i (poll J fault now i s)"
  using assms read_config_fault[OF assms(2)] read_config_enabled[OF assms(2)]
  by (force simp: settled_def poll_def idle_def reloadAnalysisConfigFromStore_def reload_apply_node case_prod_unfold Let_def)

lemma poll_ok: "cluster_ok J s \<Longrightarrow> cluster_ok J (poll J fault now i s)"
  using read_config_valid
  by (auto simp: cluster_ok_def poll_def reloadAnalysisConfigFromStore_def reload_apply_node case_prod_unfold Let_def
      split: sum.splits option.splits)

lemma settled_stays:
  assumes "(quiet_step J)\<^sup>*\<^sup>* s t" "settled J c i s" "cluster_ok J s"
  shows "settled J c i t \<and> cluster_ok J t"
  using assms by (induction rule: rtranclp_induct) (auto intro: settled_quiet quiet_step_ok)

text \<open>
  C28: Processes settle on the stored configuration. Whatever writes, reads and applications of the
  configuration interleave, every process runs a validated configuration and reports its revision.
  Once a process with nothing in flight has ticked on a readable store, it reports the revision of
  the stored configuration and keeps doing so until the next write, however many reloads and
  applications of other processes follow and whether or not any event is delivered; and when the
  revision identifies the stored configuration, that is the configuration it runs.
\<close>

theorem processes_settle:
  assumes "cluster_reach J s" "idle i s" "GetAnalysisConfig_db J fault (cl_store s) = Inr (Some c)"
    and "(quiet_step J)\<^sup>*\<^sup>* (poll J fault now i s) t"
  shows "(\<forall>j. Validate (rn_config (cl_node t j)) = None \<and>
              rn_revision (cl_node t j) = analysisConfigRevision J (rn_config (cl_node t j))) \<and>
    rn_revision (cl_node t i) = analysisConfigRevision J c \<and>
    GetAnalysisConfig_db J (\<lambda>_. False) (cl_store t) = Inr (Some c) \<and>
    ((\<forall>c'. analysisConfigRevision J c' = analysisConfigRevision J c \<longrightarrow> c' = c) \<longrightarrow> rn_config (cl_node t i) = c)"
proof -
  have "cluster_ok J (poll J fault now i s)" using cluster_reach_ok[OF assms(1)] by (rule poll_ok)
  from settled_stays[OF assms(4) poll_settles[OF assms(2,3)] this]
  have t: "settled J c i t" "cluster_ok J t" by blast+
  then have "rn_revision (cl_node t i) = analysisConfigRevision J (rn_config (cl_node t i))"
    by (simp add: cluster_ok_def)
  then show ?thesis using t unfolding settled_def cluster_ok_def by metis
qed

section \<open>Updates\<close>

text \<open>
  C38: What an update leaves behind. An update that fails, because the configuration is invalid or the
  store refuses it, changes neither the store nor the process and publishes nothing. One that
  succeeds is durable, is what the process runs, and when it is published carries the revision the
  process reports, so that the process ignores its own event; a node that the event reaches loads
  the configuration from the store.
\<close>

theorem update_config_contract:
  assumes "UpdateAnalysisConfig J fault redis_fails now stamp d cfg n = (err, d', n', pub)"
    and "cc_decode J (cc_encode J cfg) = Some cfg" "cc_encode J cfg \<noteq> []"
  shows "(err \<noteq> None \<longrightarrow> d' = d \<and> n' = n \<and> pub = None) \<and>
    (err = None \<longrightarrow>
       Validate cfg = None \<and> GetAnalysisConfig_db J (\<lambda>_. False) d' = Inr (Some cfg) \<and>
       rn_config n' = cfg \<and> rn_revision n' = analysisConfigRevision J cfg \<and>
       (\<forall>ch ev. pub = Some (ch, ev) \<longrightarrow>
          reRevision ev = rn_revision n' \<and> reType ev = analysisConfigReloadEventType \<and>
          (\<forall>V. handleAnalysisConfigReloadEvent J now V ev n' = n') \<and>
          (\<forall>V m. vw_config V = d' \<and> (\<forall>st. \<not> vw_config_fault V st) \<and> rn_revision m \<noteq> reRevision ev \<longrightarrow>
             rn_config (handleAnalysisConfigReloadEvent J now V ev m) = cfg)))"
proof (cases "write_config J fault d cfg")
  case (Pair e d1)
  show ?thesis
  proof (cases e)
    case (Some e1)
    then show ?thesis using assms(1) Pair write_config_error[of J fault d cfg e1 d1]
      by (auto simp: UpdateAnalysisConfig_def)
  next
    case None
    then have res: "err = None" "d' = d1" "n' = applyAnalysisConfig J now cfg configReloadSourceLocalWrite n"
      "pub = publishAnalysisConfigReloadEvent redis_fails stamp (rn_revision n') n'"
      using assms(1) Pair by (auto simp: UpdateAnalysisConfig_def Let_def)
    have read: "Validate cfg = None" "GetAnalysisConfig_db J (\<lambda>_. False) d' = Inr (Some cfg)"
      using write_config_readable[of J fault d cfg d1] Pair None assms(2,3) res(2) by simp_all
    have view: "GetAnalysisConfig_db J (vw_config_fault V) (vw_config V) = Inr (Some cfg)"
      if "vw_config V = d'" "\<forall>st. \<not> vw_config_fault V st" for V
    proof -
      have "vw_config_fault V = (\<lambda>_. False)" using that(2) by auto
      then show ?thesis using read(2) that(1) by simp
    qed
    have "reRevision ev = rn_revision n' \<and> reType ev = analysisConfigReloadEventType \<and> reRevision ev \<noteq> []"
      if "pub = Some (ch, ev)" for ch ev
      using that res(4) by (auto simp: publishAnalysisConfigReloadEvent_def reload_event_of_def split: if_splits)
    moreover have "rn_config (handleAnalysisConfigReloadEvent J now V ev m) = cfg"
      if "reRevision ev = rn_revision n'" "reRevision ev \<noteq> []" "vw_config V = d'" "\<forall>st. \<not> vw_config_fault V st"
        "rn_revision m \<noteq> reRevision ev" for V ev m
      using that view[OF that(3,4)] read_config_enabled[OF view[OF that(3,4)]] res(3)
      by (auto simp: handleAnalysisConfigReloadEvent_def reloadAnalysisConfigFromStore_def reload_apply_node
          case_prod_unfold Let_def)
    ultimately show ?thesis using res(1,3) read
      by (auto simp: handleAnalysisConfigReloadEvent_def)
  qed
qed

section \<open>Backoff\<close>

lemma wrap64_id: "- (2 ^ 63) \<le> n \<Longrightarrow> n < 2 ^ 63 \<Longrightarrow> wrap64 n = n"
  by (simp add: wrap64_def)

lemma nextConfigReloadBackoff_eq:
  assumes "0 < c" "c \<le> m" "m < 2 ^ 63"
  shows "nextConfigReloadBackoff c m = min (2 * c) m"
proof (cases "2 * c < 2 ^ 63")
  case True
  then have "wrap64 (c * 2) = 2 * c" using assms by (subst wrap64_id) auto
  then show ?thesis using assms by (auto simp: nextConfigReloadBackoff_def Let_def min_def)
next
  case False
  have "(c * 2 + 2 ^ 63) mod 2 ^ 64 = (c * 2 + 2 ^ 63 - 2 ^ 64) mod 2 ^ 64"
    using False by (intro mod_pos_geq) auto
  also have "\<dots> = c * 2 + 2 ^ 63 - 2 ^ 64" using False assms by (intro mod_pos_pos_trivial) auto
  finally have "wrap64 (c * 2) = c * 2 - 2 ^ 64" by (simp add: wrap64_def)
  then show ?thesis using False assms by (auto simp: nextConfigReloadBackoff_def Let_def min_def)
qed

lemma subscriber_delays_bounds:
  assumes "0 < lo" "lo \<le> b" "b \<le> m" "m < 2 ^ 63"
  shows "\<forall>d\<in>set (subscriber_delays lo m b attempts). lo \<le> d \<and> d \<le> m"
  using assms
proof (induction attempts arbitrary: b)
  case (Cons a attempts)
  have n: "lo \<le> nextConfigReloadBackoff b m" "nextConfigReloadBackoff b m \<le> m"
    "lo \<le> nextConfigReloadBackoff lo m" "nextConfigReloadBackoff lo m \<le> m"
    using Cons.prems by (simp_all add: nextConfigReloadBackoff_eq)
  note IH = Cons.IH[OF Cons.prems(1) n(1,2) Cons.prems(4)] Cons.IH[OF Cons.prems(1) n(3,4) Cons.prems(4)]
  show ?case using IH Cons.prems(2,3) by (cases a) simp_all
qed simp

text \<open>The k-th failure in a row waits the floor doubled k times, up to the cap.\<close>

lemma subscriber_delays_failures:
  assumes "0 < b" "b \<le> m" "m < 2 ^ 63" "k < n"
  shows "subscriber_delays lo m b (replicate n SubscribeFailed) ! k = min (b * 2 ^ k) m"
  using assms
proof (induction n arbitrary: b k)
  case (Suc n)
  show ?case
  proof (cases k)
    case 0
    then show ?thesis using Suc.prems by simp
  next
    case (Suc j)
    have "subscriber_delays lo m (min (2 * b) m) (replicate n SubscribeFailed) ! j = min (min (2 * b) m * 2 ^ j) m"
      using Suc Suc.prems by (intro Suc.IH) auto
    also have "\<dots> = min (b * 2 ^ Suc j) m"
    proof (cases "2 * b \<le> m")
      case False
      have one: "(1 :: int) \<le> 2 ^ j" by simp
      have "m * 1 \<le> m * 2 ^ j" "m * 1 \<le> (2 * b) * 2 ^ j"
        using False Suc.prems one by (intro mult_mono; simp)+
      then show ?thesis using False by (simp add: mult.commute mult.left_commute)
    qed (simp add: mult.commute mult.left_commute)
    finally show ?thesis using Suc Suc.prems by (simp add: nextConfigReloadBackoff_eq)
  qed
qed simp

section \<open>Examples\<close>

definition low_brand_config :: analysis_config where
  "low_brand_config = DefaultAnalysisConfig\<lparr>BrandSpoofingScore := 40\<rparr>"

definition two_configs :: config_codec where
  "two_configs =
     \<lparr>cc_encode = (\<lambda>c. if BrandSpoofingScore c = 40 then ''e'' else ''d''),
      cc_decode = (\<lambda>s. if s = ''d'' then Some DefaultAnalysisConfig
                      else if s = ''e'' then Some low_brand_config else None),
      cc_sha256 = (\<lambda>s. s)\<rparr>"

definition demo_node :: reload_node where
  "demo_node =
     \<lparr>rn_on = True, rn_chan = ''c'', rn_poll = 0, rn_role = ''dns'', rn_redis = True, rn_subscribe = True,
      rn_config = DefaultAnalysisConfig, rn_revision = [], rn_source = [], rn_time = 0,
      rn_whitelist = NewWhitelist, rn_cidr = \<lparr>cidrCache = [], cidrRevision = 0\<rparr>\<rparr>"

definition demo_config_store :: config_store where
  "demo_config_store = \<lparr>cs_enabled = True, cs_row = Some ''d''\<rparr>"

definition demo_cluster :: cluster where
  "demo_cluster =
     \<lparr>cl_store = demo_config_store,
      cl_node = (\<lambda>i. applyAnalysisConfig two_configs 0 DefaultAnalysisConfig configReloadSourceStartup demo_node),
      cl_reads = [], cl_writes = []\<rparr>"

lemma demo_valid: "Validate DefaultAnalysisConfig = None" "Validate low_brand_config = None"
  by (atomize (full)) code_simp

lemma demo_read:
  "GetAnalysisConfig_db two_configs (\<lambda>_. False) (cl_store demo_cluster) = Inr (Some DefaultAnalysisConfig)"
  by (simp add: GetAnalysisConfig_db_def GetSystemConfig_def demo_cluster_def demo_config_store_def
      two_configs_def demo_valid)

lemma demo_write:
  "write_config two_configs (\<lambda>_. False) demo_config_store low_brand_config =
     (None, demo_config_store\<lparr>cs_row := Some ''e''\<rparr>)"
  by (simp add: write_config_def SetAnalysisConfig_db_def SetSystemConfig_def demo_valid demo_config_store_def
      two_configs_def low_brand_config_def[symmetric]) (simp add: low_brand_config_def)

lemma demo_revisions:
  "analysisConfigRevision two_configs DefaultAnalysisConfig = ''64''"
  "analysisConfigRevision two_configs low_brand_config = ''65''"
  by (atomize (full)) code_simp

lemma demo_reach: "cluster_reach two_configs demo_cluster"
  unfolding demo_cluster_def by (rule reach_start) (rule demo_valid)

lemma processes_settle_witness:
  "rn_revision (cl_node (poll two_configs (\<lambda>_. False) 1 0 demo_cluster) 0) =
     analysisConfigRevision two_configs DefaultAnalysisConfig"
proof -
  have "idle 0 demo_cluster" by (simp add: idle_def demo_cluster_def)
  from processes_settle[OF demo_reach this demo_read rtranclp.rtrancl_refl] show ?thesis by blast
qed

lemma update_config_contract_witness:
  "\<exists>err d' n' pub. UpdateAnalysisConfig two_configs (\<lambda>_. False) False 1 ''now'' demo_config_store low_brand_config demo_node =
     (err, d', n', pub) \<and> err = None \<and> rn_config n' = low_brand_config"
proof -
  obtain err d' n' pub where u: "UpdateAnalysisConfig two_configs (\<lambda>_. False) False 1 ''now'' demo_config_store
      low_brand_config demo_node = (err, d', n', pub)" by (metis prod_cases4)
  have "cc_decode two_configs (cc_encode two_configs low_brand_config) = Some low_brand_config"
    "cc_encode two_configs low_brand_config \<noteq> []"
    by (simp_all add: two_configs_def low_brand_config_def)
  from update_config_contract[OF u this] show ?thesis
    using u by (auto simp: UpdateAnalysisConfig_def demo_write Let_def)
qed

text \<open>
  A reload that read the store before a local write and applies after it puts the older configuration
  back: nothing is in flight, and the process runs what the store no longer holds, until its next tick.
\<close>

lemma reload_overwrites_newer_write:
  "\<exists>s. cluster_reach two_configs s \<and> idle 0 s \<and>
     GetAnalysisConfig_db two_configs (\<lambda>_. False) (cl_store s) = Inr (Some low_brand_config) \<and>
     rn_config (cl_node s 0) = DefaultAnalysisConfig"
proof -
  define s1 where "s1 = demo_cluster\<lparr>cl_reads := [(0, configReloadSourceReconcile, DefaultAnalysisConfig)]\<rparr>"
  define s2 where "s2 = s1\<lparr>cl_store := demo_config_store\<lparr>cs_row := Some ''e''\<rparr>, cl_writes := [(0, low_brand_config)]\<rparr>"
  define n1 where "n1 = applyAnalysisConfig two_configs 1 low_brand_config configReloadSourceLocalWrite (cl_node s2 0)"
  define s3 where "s3 = s2\<lparr>cl_node := (cl_node s2)(0 := n1), cl_writes := []\<rparr>"
  define s4 where "s4 = s3\<lparr>cl_node := (cl_node s3)(0 :=
      snd (reload_apply two_configs 2 configReloadSourceReconcile DefaultAnalysisConfig (cl_node s3 0))), cl_reads := []\<rparr>"
  have "quiet_step two_configs demo_cluster s1"
    using quiet_read[OF demo_read, of 0 configReloadSourceReconcile] by (simp add: s1_def demo_cluster_def)
  then have r1: "cluster_reach two_configs s1" by (rule reach_quiet[OF demo_reach])
  have "cluster_reach two_configs s2"
    using reach_write[OF r1, of "\<lambda>_. False" low_brand_config _ 0] demo_write
    by (simp add: s2_def s1_def demo_cluster_def)
  moreover have "quiet_step two_configs s2 s3"
    using quiet_apply[of 0 low_brand_config s2 two_configs 1] by (simp add: s3_def n1_def s2_def)
  ultimately have "cluster_reach two_configs s3" by (rule reach_quiet)
  moreover have "quiet_step two_configs s3 s4"
    using quiet_reload[of 0 configReloadSourceReconcile DefaultAnalysisConfig s3 two_configs 2]
    by (simp add: s4_def s3_def s2_def s1_def)
  ultimately have "cluster_reach two_configs s4" by (rule reach_quiet)
  moreover have "rn_config (cl_node s4 0) = DefaultAnalysisConfig"
    by (simp add: s4_def s3_def n1_def reload_apply_node demo_revisions)
  moreover have "idle 0 s4" by (simp add: s4_def s3_def s2_def s1_def idle_def)
  moreover have "GetAnalysisConfig_db two_configs (\<lambda>_. False) (cl_store s4) = Inr (Some low_brand_config)"
    by (simp add: s4_def s3_def s2_def GetAnalysisConfig_db_def GetSystemConfig_def demo_config_store_def
        two_configs_def demo_valid)
  ultimately show ?thesis by blast
qed

end
