(* ===== verification/Spec2Isabelle.thy ===== *)
theory Spec2Isabelle
  imports TrieProps Middleware DnsResolverProps WhitelistProps GroupProps ExceptionProps EngineProps AnalyzeProps ResolverPolicy SyncProps
    LexicalProps ConfigProps
begin

text \<open>
  Safe Zone is a filtering DNS service. A DNS query or an API request names a domain; a pipeline of
  layers decides whether the client may resolve it. This library models that decision from the raw
  name to the DNS answer, in HOL functions that follow the Go sources one by one, and proves what
  each part promises. Paths below are relative to \<^verbatim>\<open>src/\<close>.

  \<^bold>\<open>The program and how its parts meet.\<close> The resolver (\<^verbatim>\<open>internal/dns/resolver\<close>) takes a query, asks the
  decision engine (\<^verbatim>\<open>internal/risk\<close>) about the name, answers blocked names itself, and otherwise
  relays an answer from its cache or from upstream after asking the engine about every CNAME target.
  The engine normalises the name (\<^verbatim>\<open>internal/analysis\<close>), finds the client's policy group, and asks in
  this order the operator's overrides and the allow list (\<^verbatim>\<open>internal/store\<close>), the blocklist
  (\<^verbatim>\<open>internal/domaintrie\<close>) with its content exceptions, and the security assessment: the
  cache of earlier evaluations, the threat feed in Redis, the lexical analyzer, the domain model, an AI
  reviewer and OSINT reports. A background worker later enriches stored evaluations. The HTTP side
  counts requests per client address (\<^verbatim>\<open>internal/ratelimit\<close>), and every outbound fetch goes through
  the address guard (\<^verbatim>\<open>internal/netguard\<close>).

  \<^bold>\<open>Theories and the code they model.\<close>

  \<^item> Prelude, GoStrings: theorem collections, shared lemmas, and the Go string functions the sources use
    (splitting, trimming, ASCII case mapping).

  \<^item> DomainName: \<^verbatim>\<open>NormalizeDomain\<close>, the registrable-domain floor, the churn-prone roots and the content
    categories of \<^verbatim>\<open>internal/analysis\<close>. ParentWalk: the walk from a name to its registrable domain that
    allow list and overrides share. SharedInfra: the host tables and predicates of
    \<^verbatim>\<open>brand.go\<close> and the normalisation of brand records.

  \<^item> DomainTrie, TrieLaws, TrieProps: \<^verbatim>\<open>internal/domaintrie/trie.go\<close>. The abstract view of a trie is a
    partial map from slots to rules; insertion is first-wins on that map (locale \<open>first_wins\<close>,
    interpreted on the trie's functions), lookup is the exact rule or else the longest suffix rule,
    and the cache format round-trips.

  \<^item> RateLimiter, LimiterLaws, LimiterProps, Middleware: \<^verbatim>\<open>internal/ratelimit\<close>. State invariant over all
    runs (the contract of a gate is the locale \<open>rate_gate\<close>), eviction order, the bound on granted requests, the clean-up of idle keys, and the address a
    request is counted under whatever headers a client forges.

  \<^item> IpAddr, NetGuard, EnvConfig: \<^verbatim>\<open>internal/netguard/http.go\<close> and the environment readers of
    \<^verbatim>\<open>internal/config\<close>. A guarded transport connects to public addresses only.

  \<^item> DnsCache, DnsCacheProps, DnsResolver, DnsResolverProps: \<^verbatim>\<open>internal/dns/resolver\<close>. Cache invariant over
    all runs (locale \<open>answer_cache\<close>, through which the resolver uses the cache), put/get round trip, freshness of hits with 32-bit TTLs, the policy on answers, and the
    concurrency slots.

  \<^item> WhitelistStore, Bloom, Whitelist, WhitelistProps: \<^verbatim>\<open>internal/store/whitelist.go\<close>,
    \<^verbatim>\<open>internal/risk/bloom.go\<close>, \<^verbatim>\<open>internal/risk/whitelist.go\<close>. Transactions that fail at any statement, a
    filter on 64-bit words (locale \<open>membership_filter\<close>), exact lookups, and revisions that identify
    the set they were read from while another process writes.

  \<^item> GroupStore, GroupProps: \<^verbatim>\<open>internal/store/groups.go\<close> and \<^verbatim>\<open>overrides.go\<close>: table invariant, the longest
    network prefix, the nearest override.

  \<^item> AdblockExceptions, ExceptionProps: \<^verbatim>\<open>internal/risk/adblock_exceptions.go\<close>: validation, lookup against a
    reference definition, unambiguous digest input, last good snapshot.

  \<^item> Runes, EditDistance, BrandStore, BrandSpoof, LexicalScore, LexicalProps: the lexical analyzer, \<^verbatim>\<open>analysis.go\<close>,
    \<^verbatim>\<open>brand.go\<close> and \<^verbatim>\<open>dga.go\<close> of \<^verbatim>\<open>internal/analysis\<close> with the thresholds of \<^verbatim>\<open>internal/config/analysis.go\<close>. UTF-8
    decoding, edit distances as least costs of edit scripts (locale \<open>replacement_cost\<close>) and their
    early-exit variants, the brand store (locale \<open>brand_registry\<close>, its client the detection list),
    spoofing detection, and the bounds of the score. \<open>lexical_heuristics\<close> is a value for the
    heuristics that the pipeline takes from the record \<open>engines\<close>.

  \<^item> ConfigReload, ConfigProps: \<^verbatim>\<open>internal/risk/config_reload.go\<close>. The configuration that two processes share
    through the store, with the allow list and the CIDR index they reload with it; a transition
    system in which reads, writes and applications interleave, and in which processes settle.

  \<^item> FeedParse, FeedAdmission, FeedSync, FeedRuns, FeedLaws, FeedProps, SyncProps: \<^verbatim>\<open>internal/feed\<close> and
    \<^verbatim>\<open>internal/feedsync\<close>. Parsing feeds for a handler that may change the shared statistics (locales
    \<open>parse_invariant\<close> and \<open>handler_sim\<close>, the reference being the trace of all calls), admission plans,
    expiry windows, and \<open>Sync\<close> against a server on which every operation may fail: exact
    deduplication, plans independent of order, all-or-nothing replacement, and what the engine
    answers about a synchronised domain. A parse that never ends is \<^const>\<open>None\<close>.

  \<^item> ThreatFeed, MLGate, AnalysisCache, Enrichment, Pipeline, PolicyEngine: \<^verbatim>\<open>internal/risk\<close> \<open>-\<close> \<^verbatim>\<open>feed.go\<close>,
    \<^verbatim>\<open>ml.go\<close>, \<^verbatim>\<open>ml_canary.go\<close>, \<^verbatim>\<open>cache_types.go\<close>, \<^verbatim>\<open>enrichment.go\<close>, \<^verbatim>\<open>osint_ai.go\<close>,
    \<^verbatim>\<open>analysis_pipeline.go\<close>, \<^verbatim>\<open>policy.go\<close> and their helpers. The service is one record
    (\<open>risk_service\<close>) whose fields are the components' states; the parties it asks are the record
    \<open>engines\<close>. \<open>Policy\<close> and \<open>AnalyzeWithOptions\<close> are the two entry points.

  \<^item> PolicyLaws, PolicyProps, PipelineProps, EngineProps, AnalyzeProps: frame lemmas (which stage reads
    and writes which part of the service), the exact condition for a block, transparency of content
    exceptions, failing open on store errors, inertness of the shadow observation, the threat-feed
    decision, consistency of verdict and score over every run of requests and workers, reuse of
    cached evaluations, recency of write backs, the queue of jobs, and agreement of the two entry
    points.

  \<^item> ResolverPolicy and this theory: the interface between resolver and engine (locale
    \<open>name_policy\<close>, interpreted on \<open>Policy\<close>) and the properties of the composition.

  \<^bold>\<open>Conventions.\<close> A struct is a record, an enumeration a datatype, a Go map whose order is not observed
  an association list or a HOL map, an error the left summand of a result. Integers whose width matters are
  words; nanosecond clocks are integers passed in by the caller, read once per request where the code
  reads them several times in a row. Methods run under their mutex, so a method is one step; goroutines
  are separate steps of an inductive relation (\<open>limiter_run\<close>, \<open>cache_run\<close>, \<open>resolver_run\<close>,
  \<open>enrich_run\<close>, \<open>engine_run\<close>), and invariants hold for all their interleavings. Token counts,
  probabilities and confidences are rationals where the source has \<^verbatim>\<open>float64\<close>; case mapping is ASCII,
  which is what survives normalisation. The only bound is one the source has: a compare-and-swap
  gives up after five attempts (\<open>casMaxAttempts\<close>); every other loop is a total function.

  \<^bold>\<open>Parameters.\<close> Code outside the repository is an argument: URL parsing, IDNA and the public suffix list
  (record \<open>libs\<close>), the Unicode tables, the generated table of confusables and the logarithm
  (\<open>lexlibs\<close>), the DNS message library (\<open>dns_lib\<close>), SHA-256, JSON decoding, address resolution, the
  upstream exchange, the SQLite driver (which statement fails), the Redis server (its contents and which
  operations fail). Hypotheses about them are premises of the properties that need them, and each such
  property has a witness at concrete instances.

  \<^bold>\<open>Not modelled.\<close> The feature vectors and the model files are floating-point scores: the pipeline
  takes the decision as an argument. The AI transport, OSINT, WHOIS
  and TLS lookups are network clients whose parsed answers are arguments. The URL model only
  observes and changes no verdict. List downloads, schema
  migrations, HTTP handlers, views, agents, logging, metrics and process lifecycle are I/O and glue
  around the modelled operations. Layer timings and log lines are left out of the modelled functions.
\<close>

section \<open>Properties that span components\<close>


lemma demo_relayed:
  "fst (ResolveQuery demo_lib (policy_blocks (\<lambda>d. demo_engines) (\<lambda>d. demo_service) demo_client)
     (\<lambda>q. UpReply demo_answer) 0 1 demo_query (New_resolver demo_config)) = Inr demo_answer"
  by code_simp


text \<open>
  C5: an operator's block reaches every DNS answer. A name that a block override covers, for the
  client's group or globally, on the name itself or on a parent down to the registrable domain, is
  answered with the block answer without asking upstream and without touching the resolver's state,
  whatever the allow list, the blocklist and the assessment say.
\<close>

theorem operator_block_reaches_dns:
  assumes "NormalizeDomain (en_libs (E d)) d = Inr n" and "d = dot_trimmed (question_name query)"
    and "effective_override (E d) (s d) (cg_id (fst (resolveClientGroup (E d) client (s d)))) n = Some ov"
    and "ov_action ov = ''block''" and "m_question query \<noteq> []"
    and "inflight r < concurrency_limit (r_config r)"
  shows "ResolveQuery L (policy_blocks E s client) upstream now later query r =
    (Inr (BlockedDNSMessage L (r_config r) query), r)"
proof -
  have "operator_action E s client (dot_trimmed (question_name query)) = Some ''block''"
    using assms(1-4) by (simp add: operator_action_def)
  from engine_policy.forced_answer[OF this assms(5,6)] show ?thesis .
qed

theorem operator_block_reaches_dns_witness:
  "ResolveQuery demo_lib (policy_blocks (\<lambda>d. demo_engines) (\<lambda>d. demo_blocked) demo_client) (\<lambda>q. UpForwardError) 0 1
     demo_query (New_resolver demo_config) =
   (Inr (BlockedDNSMessage demo_lib (r_config (New_resolver demo_config)) demo_query), New_resolver demo_config)"
proof -
  have n: "NormalizeDomain (en_libs demo_engines) ''Example.COM'' = Inr ''example.com''"
    and d: "''Example.COM'' = dot_trimmed (question_name demo_query)"
    and q: "m_question demo_query \<noteq> []"
    and c: "inflight (New_resolver demo_config) < concurrency_limit (r_config (New_resolver demo_config))"
    by (atomize (full)) code_simp
  have o: "effective_override demo_engines demo_blocked
      (cg_id (fst (resolveClientGroup demo_engines demo_client demo_blocked))) ''example.com'' =
      Some \<lparr>ov_domain = ''example.com'', ov_action = ''block'', ov_reason = ''malware''\<rparr>"
    by code_simp
  show ?thesis
    by (rule operator_block_reaches_dns[where E = "\<lambda>d. demo_engines" and s = "\<lambda>d. demo_blocked", OF n d o _ q c]) simp
qed

end
